(* ===== verification/Soj_Prelude.thy ===== *)
theory Soj_Prelude
  imports Main "HOL-Library.Word"
begin

text \<open>The vocabulary the whole development shares: the fixed-width integers of
  the C code (\<open>uint8_t\<close>, \<open>uint32_t\<close>, \<open>uint64_t\<close> as words), byte strings, the
  C character literals, a buffer update (\<open>memcpy\<close> into an array at an offset), and the
  generic lemmas on lists and words that the component theories use.  The
  collections declared here gather the facts that one group of proofs shares.\<close>

unbundle bit_operations_syntax

named_theorems layout_simps "lengths and positions of encoded buffers"
named_theorems step_simps "unfolding rules of the handlers' steps"
named_theorems inv_intros "an operation keeps an invariant"

type_synonym u8 = "8 word"
type_synonym u16 = "16 word"
type_synonym u32 = "32 word"
type_synonym u64 = "64 word"
type_synonym bytes = "u8 list"

text \<open>A C string is the list of its bytes before the terminator.\<close>

type_synonym cstring = "u8 list"

definition cstr :: "string \<Rightarrow> cstring" where
  "cstr s = map of_char s"

lemma length_cstr [simp]: "length (cstr s) = length s"
  by (simp add: cstr_def)

lemma cstr_Nil [simp]: "cstr [] = []"
  by (simp add: cstr_def)

lemma cstr_Cons: "cstr (c # s) = of_char c # cstr s"
  by (simp add: cstr_def)

text \<open>\<open>memcpy (buf + off, bs, n)\<close>: the bytes of \<open>buf\<close> from \<open>off\<close> on are replaced.\<close>

definition put_at :: "nat \<Rightarrow> 'a list \<Rightarrow> 'a list \<Rightarrow> 'a list" where
  "put_at off bs buf = take off buf @ bs @ drop (off + length bs) buf"

lemma length_put_at [layout_simps]:
  "off + length bs \<le> length buf \<Longrightarrow> length (put_at off bs buf) = length buf"
  by (simp add: put_at_def)

lemma nth_put_at:
  assumes "off + length bs \<le> length buf"
  shows "put_at off bs buf ! i = (if off \<le> i \<and> i < off + length bs then bs ! (i - off) else buf ! i)"
  using assms by (auto simp: put_at_def nth_append not_less)

lemma put_at_Nil [simp]: "put_at off [] buf = buf"
  by (simp add: put_at_def)

lemma put_at_put_at_adjacent:
  assumes "off + length as + length bs \<le> length buf"
  shows "put_at (off + length as) bs (put_at off as buf) = put_at off (as @ bs) buf"
  using assms by (simp add: put_at_def add.assoc add.commute add.left_commute)

text \<open>\<open>seg off n buf\<close> is the \<open>n\<close> bytes a pointer \<open>buf + off\<close> designates.\<close>

definition seg :: "nat \<Rightarrow> nat \<Rightarrow> 'a list \<Rightarrow> 'a list" where
  "seg off n buf = take n (drop off buf)"

lemma length_seg [layout_simps]: "off + n \<le> length buf \<Longrightarrow> length (seg off n buf) = n"
  by (simp add: seg_def)

lemma seg_put_at_same [simp]:
  "off + length bs \<le> length buf \<Longrightarrow> seg off (length bs) (put_at off bs buf) = bs"
  by (simp add: seg_def put_at_def)

lemma seg_append_eq: "seg (length xs) n (xs @ ys) = take n ys"
  by (simp add: seg_def)

lemma seg_join: "seg off n p @ seg (off + n) m p = seg off (n + m) p"
  by (simp only: seg_def take_add drop_drop add.commute[of off n])

lemma seg_all: "length p = n \<Longrightarrow> seg 0 n p = p"
  by (simp add: seg_def)

text \<open>Cutting a list into blocks of \<open>n\<close>; a last short block is kept.\<close>

function chunks :: "nat \<Rightarrow> 'a list \<Rightarrow> 'a list list" where
  "chunks n xs = (if n = 0 \<or> xs = [] then [] else take n xs # chunks n (drop n xs))"
  by auto
termination by (relation "measure (length o snd)") auto

declare chunks.simps [simp del]

lemma chunks_Nil [simp]: "chunks n [] = []"
  by (subst chunks.simps) simp

lemma concat_chunks: "0 < n \<Longrightarrow> concat (chunks n xs) = xs"
proof (induction n xs rule: chunks.induct)
  case (1 n xs)
  then show ?case by (subst chunks.simps) auto
qed

lemma chunks_append_block:
  assumes "0 < n" "length xs = n"
  shows "chunks n (xs @ ys) = xs # chunks n ys"
  using assms by (subst chunks.simps) auto

lemma chunks_append:
  assumes "0 < n" "n dvd length xs"
  shows "chunks n (xs @ ys) = chunks n xs @ chunks n ys"
  using assms
proof (induction n xs rule: chunks.induct)
  case (1 n xs)
  show ?case
  proof (cases "xs = []")
    case False
    have le: "n \<le> length xs"
      using 1 False by (auto dest: dvd_imp_le)
    have "n dvd length (drop n xs)"
      using 1 le by (simp add: dvd_diff_nat)
    then have IH: "chunks n (drop n xs @ ys) = chunks n (drop n xs) @ chunks n ys"
      using 1 False by simp
    have "chunks n (xs @ ys) = take n xs # chunks n (drop n xs @ ys)"
      using 1 False le by (subst chunks.simps) simp
    moreover have "chunks n xs = take n xs # chunks n (drop n xs)"
      using 1 False by (subst chunks.simps) simp
    ultimately show ?thesis using IH by simp
  qed simp
qed

lemma length_in_chunks:
  assumes "0 < n" "n dvd length xs" "b \<in> set (chunks n xs)"
  shows "length b = n"
  using assms
proof (induction n xs rule: chunks.induct)
  case (1 n xs)
  show ?case
  proof (cases "xs = []")
    case False
    have le: "n \<le> length xs"
      using 1 False by (auto dest: dvd_imp_le)
    then have "n dvd length (drop n xs)"
      using 1 by (simp add: dvd_diff_nat)
    moreover have "chunks n xs = take n xs # chunks n (drop n xs)"
      using 1 False by (subst chunks.simps) simp
    ultimately show ?thesis using 1 False le by auto
  qed (use 1 in simp)
qed

lemma length_chunks:
  assumes "0 < n" "n dvd length xs"
  shows "length (chunks n xs) = length xs div n"
proof -
  have "length (concat (chunks n xs)) = (\<Sum>b\<leftarrow>chunks n xs. n)"
    by (simp add: length_concat length_in_chunks[OF assms] cong: map_cong)
  then show ?thesis
    using assms by (simp add: concat_chunks sum_list_triv)
qed

text \<open>Facts on words that the bit-level components share.\<close>

lemma add_eq_or_of_disjoint:
  fixes a b :: "'a::len word"
  assumes "\<And>n. \<not> (bit a n \<and> bit b n)"
  shows "a + b = a OR b"
proof -
  have "a AND b = 0"
    using assms by (auto intro!: bit_eqI simp: bit_simps)
  then show ?thesis
    by (rule disjunctive_add_eq_or)
qed

lemma bytes4_add_or:
  fixes a b c d :: u8
  shows "ucast a + push_bit 8 (ucast b) + push_bit 16 (ucast c) + push_bit 24 (ucast d)
    = (ucast a OR push_bit 8 (ucast b) OR push_bit 16 (ucast c) OR push_bit 24 (ucast d) :: u32)"
    (is "?a + ?b + ?c + ?d = _")
proof -
  have 1: "?a + ?b = ?a OR ?b"
    by (rule add_eq_or_of_disjoint) (auto simp: bit_simps dest: bit_imp_le_length)
  have 2: "(?a OR ?b) + ?c = ?a OR ?b OR ?c"
    by (subst add_eq_or_of_disjoint)
      (auto simp: bit_simps ac_simps dest: bit_imp_le_length)
  have 3: "(?a OR ?b OR ?c) + ?d = ?a OR ?b OR ?c OR ?d"
    by (subst add_eq_or_of_disjoint)
      (auto simp: bit_simps ac_simps dest: bit_imp_le_length)
  show ?thesis by (simp only: 1 2 3)
qed

lemma bit_int_255: "bit (255 :: int) n \<longleftrightarrow> n < 8"
proof -
  have "(255 :: int) = mask 8"
    by (simp add: mask_eq_exp_minus_1)
  then show ?thesis
    by (simp only: bit_simps) auto
qed

lemma ucast_and_ff [simp]: "(ucast (x AND 0xff) :: u8) = ucast (x :: 'a::len word)"
  by (rule bit_word_eqI) (auto simp: bit_simps bit_int_255 dest: bit_imp_le_length)

lemma bit_u8_beyond: "8 \<le> n \<Longrightarrow> \<not> bit (w :: u8) n"
  by (auto dest: bit_imp_le_length)

end
