(* ===== verification/Soj_Endian.thy ===== *)
theory Soj_Endian
  imports Soj_Prelude
begin

text \<open>The byte-order helpers of \<open>util.h\<close>: \<open>be32dec\<close>, \<open>le32dec\<close>, \<open>be32enc\<close>,
  \<open>le32enc\<close>, \<open>le16dec\<close>, \<open>le16enc\<close> and the endian flips \<open>swab32_x2\<close> and \<open>swab32_array\<close>.
  A pointer argument is the list of the bytes from it on; an encoder returns the bytes it
  stores.  The locale \<open>byte_codec\<close> states the contract every encoder/decoder pair
  gives its clients, and each pair of the code interprets it.\<close>

definition be32dec :: "bytes \<Rightarrow> u32" where
  "be32dec p = ucast (p ! 3) + push_bit 8 (ucast (p ! 2)) + push_bit 16 (ucast (p ! 1))
     + push_bit 24 (ucast (p ! 0))"

definition le32dec :: "bytes \<Rightarrow> u32" where
  "le32dec p = ucast (p ! 0) + push_bit 8 (ucast (p ! 1)) + push_bit 16 (ucast (p ! 2))
     + push_bit 24 (ucast (p ! 3))"

definition be32enc :: "u32 \<Rightarrow> bytes" where
  "be32enc x =
    [ucast (drop_bit 24 x AND 0xff), ucast (drop_bit 16 x AND 0xff),
     ucast (drop_bit 8 x AND 0xff), ucast (x AND 0xff)]"

definition le32enc :: "u32 \<Rightarrow> bytes" where
  "le32enc x =
    [ucast (x AND 0xff), ucast (drop_bit 8 x AND 0xff),
     ucast (drop_bit 16 x AND 0xff), ucast (drop_bit 24 x AND 0xff)]"

definition le16dec :: "bytes \<Rightarrow> u16" where
  "le16dec p = ucast (p ! 0) + push_bit 8 (ucast (p ! 1))"

definition le16enc :: "u16 \<Rightarrow> bytes" where
  "le16enc x = [ucast (x AND 0xff), ucast (drop_bit 8 x AND 0xff)]"

text \<open>\<open>be64enc\<close> of yespower's \<open>sysendian.h\<close>.\<close>

definition be64enc :: "u64 \<Rightarrow> bytes" where
  "be64enc x =
    [ucast (drop_bit 56 x AND 0xff), ucast (drop_bit 48 x AND 0xff),
     ucast (drop_bit 40 x AND 0xff), ucast (drop_bit 32 x AND 0xff),
     ucast (drop_bit 24 x AND 0xff), ucast (drop_bit 16 x AND 0xff),
     ucast (drop_bit 8 x AND 0xff), ucast (x AND 0xff)]"

section \<open>Flipping the byte order\<close>

definition swab32_x2 :: "u64 \<Rightarrow> u64" where
  "swab32_x2 src =
     drop_bit 24 (src AND 0xff000000ff000000) OR drop_bit 8 (src AND 0x00ff000000ff0000)
     OR push_bit 8 (src AND 0x0000ff000000ff00) OR push_bit 24 (src AND 0x000000ff000000ff)"

text \<open>Two adjacent \<open>uint32_t\<close> read and written through a \<open>uint64_t\<close> pointer on a
  little-endian machine.\<close>

definition pair64 :: "u32 \<Rightarrow> u32 \<Rightarrow> u64" where
  "pair64 lo hi = ucast lo OR push_bit 32 (ucast hi)"

definition unpair64 :: "u64 \<Rightarrow> u32 list" where
  "unpair64 w = [ucast w, ucast (drop_bit 32 w)]"

text \<open>The loop \<open>for (i = 0; i < n / 2; i++) swab32_x2 (&dst[i], src[i])\<close>; \<open>k\<close> is the
  number of iterations done so far, \<open>m\<close> the number still to do.\<close>

fun swab32_loop :: "u32 list \<Rightarrow> nat \<Rightarrow> nat \<Rightarrow> u32 list \<Rightarrow> u32 list" where
  "swab32_loop src i 0 dst = dst"
| "swab32_loop src i (Suc m) dst =
     swab32_loop src (Suc i) m
       (put_at (2 * i) (unpair64 (swab32_x2 (pair64 (src ! (2 * i)) (src ! (2 * i + 1))))) dst)"

definition swab32_array :: "u32 list \<Rightarrow> u32 list \<Rightarrow> nat \<Rightarrow> u32 list" where
  "swab32_array dst src n = swab32_loop src 0 (n div 2) dst"

text \<open>What one flip means: the bytes of the word reversed.\<close>

definition bswap32 :: "u32 \<Rightarrow> u32" where
  "bswap32 x = be32dec (le32enc x)"

section \<open>The codec contract\<close>

locale byte_codec =
  fixes enc :: "'w::len word \<Rightarrow> bytes"
    and dec :: "bytes \<Rightarrow> 'w word"
    and width :: nat
  assumes width_pos: "0 < width"
    and length_enc: "length (enc x) = width"
    and dec_append: "dec (enc x @ rest) = x"
    and enc_dec: "length p = width \<Longrightarrow> enc (dec p) = p"
begin

lemma dec_enc: "dec (enc x) = x"
  using dec_append[of x "[]"] by simp

lemma enc_inj: "enc x = enc y \<longleftrightarrow> x = y"
  by (metis dec_enc)

text \<open>Encoding an array word by word and reading it back.\<close>

definition enc_all :: "'w word list \<Rightarrow> bytes" where
  "enc_all ws = concat (map enc ws)"

definition dec_all :: "bytes \<Rightarrow> 'w word list" where
  "dec_all bs = map dec (chunks width bs)"

lemma length_enc_all: "length (enc_all ws) = width * length ws"
  by (induction ws) (auto simp: enc_all_def length_enc)

lemma enc_all_Nil: "enc_all [] = []"
  by (simp add: enc_all_def)

lemma enc_all_Cons: "enc_all (w # ws) = enc w @ enc_all ws"
  by (simp add: enc_all_def)

lemma enc_all_append: "enc_all (vs @ ws) = enc_all vs @ enc_all ws"
  by (simp add: enc_all_def)

lemma dec_all_enc_all: "dec_all (enc_all ws) = ws"
proof (induction ws)
  case Nil
  then show ?case by (simp add: dec_all_def enc_all_def)
next
  case (Cons w ws)
  have "chunks width (enc w @ enc_all ws) = enc w # chunks width (enc_all ws)"
    by (rule chunks_append_block) (simp_all add: width_pos length_enc)
  then show ?case
    using Cons.IH by (simp add: dec_all_def enc_all_Cons dec_enc)
qed

lemma enc_all_dec_all:
  assumes "width dvd length bs"
  shows "enc_all (dec_all bs) = bs"
proof -
  have "map enc (map dec (chunks width bs)) = chunks width bs"
    by (auto intro!: map_idI simp: enc_dec length_in_chunks[OF width_pos assms])
  then show ?thesis
    by (simp add: enc_all_def dec_all_def concat_chunks[OF width_pos])
qed

lemma enc_all_inj: "enc_all vs = enc_all ws \<longleftrightarrow> vs = ws"
  by (metis dec_all_enc_all)

lemma dec_all_length: "width dvd length bs \<Longrightarrow> length (dec_all bs) = length bs div width"
  by (simp add: dec_all_def length_chunks[OF width_pos])

end

text \<open>The sums of the decoders are disjoint, so each is a bitwise union.\<close>

lemma be32dec_or:
  "be32dec p = ucast (p ! 3) OR push_bit 8 (ucast (p ! 2)) OR push_bit 16 (ucast (p ! 1))
     OR push_bit 24 (ucast (p ! 0))"
  by (simp only: be32dec_def bytes4_add_or)

lemma le32dec_or:
  "le32dec p = ucast (p ! 0) OR push_bit 8 (ucast (p ! 1)) OR push_bit 16 (ucast (p ! 2))
     OR push_bit 24 (ucast (p ! 3))"
  by (simp only: le32dec_def bytes4_add_or)

lemma bit_be32dec:
  "bit (be32dec [a, b, c, d]) n \<longleftrightarrow>
     (if n < 8 then bit d n else if n < 16 then bit c (n - 8)
      else if n < 24 then bit b (n - 16) else bit a (n - 24))"
  by (cases "n < 8"; cases "n < 16"; cases "n < 24"; cases "n < 32")
    (auto simp: be32dec_or bit_simps bit_u8_beyond)

lemma bit_le32dec:
  "bit (le32dec [a, b, c, d]) n \<longleftrightarrow>
     (if n < 8 then bit a n else if n < 16 then bit b (n - 8)
      else if n < 24 then bit c (n - 16) else bit d (n - 24))"
  by (cases "n < 8"; cases "n < 16"; cases "n < 24"; cases "n < 32")
    (auto simp: le32dec_or bit_simps bit_u8_beyond)

lemma be32enc_dec: "be32enc (be32dec [a, b, c, d]) = [a, b, c, d]"
  by (auto simp: be32enc_def bit_simps bit_be32dec bit_u8_beyond intro!: bit_word_eqI)

lemma le32enc_dec: "le32enc (le32dec [a, b, c, d]) = [a, b, c, d]"
  by (auto simp: le32enc_def bit_simps bit_le32dec bit_u8_beyond intro!: bit_word_eqI)

lemma list4_cases: "length p = 4 \<Longrightarrow> \<exists>a b c d. p = [a, b, c, d]"
  by (auto simp: length_Suc_conv numeral_eq_Suc)

lemma be32dec_take4: "rest \<noteq> [] \<Longrightarrow> be32dec (a # b # c # d # rest) = be32dec [a, b, c, d]"
  by (simp add: be32dec_def)

lemma le32dec_take4: "rest \<noteq> [] \<Longrightarrow> le32dec (a # b # c # d # rest) = le32dec [a, b, c, d]"
  by (simp add: le32dec_def)

lemma be32dec_enc: "be32dec (be32enc x) = x"
  by (rule bit_word_eqI) (auto simp: be32enc_def bit_be32dec bit_simps)

lemma le32dec_enc: "le32dec (le32enc x) = x"
  by (rule bit_word_eqI) (auto simp: le32enc_def bit_le32dec bit_simps)

interpretation be32: byte_codec be32enc be32dec 4
proof
  show "be32dec (be32enc x @ rest) = x" for x rest
    using be32dec_enc[of x] by (cases "rest = []") (simp_all add: be32enc_def be32dec_take4)
  show "be32enc (be32dec p) = p" if "length p = 4" for p
    using list4_cases[OF that] be32enc_dec by auto
qed (simp_all add: be32enc_def)

interpretation le32: byte_codec le32enc le32dec 4
proof
  show "le32dec (le32enc x @ rest) = x" for x rest
    using le32dec_enc[of x] by (cases "rest = []") (simp_all add: le32enc_def le32dec_take4)
  show "le32enc (le32dec p) = p" if "length p = 4" for p
    using list4_cases[OF that] le32enc_dec by auto
qed (simp_all add: le32enc_def)

lemma bit_le16dec: "bit (le16dec (a # b # rest)) n \<longleftrightarrow> (if n < 8 then bit a n else bit b (n - 8))"
proof -
  have "le16dec (a # b # rest) = ucast a OR push_bit 8 (ucast b)"
    unfolding le16dec_def
    by (subst add_eq_or_of_disjoint) (auto simp: bit_simps dest: bit_imp_le_length)
  then show ?thesis
    by (auto simp: bit_simps not_less bit_u8_beyond dest: bit_imp_le_length)
qed

interpretation le16: byte_codec le16enc le16dec 2
proof
  show "le16dec (le16enc x @ rest) = x" for x rest
    by (rule bit_word_eqI) (auto simp: le16enc_def bit_le16dec bit_simps)
  show "le16enc (le16dec p) = p" if "length p = 2" for p
    using that
    by (auto simp: length_Suc_conv numeral_eq_Suc le16enc_def bit_le16dec bit_simps bit_u8_beyond
        intro!: bit_word_eqI)
qed (simp_all add: le16enc_def)

section \<open>What the flips compute\<close>

lemma bswap32_rev: "be32enc (bswap32 x) = rev (be32enc x)"
proof -
  have "be32enc (bswap32 x) = le32enc x"
    using be32.enc_dec[of "le32enc x"] by (simp add: bswap32_def le32.length_enc)
  also have "\<dots> = rev (be32enc x)"
    by (simp add: le32enc_def be32enc_def)
  finally show ?thesis .
qed

lemma le32enc_rev: "le32enc x = rev (be32enc x)"
  by (simp add: le32enc_def be32enc_def)

text \<open>Where a bit of the flipped word comes from.\<close>

definition flip_pos :: "nat \<Rightarrow> nat" where
  "flip_pos n = (if n < 8 then n + 24 else if n < 16 then n + 8
     else if n < 24 then n - 8 else n - 24)"

lemma flip_pos_less: "n < 32 \<Longrightarrow> flip_pos n < 32"
  by (auto simp: flip_pos_def)

lemma flip_pos_invol: "n < 32 \<Longrightarrow> flip_pos (flip_pos n) = n"
  by (auto simp: flip_pos_def)

lemma bit_bswap32: "n < 32 \<Longrightarrow> bit (bswap32 x) n \<longleftrightarrow> bit x (flip_pos n)"
  by (auto simp: bswap32_def le32enc_def bit_be32dec bit_simps add.commute flip_pos_def)

lemma bswap32_invol [simp]: "bswap32 (bswap32 x) = x"
  by (rule bit_word_eqI) (simp add: bit_bswap32 flip_pos_less flip_pos_invol)

lemma be32dec_bswap: "length p = 4 \<Longrightarrow> be32dec p = bswap32 (le32dec p)"
  using le32.enc_dec[of p] by (simp add: bswap32_def)

text \<open>The two-lane flip and the array loop.\<close>

lemma swab_masks:
  "(0xff000000ff000000 :: u64) = push_bit 24 (mask 8) OR push_bit 56 (mask 8)"
  "(0x00ff000000ff0000 :: u64) = push_bit 16 (mask 8) OR push_bit 48 (mask 8)"
  "(0x0000ff000000ff00 :: u64) = push_bit 8 (mask 8) OR push_bit 40 (mask 8)"
  "(0x000000ff000000ff :: u64) = mask 8 OR push_bit 32 (mask 8)"
  by (simp_all add: mask_eq_exp_minus_1 push_bit_eq_mult)

lemma bit_swab32_x2_low: "n < 32 \<Longrightarrow> bit (swab32_x2 w) n \<longleftrightarrow> bit w (flip_pos n)"
  by (simp only: swab32_x2_def swab_masks flip_pos_def)
    (cases "n < 8"; cases "n < 16"; cases "n < 24"; auto simp: bit_simps ac_simps)

lemma bit_swab32_x2_high: "n < 32 \<Longrightarrow> bit (swab32_x2 w) (32 + n) \<longleftrightarrow> bit w (32 + flip_pos n)"
  by (simp only: swab32_x2_def swab_masks flip_pos_def)
    (cases "n < 8"; cases "n < 16"; cases "n < 24"; auto simp: bit_simps ac_simps)

lemma bit_pair64:
  "n < 32 \<Longrightarrow> bit (pair64 lo hi) n = bit lo n"
  "n < 32 \<Longrightarrow> bit (pair64 lo hi) (32 + n) = bit hi n"
  by (auto simp: pair64_def bit_simps dest: bit_imp_le_length)

lemma unpair64_pair64: "unpair64 (pair64 lo hi) = [lo, hi]"
  by (auto simp: unpair64_def bit_simps bit_pair64 intro!: bit_word_eqI)

lemma swab32_x2_pair: "unpair64 (swab32_x2 (pair64 lo hi)) = [bswap32 lo, bswap32 hi]"
  by (auto simp: unpair64_def bit_simps bit_swab32_x2_low bit_swab32_x2_high bit_pair64
      bit_bswap32 flip_pos_less intro!: bit_word_eqI)

lemma swab32_loop_eq:
  assumes "2 * (i + m) \<le> length src" "2 * (i + m) \<le> length dst"
  shows "swab32_loop src i m dst = put_at (2 * i) (map bswap32 (seg (2 * i) (2 * m) src)) dst"
  using assms
proof (induction m arbitrary: i dst)
  case (Suc m)
  let ?dst = "put_at (2 * i) [bswap32 (src ! (2 * i)), bswap32 (src ! (2 * i + 1))] dst"
  have len: "length ?dst = length dst"
    using Suc.prems by (simp add: put_at_def)
  have "seg (2 * i) (2 * Suc m) src
      = src ! (2 * i) # src ! (2 * i + 1) # seg (2 * Suc i) (2 * m) src"
    using Suc.prems by (simp add: seg_def Cons_nth_drop_Suc[symmetric])
  moreover have "swab32_loop src (Suc i) m ?dst
      = put_at (2 * Suc i) (map bswap32 (seg (2 * Suc i) (2 * m) src)) ?dst"
    using Suc.prems len by (intro Suc.IH) simp_all
  ultimately show ?case
    using Suc.prems put_at_put_at_adjacent[of "2 * i" "[_, _]" "map bswap32 (seg (2 * Suc i) (2 * m) src)" dst]
    by (simp add: swab32_x2_pair length_seg)
qed (simp add: seg_def)

text \<open>\<open>swab32_array\<close> flips the byte order of every word of the first \<open>2 * (n / 2)\<close>
  words, in order, and leaves the rest of the destination alone (for an odd \<open>n\<close> the last word
  is not converted).\<close>

theorem swab32_array_flips:
  assumes "n \<le> length src" "n \<le> length dst"
  shows "swab32_array dst src n =
    map bswap32 (take (2 * (n div 2)) src) @ drop (2 * (n div 2)) dst"
  using assms by (simp add: swab32_array_def swab32_loop_eq put_at_def seg_def)

theorem swab32_array_flips_witness:
  "swab32_array [0, 0, 0] [0x01020304, 0x05060708, 0x090a0b0c] 3
     = [0x04030201, 0x08070605, 0]"
  using swab32_array_flips[of 3 "[0x01020304, 0x05060708, 0x090a0b0c]" "[0, 0, 0]"]
  by (simp add: bswap32_def be32dec_def le32enc_def)

end
