(* ===== verification/Soj_Hex.thy ===== *)
theory Soj_Hex
  imports Soj_Endian
begin

text \<open>Hexadecimal conversion, from \<open>util.c\<close>: \<open>bin2hex\<close>, \<open>abin2hex\<close>, \<open>bebin2hex\<close>
  and \<open>hex2bin\<close>, whose main loop validates and decodes eight characters at a time inside
  one \<open>uint64_t\<close>.  The lane lemmas show when that arithmetic acts on each byte alone; the
  decoder is then compared with a digit-by-digit reference.\<close>

section \<open>Encoding\<close>

text \<open>\<open>sprintf (s, "%02x", b)\<close>.\<close>

definition hexdig :: "u8 \<Rightarrow> u8" where
  "hexdig d = (if d < 10 then 0x30 + d else 0x57 + d)"

definition fmt02x :: "u8 \<Rightarrow> cstring" where
  "fmt02x b = [hexdig (drop_bit 4 b), hexdig (b AND 0x0f)]"

fun bin2hex_loop :: "bytes \<Rightarrow> nat \<Rightarrow> nat \<Rightarrow> cstring" where
  "bin2hex_loop p i 0 = []"
| "bin2hex_loop p i (Suc m) = fmt02x (p ! i) @ bin2hex_loop p (Suc i) m"

definition bin2hex :: "bytes \<Rightarrow> nat \<Rightarrow> cstring" where
  "bin2hex p len = bin2hex_loop p 0 len"

text \<open>The flag is whether \<open>malloc\<close> gave the buffer.\<close>

definition abin2hex :: "bool \<Rightarrow> bytes \<Rightarrow> nat \<Rightarrow> cstring option" where
  "abin2hex malloc_ok p len = (if \<not> malloc_ok then None else Some (bin2hex p len))"

fun bebin2hex_loop :: "bytes \<Rightarrow> nat \<Rightarrow> cstring" where
  "bebin2hex_loop p 0 = []"
| "bebin2hex_loop p (Suc j) = fmt02x (p ! j) @ bebin2hex_loop p j"

definition bebin2hex :: "bool \<Rightarrow> bytes \<Rightarrow> nat \<Rightarrow> cstring option" where
  "bebin2hex malloc_ok p len = (if \<not> malloc_ok then None else Some (bebin2hex_loop p len))"

section \<open>Decoding\<close>

definition hex_decode_nibble_branchless :: "u8 \<Rightarrow> u8" where
  "hex_decode_nibble_branchless c = (c AND 0x0f) + (drop_bit 6 c AND 1) * 9"

definition ONES :: u64 where "ONES = 0x0101010101010101"
definition HIGH :: u64 where "HIGH = 0x8080808080808080"

definition hex_swar_invalid_mask :: "u64 \<Rightarrow> u64" where
  "hex_swar_invalid_mask chunk =
    (let above_39 = (chunk + ONES * (0x7f - 0x39)) AND HIGH;
         below_30 = NOT ((chunk OR HIGH) - ONES * 0x30) AND HIGH;
         not_digit = above_39 OR below_30;
         norm = chunk OR (ONES * 0x20);
         above_66 = (norm + ONES * (0x7f - 0x66)) AND HIGH;
         below_61 = NOT ((norm OR HIGH) - ONES * 0x61) AND HIGH;
         not_alpha = above_66 OR below_61
     in not_digit AND not_alpha)"

text \<open>\<open>memcpy (&chunk, p, 8)\<close> on a little-endian machine.\<close>

fun le_load :: "bytes \<Rightarrow> 'a::len word" where
  "le_load [] = 0"
| "le_load (b # bs) = ucast b + 256 * le_load bs"

definition hex_swar_pack :: "u64 \<Rightarrow> u64" where
  "hex_swar_pack chunk =
    (let lo4 = chunk AND 0x0f0f0f0f0f0f0f0f;
         bit6 = drop_bit 6 chunk AND 0x0101010101010101;
         vals = lo4 + bit6 * 9;
         hi = push_bit 4 (vals AND 0x00ff00ff00ff00ff);
         lo = drop_bit 8 vals AND 0x00ff00ff00ff00ff
     in hi OR lo)"

definition hex_ok :: "u8 \<Rightarrow> bool" where
  "hex_ok c = (c \<ge> 0x30 \<and> c \<le> 0x39 \<or> c \<ge> 0x61 \<and> c \<le> 0x66 \<or> c \<ge> 0x41 \<and> c \<le> 0x46)"

text \<open>The scalar tail: \<open>s\<close> is what is left of the string, \<open>j\<close> the output index.\<close>

fun hex_tail :: "cstring \<Rightarrow> nat \<Rightarrow> bytes \<Rightarrow> bool \<times> bytes" where
  "hex_tail (hi_c # lo_c # s) j p =
    (if \<not> hex_ok hi_c \<or> \<not> hex_ok lo_c then (False, p)
     else hex_tail s (j + 1)
       (p[j := push_bit 4 (hex_decode_nibble_branchless hi_c) OR hex_decode_nibble_branchless lo_c]))"
| "hex_tail _ j p = (True, p)"

function hex_swar_loop :: "cstring \<Rightarrow> nat \<Rightarrow> bytes \<Rightarrow> bool \<times> bytes" where
  "hex_swar_loop s j p =
    (if length s < 8 then hex_tail s j p
     else let chunk = le_load (take 8 s); pack = hex_swar_pack chunk
       in if hex_swar_invalid_mask chunk \<noteq> 0 then (False, p)
          else hex_swar_loop (drop 8 s) (j + 4)
            (put_at j [ucast pack, ucast (drop_bit 16 pack), ucast (drop_bit 32 pack),
               ucast (drop_bit 48 pack)] p))"
  by auto
termination by (relation "measure (\<lambda>(s, j, p). length s)") auto

declare hex_swar_loop.simps [simp del]

definition hex2bin :: "bytes \<Rightarrow> cstring option \<Rightarrow> nat \<Rightarrow> bool \<times> bytes" where
  "hex2bin p hexstr len =
    (case hexstr of None \<Rightarrow> (False, p)
     | Some s \<Rightarrow>
        if length s mod 2 \<noteq> 0 then (False, p)
        else if len < length s div 2 then (False, p)
        else hex_swar_loop s 0 (put_at 0 (replicate len 0) p))"

section \<open>The reference decoder\<close>

definition hex_val :: "u8 \<Rightarrow> u8 option" where
  "hex_val c = (if 0x30 \<le> c \<and> c \<le> 0x39 then Some (c - 0x30)
     else if 0x61 \<le> c \<and> c \<le> 0x66 then Some (c - 0x61 + 10)
     else if 0x41 \<le> c \<and> c \<le> 0x46 then Some (c - 0x41 + 10) else None)"

fun hex_decode :: "cstring \<Rightarrow> bytes option" where
  "hex_decode [] = Some []"
| "hex_decode [c] = None"
| "hex_decode (h # l # s) =
    (case (hex_val h, hex_val l, hex_decode s) of
       (Some a, Some b, Some bs) \<Rightarrow> Some ((16 * a + b) # bs)
     | _ \<Rightarrow> None)"

section \<open>Single bytes and byte lanes of a word\<close>

lemma unat_u8_less: "unat (b :: u8) < 256"
proof -
  have "unat b < 2 ^ LENGTH(8)" by (rule unsigned_less)
  then show ?thesis by simp
qed

lemma nat_and_pow2: "(n :: nat) AND 2 ^ k = (if bit n k then 2 ^ k else 0)"
  by (rule bit_eqI) (auto simp: bit_simps)

lemma nat_or_pow2: "(n :: nat) OR 2 ^ k = (if bit n k then n else n + 2 ^ k)"
proof -
  have "n OR 2 ^ k = set_bit k n" by (simp add: set_bit_eq_or push_bit_eq_mult)
  then show ?thesis by (simp add: set_bit_eq)
qed

lemma bit7_small: "n < 256 \<Longrightarrow> bit (n :: nat) 7 \<longleftrightarrow> 128 \<le> n"
proof -
  assume "n < 256"
  then have "n div 128 = (if 128 \<le> n then 1 else 0)" by (auto simp: div_nat_eqI)
  then show ?thesis by (simp add: bit_iff_odd)
qed

lemma u8_top_bit: "unat (b AND 0x80 :: u8) = (if 128 \<le> unat b then 128 else 0)"
proof -
  have "unat (b AND 0x80) = unat b AND 2 ^ 7" by (simp add: unsigned_and_eq)
  then show ?thesis by (simp only: nat_and_pow2 bit7_small[OF unat_u8_less]) simp
qed

lemma u8_or_80: "unat (b OR 0x80 :: u8) = (if 128 \<le> unat b then unat b else unat b + 128)"
proof -
  have "unat (b OR 0x80) = unat b OR 2 ^ 7" by (simp add: unsigned_or_eq)
  then show ?thesis by (simp only: nat_or_pow2 bit7_small[OF unat_u8_less]) simp
qed

lemma u8_or_20: "unat (b OR 0x20 :: u8) = (if odd (unat b div 32) then unat b else unat b + 32)"
proof -
  have "unat (b OR 0x20) = unat b OR 2 ^ 5" by (simp add: unsigned_or_eq)
  then show ?thesis by (simp only: nat_or_pow2 bit_iff_odd) simp
qed

lemma u8_and_0f: "unat (b AND 0x0f :: u8) = unat b mod 16"
proof -
  have "unat b AND mask 4 = unat b mod 16"
    by (simp flip: take_bit_eq_mask) (simp add: take_bit_eq_mod)
  then show ?thesis by (simp add: unsigned_and_eq mask_eq_exp_minus_1)
qed

lemma u8_bit6: "unat (drop_bit 6 b AND 1 :: u8) = unat b div 64 mod 2"
proof -
  have "drop_bit 6 b AND 1 = of_bool (bit b 6)"
    by (rule bit_word_eqI) (auto simp: bit_simps)
  moreover have "bit b 6 \<longleftrightarrow> odd (unat b div 64)"
    using bit_iff_odd[of "unat b" 6] by (simp add: bit_unsigned_iff)
  ultimately show ?thesis by (simp add: mod2_eq_if)
qed

lemma u8_flag: "(b :: u8) AND 0x80 = (if 128 \<le> unat b then 0x80 else 0)"
  by (simp add: word_unat_eq_iff u8_top_bit)

lemma u8_not_flag: "NOT (b :: u8) AND 0x80 = (if 128 \<le> unat b then 0 else 0x80)"
proof -
  have "NOT b = - 1 - b" by (simp add: not_eq_complement)
  moreover have "unat (- 1 - b :: u8) = unat (- 1 :: u8) - unat b"
    by (rule unat_sub) simp
  ultimately have "unat (NOT b) = 255 - unat b"
    by (simp add: unsigned_minus_1_eq_mask mask_eq_exp_minus_1)
  then show ?thesis using unat_u8_less[of b] by (simp add: u8_flag) linarith
qed

lemma u8_le_or_80: "x \<le> 128 \<Longrightarrow> x \<le> (b OR 0x80 :: u8)"
  by (simp add: word_le_nat_alt u8_or_80)

definition hex_byte_invalid :: "u8 \<Rightarrow> u8" where
  "hex_byte_invalid b =
    (((b + 0x46) AND 0x80) OR (NOT ((b OR 0x80) - 0x30) AND 0x80)) AND
    ((((b OR 0x20) + 0x19) AND 0x80) OR (NOT (((b OR 0x20) OR 0x80) - 0x61) AND 0x80))"

lemma u8_norm_bound: "unat b < 0xba \<Longrightarrow> unat (b OR 0x20 :: u8) < 0xc0"
proof (cases "unat b < 160")
  case False
  moreover assume "unat b < 0xba"
  ultimately have "unat b div 32 = 5" by (intro div_nat_eqI) auto
  then show ?thesis using False \<open>unat b < 0xba\<close> by (simp add: u8_or_20)
qed (simp add: u8_or_20)

lemma u8_norm_alpha:
  "unat (b OR 0x20 :: u8) \<in> {0x61..0x66} \<longleftrightarrow> unat b \<in> {0x61..0x66} \<or> unat b \<in> {0x41..0x46}"
  (is "?l \<longleftrightarrow> ?r")
proof
  assume ?l
  then show ?r by (auto simp: u8_or_20 split: if_splits)
next
  assume ?r
  then have "unat b div 32 = 3 \<or> unat b div 32 = 2 \<and> unat b \<in> {0x41..0x46}"
    by (auto intro!: div_nat_eqI)
  with \<open>?r\<close> show ?l by (auto simp: u8_or_20)
qed

lemma hex_byte_facts:
  assumes "unat b < 0xba"
  shows "hex_byte_invalid b = 0 \<longleftrightarrow> hex_ok b"
proof -
  let ?n = "b OR 0x20"
  note n = u8_norm_bound[OF assms]
  have a: "unat (b + 0x46) = unat b + 0x46"
    using assms by (simp add: unat_word_ariths)
  have b: "unat ((b OR 0x80) - 0x30) = unat (b OR 0x80) - 0x30"
    using unat_sub[OF u8_le_or_80, of "0x30" b] by simp
  have d: "unat (?n + 0x19) = unat ?n + 0x19"
    using n by (simp add: unat_word_ariths)
  have e: "unat ((?n OR 0x80) - 0x61) = unat (?n OR 0x80) - 0x61"
    using unat_sub[OF u8_le_or_80, of "0x61" "?n"] by simp
  have "hex_byte_invalid b = 0 \<longleftrightarrow> unat b \<in> {0x30..0x39} \<or> unat ?n \<in> {0x61..0x66}"
    unfolding hex_byte_invalid_def u8_not_flag unfolding u8_flag a b d e u8_or_80
    using assms n by simp linarith
  then show ?thesis
    unfolding u8_norm_alpha by (auto simp: hex_ok_def word_le_nat_alt)
qed

lemma hex_ok_all:
  assumes "hex_ok c" "list_all (\<lambda>n. P (word_of_nat n)) ([48..<58] @ [97..<103] @ [65..<71])"
  shows "P c"
proof -
  have "unat c \<in> set ([48..<58] @ [97..<103] @ [65..<71])"
    using assms(1) unfolding set_append set_upt by (simp add: hex_ok_def word_le_nat_alt) linarith
  then have "P (word_of_nat (unat c))"
    using assms(2) unfolding list_all_iff by blast
  then show ?thesis by simp
qed

lemma nibble_value:
  "hex_ok c \<Longrightarrow> hex_val c = Some (hex_decode_nibble_branchless c) \<and>
     hex_decode_nibble_branchless c < 16"
  by (erule hex_ok_all) code_simp

lemma hex_val_None: "\<not> hex_ok c \<Longrightarrow> hex_val c = None"
  by (auto simp: hex_val_def hex_ok_def)
lemma ucast_add_u8:
  assumes "unat a + unat b < 256"
  shows "(ucast (a + b :: u8) :: 'a::len word) = ucast a + ucast b"
proof -
  have "unat (a + b) = unat a + unat b"
    using assms by (simp add: unat_word_ariths)
  then show ?thesis
    by (metis of_nat_unat of_nat_add)
qed

lemma ucast_sub_u8:
  "b \<le> a \<Longrightarrow> (ucast (a - b :: u8) :: 'a::len word) = ucast a - ucast b"
  by (metis of_nat_unat of_nat_diff unat_sub word_le_nat_alt)

lemma lane_or: "ucast b + 256 * A = (ucast (b :: u8) OR push_bit 8 A :: 'a::len word)"
proof -
  have "256 * A = push_bit 8 A"
    by (simp add: push_bit_eq_mult)
  moreover have "ucast b + push_bit 8 A = ucast b OR push_bit 8 A"
    by (rule add_eq_or_of_disjoint) (auto simp: bit_simps dest: bit_imp_le_length)
  ultimately show ?thesis by simp
qed

lemma le_load_and:
  "length as = length bs \<Longrightarrow> le_load as AND le_load bs = (le_load (map2 (AND) as bs) :: 'a::len word)"
proof (induction as bs rule: list_induct2)
  case (Cons a as b bs)
  show ?case
    by (simp add: lane_or flip: Cons.IH)
      (rule bit_word_eqI, auto simp: bit_simps bit_u8_beyond)
qed simp

lemma le_load_or:
  "length as = length bs \<Longrightarrow> le_load as OR le_load bs = (le_load (map2 (OR) as bs) :: 'a::len word)"
proof (induction as bs rule: list_induct2)
  case (Cons a as b bs)
  show ?case
    by (simp add: lane_or flip: Cons.IH)
      (rule bit_word_eqI, auto simp: bit_simps)
qed simp

lemma le_load_not_and:
  "length as = length bs \<Longrightarrow>
     NOT (le_load as) AND le_load bs = (le_load (map2 (\<lambda>a b. NOT a AND b) as bs) :: 'a::len word)"
proof (induction as bs rule: list_induct2)
  case (Cons a as b bs)
  show ?case
    by (simp add: lane_or flip: Cons.IH)
      (rule bit_word_eqI, auto simp: bit_simps bit_u8_beyond)
qed simp

lemma le_load_add:
  "length as = length bs \<Longrightarrow> list_all2 (\<lambda>a b. unat a + unat b < 256) as bs \<Longrightarrow>
     le_load as + le_load bs = (le_load (map2 (+) as bs) :: 'a::len word)"
proof (induction as bs rule: list_induct2)
  case (Cons a as b bs)
  then show ?case
    by (simp add: ucast_add_u8 flip: Cons.IH)
qed simp

lemma le_load_sub:
  "length as = length bs \<Longrightarrow> list_all2 (\<lambda>a b. b \<le> a) as bs \<Longrightarrow>
     le_load as - le_load bs = (le_load (map2 (-) as bs) :: 'a::len word)"
proof (induction as bs rule: list_induct2)
  case (Cons a as b bs)
  then show ?case
    by (simp add: ucast_sub_u8 flip: Cons.IH)
qed simp

lemma bit_le_load:
  "m < 8 \<Longrightarrow> bit (le_load bs :: 'a::len word) (8 * i + m) \<longleftrightarrow>
     8 * i + m < LENGTH('a) \<and> i < length bs \<and> bit (bs ! i) m"
proof (induction bs arbitrary: i)
  case (Cons b bs)
  show ?case
  proof (cases i)
    case 0
    with Cons.prems show ?thesis by (auto simp: lane_or bit_simps)
  next
    case (Suc k)
    have "bit (le_load (b # bs) :: 'a word) (8 * i + m) \<longleftrightarrow>
        8 * i + m < LENGTH('a) \<and> bit (le_load bs :: 'a word) (8 * k + m)"
      using Suc by (simp add: lane_or bit_simps bit_u8_beyond add.assoc)
    then show ?thesis
      using Cons.IH[OF Cons.prems, of k] Suc by auto
  qed
qed simp

lemma le_load_eq_0:
  assumes "8 * length bs \<le> LENGTH('a::len)" "(le_load bs :: 'a word) = 0" "b \<in> set bs"
  shows "b = 0"
proof -
  obtain i where i: "i < length bs" "b = bs ! i"
    using assms(3) by (auto simp: in_set_conv_nth)
  show ?thesis
  proof (rule bit_word_eqI)
    fix m assume "m < LENGTH(8)"
    then show "bit b m = bit 0 m"
      using bit_le_load[where 'a='a, of m bs i] assms(1,2) i by auto
  qed
qed


section \<open>The eight-character step\<close>

lemma map2_replicate: "length bs = n \<Longrightarrow> map2 f bs (replicate n c) = map (\<lambda>b. f b c) bs"
  by (induction bs arbitrary: n) auto

lemma ones_times:
  "ONES * 0x46 = le_load (replicate 8 0x46)" "ONES * 0x30 = le_load (replicate 8 0x30)"
  "ONES * 0x20 = le_load (replicate 8 0x20)" "ONES * 0x19 = le_load (replicate 8 0x19)"
  "ONES * 0x61 = le_load (replicate 8 0x61)" "HIGH = le_load (replicate 8 0x80)"
  by code_simp+

lemma hex_swar_invalid_mask_lanes:
  assumes len: "length bs = 8" and small: "\<forall>b\<in>set bs. unat b < 0xba"
  shows "hex_swar_invalid_mask (le_load bs) = le_load (map hex_byte_invalid bs)"
proof -
  have add: "le_load xs + le_load (replicate 8 c) = (le_load (map (\<lambda>b. b + c) xs) :: u64)"
    if "length xs = 8" "\<forall>b\<in>set xs. unat b + unat c < 256" for xs c
    using that by (subst le_load_add) (auto simp: map2_replicate list_all2_conv_all_nth)
  have sub: "le_load xs - le_load (replicate 8 c) = (le_load (map (\<lambda>b. b - c) xs) :: u64)"
    if "length xs = 8" "\<forall>b\<in>set xs. c \<le> b" for xs c
    using that by (subst le_load_sub) (auto simp: map2_replicate list_all2_conv_all_nth)
  have or: "le_load xs OR le_load (replicate 8 c) = (le_load (map (\<lambda>b. b OR c) xs) :: u64)"
    if "length xs = 8" for xs c
    using that by (subst le_load_or) (auto simp: map2_replicate)
  have "and": "le_load xs AND le_load (replicate 8 c) = (le_load (map (\<lambda>b. b AND c) xs) :: u64)"
    if "length xs = 8" for xs c
    using that by (subst le_load_and) (auto simp: map2_replicate)
  have nand: "NOT (le_load xs) AND le_load (replicate 8 c)
      = (le_load (map (\<lambda>b. NOT b AND c) xs) :: u64)"
    if "length xs = 8" for xs c
    using that by (subst le_load_not_and) (auto simp: map2_replicate)
  have or2: "le_load (map f bs) OR le_load (map g bs) = (le_load (map (\<lambda>b. f b OR g b) bs) :: u64)" for f g
    by (subst le_load_or) (simp_all add: map2_map_map)
  have and2: "le_load (map f bs) AND le_load (map g bs) = (le_load (map (\<lambda>b. f b AND g b) bs) :: u64)" for f g
    by (subst le_load_and) (simp_all add: map2_map_map)
  have c46: "0x7f - 0x39 = (0x46 :: u64)" and c19: "0x7f - 0x66 = (0x19 :: u64)"
    by simp_all
  have norm: "unat (b OR 0x20) < 0xc0" if "b \<in> set bs" for b
    using small that by (intro u8_norm_bound) auto
  let ?R = "\<lambda>c. le_load (replicate 8 c) :: u64"
  have orb: "le_load bs OR ?R c = le_load (map (\<lambda>b. b OR c) bs)" for c
    by (rule or[OF len])
  have "le_load bs + ?R 0x46 = le_load (map (\<lambda>b. b + 0x46) bs)"
    using small len by (intro add) auto
  moreover have "le_load (map (\<lambda>b. b OR 0x80) bs) - ?R 0x30
      = le_load (map (\<lambda>b. (b OR 0x80) - 0x30) bs)"
    using len by (subst sub) (auto simp: u8_le_or_80 comp_def)
  moreover have "le_load (map (\<lambda>b. b OR 0x20) bs) + ?R 0x19
      = le_load (map (\<lambda>b. (b OR 0x20) + 0x19) bs)"
    using len norm by (subst add) (force simp: comp_def)+
  moreover have "le_load (map (\<lambda>b. b OR 0x20) bs) OR ?R 0x80
      = le_load (map (\<lambda>b. (b OR 0x20) OR 0x80) bs)"
    using len by (subst or) (auto simp: comp_def)
  moreover have "le_load (map (\<lambda>b. (b OR 0x20) OR 0x80) bs) - ?R 0x61
      = le_load (map (\<lambda>b. ((b OR 0x20) OR 0x80) - 0x61) bs)"
    using len by (subst sub) (auto simp: u8_le_or_80 comp_def)
  ultimately show ?thesis
    unfolding hex_swar_invalid_mask_def Let_def c46 c19 ones_times
    by (simp add: orb "and" nand len or2 and2 comp_def hex_byte_invalid_def[abs_def])
qed

lemma le_load_replicate_0: "(le_load (replicate n 0) :: 'a::len word) = 0"
  by (induction n) auto

lemma hex_swar_invalid_mask_iff:
  assumes "length bs = 8" "\<forall>b\<in>set bs. unat b < 0xba"
  shows "hex_swar_invalid_mask (le_load bs) = 0 \<longleftrightarrow> list_all hex_ok bs"
proof
  assume "hex_swar_invalid_mask (le_load bs) = 0"
  then have "\<forall>b\<in>set bs. hex_byte_invalid b = 0"
    using le_load_eq_0[where 'a=64, of "map hex_byte_invalid bs"] assms
    by (simp add: hex_swar_invalid_mask_lanes)
  then show "list_all hex_ok bs"
    using assms(2) hex_byte_facts by (auto simp: list_all_iff)
next
  assume "list_all hex_ok bs"
  then have "map hex_byte_invalid bs = replicate 8 0"
    using assms by (auto intro!: map_replicate_const[THEN trans] simp: hex_byte_facts list_all_iff list_eq_iff_nth_eq)
  then show "hex_swar_invalid_mask (le_load bs) = 0"
    by (simp only: hex_swar_invalid_mask_lanes[OF assms] le_load_replicate_0)
qed

lemma le_load_shift6:
  "drop_bit 6 (le_load bs) AND le_load (replicate (length bs) 1)
     = (le_load (map (\<lambda>b. drop_bit 6 b AND 1) bs) :: u64)"
proof (rule bit_word_eqI)
  fix n assume n: "n < LENGTH(64)"
  define i m where "i = n div 8" and "m = n mod 8"
  then have nm: "n = 8 * i + m" "m < 8" by simp_all
  have "bit (le_load bs :: u64) (6 + 8 * i) \<longleftrightarrow> i < length bs \<and> bit (bs ! i) 6"
  proof -
    have "i < 8"
      using n nm by simp
    then have "8 * i + 6 < 64"
      by simp
    then show ?thesis
      using bit_le_load[where 'a=64, of 6 bs i] by (simp add: add.commute)
  qed
  then show "bit (drop_bit 6 (le_load bs) AND le_load (replicate (length bs) 1) :: u64) n
      = bit (le_load (map (\<lambda>b. drop_bit 6 b AND 1) bs) :: u64) n"
    using n nm by (cases "m = 0") (auto simp: bit_simps bit_le_load bit_le_load[where m = 0, simplified])
qed

lemma list8_cases: "length bs = 8 \<Longrightarrow> \<exists>a b c d e f g h. bs = [a, b, c, d, e, f, g, h]"
  by (auto simp: length_Suc_conv numeral_eq_Suc)

lemma hex_vals_lanes:
  assumes len: "length bs = 8"
  shows "(le_load bs AND 0x0f0f0f0f0f0f0f0f) + (drop_bit 6 (le_load bs) AND 0x0101010101010101) * 9
     = (le_load (map hex_decode_nibble_branchless bs) :: u64)"
proof -
  have m: "0x0f0f0f0f0f0f0f0f = (le_load (replicate 8 0x0f) :: u64)"
    and o: "0x0101010101010101 = (le_load (replicate (length bs) 1) :: u64)"
    unfolding len by code_simp+
  have nine: "le_load xs * 9 = (le_load (map (\<lambda>b. b * 9) xs) :: u64)"
    if "\<forall>b\<in>set xs. unat b \<le> 1" for xs
    using that
  proof (induction xs)
    case (Cons x xs)
    then have "unat x = unat (0 :: u8) \<or> unat x = unat (1 :: u8)"
      by auto
    then have "x = 0 \<or> x = 1"
      by (simp only: word_unat_eq_iff)
    moreover have "le_load xs * 9 = (le_load (map (\<lambda>b. b * 9) xs) :: u64)"
      using Cons by simp
    ultimately show ?case
      by (auto simp: distrib_right mult.assoc)
  qed simp
  have le1: "unat (drop_bit 6 b AND 1) \<le> 1" for b :: u8
    unfolding u8_bit6 by linarith
  have hi: "le_load (map (\<lambda>b. drop_bit 6 b AND 1) bs) * 9
      = (le_load (map (\<lambda>b. (drop_bit 6 b AND 1) * 9) bs) :: u64)"
    using nine[of "map (\<lambda>b. drop_bit 6 b AND 1) bs"]
    by (simp add: le1 comp_def del: and_one_eq One_nat_def)
  have lo: "le_load bs AND le_load (replicate 8 0x0f) = (le_load (map (\<lambda>b. b AND 0x0f) bs) :: u64)"
    using len by (subst le_load_and) (simp_all add: map2_replicate)
  have "unat (b AND 0x0f) + unat ((drop_bit 6 b AND 1) * 9) < 256" for b :: u8
    by (simp add: u8_and_0f u8_bit6 unat_word_ariths del: and_one_eq)
  then have "le_load (map (\<lambda>b. b AND 0x0f) bs) + le_load (map (\<lambda>b. (drop_bit 6 b AND 1) * 9) bs)
      = (le_load (map hex_decode_nibble_branchless bs) :: u64)"
    by (subst le_load_add)
      (simp_all add: list_all2_conv_all_nth map2_map_map hex_decode_nibble_branchless_def[abs_def]
        del: and_one_eq)
  then show ?thesis
    unfolding m o le_load_shift6 lo hi .
qed

definition evens :: u64 where "evens = 0x00ff00ff00ff00ff"

lemma bit_evens: "m < 8 \<Longrightarrow> bit evens (8 * i + m) \<longleftrightarrow> i < 8 \<and> even i"
proof -
  assume m: "m < 8"
  have eq: "evens = le_load [0xff, 0, 0xff, 0, 0xff, 0, 0xff, 0]"
    by code_simp
  have "[0xff, 0, 0xff, 0, 0xff, 0, 0xff, 0 :: u8] ! i = (if even i then 0xff else 0)" if "i < 8"
  proof -
    have "i \<in> set [0..<8]" using that by simp
    then show ?thesis by (auto simp: upt_rec)
  qed
  then show ?thesis
    using m unfolding eq bit_le_load[OF m] by (auto simp: bit_simps bit_int_255 split: if_splits)
qed

lemma hex_swar_pack_byte:
  assumes len: "length bs = 8" and k: "k < 4"
  shows "(ucast (drop_bit (16 * k) (hex_swar_pack (le_load bs))) :: u8) =
    push_bit 4 (hex_decode_nibble_branchless (bs ! (2 * k)))
      OR hex_decode_nibble_branchless (bs ! (2 * k + 1))" (is "?l = push_bit 4 ?a OR ?b")
proof (rule bit_word_eqI)
  fix m assume "m < LENGTH(8)"
  then have m: "m < 8" by simp
  let ?V = "le_load (map hex_decode_nibble_branchless bs) :: u64"
  have pack: "hex_swar_pack (le_load bs) = push_bit 4 (?V AND evens) OR (drop_bit 8 ?V AND evens)"
    by (simp only: hex_swar_pack_def Let_def hex_vals_lanes[OF len] evens_def)
  have lo: "bit (drop_bit 8 ?V AND evens) (16 * k + m) \<longleftrightarrow> bit ?b m"
    using bit_le_load[OF m, where 'a=64, of "map hex_decode_nibble_branchless bs" "2 * k + 1"] bit_evens[OF m, of "2 * k"] k m len
    by (simp add: bit_simps add.assoc add.commute add.left_commute)
  have hi: "bit (push_bit 4 (?V AND evens)) (16 * k + m) \<longleftrightarrow> 4 \<le> m \<and> bit ?a (m - 4)"
  proof (cases "4 \<le> m")
    case True
    then have "m - 4 < 8" "16 * k + m - 4 = 8 * (2 * k) + (m - 4)" "16 * k + m - 4 < 64"
      using m k by auto
    then show ?thesis
      using bit_le_load[of "m - 4", where 'a=64, of "map hex_decode_nibble_branchless bs" "2 * k"] bit_evens[of "m - 4" "2 * k"] True k m len
      by (simp add: bit_simps)
  next
    case False
    show ?thesis
    proof (cases k)
      case (Suc j)
      then have "16 * k + m - 4 = 8 * (2 * j + 1) + (m + 4)" "m + 4 < 8" using False by auto
      then show ?thesis
        using bit_evens[of "m + 4" "2 * j + 1"] False
        by (simp add: bit_simps)
    qed (use False in \<open>simp add: bit_simps\<close>)
  qed
  have *: "bit (ucast (drop_bit (16 * k) (X OR Y)) :: u8) m \<longleftrightarrow>
      bit X (16 * k + m) \<or> bit Y (16 * k + m)" for X Y :: u64
    using m by (auto simp: bit_simps)
  show "bit ?l m = bit (push_bit 4 ?a OR ?b) m"
    unfolding pack * lo hi using m by (auto simp: bit_simps)
qed

lemma u8_small_bit: "(b :: u8) < 16 \<Longrightarrow> bit b n \<Longrightarrow> n < 4"
proof (rule ccontr)
  assume b: "b < 16" "bit b n" "\<not> n < 4"
  have "unat b < 2 ^ 4" using b(1) by (simp add: word_less_nat_alt)
  also have "\<dots> \<le> 2 ^ n" using b(3) by (intro power_increasing) auto
  finally have "\<not> bit (unat b) n" by (simp add: bit_iff_odd)
  then show False using b(2) by (simp add: bit_unsigned_iff)
qed

lemma nibbles_or: "b < 16 \<Longrightarrow> push_bit 4 a OR b = 16 * a + (b :: u8)"
proof -
  assume "b < 16"
  then have "push_bit 4 a + b = push_bit 4 a OR b"
    by (intro add_eq_or_of_disjoint) (auto simp: bit_simps dest: u8_small_bit)
  then show ?thesis by (simp add: push_bit_eq_mult mult.commute)
qed

lemma hex_decode_step:
  "hex_decode (h # l # s) =
    (if hex_ok h \<and> hex_ok l
     then map_option ((#) (push_bit 4 (hex_decode_nibble_branchless h)
       OR hex_decode_nibble_branchless l)) (hex_decode s) else None)"
  using nibble_value[of h] nibble_value[of l]
  by (cases "hex_ok h"; cases "hex_ok l") (auto simp: hex_val_None nibbles_or split: option.splits)

declare hex_decode.simps(3) [simp del]

lemma list_update_put_at: "j < length p \<Longrightarrow> p[j := x] = put_at j [x] p"
  by (simp add: put_at_def upd_conv_take_nth_drop)

lemma hex_tail_Some:
  "hex_decode s = Some bs \<Longrightarrow> j + length bs \<le> length p \<Longrightarrow> hex_tail s j p = (True, put_at j bs p)"
proof (induction s j p arbitrary: bs rule: hex_tail.induct)
  case (1 h l s j p)
  then obtain cs where cs: "hex_decode s = Some cs"
    "bs = (push_bit 4 (hex_decode_nibble_branchless h) OR hex_decode_nibble_branchless l) # cs"
    and ok: "hex_ok h" "hex_ok l"
    by (auto simp: hex_decode_step split: if_splits)
  let ?x = "push_bit 4 (hex_decode_nibble_branchless h) OR hex_decode_nibble_branchless l"
  have "hex_tail s (j + 1) (p[j := ?x]) = (True, put_at (j + 1) cs (p[j := ?x]))"
    using 1 cs ok by (intro "1.IH") auto
  moreover have "put_at (j + 1) cs (p[j := ?x]) = put_at j bs p"
    using 1 cs put_at_put_at_adjacent[of j "[?x]" cs p] by (simp add: list_update_put_at)
  ultimately show ?case
    using ok by simp
qed auto

lemma hex_tail_None:
  "hex_decode s = None \<Longrightarrow> even (length s) \<Longrightarrow> \<not> fst (hex_tail s j p)"
  by (induction s j p rule: hex_tail.induct) (auto simp: hex_decode_step split: if_splits)

lemma hex_swar_loop_step:
  assumes "8 \<le> length s" "\<forall>b\<in>set s. unat b < 0xba"
  shows "hex_swar_loop s j p =
    (if list_all hex_ok (take 8 s)
     then hex_swar_loop (drop 8 s) (j + 4) (put_at j (the (hex_decode (take 8 s))) p)
     else (False, p))"
proof -
  obtain a b c d e f g h where s: "take 8 s = [a, b, c, d, e, f, g, h]"
    using list8_cases[of "take 8 s"] assms(1) by auto
  have "\<forall>x\<in>set (take 8 s). unat x < 0xba"
    using assms(2) by (meson in_set_takeD)
  then have iff: "hex_swar_invalid_mask (le_load (take 8 s)) = 0 \<longleftrightarrow> list_all hex_ok (take 8 s)"
    using assms(1) by (intro hex_swar_invalid_mask_iff) auto
  have byt: "(ucast (drop_bit (16 * k) (hex_swar_pack (le_load (take 8 s)))) :: u8) =
      push_bit 4 (hex_decode_nibble_branchless (take 8 s ! (2 * k)))
        OR hex_decode_nibble_branchless (take 8 s ! (2 * k + 1))" if "k < 4" for k
    using hex_swar_pack_byte[OF _ that, of "take 8 s"] assms(1) by simp
  note b4 = byt[of 0, unfolded s] byt[of 1, unfolded s] byt[of 2, unfolded s] byt[of 3, unfolded s]
  show ?thesis
    using assms(1) b4 iff unfolding s
    by (subst hex_swar_loop.simps) (auto simp: Let_def s hex_decode_step)
qed

lemma hex_decode_append8:
  "8 \<le> length s \<Longrightarrow> hex_decode s =
    (if list_all hex_ok (take 8 s)
     then map_option ((@) (the (hex_decode (take 8 s)))) (hex_decode (drop 8 s)) else None)"
proof -
  assume "8 \<le> length s"
  then obtain a b c d e f g h where s: "take 8 s = [a, b, c, d, e, f, g, h]"
    using list8_cases[of "take 8 s"] by auto
  have "hex_decode (take 8 s @ drop 8 s) =
    (if list_all hex_ok (take 8 s)
     then map_option ((@) (the (hex_decode (take 8 s)))) (hex_decode (drop 8 s)) else None)"
    unfolding s by (cases "hex_decode (drop 8 s)") (auto simp: hex_decode_step)
  then show ?thesis by simp
qed

lemma length_hex_decode: "hex_decode s = Some bs \<Longrightarrow> length s = 2 * length bs"
  by (induction s arbitrary: bs rule: hex_decode.induct) (auto simp: hex_decode_step split: if_splits)

lemma hex_swar_loop_Some:
  assumes "hex_decode s = Some bs" "\<forall>b\<in>set s. unat b < 0xba" "j + length bs \<le> length p"
  shows "hex_swar_loop s j p = (True, put_at j bs p)"
  using assms
proof (induction "length s" arbitrary: s j p bs rule: less_induct)
  case less
  show ?case
  proof (cases "length s < 8")
    case True
    with less.prems show ?thesis by (subst hex_swar_loop.simps) (simp add: hex_tail_Some)
  next
    case False
    let ?hd = "the (hex_decode (take 8 s))"
    obtain cs where cs: "list_all hex_ok (take 8 s)" "hex_decode (drop 8 s) = Some cs" "bs = ?hd @ cs"
      using False less.prems by (auto simp: hex_decode_append8[of s] split: if_splits)
    have len: "length ?hd = 4"
    proof -
      have "length bs = length ?hd + length cs" using cs(3) by (metis length_append)
      then show ?thesis
        using length_hex_decode[OF less.prems(1)] length_hex_decode[OF cs(2)] False
        unfolding length_drop by linarith
    qed
    have "hex_swar_loop (drop 8 s) (j + 4) (put_at j ?hd p)
        = (True, put_at (j + 4) cs (put_at j ?hd p))"
      using False less.prems cs len
      by (intro less.hyps) (auto dest: in_set_dropD simp: length_put_at)
    then show ?thesis
      using False less.prems cs len put_at_put_at_adjacent[of j ?hd cs p]
      by (simp add: hex_swar_loop_step)
  qed
qed

lemma hex_swar_loop_None:
  assumes "hex_decode s = None" "even (length s)" "\<forall>b\<in>set s. unat b < 0xba"
  shows "\<not> fst (hex_swar_loop s j p)"
  using assms
proof (induction "length s" arbitrary: s j p rule: less_induct)
  case less
  show ?case
  proof (cases "length s < 8")
    case True
    with less.prems show ?thesis by (subst hex_swar_loop.simps) (simp add: hex_tail_None)
  next
    case False
    show ?thesis
    proof (cases "list_all hex_ok (take 8 s)")
      case True
      then have "hex_decode (drop 8 s) = None"
        using False less.prems by (auto simp: hex_decode_append8[of s])
      then have "\<not> fst (hex_swar_loop (drop 8 s) (j + 4) (put_at j (the (hex_decode (take 8 s))) p))"
        using False less.prems by (intro less.hyps) (auto dest: in_set_dropD)
      then show ?thesis
        using False True less.prems by (simp add: hex_swar_loop_step)
    qed (use False less.prems in \<open>simp add: hex_swar_loop_step\<close>)
  qed
qed

text \<open>The two digits \<open>bin2hex\<close> prints for a byte are read back as that byte.\<close>

lemma hexdig_facts:
  "d < 16 \<Longrightarrow> hex_ok (hexdig d) \<and> hex_decode_nibble_branchless (hexdig d) = d \<and> unat (hexdig d) < 0xba"
proof -
  assume "d < 16"
  then have "unat d \<in> set [0..<16]" by (simp add: word_less_nat_alt)
  moreover have "list_all (\<lambda>n. let d = word_of_nat n in hex_ok (hexdig d) \<and>
      hex_decode_nibble_branchless (hexdig d) = d \<and> unat (hexdig d) < 0xba) [0..<16]"
    by code_simp
  ultimately show ?thesis
    unfolding list_all_iff by (auto simp: Let_def dest!: bspec[of _ _ "unat d"])
qed

lemma nibble_split:
  "push_bit 4 (drop_bit 4 b) OR (b AND 0x0f) = (b :: u8)" "drop_bit 4 b < 16" "b AND 0x0f < 16"
proof -
  have m: "b AND 0x0f = take_bit 4 b"
    by (simp add: take_bit_eq_mask mask_eq_exp_minus_1)
  show "push_bit 4 (drop_bit 4 b) OR (b AND 0x0f) = b"
    unfolding m by (rule bit_word_eqI) (auto simp: bit_simps)
  show "drop_bit 4 b < 16"
  proof -
    have "unat (drop_bit 4 b) = unat b div 16"
      by (subst unat_drop_bit_eq) (simp add: drop_bit_eq_div)
    then show ?thesis
      using unat_u8_less[of b] by (simp add: word_less_nat_alt)
  qed
  show "b AND 0x0f < 16"
    by (simp add: word_less_nat_alt u8_and_0f)
qed

lemma hex_decode_fmt: "hex_decode (fmt02x b @ s) = map_option ((#) b) (hex_decode s)"
  by (simp add: fmt02x_def hex_decode_step hexdig_facts nibble_split)

lemma fmt02x_small: "c \<in> set (fmt02x b) \<Longrightarrow> unat c < 0xba"
  by (auto simp: fmt02x_def hexdig_facts nibble_split)

lemma length_fmt02x [simp]: "length (fmt02x b) = 2"
  by (simp add: fmt02x_def)

lemma bin2hex_loop_eq: "i + m \<le> length p \<Longrightarrow> bin2hex_loop p i m = concat (map fmt02x (seg i m p))"
  by (induction m arbitrary: i) (auto simp: seg_def simp flip: Cons_nth_drop_Suc)

lemma bin2hex_eq: "len \<le> length p \<Longrightarrow> bin2hex p len = concat (map fmt02x (take len p))"
  by (simp add: bin2hex_def bin2hex_loop_eq seg_def)

lemma bebin2hex_loop_eq:
  "len \<le> length p \<Longrightarrow> bebin2hex_loop p len = concat (map fmt02x (rev (take len p)))"
  by (induction len) (auto simp: take_Suc_conv_app_nth)

lemma hex_decode_concat: "hex_decode (concat (map fmt02x bs)) = Some bs"
  by (induction bs) (auto simp: hex_decode_fmt)

lemma length_concat_fmt: "length (concat (map fmt02x bs)) = 2 * length bs"
  by (induction bs) auto

lemma put_at_replicate: "len \<le> length p \<Longrightarrow> length bs \<le> len \<Longrightarrow>
  put_at 0 bs (put_at 0 (replicate len 0) p) = bs @ replicate (len - length bs) 0 @ drop len p"
  by (auto simp: put_at_def drop_replicate)

text \<open>C33: on a string whose bytes are all below 0xba (every ASCII string is), \<open>hex2bin\<close>
  decides exactly what the digit-by-digit reference decides: it succeeds when the string is an
  even number of hexadecimal digits that fits the buffer, and then the buffer holds the decoded
  bytes, zero padded to \<open>len\<close>.\<close>

theorem hex2bin_correct:
  assumes "\<forall>b\<in>set s. unat b < 0xba" "len \<le> length p"
  shows "case hex_decode s of
      Some bs \<Rightarrow>
        if length bs \<le> len
        then hex2bin p (Some s) len = (True, bs @ replicate (len - length bs) 0 @ drop len p)
        else \<not> fst (hex2bin p (Some s) len)
    | None \<Rightarrow> \<not> fst (hex2bin p (Some s) len)"
proof (cases "hex_decode s")
  case None
  then show ?thesis
    using assms by (auto simp: hex2bin_def hex_swar_loop_None mod2_eq_if split: if_splits)
next
  case (Some bs)
  let ?p = "put_at 0 (replicate len 0) p"
  have "hex_swar_loop s 0 ?p = (True, put_at 0 bs ?p)" if "length bs \<le> len"
    using Some assms that by (intro hex_swar_loop_Some) (auto simp: length_put_at)
  then show ?thesis
    using Some assms length_hex_decode[OF Some] by (auto simp: hex2bin_def put_at_replicate)
qed

theorem hex2bin_correct_witness:
  "hex2bin [9, 9, 9, 9, 9, 9] (Some (cstr ''00fFa0B17d'')) 6 = (True, [0, 0xff, 0xa0, 0xb1, 0x7d, 0])"
proof -
  have "\<forall>b\<in>set (cstr ''00fFa0B17d''). unat b < 0xba" by code_simp
  moreover have "hex_decode (cstr ''00fFa0B17d'') = Some [0, 0xff, 0xa0, 0xb1, 0x7d]" by code_simp
  ultimately show ?thesis
    using hex2bin_correct[of "cstr ''00fFa0B17d''" 6 "[9, 9, 9, 9, 9, 9]"] by (simp split: if_splits)
qed

text \<open>C34: what \<open>bin2hex\<close> prints, \<open>hex2bin\<close> reads back.\<close>

theorem hex2bin_bin2hex:
  assumes "len \<le> length p" "length bs \<le> len"
  shows "hex2bin p (Some (bin2hex bs (length bs))) len
    = (True, bs @ replicate (len - length bs) 0 @ drop len p)"
  using hex_swar_loop_Some[of "bin2hex bs (length bs)" bs 0 "put_at 0 (replicate len 0) p"] assms
  by (auto simp: hex2bin_def bin2hex_eq hex_decode_concat length_concat_fmt fmt02x_small
      length_put_at put_at_replicate)

theorem hex2bin_bin2hex_witness:
  "hex2bin [9, 9, 9, 9, 9] (Some (bin2hex [0xde, 0xad, 0xbe, 0xef] 4)) 5 = (True, [0xde, 0xad, 0xbe, 0xef, 0])"
  using hex2bin_bin2hex[of 5 "[9, 9, 9, 9, 9]" "[0xde, 0xad, 0xbe, 0xef]"] by (simp add: eval_nat_numeral)

lemma bebin2hex_reverses:
  "len \<le> length p \<Longrightarrow> bebin2hex True p len = Some (bin2hex (rev (take len p)) len)"
  by (simp add: bebin2hex_def bebin2hex_loop_eq bin2hex_eq)

text \<open>Above that bound the carries of the eight-byte test reach the next lane: a chunk
  holding the bytes 0xff is accepted although it is no hexadecimal string, while the scalar tail
  rejects the same characters.\<close>

theorem hex2bin_accepts_non_hex:
  "fst (hex2bin [0, 0, 0, 0] (Some (replicate 8 0xff)) 4) \<and> hex_decode (replicate 8 0xff) = None
     \<and> \<not> fst (hex2bin [0, 0, 0, 0] (Some (replicate 6 0xff)) 4)"
  by code_simp

end
