(* ===== verification/Soj_Target.thy ===== *)
theory Soj_Target
  imports Soj_Hex Complex_Main
begin

text \<open>Targets and difficulties, from \<open>util.c\<close> and \<open>soj_protocol.c\<close>: the 256-bit
  comparison \<open>valid_hash\<close> (both the \<open>__int128\<close> build and the 64-bit build), the
  conversions \<open>diff_to_hash\<close> and \<open>hash_to_diff\<close>, and the two readings of the compact
  \<open>nbits\<close> field.  A floating-point value is the rational it stands for, and the rounding of
  the hardware is a parameter: \<open>rl\<close> rounds to \<open>long double\<close>, \<open>rd\<close> to
  \<open>double\<close>.  Dividing by zero, which the hardware answers with an infinity, is
  \<open>None\<close>.\<close>

section \<open>Comparing a hash with its target\<close>

text \<open>\<open>((const uint128_t *)p)[i]\<close> and \<open>((const uint64_t *)p)[i]\<close>.\<close>

definition load128 :: "bytes \<Rightarrow> nat \<Rightarrow> 128 word" where
  "load128 p i = le_load (seg (16 * i) 16 p)"

definition load64 :: "bytes \<Rightarrow> nat \<Rightarrow> u64" where
  "load64 p i = le_load (seg (8 * i) 8 p)"

definition valid_hash :: "bytes \<Rightarrow> bytes \<Rightarrow> bool" where
  "valid_hash hash target =
    (let h1 = load128 hash 1; t1 = load128 target 1
     in if h1 \<noteq> t1 then h1 < t1 else load128 hash 0 \<le> load128 target 0)"

definition valid_hash_64 :: "bytes \<Rightarrow> bytes \<Rightarrow> bool" where
  "valid_hash_64 hash target =
    (let h3 = load64 hash 3; t3 = load64 target 3 in
     if h3 \<noteq> t3 then h3 < t3 else
     let h2 = load64 hash 2; t2 = load64 target 2 in
     if h2 \<noteq> t2 then h2 < t2 else
     let h1 = load64 hash 1; t1 = load64 target 1 in
     if h1 \<noteq> t1 then h1 < t1 else load64 hash 0 \<le> load64 target 0)"

text \<open>The number 32 little-endian bytes stand for.\<close>

fun le_nat :: "bytes \<Rightarrow> nat" where
  "le_nat [] = 0"
| "le_nat (b # bs) = unat b + 256 * le_nat bs"

lemma le_nat_less: "le_nat bs < 256 ^ length bs"
proof (induction bs)
  case (Cons b bs)
  have "unat b < 256" by (rule unat_u8_less)
  then have "unat b + 256 * le_nat bs < 256 * Suc (le_nat bs)" by simp
  also have "\<dots> \<le> 256 * 256 ^ length bs"
    using Cons.IH by (intro mult_left_mono) auto
  finally show ?case by simp
qed simp

lemma unat_le_load:
  "8 * length bs \<le> LENGTH('a::len) \<Longrightarrow> unat (le_load bs :: 'a word) = le_nat bs"
proof -
  assume len: "8 * length bs \<le> LENGTH('a)"
  have "(le_load bs :: 'a word) = of_nat (le_nat bs)"
    by (induction bs) (simp_all add: of_nat_unat)
  moreover have "le_nat bs < 2 ^ LENGTH('a)"
  proof -
    have "(256 :: nat) ^ length bs = 2 ^ (8 * length bs)"
      by (simp add: power_mult)
    also have "\<dots> \<le> 2 ^ LENGTH('a)"
      using len by (intro power_increasing) auto
    finally show ?thesis using le_nat_less[of bs] by linarith
  qed
  ultimately show ?thesis by (simp add: unat_of_nat)
qed

lemma le_nat_append: "le_nat (as @ bs) = le_nat as + 256 ^ length as * le_nat bs"
  by (induction as) (auto simp: algebra_simps)

lemma lex_step:
  fixes a b c d m :: nat
  assumes "a < m" "c < m"
  shows "(if b \<noteq> d then b < d else a \<le> c) \<longleftrightarrow> a + m * b \<le> c + m * d"
proof (cases b d rule: linorder_cases)
  case less
  then have "m * b + m \<le> m * d"
    by (metis Suc_leI mult_le_mono2 mult_Suc_right add.commute)
  with less assms show ?thesis by simp
next
  case greater
  then have "m * d + m \<le> m * b"
    by (metis Suc_leI mult_le_mono2 mult_Suc_right add.commute)
  with greater assms show ?thesis by simp
qed simp

lemma lex_strict_step:
  fixes a b c d m :: nat
  assumes "a < m" "c < m"
  shows "(if b \<noteq> d then b < d else if a \<noteq> c then a < c else Q) \<longleftrightarrow>
    (if a + m * b \<noteq> c + m * d then a + m * b < c + m * d else Q)"
  using lex_step[OF assms, of b d] lex_step[OF assms(2,1), of d b] by (cases "b = d") auto

lemma segs4: "length p = 32 \<Longrightarrow>
  p = seg 0 8 p @ seg 8 8 p @ seg 16 8 p @ seg 24 8 p"
  using seg_join[of 0 8 p 8] seg_join[of 0 16 p 8] seg_join[of 0 24 p 8] seg_all[of p 32]
  by (simp flip: append_assoc)

lemma segs2: "length p = 32 \<Longrightarrow> p = seg 0 16 p @ seg 16 16 p"
  using seg_join[of 0 16 p 16] seg_all[of p 32] by simp

lemma le_nat_halves:
  assumes "length p = 32"
  shows "le_nat p = unat (load128 p 0) + 2 ^ 128 * unat (load128 p 1)"
    "unat (load128 p 0) < 2 ^ 128"
proof -
  have "unat (load128 p 0) = le_nat (seg 0 16 p)" "unat (load128 p 1) = le_nat (seg 16 16 p)"
    unfolding load128_def using assms by (subst unat_le_load; simp add: length_seg)+
  moreover have "le_nat p = le_nat (seg 0 16 p) + 2 ^ 128 * le_nat (seg 16 16 p)"
    by (subst (1) segs2[OF assms]) (simp add: le_nat_append length_seg assms)
  ultimately show "le_nat p = unat (load128 p 0) + 2 ^ 128 * unat (load128 p 1)" by simp
  show "unat (load128 p 0) < 2 ^ 128"
    using unsigned_less[of "load128 p 0"] by simp
qed

lemma unat_load64:
  "length p = 32 \<Longrightarrow> i < 4 \<Longrightarrow> unat (load64 p i) = le_nat (seg (8 * i) 8 p)"
  unfolding load64_def by (subst unat_le_load) (simp_all add: length_seg)

lemma le_nat_quarters:
  assumes "length p = 32"
  shows "le_nat p = unat (load64 p 0) + 2 ^ 64 * (unat (load64 p 1)
    + 2 ^ 64 * (unat (load64 p 2) + 2 ^ 64 * unat (load64 p 3)))"
  by (subst segs4[OF assms])
    (simp add: unat_load64 assms le_nat_append length_seg)

lemma unat_load64_less: "unat (load64 p i) < 2 ^ 64"
  using unsigned_less[of "load64 p i"] by simp

lemma valid_hash_le_nat:
  assumes "length h = 32" "length t = 32"
  shows "(valid_hash h t \<longleftrightarrow> le_nat h \<le> le_nat t) \<and> (valid_hash_64 h t \<longleftrightarrow> le_nat h \<le> le_nat t)"
proof
  have *: "x \<noteq> y \<longleftrightarrow> unat x \<noteq> unat y" for x y :: "'a::len word"
    by (simp add: word_unat_eq_iff)
  show "valid_hash h t \<longleftrightarrow> le_nat h \<le> le_nat t"
    unfolding valid_hash_def Let_def * word_less_nat_alt word_le_nat_alt
      le_nat_halves(1)[OF assms(1)] le_nat_halves(1)[OF assms(2)]
    by (rule lex_step) (use assms le_nat_halves(2) in auto)
  show "valid_hash_64 h t \<longleftrightarrow> le_nat h \<le> le_nat t"
    unfolding valid_hash_64_def Let_def * word_less_nat_alt word_le_nat_alt
      le_nat_quarters[OF assms(1)] le_nat_quarters[OF assms(2)]
    unfolding lex_strict_step[OF unat_load64_less[of h 2] unat_load64_less[of t 2]]
    unfolding lex_strict_step[OF unat_load64_less[of h 1] unat_load64_less[of t 1]]
    by (rule lex_step[OF unat_load64_less unat_load64_less])
qed

text \<open>C25: the share test \<open>valid_hash\<close> is the comparison of the 256-bit little-endian
  numbers, in the 128-bit build and in the 64-bit build.\<close>

theorem valid_hash_numeric:
  assumes "length h = 32" "length t = 32"
  shows "(valid_hash h t \<longleftrightarrow> le_nat h \<le> le_nat t) \<and> (valid_hash_64 h t \<longleftrightarrow> le_nat h \<le> le_nat t)"
  using assms by (rule valid_hash_le_nat)

theorem valid_hash_numeric_witness:
  "valid_hash (replicate 31 0xff @ [0]) (replicate 31 0 @ [1])
     \<and> \<not> valid_hash_64 (replicate 31 0 @ [1]) (replicate 31 0xff @ [0])"
proof -
  have "le_nat (replicate 31 0xff @ [0]) < le_nat (replicate 31 0 @ [1])"
    using le_nat_less[of "replicate 31 0xff"] by (simp add: le_nat_append)
  then show ?thesis
    using valid_hash_numeric[of "replicate 31 0xff @ [0]" "replicate 31 0 @ [1]"]
      valid_hash_numeric[of "replicate 31 0 @ [1]" "replicate 31 0xff @ [0]"]
    by simp
qed

section \<open>Difficulty to target and back\<close>

text \<open>\<open>targ[0] = -1; targ[1] = (uint128_t) (m * exp96)\<close>: the low half is all ones, the
  high half the truncated quotient.  A result outside the range of \<open>uint128_t\<close> is undefined
  in C; here it wraps.\<close>

definition exp96 :: rat where "exp96 = 79228162514264337593543950336"

fun store_le :: "nat \<Rightarrow> nat \<Rightarrow> bytes" where
  "store_le 0 n = []"
| "store_le (Suc k) n = of_nat (n mod 256) # store_le k (n div 256)"

definition diff_to_hash :: "(rat \<Rightarrow> rat) \<Rightarrow> (rat \<Rightarrow> rat) \<Rightarrow> rat \<Rightarrow> bytes" where
  "diff_to_hash rl rd diff =
    (let m = rd (1 / diff);
         targ1 = nat \<lfloor>rl (m * exp96)\<rfloor>
     in replicate 16 0xff @ store_le 16 targ1)"

definition hash_to_diff :: "(rat \<Rightarrow> rat) \<Rightarrow> (rat \<Rightarrow> rat) \<Rightarrow> bytes \<Rightarrow> rat option" where
  "hash_to_diff rl rd target =
    (let m = rl (rl (of_nat (unat (load128 target 1))) / exp96)
     in if m = 0 then None else Some (rd (rl (1 / m))))"

lemma length_store_le [simp]: "length (store_le k n) = k"
  by (induction k arbitrary: n) auto

lemma le_nat_store_le: "le_nat (store_le k n) = n mod 256 ^ k"
proof (induction k arbitrary: n)
  case (Suc k)
  have "unat (of_nat (n mod 256) :: u8) = n mod 256"
    by (simp add: unat_of_nat)
  then show ?case
    using Suc by (simp add: mod_mult2_eq)
qed simp

text \<open>A higher difficulty never gives an easier target: every hash that meets the target of
  \<open>d2\<close> meets the target of any \<open>d1\<close> below it, for any monotone rounding and as long as
  the quotient fits the 128-bit field.\<close>

theorem diff_to_hash_antitone:
  assumes mono: "mono rl" "mono rd"
    and d: "0 < d1" "d1 \<le> d2"
    and fits: "rl (rd (1 / d1) * exp96) < 2 ^ 128"
    and h: "length h = 32" "valid_hash h (diff_to_hash rl rd d2)"
  shows "valid_hash h (diff_to_hash rl rd d1)"
proof -
  define t where "t d = nat \<lfloor>rl (rd (1 / d) * exp96)\<rfloor>" for d
  have val: "le_nat (diff_to_hash rl rd d) = le_nat (replicate 16 0xff) + 256 ^ 16 * (t d mod 256 ^ 16)"
    and len: "length (diff_to_hash rl rd d) = 32" for d
    by (simp_all add: diff_to_hash_def Let_def le_nat_append le_nat_store_le t_def)
  have "1 / d2 \<le> 1 / d1"
    using d by (simp add: frac_le)
  then have "rd (1 / d2) * exp96 \<le> rd (1 / d1) * exp96"
    using monoD[OF mono(2)] by (intro mult_right_mono) (auto simp: exp96_def)
  then have le: "rl (rd (1 / d2) * exp96) \<le> rl (rd (1 / d1) * exp96)"
    by (rule monoD[OF mono(1)])
  then have "t d2 \<le> t d1"
    unfolding t_def by (intro nat_mono floor_mono)
  moreover have "t d1 < 256 ^ 16"
  proof -
    have "\<lfloor>rl (rd (1 / d1) * exp96)\<rfloor> < 2 ^ 128"
      using fits by (simp add: floor_less_iff)
    then show ?thesis by (cases "0 \<le> \<lfloor>rl (rd (1 / d1) * exp96)\<rfloor>") (auto simp: t_def nat_less_iff)
  qed
  ultimately have "le_nat (diff_to_hash rl rd d2) \<le> le_nat (diff_to_hash rl rd d1)"
    unfolding val by simp
  then show ?thesis
    using valid_hash_le_nat[of h "diff_to_hash rl rd d2"] valid_hash_le_nat[of h "diff_to_hash rl rd d1"]
      h len by auto
qed

theorem diff_to_hash_antitone_witness:
  "valid_hash (replicate 32 0) (diff_to_hash (\<lambda>x. x) (\<lambda>x. x) 1)"
proof (rule diff_to_hash_antitone[of "\<lambda>x. x" "\<lambda>x. x" 1 2])
  show "valid_hash (replicate 32 0) (diff_to_hash (\<lambda>x. x) (\<lambda>x. x) 2)"
  proof -
    have "le_nat (replicate n 0) = 0" for n
      by (induction n) auto
    then show ?thesis
      using valid_hash_le_nat[of "replicate 32 0" "diff_to_hash (\<lambda>x. x) (\<lambda>x. x) 2"]
      by (simp add: diff_to_hash_def)
  qed
qed (simp_all add: mono_def exp96_def)

section \<open>The compact difficulty\<close>

definition fdiv :: "(rat \<Rightarrow> rat) \<Rightarrow> rat \<Rightarrow> rat \<Rightarrow> rat option" where
  "fdiv rl a b = (if b = 0 then None else Some (rl (a / b)))"

definition nbits_to_diff :: "(rat \<Rightarrow> rat) \<Rightarrow> (rat \<Rightarrow> rat) \<Rightarrow> u32 \<Rightarrow> rat option" where
  "nbits_to_diff rl rd nbits =
    (let shift = unat (nbits AND 0xff);
         bits = unat (bswap32 nbits AND 0x00ffffff);
         shift_off = int shift - 29
     in map_option rd
       (if shift_off \<ge> -13 \<and> shift_off \<le> 12 then
          (if shift_off = 0 then fdiv rl 0xffff (of_nat bits)
           else if shift_off < 0
           then fdiv rl (rl (of_nat (0xffff * 2 ^ (nat (- shift_off) * 8)))) (of_nat bits)
           else fdiv rl 0xffff (rl (of_nat (bits * 2 ^ (nat shift_off * 8)))))
        else Some (((\<lambda>d. rl (d / 256)) ^^ (shift - 29)) (((\<lambda>d. rl (d * 256)) ^^ (29 - shift)) 0))))"

definition nbits_to_diff_clean :: "(rat \<Rightarrow> rat) \<Rightarrow> (rat \<Rightarrow> rat) \<Rightarrow> u32 \<Rightarrow> rat" where
  "nbits_to_diff_clean rl rd nbits =
    (let shift = unat (drop_bit 24 nbits);
         mantissa = unat (nbits AND 0x00ffffff)
     in if mantissa = 0 then 0 else
       let max_target_nbits = (0x1d00ffff :: u32);
           max_shift = unat (drop_bit 24 max_target_nbits);
           max_mantissa = unat (max_target_nbits AND 0x00ffffff);
           difficulty = rl (of_nat max_mantissa / of_nat mantissa);
           shift_diff = int max_shift - int shift
       in rd (if shift_diff > 0 then ((\<lambda>d. rl (d * 256)) ^^ nat shift_diff) difficulty
              else if shift_diff < 0 then ((\<lambda>d. rl (d / 256)) ^^ nat (- shift_diff)) difficulty
              else difficulty))"

lemma funpow_mult: "((\<lambda>d. d * c) ^^ n) x = x * (c :: rat) ^ n"
  by (induction n) auto

lemma funpow_divide: "((\<lambda>d. d / c) ^^ n) x = x / (c :: rat) ^ n"
  by (induction n) (auto simp: field_simps)

lemma swapped_shift: "bswap32 n AND 0xff = drop_bit 24 n"
proof (rule bit_word_eqI)
  fix k assume "k < LENGTH(32)"
  then show "bit (bswap32 n AND 0xff) k = bit (drop_bit 24 n) k"
    by (auto simp: bit_simps bit_int_255 bit_bswap32 flip_pos_def add.commute dest: bit_imp_le_length)
qed

text \<open>For exponent bytes 16 to 41, the range of its fast path, the difficulty that
  \<open>nbits_to_diff\<close> computes from the field as it lies in the work buffer is the one that
  \<open>nbits_to_diff_clean\<close> computes from the decoded field, up to floating-point rounding.\<close>

theorem nbits_readings_agree:
  assumes "16 \<le> unat (drop_bit 24 n)" "unat (drop_bit 24 n) \<le> 41" "n AND 0x00ffffff \<noteq> 0"
  shows "nbits_to_diff (\<lambda>x. x) (\<lambda>x. x) (bswap32 n) = Some (nbits_to_diff_clean (\<lambda>x. x) (\<lambda>x. x) n)"
proof -
  define s where "s = unat (drop_bit 24 n)"
  define m where "m = unat (n AND 0x00ffffff)"
  have m: "m \<noteq> 0" "16 \<le> s" "s \<le> 41"
    using assms by (auto simp: s_def m_def word_unat_eq_iff)
  have pow: "(2 :: rat) ^ (8 * k) = 256 ^ k" for k
    by (simp add: power_mult)
  have max: "unat (drop_bit 24 (0x1d00ffff :: u32)) = 29" "unat ((0x1d00ffff :: u32) AND 0x00ffffff) = 0xffff"
    by simp_all
  show ?thesis
    unfolding nbits_to_diff_def nbits_to_diff_clean_def Let_def swapped_shift bswap32_invol max
      s_def[symmetric] m_def[symmetric] fdiv_def
    using m by (auto simp: funpow_mult funpow_divide pow of_nat_diff mult.commute[of _ 8] field_simps)
qed

theorem nbits_readings_agree_witness:
  "nbits_to_diff (\<lambda>x. x) (\<lambda>x. x) (bswap32 0x1b0404cb) = Some (nbits_to_diff_clean (\<lambda>x. x) (\<lambda>x. x) 0x1b0404cb)"
  by (rule nbits_readings_agree) code_simp+

text \<open>Outside that range the loop of \<open>nbits_to_diff\<close> scales the value 0, so the
  difficulty it reports is 0 whatever the mantissa; \<open>nbits_to_diff_clean\<close> does scale the
  quotient.\<close>

theorem nbits_slow_path_zero:
  "nbits_to_diff (\<lambda>x. x) (\<lambda>x. x) (bswap32 0x0f00ffff) = Some 0
     \<and> nbits_to_diff_clean (\<lambda>x. x) (\<lambda>x. x) 0x0f00ffff = 256 ^ 14"
proof -
  have c: "unat (drop_bit 24 (0x0f00ffff :: u32)) = 15" "unat ((0x0f00ffff :: u32) AND 0x00ffffff) = 0xffff"
    "unat (drop_bit 24 (0x1d00ffff :: u32)) = 29" "unat ((0x1d00ffff :: u32) AND 0x00ffffff) = 0xffff"
    by simp_all
  show ?thesis
    unfolding nbits_to_diff_def nbits_to_diff_clean_def Let_def swapped_shift bswap32_invol c
    by (simp add: funpow_mult funpow_divide)
qed

end
