(* ===== verification/Soj_Sha256.thy ===== *)
theory Soj_Sha256
  imports Soj_Endian
begin

text \<open>SHA-256 as yespower uses it (\<open>yespower_sha256.c\<close>): the compression function with
  its rotating working array, the incremental context, the padding, and the four-block vector
  codecs.  The scratch array \<open>tmp32\<close> is written before it is read in every call, so the
  model gives each call zeroed arrays; the wiping of the stack is left out.  The specification
  is FIPS 180-4: the functions \<open>fips_*\<close> below.  The locale \<open>incremental_hash\<close> is
  the contract of an init/update/final interface.\<close>

section \<open>Vector codecs\<close>

text \<open>The \<open>do ... while (--len)\<close> loops, two words at a time; they are only called with
  \<open>len > 0\<close>.\<close>

fun be32enc_vect :: "u32 list \<Rightarrow> nat \<Rightarrow> bytes" where
  "be32enc_vect src 0 = []"
| "be32enc_vect src (Suc len) =
     be32enc (src ! 0) @ be32enc (src ! 1) @ be32enc_vect (drop 2 src) len"

fun be32dec_vect :: "bytes \<Rightarrow> nat \<Rightarrow> u32 list" where
  "be32dec_vect src 0 = []"
| "be32dec_vect src (Suc len) =
     be32dec src # be32dec (drop 4 src) # be32dec_vect (drop 8 src) len"

section \<open>The compression function\<close>

definition Krnd :: "u32 list" where
  "Krnd =
    [0x428a2f98, 0x71374491, 0xb5c0fbcf, 0xe9b5dba5, 0x3956c25b, 0x59f111f1, 0x923f82a4, 0xab1c5ed5] @
    [0xd807aa98, 0x12835b01, 0x243185be, 0x550c7dc3, 0x72be5d74, 0x80deb1fe, 0x9bdc06a7, 0xc19bf174] @
    [0xe49b69c1, 0xefbe4786, 0x0fc19dc6, 0x240ca1cc, 0x2de92c6f, 0x4a7484aa, 0x5cb0a9dc, 0x76f988da] @
    [0x983e5152, 0xa831c66d, 0xb00327c8, 0xbf597fc7, 0xc6e00bf3, 0xd5a79147, 0x06ca6351, 0x14292967] @
    [0x27b70a85, 0x2e1b2138, 0x4d2c6dfc, 0x53380d13, 0x650a7354, 0x766a0abb, 0x81c2c92e, 0x92722c85] @
    [0xa2bfe8a1, 0xa81a664b, 0xc24b8b70, 0xc76c51a3, 0xd192e819, 0xd6990624, 0xf40e3585, 0x106aa070] @
    [0x19a4c116, 0x1e376c08, 0x2748774c, 0x34b0bcb5, 0x391c0cb3, 0x4ed8aa4a, 0x5b9cca4f, 0x682e6ff3] @
    [0x748f82ee, 0x78a5636f, 0x84c87814, 0x8cc70208, 0x90befffa, 0xa4506ceb, 0xbef9a3f7, 0xc67178f2]"

definition Ch :: "u32 \<Rightarrow> u32 \<Rightarrow> u32 \<Rightarrow> u32" where
  "Ch x y z = (x AND (y XOR z)) XOR z"

definition SHR :: "u32 \<Rightarrow> nat \<Rightarrow> u32" where "SHR x n = drop_bit n x"
definition ROTR :: "u32 \<Rightarrow> nat \<Rightarrow> u32" where "ROTR x n = drop_bit n x OR push_bit (32 - n) x"
definition S0 :: "u32 \<Rightarrow> u32" where "S0 x = ROTR x 2 XOR ROTR x 13 XOR ROTR x 22"
definition S1 :: "u32 \<Rightarrow> u32" where "S1 x = ROTR x 6 XOR ROTR x 11 XOR ROTR x 25"
definition s0 :: "u32 \<Rightarrow> u32" where "s0 x = ROTR x 7 XOR ROTR x 18 XOR SHR x 3"
definition s1 :: "u32 \<Rightarrow> u32" where "s1 x = ROTR x 17 XOR ROTR x 19 XOR SHR x 10"

text \<open>\<open>RND\<close> with the cached \<open>y_xor_z\<close> of \<open>Maj\<close>; the arguments are positions in
  \<open>S\<close>.\<close>

definition RND :: "nat \<Rightarrow> nat \<Rightarrow> nat \<Rightarrow> nat \<Rightarrow> nat \<Rightarrow> nat \<Rightarrow> nat \<Rightarrow> nat \<Rightarrow> u32 \<Rightarrow>
    u32 list \<times> u32 \<Rightarrow> u32 list \<times> u32" where
  "RND a b c d e f g h k st =
    (case st of (S, y_xor_z) \<Rightarrow>
      let S = S[h := S ! h + (S1 (S ! e) + Ch (S ! e) (S ! f) (S ! g) + k)];
          S = S[d := S ! d + S ! h];
          x_xor_y = S ! a XOR S ! b;
          S = S[h := S ! h + (S0 (S ! a) + (S ! b XOR (x_xor_y AND y_xor_z)))]
      in (S, x_xor_y))"

definition RNDr :: "u32 list \<Rightarrow> nat \<Rightarrow> nat \<Rightarrow> u32 list \<times> u32 \<Rightarrow> u32 list \<times> u32" where
  "RNDr W i ii =
    RND ((64 - i) mod 8) ((65 - i) mod 8) ((66 - i) mod 8) ((67 - i) mod 8)
        ((68 - i) mod 8) ((69 - i) mod 8) ((70 - i) mod 8) ((71 - i) mod 8)
        (W ! (i + ii) + Krnd ! (i + ii))"

definition MSCH :: "nat \<Rightarrow> nat \<Rightarrow> u32 list \<Rightarrow> u32 list" where
  "MSCH ii i W =
    W[i + ii + 16 := s1 (W ! (i + ii + 14)) + W ! (i + ii + 9) + s0 (W ! (i + ii + 1)) + W ! (i + ii)]"

definition mix_rounds :: "u32 list \<Rightarrow> nat \<Rightarrow> u32 list \<Rightarrow> u32 list" where
  "mix_rounds W i S =
    fst (fold (\<lambda>r. RNDr W r i) [0..<16] (S, S ! ((65 - i) mod 8) XOR S ! ((66 - i) mod 8)))"

definition msch_rounds :: "nat \<Rightarrow> u32 list \<Rightarrow> u32 list" where
  "msch_rounds i W = fold (\<lambda>r. MSCH r i) [0..<16] W"

text \<open>The loop \<open>for (i = 0; i < 64; i += 16)\<close>, left by the \<open>break\<close> at 48.\<close>

function mix_loop :: "nat \<Rightarrow> u32 list \<Rightarrow> u32 list \<Rightarrow> u32 list" where
  "mix_loop i W S =
    (if i < 64 then
       let S = mix_rounds W i S
       in if i = 48 then S else mix_loop (i + 16) (msch_rounds i W) S
     else S)"
  by auto
termination by (relation "measure (\<lambda>(i, W, S). 64 - i)") auto

declare mix_loop.simps [simp del]

definition SHA256_Transform :: "u32 list \<Rightarrow> bytes \<Rightarrow> u32 list" where
  "SHA256_Transform state block =
    (let W = put_at 0 (be32dec_vect block 8) (replicate 64 0);
         S = state;
         S = mix_loop 0 W S
     in map2 (+) state S)"

section \<open>The context\<close>

record SHA256_CTX =
  state :: "u32 list"
  count :: u64
  buf :: bytes

definition PAD :: bytes where "PAD = 0x80 # replicate 63 0"

definition initial_state :: "u32 list" where
  "initial_state = [0x6A09E667, 0xBB67AE85, 0x3C6EF372, 0xA54FF53A,
     0x510E527F, 0x9B05688C, 0x1F83D9AB, 0x5BE0CD19]"

text \<open>\<open>(ctx->count >> 3) & 0x3f\<close>.\<close>

definition buffered :: "SHA256_CTX \<Rightarrow> nat" where
  "buffered ctx = unat (drop_bit 3 (count ctx) AND 0x3f)"

definition SHA256_Pad :: "SHA256_CTX \<Rightarrow> SHA256_CTX" where
  "SHA256_Pad ctx =
    (let r = buffered ctx;
         ctx = (if r < 56 then ctx\<lparr>buf := put_at r (take (56 - r) PAD) (buf ctx)\<rparr>
           else let b = put_at r (take (64 - r) PAD) (buf ctx)
             in ctx\<lparr>state := SHA256_Transform (state ctx) b, buf := put_at 0 (replicate 56 0) b\<rparr>);
         b = put_at 56 (be64enc (count ctx)) (buf ctx)
     in ctx\<lparr>state := SHA256_Transform (state ctx) b, buf := b\<rparr>)"

text \<open>The bytes of \<open>buf\<close> are not initialised by \<open>Init\<close>: they are an argument.\<close>

definition YP_SHA256_Init :: "SHA256_CTX \<Rightarrow> SHA256_CTX" where
  "YP_SHA256_Init ctx = ctx\<lparr>count := 0, state := initial_state\<rparr>"

function update_blocks :: "u32 list \<Rightarrow> bytes \<Rightarrow> u32 list \<times> bytes" where
  "update_blocks st src =
    (if length src \<ge> 64 then update_blocks (SHA256_Transform st (take 64 src)) (drop 64 src)
     else (st, src))"
  by auto
termination by (relation "measure (\<lambda>(st, src). length src)") auto

declare update_blocks.simps [simp del]

definition YP_SHA256_Update :: "SHA256_CTX \<Rightarrow> bytes \<Rightarrow> SHA256_CTX" where
  "YP_SHA256_Update ctx src =
    (let len = length src in
     if len = 0 then ctx
     else
       let r = buffered ctx;
           ctx = ctx\<lparr>count := count ctx + push_bit 3 (of_nat len)\<rparr>
       in if len < 64 - r then ctx\<lparr>buf := put_at r src (buf ctx)\<rparr>
         else
           let b = put_at r (take (64 - r) src) (buf ctx);
               st = SHA256_Transform (state ctx) b;
               (st, rest) = update_blocks st (drop (64 - r) src)
           in ctx\<lparr>state := st, buf := put_at 0 rest b\<rparr>)"

definition YP_SHA256_Final :: "SHA256_CTX \<Rightarrow> bytes \<times> SHA256_CTX" where
  "YP_SHA256_Final ctx =
    (let ctx = SHA256_Pad ctx in (be32enc_vect (state ctx) 4, ctx))"

definition YP_SHA256_Buf :: "SHA256_CTX \<Rightarrow> bytes \<Rightarrow> bytes" where
  "YP_SHA256_Buf ctx src = fst (YP_SHA256_Final (YP_SHA256_Update (YP_SHA256_Init ctx) src))"

section \<open>FIPS 180-4\<close>

definition fips_Ch :: "u32 \<Rightarrow> u32 \<Rightarrow> u32 \<Rightarrow> u32" where
  "fips_Ch x y z = (x AND y) XOR (NOT x AND z)"

definition fips_Maj :: "u32 \<Rightarrow> u32 \<Rightarrow> u32 \<Rightarrow> u32" where
  "fips_Maj x y z = (x AND y) XOR (x AND z) XOR (y AND z)"

text \<open>Section 6.2.2, step 1: the schedule grows by one word at a time.\<close>

definition fips_extend :: "u32 list \<Rightarrow> u32 list" where
  "fips_extend w = (let t = length w in
     w @ [s1 (w ! (t - 2)) + w ! (t - 7) + s0 (w ! (t - 15)) + w ! (t - 16)])"

definition fips_schedule :: "bytes \<Rightarrow> u32 list" where
  "fips_schedule block = (fips_extend ^^ 48) (map be32dec (chunks 4 block))"

text \<open>Step 3, on the working variables a to h as a list.\<close>

fun fips_round :: "u32 \<Rightarrow> u32 \<Rightarrow> u32 list \<Rightarrow> u32 list" where
  "fips_round k w [a, b, c, d, e, f, g, h] =
    (let T1 = h + S1 e + fips_Ch e f g + k + w;
         T2 = S0 a + fips_Maj a b c
     in [T1 + T2, a, b, c, d + T1, e, f, g])"
| "fips_round k w v = v"

definition fips_compress :: "u32 list \<Rightarrow> bytes \<Rightarrow> u32 list" where
  "fips_compress H block =
    (let W = fips_schedule block
     in map2 (+) H (fold (\<lambda>t. fips_round (Krnd ! t) (W ! t)) [0..<64] H))"

definition fips_pad :: "nat \<Rightarrow> bytes" where
  "fips_pad len = 0x80 # replicate ((119 - len mod 64) mod 64) 0 @ be64enc (of_nat (8 * len))"

definition fips_sha256 :: "bytes \<Rightarrow> bytes" where
  "fips_sha256 m =
    concat (map be32enc (foldl fips_compress initial_state (chunks 64 (m @ fips_pad (length m)))))"

section \<open>The rotating array and the in-place schedule compute the FIPS function\<close>

lemma list8: "length S = 8 \<Longrightarrow> \<exists>a b c d e f g h. S = [a, b, c, d, e, f, g, h]"
  by (auto simp: length_Suc_conv numeral_eq_Suc)

lemma Ch_fips: "Ch x y z = fips_Ch x y z"
  unfolding Ch_def fips_Ch_def by (rule bit_eqI) (auto simp: bit_simps)

lemma Maj_fips: "y XOR ((x XOR y) AND (y XOR z)) = fips_Maj x y z"
  unfolding fips_Maj_def by (rule bit_eqI) (auto simp: bit_simps)

text \<open>The working variables after \<open>t\<close> rounds, in the rotating array.\<close>

definition vars :: "nat \<Rightarrow> u32 list \<Rightarrow> u32 list" where
  "vars t S = map (\<lambda>j. S ! ((64 - t mod 8 + j) mod 8)) [0..<8]"

lemma RNDr_fips:
  assumes "length S = 8" "r < 16"
  shows "let yz = vars r S ! 1 XOR vars r S ! 2; (S', yz') = RNDr W r ii (S, yz)
    in length S' = 8 \<and> vars (Suc r) S' = fips_round (Krnd ! (r + ii)) (W ! (r + ii)) (vars r S)
      \<and> yz' = vars (Suc r) S' ! 1 XOR vars (Suc r) S' ! 2"
proof -
  obtain a b c d e f g h where S: "S = [a, b, c, d, e, f, g, h]"
    using list8[OF assms(1)] by auto
  have "r \<in> {0,1,2,3,4,5,6,7,8,9,10,11,12,13,14,15}"
    using assms(2) unfolding insert_iff empty_iff by presburger
  then show ?thesis
    unfolding S
    apply (elim insertE emptyE)
    apply (simp_all add: vars_def RNDr_def RND_def Let_def upt_rec Ch_fips Maj_fips
        add.commute add.left_commute add.assoc)
    done
qed

lemma vars_mod: "t mod 8 = u mod 8 \<Longrightarrow> vars t S = vars u S"
  by (simp add: vars_def)

lemma mix_rounds_fold:
  assumes "length S = 8" "n \<le> 16" "8 dvd i"
  shows "let (S', yz') = fold (\<lambda>r. RNDr W r i) [0..<n] (S, S ! 1 XOR S ! 2)
    in length S' = 8 \<and> vars n S' = fold (\<lambda>t. fips_round (Krnd ! t) (W ! t)) [i..<i + n] S
      \<and> yz' = vars n S' ! 1 XOR vars n S' ! 2"
  using assms(2)
proof (induction n)
  case 0
  obtain a b c d e f g h where S: "S = [a, b, c, d, e, f, g, h]"
    using list8[OF assms(1)] by auto
  then show ?case by (simp add: vars_def upt_rec)
next
  case (Suc n)
  obtain S' yz' where f: "fold (\<lambda>r. RNDr W r i) [0..<n] (S, S ! 1 XOR S ! 2) = (S', yz')"
    by fastforce
  with Suc have IH: "length S' = 8"
    "vars n S' = fold (\<lambda>t. fips_round (Krnd ! t) (W ! t)) [i..<i + n] S"
    "yz' = vars n S' ! 1 XOR vars n S' ! 2"
    by (auto simp: Let_def split: prod.splits)
  then show ?case
    using RNDr_fips[OF IH(1), of n W i] Suc.prems f
    by (auto simp: Let_def split: prod.splits simp: add.commute)
qed

lemma vars_0: "length S = 8 \<Longrightarrow> vars 0 S = S"
  by (auto simp: vars_def upt_rec dest!: list8)

lemma mix_rounds_fips:
  assumes "length S = 8" "i \<in> {0, 16, 32, 48}"
  shows "mix_rounds W i S = fold (\<lambda>t. fips_round (Krnd ! t) (W ! t)) [i..<i + 16] S"
    "length (mix_rounds W i S) = 8"
proof -
  have yz: "S ! ((65 - i) mod 8) XOR S ! ((66 - i) mod 8) = S ! 1 XOR S ! 2"
    using assms(2) by auto
  have "8 dvd i" using assms(2) by auto
  from mix_rounds_fold[OF assms(1) order.refl this, of W]
  have *: "length (mix_rounds W i S) = 8"
    "vars 16 (mix_rounds W i S) = fold (\<lambda>t. fips_round (Krnd ! t) (W ! t)) [i..<i + 16] S"
    unfolding mix_rounds_def yz by (auto simp: Let_def split: prod.splits)
  then show "length (mix_rounds W i S) = 8" by simp
  show "mix_rounds W i S = fold (\<lambda>t. fips_round (Krnd ! t) (W ! t)) [i..<i + 16] S"
    using * vars_mod[of 16 0] vars_0 by simp
qed

text \<open>The schedule computed in place agrees with the growing list, word by word.\<close>

abbreviation sched :: "u32 list \<Rightarrow> nat \<Rightarrow> u32 list" where
  "sched M n \<equiv> (fips_extend ^^ n) M"

lemma fips_extend_length: "length (fips_extend w) = Suc (length w)"
  by (simp add: fips_extend_def Let_def)

lemma fips_extend_nth_old: "t < length w \<Longrightarrow> fips_extend w ! t = w ! t"
  by (simp add: fips_extend_def Let_def nth_append)

lemma fips_extend_nth_new:
  "fips_extend w ! length w = s1 (w ! (length w - 2)) + w ! (length w - 7)
     + s0 (w ! (length w - 15)) + w ! (length w - 16)"
  by (simp add: fips_extend_def Let_def nth_append)

lemma sched_length: "length (sched M n) = length M + n"
  by (induction n) (auto simp: fips_extend_length)

lemma sched_nth: "m \<le> n \<Longrightarrow> t < length M + m \<Longrightarrow> sched M n ! t = sched M m ! t"
proof (induction n)
  case (Suc n)
  then show ?case
    by (cases "m = Suc n") (auto simp: fips_extend_nth_old sched_length)
qed simp

definition sched_upto :: "u32 list \<Rightarrow> nat \<Rightarrow> u32 list \<Rightarrow> bool" where
  "sched_upto M n W \<longleftrightarrow> length W = 64 \<and> (\<forall>t < 16 + n. W ! t = sched M 48 ! t)"

lemma MSCH_sched:
  assumes "length M = 16" "sched_upto M (i + r) W" "i + r < 48"
  shows "sched_upto M (Suc (i + r)) (MSCH r i W)"
proof -
  let ?t = "i + r + 16"
  have "sched M 48 ! ?t = sched M (Suc (i + r)) ! ?t"
    using assms by (intro sched_nth) auto
  also have "\<dots> = s1 (sched M (i + r) ! (?t - 2)) + sched M (i + r) ! (?t - 7)
      + s0 (sched M (i + r) ! (?t - 15)) + sched M (i + r) ! (?t - 16)"
    using assms(1) fips_extend_nth_new[of "sched M (i + r)"] by (simp add: sched_length ac_simps)
  also have "\<dots> = s1 (W ! (i + r + 14)) + W ! (i + r + 9) + s0 (W ! (i + r + 1)) + W ! (i + r)"
    using assms by (simp add: sched_upto_def sched_nth[of "i + r" 48, symmetric] ac_simps)
  finally have "sched M 48 ! ?t = \<dots>" .
  then show ?thesis
    using assms by (auto simp: sched_upto_def MSCH_def nth_list_update less_Suc_eq add.commute)
qed

lemma msch_fold_sched:
  assumes "length M = 16" "sched_upto M i W" "i + n \<le> 48"
  shows "sched_upto M (i + n) (fold (\<lambda>r. MSCH r i) [0..<n] W)"
  using assms(3)
proof (induction n)
  case (Suc n)
  then show ?case using MSCH_sched[OF assms(1), of i n] by simp
qed (use assms in simp)

lemma mix_loop_fips:
  assumes "length M = 16" "sched_upto M i W" "i \<in> {0, 16, 32, 48}" "length S = 8"
  shows "mix_loop i W S = fold (\<lambda>t. fips_round (Krnd ! t) (sched M 48 ! t)) [i..<64] S"
proof -
  let ?f = "\<lambda>t. fips_round (Krnd ! t) (sched M 48 ! t)"
  have rounds: "mix_rounds W i S = fold ?f [i..<i + 16] S" "length (mix_rounds W i S) = 8"
    if "sched_upto M i W" "i \<in> {0, 16, 32, 48}" "length S = 8" for i W S
    using mix_rounds_fips[OF that(3,2), of W] that(1)
    by (auto simp: sched_upto_def intro!: fold_cong)
  have msch: "sched_upto M (i + 16) (msch_rounds i W)" if "sched_upto M i W" "i + 16 \<le> 48" for i W
    unfolding msch_rounds_def by (rule msch_fold_sched[OF assms(1) that])
  have last: "mix_loop 48 W S = fold ?f [48..<64] S" if "sched_upto M 48 W" "length S = 8" for W S
    using rounds[OF that(1) _ that(2)] by (subst mix_loop.simps) (simp add: Let_def)
  have step: "mix_loop i W S = mix_loop (i + 16) (msch_rounds i W) (fold ?f [i..<i + 16] S)"
    if "sched_upto M i W" "i \<in> {0, 16, 32}" "length S = 8" for i W S
    using rounds[OF that(1) _ that(3)] that(2) by (subst mix_loop.simps) (auto simp: Let_def)
  have app: "fold ?f [j..<64] (fold ?f [i..<j] S) = fold ?f [i..<64] S" if "i \<le> j" "j \<le> 64" for i j S
    using that upt_add_eq_append[of i j "64 - j"] by (simp add: fold_append)
  have len: "length (fold ?f [i..<i + 16] S) = 8"
    if "sched_upto M i W" "i \<in> {0, 16, 32, 48}" "length S = 8" for i W S
    using rounds[OF that] by simp
  have m32: "mix_loop 32 W S = fold ?f [32..<64] S" if "sched_upto M 32 W" "length S = 8" for W S
    using step[OF that(1) _ that(2)] last[OF msch[OF that(1), simplified]] len[OF that(1) _ that(2)] app[of 32 48 S] by simp
  have m16: "mix_loop 16 W S = fold ?f [16..<64] S" if "sched_upto M 16 W" "length S = 8" for W S
    using step[OF that(1) _ that(2)] m32[OF msch[OF that(1), simplified]] len[OF that(1) _ that(2)] app[of 16 32 S] by simp
  have m0: "mix_loop 0 W S = fold ?f [0..<64] S" if "sched_upto M 0 W" "length S = 8" for W S
    using step[OF that(1) _ that(2)] m16[OF msch[OF that(1), simplified]] len[OF that(1) _ that(2)] app[of 0 16 S] by simp
  show ?thesis
    using assms m0 m16 m32 last by auto
qed

lemma be32dec_drop: "i + 3 < length p \<Longrightarrow> be32dec (drop i p) = be32dec [p ! i, p ! (i + 1), p ! (i + 2), p ! (i + 3)]"
  by (simp add: be32dec_def ac_simps)

lemma be32dec_vect_chunks:
  "length src = 8 * len \<Longrightarrow> be32dec_vect src len = map be32dec (chunks 4 src)"
proof (induction src len rule: be32dec_vect.induct)
  case (2 src len)
  then obtain a b c d e f g h rest where s: "src = a # b # c # d # e # f # g # h # rest"
    by (auto simp: length_Suc_conv numeral_eq_Suc)
  have "chunks 4 src = [a, b, c, d] # [e, f, g, h] # chunks 4 rest"
    unfolding s by (subst chunks.simps, simp, subst chunks.simps, simp)
  then show ?case
    using 2 by (cases "rest = []") (simp_all add: s be32dec_take4)
qed simp

lemma be32enc_vect_concat:
  "length src = 2 * len \<Longrightarrow> be32enc_vect src len = concat (map be32enc src)"
proof (induction src len rule: be32enc_vect.induct)
  case (2 src len)
  then obtain a b rest where "src = a # b # rest"
    by (auto simp: length_Suc_conv numeral_eq_Suc)
  with 2 show ?case by simp
qed simp

theorem SHA256_Transform_fips:
  assumes "length st = 8" "length block = 64"
  shows "SHA256_Transform st block = fips_compress st block"
proof -
  let ?M = "map be32dec (chunks 4 block)"
  have M: "be32dec_vect block 8 = ?M"
    using assms(2) by (simp add: be32dec_vect_chunks)
  have len: "length ?M = 16"
    using length_chunks[of 4 block] assms(2) by simp
  have "sched_upto ?M 0 (put_at 0 ?M (replicate 64 0))"
    using len sched_nth[of 0 48 _ ?M] by (auto simp: sched_upto_def put_at_def nth_append)
  from mix_loop_fips[OF len this _ assms(1)] show ?thesis
    by (simp add: SHA256_Transform_def fips_compress_def fips_schedule_def Let_def M)
qed

section \<open>The contract of an incremental hash\<close>

locale incremental_hash =
  fixes absorbs :: "'c \<Rightarrow> bytes \<Rightarrow> bool"
    and init :: "'c \<Rightarrow> 'c"
    and update :: "'c \<Rightarrow> bytes \<Rightarrow> 'c"
    and final :: "'c \<Rightarrow> bytes"
    and usable :: "'c \<Rightarrow> bool"
    and hash :: "bytes \<Rightarrow> bytes"
  assumes init_absorbs: "usable c \<Longrightarrow> absorbs (init c) []"
    and update_absorbs: "absorbs c m \<Longrightarrow> absorbs (update c x) (m @ x)"
    and final_hash: "absorbs c m \<Longrightarrow> final c = hash m"
begin

text \<open>However the message is cut, the digest is the hash of the whole.\<close>

lemma updates_absorb: "absorbs c m \<Longrightarrow> absorbs (foldl update c xs) (m @ concat xs)"
proof (induction xs arbitrary: c m)
  case (Cons x xs)
  then show ?case using update_absorbs[OF Cons.prems, of x] by force
qed simp

lemma piecewise: "usable c \<Longrightarrow> final (foldl update (init c) xs) = hash (concat xs)"
  using updates_absorb[OF init_absorbs] final_hash by force

lemma one_shot: "usable c \<Longrightarrow> final (update (init c) x) = hash x"
  using piecewise[of c "[x]"] by simp

lemma two_shots: "usable c \<Longrightarrow> final (update (update (init c) x) y) = hash (x @ y)"
  using piecewise[of c "[x, y]"] by simp

end

section \<open>The context of the code keeps the contract\<close>

definition md_state :: "bytes \<Rightarrow> u32 list" where
  "md_state m = foldl fips_compress initial_state (chunks 64 (take (64 * (length m div 64)) m))"

definition md_rest :: "bytes \<Rightarrow> bytes" where
  "md_rest m = drop (64 * (length m div 64)) m"

definition absorbs :: "SHA256_CTX \<Rightarrow> bytes \<Rightarrow> bool" where
  "absorbs ctx m \<longleftrightarrow> state ctx = md_state m \<and> count ctx = of_nat (8 * length m)
     \<and> length (buf ctx) = 64 \<and> take (length m mod 64) (buf ctx) = md_rest m"

lemma fips_round_length: "length (fips_round k w v) = length v"
  by (induction k w v rule: fips_round.induct) (simp_all add: Let_def)

lemma fips_compress_length: "length (fips_compress H b) = length H"
proof -
  have "length (fold (\<lambda>t. fips_round (Krnd ! t) (W ! t)) ts H) = length H" for W ts
    by (induction ts arbitrary: H) (auto simp: fips_round_length)
  then show ?thesis by (simp add: fips_compress_def Let_def)
qed

lemma foldl_compress_length: "length (foldl fips_compress H bs) = length H"
  by (induction bs arbitrary: H) (auto simp: fips_compress_length)

lemma md_state_length [simp]: "length (md_state m) = 8"
  by (simp add: md_state_def foldl_compress_length initial_state_def)

lemma length_md_rest: "length (md_rest m) = length m mod 64"
  by (simp add: md_rest_def minus_mult_div_eq_mod)

lemma md_split: "m = take (64 * (length m div 64)) m @ md_rest m"
  by (simp add: md_rest_def)

lemma dvd_take64: "64 dvd length (take (64 * (length m div 64)) m)"
proof -
  have "length (take (64 * (length m div 64)) m) = 64 * (length m div 64)"
    using times_div_less_eq_dividend[of 64 "length m"] by (simp add: mult.commute)
  then show ?thesis by simp
qed

text \<open>Absorbing a message that completes a block.\<close>

lemma md_state_block:
  assumes "length (md_rest m @ x) = 64"
  shows "md_state (m @ x) = fips_compress (md_state m) (md_rest m @ x)" "md_rest (m @ x) = []"
proof -
  have tot: "length (m @ x) = 64 * (length m div 64) + 64"
  proof -
    have "length x = 64 - length m mod 64" "length m mod 64 \<le> 64"
      using assms by (auto simp: length_md_rest)
    then show ?thesis using mult_div_mod_eq[of 64 "length m"] unfolding length_append by linarith
  qed
  then have d: "length (m @ x) div 64 = length m div 64 + 1" by simp
  let ?t = "take (64 * (length m div 64)) m"
  have mx: "m @ x = ?t @ (md_rest m @ x)"
    using md_split[of m] by simp
  have "take (64 * (length (m @ x) div 64)) (m @ x) = m @ x"
    using tot d by simp
  then have "md_state (m @ x) = foldl fips_compress initial_state (chunks 64 (?t @ (md_rest m @ x)))"
    by (simp only: md_state_def mx[symmetric])
  also have "chunks 64 (?t @ (md_rest m @ x)) = chunks 64 ?t @ chunks 64 (md_rest m @ x)"
    by (rule chunks_append) (use dvd_take64 in simp_all)
  also have "chunks 64 (md_rest m @ x) = [md_rest m @ x]"
    using chunks_append_block[of 64 "md_rest m @ x" "[]"] assms by simp
  finally show "md_state (m @ x) = fips_compress (md_state m) (md_rest m @ x)"
    by (simp add: md_state_def)
  show "md_rest (m @ x) = []"
    unfolding md_rest_def d using tot by simp
qed

lemma md_short:
  assumes "length (md_rest m @ x) < 64"
  shows "md_state (m @ x) = md_state m" "md_rest (m @ x) = md_rest m @ x"
proof -
  have "length (m @ x) div 64 = length m div 64"
  proof -
    have "length m mod 64 + length x < 64" using assms by (simp add: length_md_rest)
    moreover have "length (m @ x) = 64 * (length m div 64) + (length m mod 64 + length x)" by simp
    ultimately show ?thesis by (metis add.commute div_less div_mult_self4 add_0 zero_neq_numeral)
  qed
  then show "md_state (m @ x) = md_state m" "md_rest (m @ x) = md_rest m @ x"
    by (simp_all add: md_state_def md_rest_def)
qed

lemma buffered_absorbs: "absorbs ctx m \<Longrightarrow> buffered ctx = length m mod 64"
proof -
  assume "absorbs ctx m"
  then have c: "count ctx = of_nat (8 * length m)" by (simp add: absorbs_def)
  have "drop_bit 3 (count ctx) AND 0x3f = take_bit 6 (drop_bit 3 (count ctx))"
    by (simp add: take_bit_eq_mask mask_eq_exp_minus_1)
  then have "buffered ctx = take_bit 6 (drop_bit 3 (unat (count ctx)))"
    by (simp only: buffered_def unsigned_take_bit_eq unat_drop_bit_eq)
  also have "unat (count ctx) = 8 * length m mod 2 ^ 64"
    by (simp only: c unat_of_nat) simp
  also have "8 * length m mod 2 ^ 64 = 8 * (length m mod 2 ^ 61)"
    by (simp add: mult_mod_right)
  also have "take_bit 6 (drop_bit 3 (8 * (length m mod 2 ^ 61))) = length m mod 2 ^ 61 mod 64"
    by (simp add: take_bit_eq_mod drop_bit_eq_div)
  also have "\<dots> = length m mod 64"
    by (rule mod_mod_cancel) simp
  finally show ?thesis .
qed

lemma update_blocks_foldl:
  assumes "length st = 8"
  shows "update_blocks st src =
    (foldl fips_compress st (chunks 64 (take (64 * (length src div 64)) src)), drop (64 * (length src div 64)) src)"
  using assms
proof (induction "length src" arbitrary: st src rule: less_induct)
  case less
  show ?case
  proof (cases "length src \<ge> 64")
    case True
    let ?d = "drop 64 src"
    have div: "length src div 64 = Suc (length ?d div 64)"
      using True by (simp add: le_div_geq)
    have "take (64 * (length src div 64)) src = take 64 src @ take (64 * (length ?d div 64)) ?d"
      unfolding div by (simp add: take_add[symmetric])
    then have "chunks 64 (take (64 * (length src div 64)) src)
        = take 64 src # chunks 64 (take (64 * (length ?d div 64)) ?d)"
      using True by (simp add: chunks_append_block)
    moreover have "update_blocks (fips_compress st (take 64 src)) ?d =
      (foldl fips_compress (fips_compress st (take 64 src)) (chunks 64 (take (64 * (length ?d div 64)) ?d)),
       drop (64 * (length ?d div 64)) ?d)"
      by (rule less.hyps) (use True less.prems in \<open>simp_all add: fips_compress_length\<close>)
    ultimately show ?thesis
      using True less.prems unfolding div
      by (subst update_blocks.simps) (simp add: SHA256_Transform_fips add.commute)
  next
    case False
    then show ?thesis by (subst update_blocks.simps) simp
  qed
qed

lemma md_blocks:
  assumes "md_rest m = []"
  shows "md_state (m @ x) = foldl fips_compress (md_state m) (chunks 64 (take (64 * (length x div 64)) x))"
    "md_rest (m @ x) = drop (64 * (length x div 64)) x"
proof -
  obtain k where k: "length m = 64 * k"
    using assms length_md_rest[of m] by (metis dvdE list.size(3) mod_eq_0_iff_dvd)
  have d: "length (m @ x) div 64 = k + length x div 64"
    by (simp add: k)
  have "take (64 * (k + length x div 64)) (m @ x) = m @ take (64 * (length x div 64)) x"
    using k by (simp add: distrib_left)
  then have t: "take (64 * (length (m @ x) div 64)) (m @ x) = m @ take (64 * (length x div 64)) x"
    unfolding d .
  show "md_state (m @ x) = foldl fips_compress (md_state m) (chunks 64 (take (64 * (length x div 64)) x))"
    unfolding md_state_def t using k by (simp add: chunks_append)
  show "md_rest (m @ x) = drop (64 * (length x div 64)) x"
    unfolding md_rest_def d using k by (simp add: distrib_left)
qed

lemma update_absorbs:
  assumes a: "absorbs ctx m"
  shows "absorbs (YP_SHA256_Update ctx x) (m @ x)"
proof (cases "x = []")
  case True
  then show ?thesis using a by (simp add: YP_SHA256_Update_def)
next
  case False
  note r = buffered_absorbs[OF a]
  let ?r = "length m mod 64"
  have b: "length (buf ctx) = 64" "take ?r (buf ctx) = md_rest m" "state ctx = md_state m"
    "count ctx = of_nat (8 * length m)"
    using a by (auto simp: absorbs_def)
  have r64: "?r < 64" by simp
  have cnt: "count ctx + push_bit 3 (of_nat (length x)) = of_nat (8 * length (m @ x))"
    by (simp add: b(4) push_bit_eq_mult algebra_simps)
  show ?thesis
  proof (cases "length x < 64 - ?r")
    case True
    then have short: "length (md_rest m @ x) < 64" by (simp add: length_md_rest)
    have "(length m + length x) mod 64 = ?r + length x"
      using True by (metis add.commute less_diff_conv mod_add_left_eq mod_less)
    then have "take (length (m @ x) mod 64) (put_at ?r x (buf ctx)) = md_rest m @ x"
      using b True by (simp add: put_at_def length_md_rest)
    then show ?thesis
      using True False b cnt r md_short[OF short]
      by (simp add: YP_SHA256_Update_def Let_def absorbs_def length_put_at)
  next
    case long: False
    let ?x1 = "take (64 - ?r) x" and ?x2 = "drop (64 - ?r) x"
    have l1: "length ?x1 = 64 - ?r" using long by simp
    have full: "length (md_rest m @ ?x1) = 64"
      using l1 r64 by (simp add: length_md_rest)
    have blk: "put_at ?r ?x1 (buf ctx) = md_rest m @ ?x1"
      using b l1 r64 by (simp add: put_at_def)
    note one = md_state_block[OF full]
    obtain st rest where ub: "update_blocks (SHA256_Transform (state ctx) (md_rest m @ ?x1)) ?x2 = (st, rest)"
      by fastforce
    have tr: "SHA256_Transform (state ctx) (md_rest m @ ?x1) = md_state (m @ ?x1)"
      using b one full by (simp add: SHA256_Transform_fips)
    have "st = md_state ((m @ ?x1) @ ?x2)" "rest = md_rest ((m @ ?x1) @ ?x2)"
      using ub md_blocks[OF one(2), of ?x2] update_blocks_foldl[of "md_state (m @ ?x1)" ?x2]
      unfolding tr by auto
    then have st: "st = md_state (m @ x)" "rest = md_rest (m @ x)" by simp_all
    have upd: "YP_SHA256_Update ctx x = ctx\<lparr>count := of_nat (8 * length (m @ x)), state := st,
        buf := put_at 0 rest (md_rest m @ ?x1)\<rparr>"
      using False long r cnt ub blk by (simp add: YP_SHA256_Update_def Let_def)
    have lr: "length rest = length (m @ x) mod 64"
      unfolding st(2) by (rule length_md_rest)
    then have "length (put_at 0 rest (md_rest m @ ?x1)) = 64"
      using full length_put_at[of 0 rest "md_rest m @ ?x1"] by simp
    moreover have "take (length rest) (put_at 0 rest (md_rest m @ ?x1)) = rest"
      by (simp add: put_at_def)
    ultimately show ?thesis
      unfolding upd absorbs_def using st lr by simp
  qed
qed

section \<open>Streaming, and the digest\<close>

lemma md_state_full: "64 dvd length m \<Longrightarrow> md_state m = foldl fips_compress initial_state (chunks 64 m)"
  by (auto simp: md_state_def)

lemma pad_short: "r < 56 \<Longrightarrow> (119 - r) mod 64 = 55 - (r :: nat)"
  by (subst le_mod_geq) auto

lemma pad_long: "56 \<le> r \<Longrightarrow> r < 64 \<Longrightarrow> (119 - r) mod 64 = (63 - r) + (56 :: nat)"
  by simp

lemma padded_dvd: "64 dvd n + 9 + (119 - n mod 64) mod (64 :: nat)"
proof -
  define k r where "k = n div 64" and "r = n mod 64"
  have n: "n = 64 * k + r" "r < 64"
    by (simp_all add: k_def r_def)
  have "n + 9 + (119 - r) mod 64 = 64 * (if r < 56 then k + 1 else k + 2)"
    using n pad_short[of r] pad_long[of r] by auto
  then show ?thesis
    unfolding r_def by (rule dvdI)
qed

lemma fips_sha256_md: "fips_sha256 m = concat (map be32enc (md_state (m @ fips_pad (length m))))"
proof -
  have "length (m @ fips_pad (length m)) = length m + 9 + (119 - length m mod 64) mod 64"
    by (simp add: fips_pad_def be64enc_def)
  then have "64 dvd length (m @ fips_pad (length m))"
    using padded_dvd by metis
  then show ?thesis
    by (simp only: fips_sha256_def md_state_full)
qed

lemma fips_sha256_length [simp]: "length (fips_sha256 m) = 32"
proof -
  have "length (concat (map be32enc ws)) = 4 * length ws" for ws
    using be32.length_enc_all[of ws] by (simp add: be32.enc_all_def)
  then show ?thesis by (simp add: fips_sha256_md)
qed

lemma put_at_append: "length p = off \<Longrightarrow> put_at off bs (p @ q) = p @ bs @ drop (length bs) q"
  by (simp add: put_at_def)

lemma length_be64enc [simp]: "length (be64enc x) = 8"
  by (simp add: be64enc_def)

lemma take_PAD: "0 < n \<Longrightarrow> n \<le> 64 \<Longrightarrow> take n PAD = 0x80 # replicate (n - 1) 0"
  by (cases n) (auto simp: PAD_def)

lemma SHA256_Pad_short:
  assumes a: "absorbs ctx m" and r: "length m mod 64 < 56"
  shows "put_at 56 (be64enc (count ctx)) (put_at (length m mod 64) (take (56 - length m mod 64) PAD) (buf ctx))
      = md_rest m @ fips_pad (length m)"
    "length (md_rest m @ fips_pad (length m)) = 64"
proof -
  let ?r = "length m mod 64"
  have b: "length (buf ctx) = 64" "take ?r (buf ctx) = md_rest m" "count ctx = of_nat (8 * length m)"
    using a by (auto simp: absorbs_def)
  have "take (56 - ?r) PAD = 0x80 # replicate (55 - ?r) 0"
    using r by (subst take_PAD) auto
  then have "put_at ?r (take (56 - ?r) PAD) (buf ctx)
      = (md_rest m @ 0x80 # replicate (55 - ?r) 0) @ drop 56 (buf ctx)"
    using b r by (simp add: put_at_def)
  moreover have "length (md_rest m @ 0x80 # replicate (55 - ?r) 0) = 56"
    using r by (simp add: length_md_rest)
  ultimately have "put_at 56 (be64enc (count ctx)) (put_at ?r (take (56 - ?r) PAD) (buf ctx))
      = (md_rest m @ 0x80 # replicate (55 - ?r) 0) @ be64enc (count ctx) @ drop 8 (drop 56 (buf ctx))"
    by (simp only: put_at_append length_be64enc)
  then show "put_at 56 (be64enc (count ctx)) (put_at ?r (take (56 - ?r) PAD) (buf ctx))
      = md_rest m @ fips_pad (length m)"
    using b r by (simp add: fips_pad_def pad_short)
  show "length (md_rest m @ fips_pad (length m)) = 64"
    using r by (simp add: fips_pad_def pad_short length_md_rest)
qed

lemma final_hash:
  assumes a: "absorbs ctx m"
  shows "fst (YP_SHA256_Final ctx) = fips_sha256 m"
proof -
  let ?r = "length m mod 64"
  note r = buffered_absorbs[OF a]
  have b: "length (buf ctx) = 64" "take ?r (buf ctx) = md_rest m" "state ctx = md_state m"
    "count ctx = of_nat (8 * length m)"
    using a by (auto simp: absorbs_def)
  have "state (SHA256_Pad ctx) = md_state (m @ fips_pad (length m))"
  proof (cases "?r < 56")
    case True
    note p = SHA256_Pad_short[OF a True]
    show ?thesis
      using True r p b md_state_block(1)[OF p(2)]
      by (simp add: SHA256_Pad_def Let_def SHA256_Transform_fips)
  next
    case False
    let ?p1 = "0x80 # replicate (63 - ?r) 0" and ?p2 = "replicate 56 0 @ be64enc (count ctx)"
    have "(119 - ?r) mod 64 = (63 - ?r) + 56"
      using False by (intro pad_long) auto
    then have pad: "fips_pad (length m) = ?p1 @ ?p2"
      unfolding fips_pad_def b(4) by (simp only: replicate_add append_assoc append_Cons)
    have "?r < 64" by simp
    then have "take (64 - ?r) PAD = ?p1"
      by (subst take_PAD) auto
    then have blk: "put_at ?r (take (64 - ?r) PAD) (buf ctx) = md_rest m @ ?p1"
      using b by (simp add: put_at_def length_md_rest)
    have len1: "length (md_rest m @ ?p1) = 64"
      using \<open>?r < 64\<close> by (simp add: length_md_rest)
    have blk2: "put_at 56 (be64enc (count ctx)) (put_at 0 (replicate 56 0) (md_rest m @ ?p1)) = ?p2"
      using len1 by (simp add: put_at_def)
    note one = md_state_block[OF len1]
    have len2: "length (md_rest (m @ ?p1) @ ?p2) = 64"
      unfolding one(2) by simp
    note two = md_state_block[OF len2]
    show ?thesis
      using False r b len1 one two len2 blk blk2 unfolding pad
      by (simp add: SHA256_Pad_def Let_def SHA256_Transform_fips fips_compress_length)
  qed
  then show ?thesis
    by (simp add: YP_SHA256_Final_def Let_def fips_sha256_md be32enc_vect_concat)
qed

lemma SHA256_Pad_buf: "length (buf ctx) = 64 \<Longrightarrow> buffered ctx < 64 \<Longrightarrow> length (buf (SHA256_Pad ctx)) = 64"
  by (simp add: SHA256_Pad_def Let_def length_put_at PAD_def)

lemma buffered_less: "buffered ctx < 64"
proof -
  have "unat (drop_bit 3 (count ctx) AND 0x3f) \<le> unat (0x3f :: u64)"
    by (simp only: word_le_nat_alt[symmetric] word_and_le1)
  then show ?thesis by (simp add: buffered_def)
qed

interpretation yp: incremental_hash absorbs YP_SHA256_Init YP_SHA256_Update
  "\<lambda>c. fst (YP_SHA256_Final c)" "\<lambda>c. length (buf c) = 64" fips_sha256
proof
  show "absorbs (YP_SHA256_Init c) []" if "length (buf c) = 64" for c
    using that by (simp add: absorbs_def YP_SHA256_Init_def md_state_def md_rest_def)
qed (rule update_absorbs final_hash, assumption)+

text \<open>C20: the compression function of yespower, with its rotated array, cached
  subexpressions and in-place schedule, is the one of FIPS 180-4.\<close>

theorem SHA256_Transform_correct:
  assumes "length st = 8" "length block = 64"
  shows "SHA256_Transform st block = fips_compress st block"
  using assms by (rule SHA256_Transform_fips)

theorem SHA256_Transform_correct_witness:
  "SHA256_Transform initial_state (replicate 64 0) = fips_compress initial_state (replicate 64 0)"
  by (rule SHA256_Transform_correct) (simp_all add: initial_state_def)

text \<open>However a message is cut into updates, the digest of \<open>YP_SHA256_Final\<close> is the
  SHA-256 of the concatenation.\<close>

theorem YP_SHA256_streaming:
  assumes "length (buf ctx) = 64"
  shows "fst (YP_SHA256_Final (foldl YP_SHA256_Update (YP_SHA256_Init ctx) xs)) = fips_sha256 (concat xs)"
  using assms by (rule yp.piecewise)

theorem YP_SHA256_streaming_witness:
  "fst (YP_SHA256_Final (foldl YP_SHA256_Update
     (YP_SHA256_Init \<lparr>state = [], count = 7, buf = replicate 64 9\<rparr>) [cstr ''ab'', [], replicate 100 1]))
   = fips_sha256 (cstr ''ab'' @ replicate 100 1)"
  using YP_SHA256_streaming[of "\<lparr>state = [], count = 7, buf = replicate 64 9\<rparr>"
      "[cstr ''ab'', [], replicate 100 1]"] by simp

end
