(* ===== verification/Soj_ShaNi.thy ===== *)
theory Soj_ShaNi
  imports Soj_Sha256
begin

text \<open>SHA-256 with the SHA extensions of x86: \<open>sha256_opt_rounds\<close> and the two-way
  \<open>sha256_ni2x_rounds\<close> of \<open>sha256-hash.c\<close>, instruction by instruction and in the
  order of the source, one definition per group of four rounds.  An \<open>__m128i\<close> is four
  32-bit lanes, lowest first; the intrinsics are modelled as the instruction set manual
  describes them.  The theorems: the transform is the compression function of FIPS 180-4, and
  the two-way transform is two independent transforms.\<close>

datatype xmm = Xmm u32 u32 u32 u32

fun xmm_list :: "xmm \<Rightarrow> u32 list" where
  "xmm_list (Xmm a b c d) = [a, b, c, d]"

definition list_xmm :: "u32 list \<Rightarrow> xmm" where
  "list_xmm l = Xmm (l ! 0) (l ! 1) (l ! 2) (l ! 3)"

section \<open>The intrinsics\<close>

definition mm_load_si128 :: "u32 list \<Rightarrow> nat \<Rightarrow> xmm" where
  "mm_load_si128 p i = Xmm (p ! i) (p ! (i + 1)) (p ! (i + 2)) (p ! (i + 3))"

fun mm_add_epi32 :: "xmm \<Rightarrow> xmm \<Rightarrow> xmm" where
  "mm_add_epi32 (Xmm a b c d) (Xmm a' b' c' d') = Xmm (a + a') (b + b') (c + c') (d + d')"

definition mm_shuffle_epi32 :: "xmm \<Rightarrow> nat \<Rightarrow> xmm" where
  "mm_shuffle_epi32 v imm =
    (let l = xmm_list v in
     Xmm (l ! (imm mod 4)) (l ! (imm div 4 mod 4)) (l ! (imm div 16 mod 4)) (l ! (imm div 64 mod 4)))"

text \<open>The byte count of \<open>alignr\<close> is a multiple of four throughout.\<close>

definition mm_alignr_epi8 :: "xmm \<Rightarrow> xmm \<Rightarrow> nat \<Rightarrow> xmm" where
  "mm_alignr_epi8 a b n = list_xmm (drop (n div 4) (xmm_list b @ xmm_list a))"

text \<open>The 16-bit blend, for masks that select whole lanes.\<close>

definition mm_blend_epi16 :: "xmm \<Rightarrow> xmm \<Rightarrow> nat \<Rightarrow> xmm" where
  "mm_blend_epi16 a b imm =
    list_xmm (map (\<lambda>i. if odd (imm div 4 ^ i) then xmm_list b ! i else xmm_list a ! i) [0..<4])"

definition mm_set_epi64x :: "u64 \<Rightarrow> u64 \<Rightarrow> xmm" where
  "mm_set_epi64x hi lo = Xmm (ucast lo) (ucast (drop_bit 32 lo)) (ucast hi) (ucast (drop_bit 32 hi))"

text \<open>Two rounds: the first operand holds C, D, G, H, the second A, B, E, F.\<close>

definition sha_rnd :: "u32 \<Rightarrow> u32 \<times> u32 \<times> u32 \<times> u32 \<times> u32 \<times> u32 \<times> u32 \<times> u32 \<Rightarrow>
    u32 \<times> u32 \<times> u32 \<times> u32 \<times> u32 \<times> u32 \<times> u32 \<times> u32" where
  "sha_rnd wk = (\<lambda>(A, B, C, D, E, F, G, H).
    (fips_Ch E F G + S1 E + wk + H + fips_Maj A B C + S0 A, A, B, C,
     fips_Ch E F G + S1 E + wk + H + D, E, F, G))"

fun mm_sha256rnds2_epu32 :: "xmm \<Rightarrow> xmm \<Rightarrow> xmm \<Rightarrow> xmm" where
  "mm_sha256rnds2_epu32 (Xmm h g d c) (Xmm f e b a) (Xmm k0 k1 k2 k3) =
    (case sha_rnd k1 (sha_rnd k0 (a, b, c, d, e, f, g, h)) of
       (A, B, C, D, E, F, G, H) \<Rightarrow> Xmm F E B A)"

fun mm_sha256msg1_epu32 :: "xmm \<Rightarrow> xmm \<Rightarrow> xmm" where
  "mm_sha256msg1_epu32 (Xmm w0 w1 w2 w3) (Xmm w4 w5 w6 w7) =
    Xmm (w0 + s0 w1) (w1 + s0 w2) (w2 + s0 w3) (w3 + s0 w4)"

fun mm_sha256msg2_epu32 :: "xmm \<Rightarrow> xmm \<Rightarrow> xmm" where
  "mm_sha256msg2_epu32 (Xmm x0 x1 x2 x3) (Xmm y0 y1 w14 w15) =
    (let w16 = x0 + s1 w14; w17 = x1 + s1 w15; w18 = x2 + s1 w16; w19 = x3 + s1 w17
     in Xmm w16 w17 w18 w19)"

text \<open>\<open>casti_v128 (m, i)\<close> and \<open>v128_bswap32 (casti_v128 (m, i))\<close>, the two
  readings of \<open>load_msg\<close>.\<close>

definition casti_v128 :: "bytes \<Rightarrow> nat \<Rightarrow> xmm" where
  "casti_v128 m i = Xmm (le32dec (seg (16 * i) 4 m)) (le32dec (seg (16 * i + 4) 4 m))
     (le32dec (seg (16 * i + 8) 4 m)) (le32dec (seg (16 * i + 12) 4 m))"

fun v128_bswap32 :: "xmm \<Rightarrow> xmm" where
  "v128_bswap32 (Xmm a b c d) = Xmm (bswap32 a) (bswap32 b) (bswap32 c) (bswap32 d)"

definition load_msg_be :: "bytes \<Rightarrow> nat \<Rightarrow> xmm" where
  "load_msg_be m i = v128_bswap32 (casti_v128 m i)"

section \<open>One block\<close>

type_synonym ni_regs = "xmm \<times> xmm \<times> xmm \<times> xmm \<times> xmm \<times> xmm"

text \<open>Loading the state: lines 37 to 43 of \<open>sha256_opt_rounds\<close>.\<close>

definition ni_load :: "u32 list \<Rightarrow> xmm \<times> xmm" where
  "ni_load state_in =
    (let TMP = mm_load_si128 state_in 0;
         STATE1 = mm_load_si128 state_in 4;
         TMP = mm_shuffle_epi32 TMP 0xB1;
         STATE1 = mm_shuffle_epi32 STATE1 0x1B;
         STATE0 = mm_alignr_epi8 TMP STATE1 8;
         STATE1 = mm_blend_epi16 STATE1 TMP 0xF0
     in (STATE0, STATE1))"

definition ni_rounds_0_3 :: "ni_regs \<Rightarrow> ni_regs" where
  "ni_rounds_0_3 regs = (case regs of (STATE0, STATE1, TMSG0, TMSG1, TMSG2, TMSG3) \<Rightarrow>
    (let MSG = mm_add_epi32 TMSG0 (mm_set_epi64x 0xE9B5DBA5B5C0FBCF 0x71374491428A2F98);
         STATE1 = mm_sha256rnds2_epu32 STATE1 STATE0 MSG;
         MSG = mm_shuffle_epi32 MSG 0x0E;
         STATE0 = mm_sha256rnds2_epu32 STATE0 STATE1 MSG
     in (STATE0, STATE1, TMSG0, TMSG1, TMSG2, TMSG3)))"

definition ni_rounds_4_7 :: "ni_regs \<Rightarrow> ni_regs" where
  "ni_rounds_4_7 regs = (case regs of (STATE0, STATE1, TMSG0, TMSG1, TMSG2, TMSG3) \<Rightarrow>
    (let MSG = mm_add_epi32 TMSG1 (mm_set_epi64x 0xAB1C5ED5923F82A4 0x59F111F13956C25B);
         STATE1 = mm_sha256rnds2_epu32 STATE1 STATE0 MSG;
         MSG = mm_shuffle_epi32 MSG 0x0E;
         STATE0 = mm_sha256rnds2_epu32 STATE0 STATE1 MSG;
         TMSG0 = mm_sha256msg1_epu32 TMSG0 TMSG1
     in (STATE0, STATE1, TMSG0, TMSG1, TMSG2, TMSG3)))"

definition ni_rounds_8_11 :: "ni_regs \<Rightarrow> ni_regs" where
  "ni_rounds_8_11 regs = (case regs of (STATE0, STATE1, TMSG0, TMSG1, TMSG2, TMSG3) \<Rightarrow>
    (let MSG = mm_add_epi32 TMSG2 (mm_set_epi64x 0x550C7DC3243185BE 0x12835B01D807AA98);
         STATE1 = mm_sha256rnds2_epu32 STATE1 STATE0 MSG;
         MSG = mm_shuffle_epi32 MSG 0x0E;
         STATE0 = mm_sha256rnds2_epu32 STATE0 STATE1 MSG;
         TMSG1 = mm_sha256msg1_epu32 TMSG1 TMSG2
     in (STATE0, STATE1, TMSG0, TMSG1, TMSG2, TMSG3)))"

definition ni_rounds_12_15 :: "ni_regs \<Rightarrow> ni_regs" where
  "ni_rounds_12_15 regs = (case regs of (STATE0, STATE1, TMSG0, TMSG1, TMSG2, TMSG3) \<Rightarrow>
    (let MSG = mm_add_epi32 TMSG3 (mm_set_epi64x 0xC19BF1749BDC06A7 0x80DEB1FE72BE5D74);
         STATE1 = mm_sha256rnds2_epu32 STATE1 STATE0 MSG;
         TMP = mm_alignr_epi8 TMSG3 TMSG2 4;
         TMSG0 = mm_add_epi32 TMSG0 TMP;
         TMSG0 = mm_sha256msg2_epu32 TMSG0 TMSG3;
         MSG = mm_shuffle_epi32 MSG 0x0E;
         STATE0 = mm_sha256rnds2_epu32 STATE0 STATE1 MSG;
         TMSG2 = mm_sha256msg1_epu32 TMSG2 TMSG3
     in (STATE0, STATE1, TMSG0, TMSG1, TMSG2, TMSG3)))"

definition ni_rounds_16_19 :: "ni_regs \<Rightarrow> ni_regs" where
  "ni_rounds_16_19 regs = (case regs of (STATE0, STATE1, TMSG0, TMSG1, TMSG2, TMSG3) \<Rightarrow>
    (let MSG = mm_add_epi32 TMSG0 (mm_set_epi64x 0x240CA1CC0FC19DC6 0xEFBE4786E49B69C1);
         STATE1 = mm_sha256rnds2_epu32 STATE1 STATE0 MSG;
         TMP = mm_alignr_epi8 TMSG0 TMSG3 4;
         TMSG1 = mm_add_epi32 TMSG1 TMP;
         TMSG1 = mm_sha256msg2_epu32 TMSG1 TMSG0;
         MSG = mm_shuffle_epi32 MSG 0x0E;
         STATE0 = mm_sha256rnds2_epu32 STATE0 STATE1 MSG;
         TMSG3 = mm_sha256msg1_epu32 TMSG3 TMSG0
     in (STATE0, STATE1, TMSG0, TMSG1, TMSG2, TMSG3)))"

definition ni_rounds_20_23 :: "ni_regs \<Rightarrow> ni_regs" where
  "ni_rounds_20_23 regs = (case regs of (STATE0, STATE1, TMSG0, TMSG1, TMSG2, TMSG3) \<Rightarrow>
    (let MSG = mm_add_epi32 TMSG1 (mm_set_epi64x 0x76F988DA5CB0A9DC 0x4A7484AA2DE92C6F);
         STATE1 = mm_sha256rnds2_epu32 STATE1 STATE0 MSG;
         TMP = mm_alignr_epi8 TMSG1 TMSG0 4;
         TMSG2 = mm_add_epi32 TMSG2 TMP;
         TMSG2 = mm_sha256msg2_epu32 TMSG2 TMSG1;
         MSG = mm_shuffle_epi32 MSG 0x0E;
         STATE0 = mm_sha256rnds2_epu32 STATE0 STATE1 MSG;
         TMSG0 = mm_sha256msg1_epu32 TMSG0 TMSG1
     in (STATE0, STATE1, TMSG0, TMSG1, TMSG2, TMSG3)))"

definition ni_rounds_24_27 :: "ni_regs \<Rightarrow> ni_regs" where
  "ni_rounds_24_27 regs = (case regs of (STATE0, STATE1, TMSG0, TMSG1, TMSG2, TMSG3) \<Rightarrow>
    (let MSG = mm_add_epi32 TMSG2 (mm_set_epi64x 0xBF597FC7B00327C8 0xA831C66D983E5152);
         STATE1 = mm_sha256rnds2_epu32 STATE1 STATE0 MSG;
         TMP = mm_alignr_epi8 TMSG2 TMSG1 4;
         TMSG3 = mm_add_epi32 TMSG3 TMP;
         TMSG3 = mm_sha256msg2_epu32 TMSG3 TMSG2;
         MSG = mm_shuffle_epi32 MSG 0x0E;
         STATE0 = mm_sha256rnds2_epu32 STATE0 STATE1 MSG;
         TMSG1 = mm_sha256msg1_epu32 TMSG1 TMSG2
     in (STATE0, STATE1, TMSG0, TMSG1, TMSG2, TMSG3)))"

definition ni_rounds_28_31 :: "ni_regs \<Rightarrow> ni_regs" where
  "ni_rounds_28_31 regs = (case regs of (STATE0, STATE1, TMSG0, TMSG1, TMSG2, TMSG3) \<Rightarrow>
    (let MSG = mm_add_epi32 TMSG3 (mm_set_epi64x 0x1429296706CA6351 0xD5A79147C6E00BF3);
         STATE1 = mm_sha256rnds2_epu32 STATE1 STATE0 MSG;
         TMP = mm_alignr_epi8 TMSG3 TMSG2 4;
         TMSG0 = mm_add_epi32 TMSG0 TMP;
         TMSG0 = mm_sha256msg2_epu32 TMSG0 TMSG3;
         MSG = mm_shuffle_epi32 MSG 0x0E;
         STATE0 = mm_sha256rnds2_epu32 STATE0 STATE1 MSG;
         TMSG2 = mm_sha256msg1_epu32 TMSG2 TMSG3
     in (STATE0, STATE1, TMSG0, TMSG1, TMSG2, TMSG3)))"

definition ni_rounds_32_35 :: "ni_regs \<Rightarrow> ni_regs" where
  "ni_rounds_32_35 regs = (case regs of (STATE0, STATE1, TMSG0, TMSG1, TMSG2, TMSG3) \<Rightarrow>
    (let MSG = mm_add_epi32 TMSG0 (mm_set_epi64x 0x53380D134D2C6DFC 0x2E1B213827B70A85);
         STATE1 = mm_sha256rnds2_epu32 STATE1 STATE0 MSG;
         TMP = mm_alignr_epi8 TMSG0 TMSG3 4;
         TMSG1 = mm_add_epi32 TMSG1 TMP;
         TMSG1 = mm_sha256msg2_epu32 TMSG1 TMSG0;
         MSG = mm_shuffle_epi32 MSG 0x0E;
         STATE0 = mm_sha256rnds2_epu32 STATE0 STATE1 MSG;
         TMSG3 = mm_sha256msg1_epu32 TMSG3 TMSG0
     in (STATE0, STATE1, TMSG0, TMSG1, TMSG2, TMSG3)))"

definition ni_rounds_36_39 :: "ni_regs \<Rightarrow> ni_regs" where
  "ni_rounds_36_39 regs = (case regs of (STATE0, STATE1, TMSG0, TMSG1, TMSG2, TMSG3) \<Rightarrow>
    (let MSG = mm_add_epi32 TMSG1 (mm_set_epi64x 0x92722C8581C2C92E 0x766A0ABB650A7354);
         STATE1 = mm_sha256rnds2_epu32 STATE1 STATE0 MSG;
         TMP = mm_alignr_epi8 TMSG1 TMSG0 4;
         TMSG2 = mm_add_epi32 TMSG2 TMP;
         TMSG2 = mm_sha256msg2_epu32 TMSG2 TMSG1;
         MSG = mm_shuffle_epi32 MSG 0x0E;
         STATE0 = mm_sha256rnds2_epu32 STATE0 STATE1 MSG;
         TMSG0 = mm_sha256msg1_epu32 TMSG0 TMSG1
     in (STATE0, STATE1, TMSG0, TMSG1, TMSG2, TMSG3)))"

definition ni_rounds_40_43 :: "ni_regs \<Rightarrow> ni_regs" where
  "ni_rounds_40_43 regs = (case regs of (STATE0, STATE1, TMSG0, TMSG1, TMSG2, TMSG3) \<Rightarrow>
    (let MSG = mm_add_epi32 TMSG2 (mm_set_epi64x 0xC76C51A3C24B8B70 0xA81A664BA2BFE8A1);
         STATE1 = mm_sha256rnds2_epu32 STATE1 STATE0 MSG;
         TMP = mm_alignr_epi8 TMSG2 TMSG1 4;
         TMSG3 = mm_add_epi32 TMSG3 TMP;
         TMSG3 = mm_sha256msg2_epu32 TMSG3 TMSG2;
         MSG = mm_shuffle_epi32 MSG 0x0E;
         STATE0 = mm_sha256rnds2_epu32 STATE0 STATE1 MSG;
         TMSG1 = mm_sha256msg1_epu32 TMSG1 TMSG2
     in (STATE0, STATE1, TMSG0, TMSG1, TMSG2, TMSG3)))"

definition ni_rounds_44_47 :: "ni_regs \<Rightarrow> ni_regs" where
  "ni_rounds_44_47 regs = (case regs of (STATE0, STATE1, TMSG0, TMSG1, TMSG2, TMSG3) \<Rightarrow>
    (let MSG = mm_add_epi32 TMSG3 (mm_set_epi64x 0x106AA070F40E3585 0xD6990624D192E819);
         STATE1 = mm_sha256rnds2_epu32 STATE1 STATE0 MSG;
         TMP = mm_alignr_epi8 TMSG3 TMSG2 4;
         TMSG0 = mm_add_epi32 TMSG0 TMP;
         TMSG0 = mm_sha256msg2_epu32 TMSG0 TMSG3;
         MSG = mm_shuffle_epi32 MSG 0x0E;
         STATE0 = mm_sha256rnds2_epu32 STATE0 STATE1 MSG;
         TMSG2 = mm_sha256msg1_epu32 TMSG2 TMSG3
     in (STATE0, STATE1, TMSG0, TMSG1, TMSG2, TMSG3)))"

definition ni_rounds_48_51 :: "ni_regs \<Rightarrow> ni_regs" where
  "ni_rounds_48_51 regs = (case regs of (STATE0, STATE1, TMSG0, TMSG1, TMSG2, TMSG3) \<Rightarrow>
    (let MSG = mm_add_epi32 TMSG0 (mm_set_epi64x 0x34B0BCB52748774C 0x1E376C0819A4C116);
         STATE1 = mm_sha256rnds2_epu32 STATE1 STATE0 MSG;
         TMP = mm_alignr_epi8 TMSG0 TMSG3 4;
         TMSG1 = mm_add_epi32 TMSG1 TMP;
         TMSG1 = mm_sha256msg2_epu32 TMSG1 TMSG0;
         MSG = mm_shuffle_epi32 MSG 0x0E;
         STATE0 = mm_sha256rnds2_epu32 STATE0 STATE1 MSG;
         TMSG3 = mm_sha256msg1_epu32 TMSG3 TMSG0
     in (STATE0, STATE1, TMSG0, TMSG1, TMSG2, TMSG3)))"

definition ni_rounds_52_55 :: "ni_regs \<Rightarrow> ni_regs" where
  "ni_rounds_52_55 regs = (case regs of (STATE0, STATE1, TMSG0, TMSG1, TMSG2, TMSG3) \<Rightarrow>
    (let MSG = mm_add_epi32 TMSG1 (mm_set_epi64x 0x682E6FF35B9CCA4F 0x4ED8AA4A391C0CB3);
         STATE1 = mm_sha256rnds2_epu32 STATE1 STATE0 MSG;
         TMP = mm_alignr_epi8 TMSG1 TMSG0 4;
         TMSG2 = mm_add_epi32 TMSG2 TMP;
         TMSG2 = mm_sha256msg2_epu32 TMSG2 TMSG1;
         MSG = mm_shuffle_epi32 MSG 0x0E;
         STATE0 = mm_sha256rnds2_epu32 STATE0 STATE1 MSG
     in (STATE0, STATE1, TMSG0, TMSG1, TMSG2, TMSG3)))"

definition ni_rounds_56_59 :: "ni_regs \<Rightarrow> ni_regs" where
  "ni_rounds_56_59 regs = (case regs of (STATE0, STATE1, TMSG0, TMSG1, TMSG2, TMSG3) \<Rightarrow>
    (let MSG = mm_add_epi32 TMSG2 (mm_set_epi64x 0x8CC7020884C87814 0x78A5636F748F82EE);
         STATE1 = mm_sha256rnds2_epu32 STATE1 STATE0 MSG;
         TMP = mm_alignr_epi8 TMSG2 TMSG1 4;
         TMSG3 = mm_add_epi32 TMSG3 TMP;
         TMSG3 = mm_sha256msg2_epu32 TMSG3 TMSG2;
         MSG = mm_shuffle_epi32 MSG 0x0E;
         STATE0 = mm_sha256rnds2_epu32 STATE0 STATE1 MSG
     in (STATE0, STATE1, TMSG0, TMSG1, TMSG2, TMSG3)))"

definition ni_rounds_60_63 :: "ni_regs \<Rightarrow> ni_regs" where
  "ni_rounds_60_63 regs = (case regs of (STATE0, STATE1, TMSG0, TMSG1, TMSG2, TMSG3) \<Rightarrow>
    (let MSG = mm_add_epi32 TMSG3 (mm_set_epi64x 0xC67178F2BEF9A3F7 0xA4506CEB90BEFFFA);
         STATE1 = mm_sha256rnds2_epu32 STATE1 STATE0 MSG;
         MSG = mm_shuffle_epi32 MSG 0x0E;
         STATE0 = mm_sha256rnds2_epu32 STATE0 STATE1 MSG
     in (STATE0, STATE1, TMSG0, TMSG1, TMSG2, TMSG3)))"

definition ni_store :: "xmm \<Rightarrow> xmm \<Rightarrow> u32 list" where
  "ni_store STATE0 STATE1 =
    (let TMP = mm_shuffle_epi32 STATE0 0x1B;
         STATE1 = mm_shuffle_epi32 STATE1 0xB1;
         STATE0 = mm_blend_epi16 TMP STATE1 0xF0;
         STATE1 = mm_alignr_epi8 STATE1 TMP 8
     in xmm_list STATE0 @ xmm_list STATE1)"

definition sha256_opt_rounds :: "(bytes \<Rightarrow> nat \<Rightarrow> xmm) \<Rightarrow> bytes \<Rightarrow> u32 list \<Rightarrow> u32 list" where
  "sha256_opt_rounds load_msg msg state_in =
    (let (STATE0, STATE1) = ni_load state_in;
         ABEF_SAVE = STATE0;
         CDGH_SAVE = STATE1;
         TMSG0 = load_msg msg 0;
         TMSG1 = load_msg msg 1;
         TMSG2 = load_msg msg 2;
         TMSG3 = load_msg msg 3;
         regs = (STATE0, STATE1, TMSG0, TMSG1, TMSG2, TMSG3);
         regs = ni_rounds_0_3 regs;
         regs = ni_rounds_4_7 regs;
         regs = ni_rounds_8_11 regs;
         regs = ni_rounds_12_15 regs;
         regs = ni_rounds_16_19 regs;
         regs = ni_rounds_20_23 regs;
         regs = ni_rounds_24_27 regs;
         regs = ni_rounds_28_31 regs;
         regs = ni_rounds_32_35 regs;
         regs = ni_rounds_36_39 regs;
         regs = ni_rounds_40_43 regs;
         regs = ni_rounds_44_47 regs;
         regs = ni_rounds_48_51 regs;
         regs = ni_rounds_52_55 regs;
         regs = ni_rounds_56_59 regs;
         regs = ni_rounds_60_63 regs;
         (STATE0, STATE1, rest) = regs;
         STATE0 = mm_add_epi32 STATE0 ABEF_SAVE;
         STATE1 = mm_add_epi32 STATE1 CDGH_SAVE
     in ni_store STATE0 STATE1)"

definition sha256_transform_be :: "u32 list \<Rightarrow> bytes \<Rightarrow> u32 list" where
  "sha256_transform_be state_in msg = sha256_opt_rounds load_msg_be msg state_in"

definition sha256_transform_le :: "u32 list \<Rightarrow> bytes \<Rightarrow> u32 list" where
  "sha256_transform_le state_in msg = sha256_opt_rounds casti_v128 msg state_in"

section \<open>Two blocks\<close>

definition ni2x_load :: "u32 list \<Rightarrow> u32 list \<Rightarrow> (xmm \<times> xmm) \<times> (xmm \<times> xmm)" where
  "ni2x_load in_X in_Y =
    (let TMP_X = mm_load_si128 in_X 0;
         STATE1_X = mm_load_si128 in_X 4;
         TMP_Y = mm_load_si128 in_Y 0;
         STATE1_Y = mm_load_si128 in_Y 4;
         TMP_X = mm_shuffle_epi32 TMP_X 0xB1;
         TMP_Y = mm_shuffle_epi32 TMP_Y 0xB1;
         STATE1_X = mm_shuffle_epi32 STATE1_X 0x1B;
         STATE1_Y = mm_shuffle_epi32 STATE1_Y 0x1B;
         STATE0_X = mm_alignr_epi8 TMP_X STATE1_X 8;
         STATE0_Y = mm_alignr_epi8 TMP_Y STATE1_Y 8;
         STATE1_X = mm_blend_epi16 STATE1_X TMP_X 0xF0;
         STATE1_Y = mm_blend_epi16 STATE1_Y TMP_Y 0xF0
     in ((STATE0_X, STATE1_X), (STATE0_Y, STATE1_Y)))"

definition ni2x_rounds_0_3 :: "ni_regs \<times> ni_regs \<Rightarrow> ni_regs \<times> ni_regs" where
  "ni2x_rounds_0_3 regs = (case regs of ((STATE0_X, STATE1_X, TMSG0_X, TMSG1_X, TMSG2_X, TMSG3_X),
      (STATE0_Y, STATE1_Y, TMSG0_Y, TMSG1_Y, TMSG2_Y, TMSG3_Y)) \<Rightarrow>
    (let TMP_X = mm_set_epi64x 0xE9B5DBA5B5C0FBCF 0x71374491428A2F98;
         MSG_X = mm_add_epi32 TMSG0_X TMP_X;
         MSG_Y = mm_add_epi32 TMSG0_Y TMP_X;
         STATE1_X = mm_sha256rnds2_epu32 STATE1_X STATE0_X MSG_X;
         STATE1_Y = mm_sha256rnds2_epu32 STATE1_Y STATE0_Y MSG_Y;
         MSG_X = mm_shuffle_epi32 MSG_X 0x0E;
         MSG_Y = mm_shuffle_epi32 MSG_Y 0x0E;
         STATE0_X = mm_sha256rnds2_epu32 STATE0_X STATE1_X MSG_X;
         STATE0_Y = mm_sha256rnds2_epu32 STATE0_Y STATE1_Y MSG_Y
     in ((STATE0_X, STATE1_X, TMSG0_X, TMSG1_X, TMSG2_X, TMSG3_X),
      (STATE0_Y, STATE1_Y, TMSG0_Y, TMSG1_Y, TMSG2_Y, TMSG3_Y))))"

definition ni2x_rounds_4_7 :: "ni_regs \<times> ni_regs \<Rightarrow> ni_regs \<times> ni_regs" where
  "ni2x_rounds_4_7 regs = (case regs of ((STATE0_X, STATE1_X, TMSG0_X, TMSG1_X, TMSG2_X, TMSG3_X),
      (STATE0_Y, STATE1_Y, TMSG0_Y, TMSG1_Y, TMSG2_Y, TMSG3_Y)) \<Rightarrow>
    (let TMP_X = mm_set_epi64x 0xAB1C5ED5923F82A4 0x59F111F13956C25B;
         MSG_X = mm_add_epi32 TMSG1_X TMP_X;
         MSG_Y = mm_add_epi32 TMSG1_Y TMP_X;
         STATE1_X = mm_sha256rnds2_epu32 STATE1_X STATE0_X MSG_X;
         STATE1_Y = mm_sha256rnds2_epu32 STATE1_Y STATE0_Y MSG_Y;
         MSG_X = mm_shuffle_epi32 MSG_X 0x0E;
         MSG_Y = mm_shuffle_epi32 MSG_Y 0x0E;
         STATE0_X = mm_sha256rnds2_epu32 STATE0_X STATE1_X MSG_X;
         STATE0_Y = mm_sha256rnds2_epu32 STATE0_Y STATE1_Y MSG_Y;
         TMSG0_X = mm_sha256msg1_epu32 TMSG0_X TMSG1_X;
         TMSG0_Y = mm_sha256msg1_epu32 TMSG0_Y TMSG1_Y
     in ((STATE0_X, STATE1_X, TMSG0_X, TMSG1_X, TMSG2_X, TMSG3_X),
      (STATE0_Y, STATE1_Y, TMSG0_Y, TMSG1_Y, TMSG2_Y, TMSG3_Y))))"

definition ni2x_rounds_8_11 :: "ni_regs \<times> ni_regs \<Rightarrow> ni_regs \<times> ni_regs" where
  "ni2x_rounds_8_11 regs = (case regs of ((STATE0_X, STATE1_X, TMSG0_X, TMSG1_X, TMSG2_X, TMSG3_X),
      (STATE0_Y, STATE1_Y, TMSG0_Y, TMSG1_Y, TMSG2_Y, TMSG3_Y)) \<Rightarrow>
    (let TMP_X = mm_set_epi64x 0x550C7DC3243185BE 0x12835B01D807AA98;
         MSG_X = mm_add_epi32 TMSG2_X TMP_X;
         MSG_Y = mm_add_epi32 TMSG2_Y TMP_X;
         STATE1_X = mm_sha256rnds2_epu32 STATE1_X STATE0_X MSG_X;
         STATE1_Y = mm_sha256rnds2_epu32 STATE1_Y STATE0_Y MSG_Y;
         MSG_X = mm_shuffle_epi32 MSG_X 0x0E;
         MSG_Y = mm_shuffle_epi32 MSG_Y 0x0E;
         STATE0_X = mm_sha256rnds2_epu32 STATE0_X STATE1_X MSG_X;
         STATE0_Y = mm_sha256rnds2_epu32 STATE0_Y STATE1_Y MSG_Y;
         TMSG1_X = mm_sha256msg1_epu32 TMSG1_X TMSG2_X;
         TMSG1_Y = mm_sha256msg1_epu32 TMSG1_Y TMSG2_Y
     in ((STATE0_X, STATE1_X, TMSG0_X, TMSG1_X, TMSG2_X, TMSG3_X),
      (STATE0_Y, STATE1_Y, TMSG0_Y, TMSG1_Y, TMSG2_Y, TMSG3_Y))))"

definition ni2x_rounds_12_15 :: "ni_regs \<times> ni_regs \<Rightarrow> ni_regs \<times> ni_regs" where
  "ni2x_rounds_12_15 regs = (case regs of ((STATE0_X, STATE1_X, TMSG0_X, TMSG1_X, TMSG2_X, TMSG3_X),
      (STATE0_Y, STATE1_Y, TMSG0_Y, TMSG1_Y, TMSG2_Y, TMSG3_Y)) \<Rightarrow>
    (let TMP_X = mm_set_epi64x 0xC19BF1749BDC06A7 0x80DEB1FE72BE5D74;
         MSG_X = mm_add_epi32 TMSG3_X TMP_X;
         MSG_Y = mm_add_epi32 TMSG3_Y TMP_X;
         STATE1_X = mm_sha256rnds2_epu32 STATE1_X STATE0_X MSG_X;
         STATE1_Y = mm_sha256rnds2_epu32 STATE1_Y STATE0_Y MSG_Y;
         TMP_X = mm_alignr_epi8 TMSG3_X TMSG2_X 4;
         TMP_Y = mm_alignr_epi8 TMSG3_Y TMSG2_Y 4;
         TMSG0_X = mm_add_epi32 TMSG0_X TMP_X;
         TMSG0_Y = mm_add_epi32 TMSG0_Y TMP_Y;
         TMSG0_X = mm_sha256msg2_epu32 TMSG0_X TMSG3_X;
         TMSG0_Y = mm_sha256msg2_epu32 TMSG0_Y TMSG3_Y;
         MSG_X = mm_shuffle_epi32 MSG_X 0x0E;
         MSG_Y = mm_shuffle_epi32 MSG_Y 0x0E;
         STATE0_X = mm_sha256rnds2_epu32 STATE0_X STATE1_X MSG_X;
         STATE0_Y = mm_sha256rnds2_epu32 STATE0_Y STATE1_Y MSG_Y;
         TMSG2_X = mm_sha256msg1_epu32 TMSG2_X TMSG3_X;
         TMSG2_Y = mm_sha256msg1_epu32 TMSG2_Y TMSG3_Y
     in ((STATE0_X, STATE1_X, TMSG0_X, TMSG1_X, TMSG2_X, TMSG3_X),
      (STATE0_Y, STATE1_Y, TMSG0_Y, TMSG1_Y, TMSG2_Y, TMSG3_Y))))"

definition ni2x_rounds_16_19 :: "ni_regs \<times> ni_regs \<Rightarrow> ni_regs \<times> ni_regs" where
  "ni2x_rounds_16_19 regs = (case regs of ((STATE0_X, STATE1_X, TMSG0_X, TMSG1_X, TMSG2_X, TMSG3_X),
      (STATE0_Y, STATE1_Y, TMSG0_Y, TMSG1_Y, TMSG2_Y, TMSG3_Y)) \<Rightarrow>
    (let TMP_X = mm_set_epi64x 0x240CA1CC0FC19DC6 0xEFBE4786E49B69C1;
         MSG_X = mm_add_epi32 TMSG0_X TMP_X;
         MSG_Y = mm_add_epi32 TMSG0_Y TMP_X;
         STATE1_X = mm_sha256rnds2_epu32 STATE1_X STATE0_X MSG_X;
         STATE1_Y = mm_sha256rnds2_epu32 STATE1_Y STATE0_Y MSG_Y;
         TMP_X = mm_alignr_epi8 TMSG0_X TMSG3_X 4;
         TMP_Y = mm_alignr_epi8 TMSG0_Y TMSG3_Y 4;
         TMSG1_X = mm_add_epi32 TMSG1_X TMP_X;
         TMSG1_Y = mm_add_epi32 TMSG1_Y TMP_Y;
         TMSG1_X = mm_sha256msg2_epu32 TMSG1_X TMSG0_X;
         TMSG1_Y = mm_sha256msg2_epu32 TMSG1_Y TMSG0_Y;
         MSG_X = mm_shuffle_epi32 MSG_X 0x0E;
         MSG_Y = mm_shuffle_epi32 MSG_Y 0x0E;
         STATE0_X = mm_sha256rnds2_epu32 STATE0_X STATE1_X MSG_X;
         STATE0_Y = mm_sha256rnds2_epu32 STATE0_Y STATE1_Y MSG_Y;
         TMSG3_X = mm_sha256msg1_epu32 TMSG3_X TMSG0_X;
         TMSG3_Y = mm_sha256msg1_epu32 TMSG3_Y TMSG0_Y
     in ((STATE0_X, STATE1_X, TMSG0_X, TMSG1_X, TMSG2_X, TMSG3_X),
      (STATE0_Y, STATE1_Y, TMSG0_Y, TMSG1_Y, TMSG2_Y, TMSG3_Y))))"

definition ni2x_rounds_20_23 :: "ni_regs \<times> ni_regs \<Rightarrow> ni_regs \<times> ni_regs" where
  "ni2x_rounds_20_23 regs = (case regs of ((STATE0_X, STATE1_X, TMSG0_X, TMSG1_X, TMSG2_X, TMSG3_X),
      (STATE0_Y, STATE1_Y, TMSG0_Y, TMSG1_Y, TMSG2_Y, TMSG3_Y)) \<Rightarrow>
    (let TMP_X = mm_set_epi64x 0x76F988DA5CB0A9DC 0x4A7484AA2DE92C6F;
         MSG_X = mm_add_epi32 TMSG1_X TMP_X;
         MSG_Y = mm_add_epi32 TMSG1_Y TMP_X;
         STATE1_X = mm_sha256rnds2_epu32 STATE1_X STATE0_X MSG_X;
         STATE1_Y = mm_sha256rnds2_epu32 STATE1_Y STATE0_Y MSG_Y;
         TMP_X = mm_alignr_epi8 TMSG1_X TMSG0_X 4;
         TMP_Y = mm_alignr_epi8 TMSG1_Y TMSG0_Y 4;
         TMSG2_X = mm_add_epi32 TMSG2_X TMP_X;
         TMSG2_Y = mm_add_epi32 TMSG2_Y TMP_Y;
         TMSG2_X = mm_sha256msg2_epu32 TMSG2_X TMSG1_X;
         TMSG2_Y = mm_sha256msg2_epu32 TMSG2_Y TMSG1_Y;
         MSG_X = mm_shuffle_epi32 MSG_X 0x0E;
         MSG_Y = mm_shuffle_epi32 MSG_Y 0x0E;
         STATE0_X = mm_sha256rnds2_epu32 STATE0_X STATE1_X MSG_X;
         STATE0_Y = mm_sha256rnds2_epu32 STATE0_Y STATE1_Y MSG_Y;
         TMSG0_X = mm_sha256msg1_epu32 TMSG0_X TMSG1_X;
         TMSG0_Y = mm_sha256msg1_epu32 TMSG0_Y TMSG1_Y
     in ((STATE0_X, STATE1_X, TMSG0_X, TMSG1_X, TMSG2_X, TMSG3_X),
      (STATE0_Y, STATE1_Y, TMSG0_Y, TMSG1_Y, TMSG2_Y, TMSG3_Y))))"

definition ni2x_rounds_24_27 :: "ni_regs \<times> ni_regs \<Rightarrow> ni_regs \<times> ni_regs" where
  "ni2x_rounds_24_27 regs = (case regs of ((STATE0_X, STATE1_X, TMSG0_X, TMSG1_X, TMSG2_X, TMSG3_X),
      (STATE0_Y, STATE1_Y, TMSG0_Y, TMSG1_Y, TMSG2_Y, TMSG3_Y)) \<Rightarrow>
    (let TMP_X = mm_set_epi64x 0xBF597FC7B00327C8 0xA831C66D983E5152;
         MSG_X = mm_add_epi32 TMSG2_X TMP_X;
         MSG_Y = mm_add_epi32 TMSG2_Y TMP_X;
         STATE1_X = mm_sha256rnds2_epu32 STATE1_X STATE0_X MSG_X;
         STATE1_Y = mm_sha256rnds2_epu32 STATE1_Y STATE0_Y MSG_Y;
         TMP_X = mm_alignr_epi8 TMSG2_X TMSG1_X 4;
         TMP_Y = mm_alignr_epi8 TMSG2_Y TMSG1_Y 4;
         TMSG3_X = mm_add_epi32 TMSG3_X TMP_X;
         TMSG3_Y = mm_add_epi32 TMSG3_Y TMP_Y;
         TMSG3_X = mm_sha256msg2_epu32 TMSG3_X TMSG2_X;
         TMSG3_Y = mm_sha256msg2_epu32 TMSG3_Y TMSG2_Y;
         MSG_X = mm_shuffle_epi32 MSG_X 0x0E;
         MSG_Y = mm_shuffle_epi32 MSG_Y 0x0E;
         STATE0_X = mm_sha256rnds2_epu32 STATE0_X STATE1_X MSG_X;
         STATE0_Y = mm_sha256rnds2_epu32 STATE0_Y STATE1_Y MSG_Y;
         TMSG1_X = mm_sha256msg1_epu32 TMSG1_X TMSG2_X;
         TMSG1_Y = mm_sha256msg1_epu32 TMSG1_Y TMSG2_Y
     in ((STATE0_X, STATE1_X, TMSG0_X, TMSG1_X, TMSG2_X, TMSG3_X),
      (STATE0_Y, STATE1_Y, TMSG0_Y, TMSG1_Y, TMSG2_Y, TMSG3_Y))))"

definition ni2x_rounds_28_31 :: "ni_regs \<times> ni_regs \<Rightarrow> ni_regs \<times> ni_regs" where
  "ni2x_rounds_28_31 regs = (case regs of ((STATE0_X, STATE1_X, TMSG0_X, TMSG1_X, TMSG2_X, TMSG3_X),
      (STATE0_Y, STATE1_Y, TMSG0_Y, TMSG1_Y, TMSG2_Y, TMSG3_Y)) \<Rightarrow>
    (let TMP_X = mm_set_epi64x 0x1429296706CA6351 0xD5A79147C6E00BF3;
         MSG_X = mm_add_epi32 TMSG3_X TMP_X;
         MSG_Y = mm_add_epi32 TMSG3_Y TMP_X;
         STATE1_X = mm_sha256rnds2_epu32 STATE1_X STATE0_X MSG_X;
         STATE1_Y = mm_sha256rnds2_epu32 STATE1_Y STATE0_Y MSG_Y;
         TMP_X = mm_alignr_epi8 TMSG3_X TMSG2_X 4;
         TMP_Y = mm_alignr_epi8 TMSG3_Y TMSG2_Y 4;
         TMSG0_X = mm_add_epi32 TMSG0_X TMP_X;
         TMSG0_Y = mm_add_epi32 TMSG0_Y TMP_Y;
         TMSG0_X = mm_sha256msg2_epu32 TMSG0_X TMSG3_X;
         TMSG0_Y = mm_sha256msg2_epu32 TMSG0_Y TMSG3_Y;
         MSG_X = mm_shuffle_epi32 MSG_X 0x0E;
         MSG_Y = mm_shuffle_epi32 MSG_Y 0x0E;
         STATE0_X = mm_sha256rnds2_epu32 STATE0_X STATE1_X MSG_X;
         STATE0_Y = mm_sha256rnds2_epu32 STATE0_Y STATE1_Y MSG_Y;
         TMSG2_X = mm_sha256msg1_epu32 TMSG2_X TMSG3_X;
         TMSG2_Y = mm_sha256msg1_epu32 TMSG2_Y TMSG3_Y
     in ((STATE0_X, STATE1_X, TMSG0_X, TMSG1_X, TMSG2_X, TMSG3_X),
      (STATE0_Y, STATE1_Y, TMSG0_Y, TMSG1_Y, TMSG2_Y, TMSG3_Y))))"

definition ni2x_rounds_32_35 :: "ni_regs \<times> ni_regs \<Rightarrow> ni_regs \<times> ni_regs" where
  "ni2x_rounds_32_35 regs = (case regs of ((STATE0_X, STATE1_X, TMSG0_X, TMSG1_X, TMSG2_X, TMSG3_X),
      (STATE0_Y, STATE1_Y, TMSG0_Y, TMSG1_Y, TMSG2_Y, TMSG3_Y)) \<Rightarrow>
    (let TMP_X = mm_set_epi64x 0x53380D134D2C6DFC 0x2E1B213827B70A85;
         MSG_X = mm_add_epi32 TMSG0_X TMP_X;
         MSG_Y = mm_add_epi32 TMSG0_Y TMP_X;
         STATE1_X = mm_sha256rnds2_epu32 STATE1_X STATE0_X MSG_X;
         STATE1_Y = mm_sha256rnds2_epu32 STATE1_Y STATE0_Y MSG_Y;
         TMP_X = mm_alignr_epi8 TMSG0_X TMSG3_X 4;
         TMP_Y = mm_alignr_epi8 TMSG0_Y TMSG3_Y 4;
         TMSG1_X = mm_add_epi32 TMSG1_X TMP_X;
         TMSG1_Y = mm_add_epi32 TMSG1_Y TMP_Y;
         TMSG1_X = mm_sha256msg2_epu32 TMSG1_X TMSG0_X;
         TMSG1_Y = mm_sha256msg2_epu32 TMSG1_Y TMSG0_Y;
         MSG_X = mm_shuffle_epi32 MSG_X 0x0E;
         MSG_Y = mm_shuffle_epi32 MSG_Y 0x0E;
         STATE0_X = mm_sha256rnds2_epu32 STATE0_X STATE1_X MSG_X;
         STATE0_Y = mm_sha256rnds2_epu32 STATE0_Y STATE1_Y MSG_Y;
         TMSG3_X = mm_sha256msg1_epu32 TMSG3_X TMSG0_X;
         TMSG3_Y = mm_sha256msg1_epu32 TMSG3_Y TMSG0_Y
     in ((STATE0_X, STATE1_X, TMSG0_X, TMSG1_X, TMSG2_X, TMSG3_X),
      (STATE0_Y, STATE1_Y, TMSG0_Y, TMSG1_Y, TMSG2_Y, TMSG3_Y))))"

definition ni2x_rounds_36_39 :: "ni_regs \<times> ni_regs \<Rightarrow> ni_regs \<times> ni_regs" where
  "ni2x_rounds_36_39 regs = (case regs of ((STATE0_X, STATE1_X, TMSG0_X, TMSG1_X, TMSG2_X, TMSG3_X),
      (STATE0_Y, STATE1_Y, TMSG0_Y, TMSG1_Y, TMSG2_Y, TMSG3_Y)) \<Rightarrow>
    (let TMP_X = mm_set_epi64x 0x92722C8581C2C92E 0x766A0ABB650A7354;
         MSG_X = mm_add_epi32 TMSG1_X TMP_X;
         MSG_Y = mm_add_epi32 TMSG1_Y TMP_X;
         STATE1_X = mm_sha256rnds2_epu32 STATE1_X STATE0_X MSG_X;
         STATE1_Y = mm_sha256rnds2_epu32 STATE1_Y STATE0_Y MSG_Y;
         TMP_X = mm_alignr_epi8 TMSG1_X TMSG0_X 4;
         TMP_Y = mm_alignr_epi8 TMSG1_Y TMSG0_Y 4;
         TMSG2_X = mm_add_epi32 TMSG2_X TMP_X;
         TMSG2_Y = mm_add_epi32 TMSG2_Y TMP_Y;
         TMSG2_X = mm_sha256msg2_epu32 TMSG2_X TMSG1_X;
         TMSG2_Y = mm_sha256msg2_epu32 TMSG2_Y TMSG1_Y;
         MSG_X = mm_shuffle_epi32 MSG_X 0x0E;
         MSG_Y = mm_shuffle_epi32 MSG_Y 0x0E;
         STATE0_X = mm_sha256rnds2_epu32 STATE0_X STATE1_X MSG_X;
         STATE0_Y = mm_sha256rnds2_epu32 STATE0_Y STATE1_Y MSG_Y;
         TMSG0_X = mm_sha256msg1_epu32 TMSG0_X TMSG1_X;
         TMSG0_Y = mm_sha256msg1_epu32 TMSG0_Y TMSG1_Y
     in ((STATE0_X, STATE1_X, TMSG0_X, TMSG1_X, TMSG2_X, TMSG3_X),
      (STATE0_Y, STATE1_Y, TMSG0_Y, TMSG1_Y, TMSG2_Y, TMSG3_Y))))"

definition ni2x_rounds_40_43 :: "ni_regs \<times> ni_regs \<Rightarrow> ni_regs \<times> ni_regs" where
  "ni2x_rounds_40_43 regs = (case regs of ((STATE0_X, STATE1_X, TMSG0_X, TMSG1_X, TMSG2_X, TMSG3_X),
      (STATE0_Y, STATE1_Y, TMSG0_Y, TMSG1_Y, TMSG2_Y, TMSG3_Y)) \<Rightarrow>
    (let TMP_X = mm_set_epi64x 0xC76C51A3C24B8B70 0xA81A664BA2BFE8A1;
         MSG_X = mm_add_epi32 TMSG2_X TMP_X;
         MSG_Y = mm_add_epi32 TMSG2_Y TMP_X;
         STATE1_X = mm_sha256rnds2_epu32 STATE1_X STATE0_X MSG_X;
         STATE1_Y = mm_sha256rnds2_epu32 STATE1_Y STATE0_Y MSG_Y;
         TMP_X = mm_alignr_epi8 TMSG2_X TMSG1_X 4;
         TMP_Y = mm_alignr_epi8 TMSG2_Y TMSG1_Y 4;
         TMSG3_X = mm_add_epi32 TMSG3_X TMP_X;
         TMSG3_Y = mm_add_epi32 TMSG3_Y TMP_Y;
         TMSG3_X = mm_sha256msg2_epu32 TMSG3_X TMSG2_X;
         TMSG3_Y = mm_sha256msg2_epu32 TMSG3_Y TMSG2_Y;
         MSG_X = mm_shuffle_epi32 MSG_X 0x0E;
         MSG_Y = mm_shuffle_epi32 MSG_Y 0x0E;
         STATE0_X = mm_sha256rnds2_epu32 STATE0_X STATE1_X MSG_X;
         STATE0_Y = mm_sha256rnds2_epu32 STATE0_Y STATE1_Y MSG_Y;
         TMSG1_X = mm_sha256msg1_epu32 TMSG1_X TMSG2_X;
         TMSG1_Y = mm_sha256msg1_epu32 TMSG1_Y TMSG2_Y
     in ((STATE0_X, STATE1_X, TMSG0_X, TMSG1_X, TMSG2_X, TMSG3_X),
      (STATE0_Y, STATE1_Y, TMSG0_Y, TMSG1_Y, TMSG2_Y, TMSG3_Y))))"

definition ni2x_rounds_44_47 :: "ni_regs \<times> ni_regs \<Rightarrow> ni_regs \<times> ni_regs" where
  "ni2x_rounds_44_47 regs = (case regs of ((STATE0_X, STATE1_X, TMSG0_X, TMSG1_X, TMSG2_X, TMSG3_X),
      (STATE0_Y, STATE1_Y, TMSG0_Y, TMSG1_Y, TMSG2_Y, TMSG3_Y)) \<Rightarrow>
    (let TMP_X = mm_set_epi64x 0x106AA070F40E3585 0xD6990624D192E819;
         MSG_X = mm_add_epi32 TMSG3_X TMP_X;
         MSG_Y = mm_add_epi32 TMSG3_Y TMP_X;
         STATE1_X = mm_sha256rnds2_epu32 STATE1_X STATE0_X MSG_X;
         STATE1_Y = mm_sha256rnds2_epu32 STATE1_Y STATE0_Y MSG_Y;
         TMP_X = mm_alignr_epi8 TMSG3_X TMSG2_X 4;
         TMP_Y = mm_alignr_epi8 TMSG3_Y TMSG2_Y 4;
         TMSG0_X = mm_add_epi32 TMSG0_X TMP_X;
         TMSG0_Y = mm_add_epi32 TMSG0_Y TMP_Y;
         TMSG0_X = mm_sha256msg2_epu32 TMSG0_X TMSG3_X;
         TMSG0_Y = mm_sha256msg2_epu32 TMSG0_Y TMSG3_Y;
         MSG_X = mm_shuffle_epi32 MSG_X 0x0E;
         MSG_Y = mm_shuffle_epi32 MSG_Y 0x0E;
         STATE0_X = mm_sha256rnds2_epu32 STATE0_X STATE1_X MSG_X;
         STATE0_Y = mm_sha256rnds2_epu32 STATE0_Y STATE1_Y MSG_Y;
         TMSG2_X = mm_sha256msg1_epu32 TMSG2_X TMSG3_X;
         TMSG2_Y = mm_sha256msg1_epu32 TMSG2_Y TMSG3_Y
     in ((STATE0_X, STATE1_X, TMSG0_X, TMSG1_X, TMSG2_X, TMSG3_X),
      (STATE0_Y, STATE1_Y, TMSG0_Y, TMSG1_Y, TMSG2_Y, TMSG3_Y))))"

definition ni2x_rounds_48_51 :: "ni_regs \<times> ni_regs \<Rightarrow> ni_regs \<times> ni_regs" where
  "ni2x_rounds_48_51 regs = (case regs of ((STATE0_X, STATE1_X, TMSG0_X, TMSG1_X, TMSG2_X, TMSG3_X),
      (STATE0_Y, STATE1_Y, TMSG0_Y, TMSG1_Y, TMSG2_Y, TMSG3_Y)) \<Rightarrow>
    (let TMP_X = mm_set_epi64x 0x34B0BCB52748774C 0x1E376C0819A4C116;
         MSG_X = mm_add_epi32 TMSG0_X TMP_X;
         MSG_Y = mm_add_epi32 TMSG0_Y TMP_X;
         STATE1_X = mm_sha256rnds2_epu32 STATE1_X STATE0_X MSG_X;
         STATE1_Y = mm_sha256rnds2_epu32 STATE1_Y STATE0_Y MSG_Y;
         TMP_X = mm_alignr_epi8 TMSG0_X TMSG3_X 4;
         TMP_Y = mm_alignr_epi8 TMSG0_Y TMSG3_Y 4;
         TMSG1_X = mm_add_epi32 TMSG1_X TMP_X;
         TMSG1_Y = mm_add_epi32 TMSG1_Y TMP_Y;
         TMSG1_X = mm_sha256msg2_epu32 TMSG1_X TMSG0_X;
         TMSG1_Y = mm_sha256msg2_epu32 TMSG1_Y TMSG0_Y;
         MSG_X = mm_shuffle_epi32 MSG_X 0x0E;
         MSG_Y = mm_shuffle_epi32 MSG_Y 0x0E;
         STATE0_X = mm_sha256rnds2_epu32 STATE0_X STATE1_X MSG_X;
         STATE0_Y = mm_sha256rnds2_epu32 STATE0_Y STATE1_Y MSG_Y;
         TMSG3_X = mm_sha256msg1_epu32 TMSG3_X TMSG0_X;
         TMSG3_Y = mm_sha256msg1_epu32 TMSG3_Y TMSG0_Y
     in ((STATE0_X, STATE1_X, TMSG0_X, TMSG1_X, TMSG2_X, TMSG3_X),
      (STATE0_Y, STATE1_Y, TMSG0_Y, TMSG1_Y, TMSG2_Y, TMSG3_Y))))"

definition ni2x_rounds_52_55 :: "ni_regs \<times> ni_regs \<Rightarrow> ni_regs \<times> ni_regs" where
  "ni2x_rounds_52_55 regs = (case regs of ((STATE0_X, STATE1_X, TMSG0_X, TMSG1_X, TMSG2_X, TMSG3_X),
      (STATE0_Y, STATE1_Y, TMSG0_Y, TMSG1_Y, TMSG2_Y, TMSG3_Y)) \<Rightarrow>
    (let TMP_X = mm_set_epi64x 0x682E6FF35B9CCA4F 0x4ED8AA4A391C0CB3;
         MSG_X = mm_add_epi32 TMSG1_X TMP_X;
         MSG_Y = mm_add_epi32 TMSG1_Y TMP_X;
         STATE1_X = mm_sha256rnds2_epu32 STATE1_X STATE0_X MSG_X;
         STATE1_Y = mm_sha256rnds2_epu32 STATE1_Y STATE0_Y MSG_Y;
         TMP_X = mm_alignr_epi8 TMSG1_X TMSG0_X 4;
         TMP_Y = mm_alignr_epi8 TMSG1_Y TMSG0_Y 4;
         TMSG2_X = mm_add_epi32 TMSG2_X TMP_X;
         TMSG2_Y = mm_add_epi32 TMSG2_Y TMP_Y;
         TMSG2_X = mm_sha256msg2_epu32 TMSG2_X TMSG1_X;
         TMSG2_Y = mm_sha256msg2_epu32 TMSG2_Y TMSG1_Y;
         MSG_X = mm_shuffle_epi32 MSG_X 0x0E;
         MSG_Y = mm_shuffle_epi32 MSG_Y 0x0E;
         STATE0_X = mm_sha256rnds2_epu32 STATE0_X STATE1_X MSG_X;
         STATE0_Y = mm_sha256rnds2_epu32 STATE0_Y STATE1_Y MSG_Y
     in ((STATE0_X, STATE1_X, TMSG0_X, TMSG1_X, TMSG2_X, TMSG3_X),
      (STATE0_Y, STATE1_Y, TMSG0_Y, TMSG1_Y, TMSG2_Y, TMSG3_Y))))"

definition ni2x_rounds_56_59 :: "ni_regs \<times> ni_regs \<Rightarrow> ni_regs \<times> ni_regs" where
  "ni2x_rounds_56_59 regs = (case regs of ((STATE0_X, STATE1_X, TMSG0_X, TMSG1_X, TMSG2_X, TMSG3_X),
      (STATE0_Y, STATE1_Y, TMSG0_Y, TMSG1_Y, TMSG2_Y, TMSG3_Y)) \<Rightarrow>
    (let TMP_X = mm_set_epi64x 0x8CC7020884C87814 0x78A5636F748F82EE;
         MSG_X = mm_add_epi32 TMSG2_X TMP_X;
         MSG_Y = mm_add_epi32 TMSG2_Y TMP_X;
         STATE1_X = mm_sha256rnds2_epu32 STATE1_X STATE0_X MSG_X;
         STATE1_Y = mm_sha256rnds2_epu32 STATE1_Y STATE0_Y MSG_Y;
         TMP_X = mm_alignr_epi8 TMSG2_X TMSG1_X 4;
         TMP_Y = mm_alignr_epi8 TMSG2_Y TMSG1_Y 4;
         TMSG3_X = mm_add_epi32 TMSG3_X TMP_X;
         TMSG3_Y = mm_add_epi32 TMSG3_Y TMP_Y;
         TMSG3_X = mm_sha256msg2_epu32 TMSG3_X TMSG2_X;
         TMSG3_Y = mm_sha256msg2_epu32 TMSG3_Y TMSG2_Y;
         MSG_X = mm_shuffle_epi32 MSG_X 0x0E;
         MSG_Y = mm_shuffle_epi32 MSG_Y 0x0E;
         STATE0_X = mm_sha256rnds2_epu32 STATE0_X STATE1_X MSG_X;
         STATE0_Y = mm_sha256rnds2_epu32 STATE0_Y STATE1_Y MSG_Y
     in ((STATE0_X, STATE1_X, TMSG0_X, TMSG1_X, TMSG2_X, TMSG3_X),
      (STATE0_Y, STATE1_Y, TMSG0_Y, TMSG1_Y, TMSG2_Y, TMSG3_Y))))"

definition ni2x_rounds_60_63 :: "ni_regs \<times> ni_regs \<Rightarrow> ni_regs \<times> ni_regs" where
  "ni2x_rounds_60_63 regs = (case regs of ((STATE0_X, STATE1_X, TMSG0_X, TMSG1_X, TMSG2_X, TMSG3_X),
      (STATE0_Y, STATE1_Y, TMSG0_Y, TMSG1_Y, TMSG2_Y, TMSG3_Y)) \<Rightarrow>
    (let TMP_X = mm_set_epi64x 0xC67178F2BEF9A3F7 0xA4506CEB90BEFFFA;
         MSG_X = mm_add_epi32 TMSG3_X TMP_X;
         MSG_Y = mm_add_epi32 TMSG3_Y TMP_X;
         STATE1_X = mm_sha256rnds2_epu32 STATE1_X STATE0_X MSG_X;
         STATE1_Y = mm_sha256rnds2_epu32 STATE1_Y STATE0_Y MSG_Y;
         MSG_X = mm_shuffle_epi32 MSG_X 0x0E;
         MSG_Y = mm_shuffle_epi32 MSG_Y 0x0E;
         STATE0_X = mm_sha256rnds2_epu32 STATE0_X STATE1_X MSG_X;
         STATE0_Y = mm_sha256rnds2_epu32 STATE0_Y STATE1_Y MSG_Y
     in ((STATE0_X, STATE1_X, TMSG0_X, TMSG1_X, TMSG2_X, TMSG3_X),
      (STATE0_Y, STATE1_Y, TMSG0_Y, TMSG1_Y, TMSG2_Y, TMSG3_Y))))"

definition ni2x_store :: "xmm \<Rightarrow> xmm \<Rightarrow> xmm \<Rightarrow> xmm \<Rightarrow> u32 list \<times> u32 list" where
  "ni2x_store STATE0_X STATE1_X STATE0_Y STATE1_Y =
    (let TMP_X = mm_shuffle_epi32 STATE0_X 0x1B;
         TMP_Y = mm_shuffle_epi32 STATE0_Y 0x1B;
         STATE1_X = mm_shuffle_epi32 STATE1_X 0xB1;
         STATE1_Y = mm_shuffle_epi32 STATE1_Y 0xB1;
         STATE0_X = mm_blend_epi16 TMP_X STATE1_X 0xF0;
         STATE0_Y = mm_blend_epi16 TMP_Y STATE1_Y 0xF0;
         STATE1_X = mm_alignr_epi8 STATE1_X TMP_X 8;
         STATE1_Y = mm_alignr_epi8 STATE1_Y TMP_Y 8
     in (xmm_list STATE0_X @ xmm_list STATE1_X, xmm_list STATE0_Y @ xmm_list STATE1_Y))"

definition sha256_ni2x_rounds :: "(bytes \<Rightarrow> nat \<Rightarrow> xmm) \<Rightarrow> bytes \<Rightarrow> bytes \<Rightarrow> u32 list \<Rightarrow> u32 list \<Rightarrow>
    u32 list \<times> u32 list" where
  "sha256_ni2x_rounds load_msg msg_X msg_Y in_X in_Y =
    (let ((STATE0_X, STATE1_X), (STATE0_Y, STATE1_Y)) = ni2x_load in_X in_Y;
         ABEF_SAVE_X = STATE0_X; ABEF_SAVE_Y = STATE0_Y;
         CDGH_SAVE_X = STATE1_X; CDGH_SAVE_Y = STATE1_Y;
         TMSG0_X = load_msg msg_X 0; TMSG0_Y = load_msg msg_Y 0;
         TMSG1_X = load_msg msg_X 1; TMSG1_Y = load_msg msg_Y 1;
         TMSG2_X = load_msg msg_X 2; TMSG2_Y = load_msg msg_Y 2;
         TMSG3_X = load_msg msg_X 3; TMSG3_Y = load_msg msg_Y 3;
         regs = ((STATE0_X, STATE1_X, TMSG0_X, TMSG1_X, TMSG2_X, TMSG3_X),
                 (STATE0_Y, STATE1_Y, TMSG0_Y, TMSG1_Y, TMSG2_Y, TMSG3_Y));
         regs = ni2x_rounds_0_3 regs;
         regs = ni2x_rounds_4_7 regs;
         regs = ni2x_rounds_8_11 regs;
         regs = ni2x_rounds_12_15 regs;
         regs = ni2x_rounds_16_19 regs;
         regs = ni2x_rounds_20_23 regs;
         regs = ni2x_rounds_24_27 regs;
         regs = ni2x_rounds_28_31 regs;
         regs = ni2x_rounds_32_35 regs;
         regs = ni2x_rounds_36_39 regs;
         regs = ni2x_rounds_40_43 regs;
         regs = ni2x_rounds_44_47 regs;
         regs = ni2x_rounds_48_51 regs;
         regs = ni2x_rounds_52_55 regs;
         regs = ni2x_rounds_56_59 regs;
         regs = ni2x_rounds_60_63 regs;
         ((STATE0_X, STATE1_X, rest_X), (STATE0_Y, STATE1_Y, rest_Y)) = regs;
         STATE0_X = mm_add_epi32 STATE0_X ABEF_SAVE_X;
         STATE1_X = mm_add_epi32 STATE1_X CDGH_SAVE_X;
         STATE0_Y = mm_add_epi32 STATE0_Y ABEF_SAVE_Y;
         STATE1_Y = mm_add_epi32 STATE1_Y CDGH_SAVE_Y
     in ni2x_store STATE0_X STATE1_X STATE0_Y STATE1_Y)"

definition sha256_2x_transform_be :: "bytes \<Rightarrow> bytes \<Rightarrow> u32 list \<Rightarrow> u32 list \<Rightarrow> u32 list \<times> u32 list" where
  "sha256_2x_transform_be msg_X msg_Y in_X in_Y = sha256_ni2x_rounds load_msg_be msg_X msg_Y in_X in_Y"

definition sha256_2x_transform_le :: "bytes \<Rightarrow> bytes \<Rightarrow> u32 list \<Rightarrow> u32 list \<Rightarrow> u32 list \<times> u32 list" where
  "sha256_2x_transform_le msg_X msg_Y in_X in_Y = sha256_ni2x_rounds casti_v128 msg_X msg_Y in_X in_Y"

section \<open>The transform is the compression function\<close>

section \<open>Registers against working variables\<close>

definition abef :: "u32 list \<Rightarrow> xmm" where
  "abef v = Xmm (v ! 5) (v ! 4) (v ! 1) (v ! 0)"

definition cdgh :: "u32 list \<Rightarrow> xmm" where
  "cdgh v = Xmm (v ! 7) (v ! 6) (v ! 3) (v ! 2)"

fun quad :: "xmm \<Rightarrow> u32 list \<Rightarrow> u32 list" where
  "quad (Xmm m0 m1 m2 m3) v = fips_round 0 m3 (fips_round 0 m2 (fips_round 0 m1 (fips_round 0 m0 v)))"

lemma quad_length [simp]: "length (quad m v) = length v"
  by (cases m) (simp add: fips_round_length)

lemma rnds2_low:
  "length v = 8 \<Longrightarrow> mm_sha256rnds2_epu32 (cdgh v) (abef v) m = cdgh (quad m v)"
  by (cases m) (auto dest!: list8 simp: abef_def cdgh_def sha_rnd_def Let_def ac_simps)

lemma rnds2_high:
  "length v = 8 \<Longrightarrow> mm_sha256rnds2_epu32 (abef v) (cdgh (quad m v)) (mm_shuffle_epi32 m 0x0E) = abef (quad m v)"
  by (cases m) (auto dest!: list8 simp: abef_def cdgh_def sha_rnd_def Let_def mm_shuffle_epi32_def ac_simps)

definition msgs :: "(nat \<Rightarrow> u32) \<Rightarrow> nat \<Rightarrow> xmm" where
  "msgs W n = Xmm (W n) (W (n + 1)) (W (n + 2)) (W (n + 3))"

lemma quad_msgs:
  "quad (mm_add_epi32 (msgs W n) (msgs ((!) Krnd) n)) v =
     fold (\<lambda>t. fips_round (Krnd ! t) (W t)) [n..<n + 4] v"
proof -
  have "fips_round 0 (w + k) v = fips_round k w v" for w k v
    by (induction k w v rule: fips_round.induct) (simp_all add: Let_def ac_simps)
  then show ?thesis
    by (simp add: msgs_def upt_rec numeral_3_eq_3 add.commute)
qed

definition recur :: "(nat \<Rightarrow> u32) \<Rightarrow> bool" where
  "recur W \<longleftrightarrow> (\<forall>t. 16 \<le> t \<and> t < 64 \<longrightarrow> W t = s1 (W (t - 2)) + W (t - 7) + s0 (W (t - 15)) + W (t - 16))"

lemma schedule_quad:
  assumes "recur W" "n + 3 < 48"
  shows "mm_sha256msg2_epu32 (mm_add_epi32 (mm_sha256msg1_epu32 (msgs W n) (msgs W (n + 4)))
      (mm_alignr_epi8 (msgs W (n + 12)) (msgs W (n + 8)) 4)) (msgs W (n + 12)) = msgs W (n + 16)"
proof -
  have e: "W t = s1 (W (t - 2)) + W (t - 7) + s0 (W (t - 15)) + W (t - 16)" if "16 \<le> t" "t < 64" for t
    using assms(1) that by (simp add: recur_def)
  have e0: "W (n + 16) = s1 (W (n + 14)) + W (n + 9) + s0 (W (n + 1)) + W n"
    using e[of "n + 16"] assms(2) by (simp add: add.commute)
  have e1: "W (n + 17) = s1 (W (n + 15)) + W (n + 10) + s0 (W (n + 2)) + W (n + 1)"
    using e[of "n + 17"] assms(2) by (simp add: add.commute)
  have e2: "W (n + 18) = s1 (W (n + 16)) + W (n + 11) + s0 (W (n + 3)) + W (n + 2)"
    using e[of "n + 18"] assms(2) by (simp add: add.commute)
  have e3: "W (n + 19) = s1 (W (n + 17)) + W (n + 12) + s0 (W (n + 4)) + W (n + 3)"
    using e[of "n + 19"] assms(2) by (simp add: add.commute)
  have idx: "n + 4 + 1 = n + 5" "n + 12 + 1 = n + 13" "n + 12 + 2 = n + 14" "n + 12 + 3 = n + 15"
    "n + 8 + 1 = n + 9" "n + 8 + 2 = n + 10" "n + 8 + 3 = n + 11"
    "n + 16 + 1 = n + 17" "n + 16 + 2 = n + 18" "n + 16 + 3 = n + 19"
    by simp_all
  have al: "mm_alignr_epi8 (msgs W (n + 12)) (msgs W (n + 8)) 4 = Xmm (W (n + 9)) (W (n + 10)) (W (n + 11)) (W (n + 12))"
    by (simp add: mm_alignr_epi8_def msgs_def list_xmm_def add.commute)
  show ?thesis
    unfolding al unfolding msgs_def idx mm_sha256msg1_epu32.simps mm_add_epi32.simps mm_sha256msg2_epu32.simps Let_def
    unfolding e3 e2 e1 e0
    by (simp only: xmm.inject ac_simps)
qed

lemma ni_constants:
  "mm_set_epi64x 0xE9B5DBA5B5C0FBCF 0x71374491428A2F98 = msgs ((!) Krnd) 0"
  "mm_set_epi64x 0xAB1C5ED5923F82A4 0x59F111F13956C25B = msgs ((!) Krnd) 4"
  "mm_set_epi64x 0x550C7DC3243185BE 0x12835B01D807AA98 = msgs ((!) Krnd) 8"
  "mm_set_epi64x 0xC19BF1749BDC06A7 0x80DEB1FE72BE5D74 = msgs ((!) Krnd) 12"
  "mm_set_epi64x 0x240CA1CC0FC19DC6 0xEFBE4786E49B69C1 = msgs ((!) Krnd) 16"
  "mm_set_epi64x 0x76F988DA5CB0A9DC 0x4A7484AA2DE92C6F = msgs ((!) Krnd) 20"
  "mm_set_epi64x 0xBF597FC7B00327C8 0xA831C66D983E5152 = msgs ((!) Krnd) 24"
  "mm_set_epi64x 0x1429296706CA6351 0xD5A79147C6E00BF3 = msgs ((!) Krnd) 28"
  "mm_set_epi64x 0x53380D134D2C6DFC 0x2E1B213827B70A85 = msgs ((!) Krnd) 32"
  "mm_set_epi64x 0x92722C8581C2C92E 0x766A0ABB650A7354 = msgs ((!) Krnd) 36"
  "mm_set_epi64x 0xC76C51A3C24B8B70 0xA81A664BA2BFE8A1 = msgs ((!) Krnd) 40"
  "mm_set_epi64x 0x106AA070F40E3585 0xD6990624D192E819 = msgs ((!) Krnd) 44"
  "mm_set_epi64x 0x34B0BCB52748774C 0x1E376C0819A4C116 = msgs ((!) Krnd) 48"
  "mm_set_epi64x 0x682E6FF35B9CCA4F 0x4ED8AA4A391C0CB3 = msgs ((!) Krnd) 52"
  "mm_set_epi64x 0x8CC7020884C87814 0x78A5636F748F82EE = msgs ((!) Krnd) 56"
  "mm_set_epi64x 0xC67178F2BEF9A3F7 0xA4506CEB90BEFFFA = msgs ((!) Krnd) 60"
  by (simp_all add: mm_set_epi64x_def msgs_def Krnd_def)

lemmas schedule_quads = schedule_quad[of _ 0, simplified]
  schedule_quad[of _ 4, simplified]
  schedule_quad[of _ 8, simplified]
  schedule_quad[of _ 12, simplified]
  schedule_quad[of _ 16, simplified]
  schedule_quad[of _ 20, simplified]
  schedule_quad[of _ 24, simplified]
  schedule_quad[of _ 28, simplified]
  schedule_quad[of _ 32, simplified]
  schedule_quad[of _ 36, simplified]
  schedule_quad[of _ 40, simplified]
  schedule_quad[of _ 44, simplified]

definition four :: "(nat \<Rightarrow> u32) \<Rightarrow> nat \<Rightarrow> u32 list \<Rightarrow> u32 list" where
  "four W n v = fold (\<lambda>t. fips_round (Krnd ! t) (W t)) [n..<n + 4] v"

lemma four_length [simp]: "length (four W n v) = length v"
  using quad_length[of "mm_add_epi32 (msgs W n) (msgs ((!) Krnd) n)" v] by (simp add: quad_msgs four_def)

lemma four_low:
  "length v = 8 \<Longrightarrow>
     mm_sha256rnds2_epu32 (cdgh v) (abef v) (mm_add_epi32 (msgs W n) (msgs ((!) Krnd) n)) = cdgh (four W n v)"
  by (simp add: rnds2_low quad_msgs four_def)

lemma four_high:
  "length v = 8 \<Longrightarrow>
     mm_sha256rnds2_epu32 (abef v) (cdgh (four W n v))
       (mm_shuffle_epi32 (mm_add_epi32 (msgs W n) (msgs ((!) Krnd) n)) 0x0E) = abef (four W n v)"
  using rnds2_high[of v "mm_add_epi32 (msgs W n) (msgs ((!) Krnd) n)"] by (simp add: quad_msgs four_def)

lemmas ni_segments_defs = ni_rounds_0_3_def
  ni_rounds_4_7_def
  ni_rounds_8_11_def
  ni_rounds_12_15_def
  ni_rounds_16_19_def
  ni_rounds_20_23_def
  ni_rounds_24_27_def
  ni_rounds_28_31_def
  ni_rounds_32_35_def
  ni_rounds_36_39_def
  ni_rounds_40_43_def
  ni_rounds_44_47_def
  ni_rounds_48_51_def
  ni_rounds_52_55_def
  ni_rounds_56_59_def
  ni_rounds_60_63_def

lemma ni_segments_run:
  assumes r: "recur W" and l: "length v = 8"
  shows
    "ni_rounds_0_3 (abef v, cdgh v, msgs W 0, msgs W 4, msgs W 8, msgs W 12) =
      (abef (four W 0 v), cdgh (four W 0 v), msgs W 0, msgs W 4, msgs W 8, msgs W 12)"
    "ni_rounds_4_7 (abef v, cdgh v, msgs W 0, msgs W 4, msgs W 8, msgs W 12) =
      (abef (four W 4 v), cdgh (four W 4 v), mm_sha256msg1_epu32 (msgs W 0) (msgs W 4), msgs W 4, msgs W 8, msgs W 12)"
    "ni_rounds_8_11 (abef v, cdgh v, mm_sha256msg1_epu32 (msgs W 0) (msgs W 4), msgs W 4, msgs W 8, msgs W 12) =
      (abef (four W 8 v), cdgh (four W 8 v), mm_sha256msg1_epu32 (msgs W 0) (msgs W 4), mm_sha256msg1_epu32 (msgs W 4) (msgs W 8), msgs W 8, msgs W 12)"
    "ni_rounds_12_15 (abef v, cdgh v, mm_sha256msg1_epu32 (msgs W 0) (msgs W 4), mm_sha256msg1_epu32 (msgs W 4) (msgs W 8), msgs W 8, msgs W 12) =
      (abef (four W 12 v), cdgh (four W 12 v), msgs W 16, mm_sha256msg1_epu32 (msgs W 4) (msgs W 8), mm_sha256msg1_epu32 (msgs W 8) (msgs W 12), msgs W 12)"
    "ni_rounds_16_19 (abef v, cdgh v, msgs W 16, mm_sha256msg1_epu32 (msgs W 4) (msgs W 8), mm_sha256msg1_epu32 (msgs W 8) (msgs W 12), msgs W 12) =
      (abef (four W 16 v), cdgh (four W 16 v), msgs W 16, msgs W 20, mm_sha256msg1_epu32 (msgs W 8) (msgs W 12), mm_sha256msg1_epu32 (msgs W 12) (msgs W 16))"
    "ni_rounds_20_23 (abef v, cdgh v, msgs W 16, msgs W 20, mm_sha256msg1_epu32 (msgs W 8) (msgs W 12), mm_sha256msg1_epu32 (msgs W 12) (msgs W 16)) =
      (abef (four W 20 v), cdgh (four W 20 v), mm_sha256msg1_epu32 (msgs W 16) (msgs W 20), msgs W 20, msgs W 24, mm_sha256msg1_epu32 (msgs W 12) (msgs W 16))"
    "ni_rounds_24_27 (abef v, cdgh v, mm_sha256msg1_epu32 (msgs W 16) (msgs W 20), msgs W 20, msgs W 24, mm_sha256msg1_epu32 (msgs W 12) (msgs W 16)) =
      (abef (four W 24 v), cdgh (four W 24 v), mm_sha256msg1_epu32 (msgs W 16) (msgs W 20), mm_sha256msg1_epu32 (msgs W 20) (msgs W 24), msgs W 24, msgs W 28)"
    "ni_rounds_28_31 (abef v, cdgh v, mm_sha256msg1_epu32 (msgs W 16) (msgs W 20), mm_sha256msg1_epu32 (msgs W 20) (msgs W 24), msgs W 24, msgs W 28) =
      (abef (four W 28 v), cdgh (four W 28 v), msgs W 32, mm_sha256msg1_epu32 (msgs W 20) (msgs W 24), mm_sha256msg1_epu32 (msgs W 24) (msgs W 28), msgs W 28)"
    "ni_rounds_32_35 (abef v, cdgh v, msgs W 32, mm_sha256msg1_epu32 (msgs W 20) (msgs W 24), mm_sha256msg1_epu32 (msgs W 24) (msgs W 28), msgs W 28) =
      (abef (four W 32 v), cdgh (four W 32 v), msgs W 32, msgs W 36, mm_sha256msg1_epu32 (msgs W 24) (msgs W 28), mm_sha256msg1_epu32 (msgs W 28) (msgs W 32))"
    "ni_rounds_36_39 (abef v, cdgh v, msgs W 32, msgs W 36, mm_sha256msg1_epu32 (msgs W 24) (msgs W 28), mm_sha256msg1_epu32 (msgs W 28) (msgs W 32)) =
      (abef (four W 36 v), cdgh (four W 36 v), mm_sha256msg1_epu32 (msgs W 32) (msgs W 36), msgs W 36, msgs W 40, mm_sha256msg1_epu32 (msgs W 28) (msgs W 32))"
    "ni_rounds_40_43 (abef v, cdgh v, mm_sha256msg1_epu32 (msgs W 32) (msgs W 36), msgs W 36, msgs W 40, mm_sha256msg1_epu32 (msgs W 28) (msgs W 32)) =
      (abef (four W 40 v), cdgh (four W 40 v), mm_sha256msg1_epu32 (msgs W 32) (msgs W 36), mm_sha256msg1_epu32 (msgs W 36) (msgs W 40), msgs W 40, msgs W 44)"
    "ni_rounds_44_47 (abef v, cdgh v, mm_sha256msg1_epu32 (msgs W 32) (msgs W 36), mm_sha256msg1_epu32 (msgs W 36) (msgs W 40), msgs W 40, msgs W 44) =
      (abef (four W 44 v), cdgh (four W 44 v), msgs W 48, mm_sha256msg1_epu32 (msgs W 36) (msgs W 40), mm_sha256msg1_epu32 (msgs W 40) (msgs W 44), msgs W 44)"
    "ni_rounds_48_51 (abef v, cdgh v, msgs W 48, mm_sha256msg1_epu32 (msgs W 36) (msgs W 40), mm_sha256msg1_epu32 (msgs W 40) (msgs W 44), msgs W 44) =
      (abef (four W 48 v), cdgh (four W 48 v), msgs W 48, msgs W 52, mm_sha256msg1_epu32 (msgs W 40) (msgs W 44), mm_sha256msg1_epu32 (msgs W 44) (msgs W 48))"
    "ni_rounds_52_55 (abef v, cdgh v, msgs W 48, msgs W 52, mm_sha256msg1_epu32 (msgs W 40) (msgs W 44), mm_sha256msg1_epu32 (msgs W 44) (msgs W 48)) =
      (abef (four W 52 v), cdgh (four W 52 v), msgs W 48, msgs W 52, msgs W 56, mm_sha256msg1_epu32 (msgs W 44) (msgs W 48))"
    "ni_rounds_56_59 (abef v, cdgh v, msgs W 48, msgs W 52, msgs W 56, mm_sha256msg1_epu32 (msgs W 44) (msgs W 48)) =
      (abef (four W 56 v), cdgh (four W 56 v), msgs W 48, msgs W 52, msgs W 56, msgs W 60)"
    "ni_rounds_60_63 (abef v, cdgh v, msgs W 48, msgs W 52, msgs W 56, msgs W 60) =
      (abef (four W 60 v), cdgh (four W 60 v), msgs W 48, msgs W 52, msgs W 56, msgs W 60)"
  unfolding ni_segments_defs ni_constants split_conv prod.case Let_def
  by (simp_all only: l r four_low four_high schedule_quads)

lemma ni_load_eq: "length st = 8 \<Longrightarrow> ni_load st = (abef st, cdgh st)"
  by (auto dest!: list8 simp: ni_load_def mm_load_si128_def mm_shuffle_epi32_def mm_alignr_epi8_def
      mm_blend_epi16_def list_xmm_def Let_def abef_def cdgh_def upt_rec)

lemma ni_store_eq:
  "length st = 8 \<Longrightarrow> length v = 8 \<Longrightarrow>
     ni_store (mm_add_epi32 (abef v) (abef st)) (mm_add_epi32 (cdgh v) (cdgh st)) = map2 (+) st v"
  by (auto dest!: list8 simp: ni_store_def mm_shuffle_epi32_def mm_alignr_epi8_def
      mm_blend_epi16_def list_xmm_def Let_def abef_def cdgh_def upt_rec add.commute)

lemma sha256_opt_rounds_eq:
  assumes r: "recur W" and l: "length st = 8"
    and m: "load_msg msg 0 = msgs W 0" "load_msg msg 1 = msgs W 4"
      "load_msg msg 2 = msgs W 8" "load_msg msg 3 = msgs W 12"
  shows "sha256_opt_rounds load_msg msg st =
    map2 (+) st (four W 60 (four W 56 (four W 52 (four W 48 (four W 44 (four W 40 (four W 36 (four W 32
      (four W 28 (four W 24 (four W 20 (four W 16 (four W 12 (four W 8 (four W 4 (four W 0 st))))))))))))))))"
  unfolding sha256_opt_rounds_def ni_load_eq[OF l] m
  using r l by (simp add: Let_def ni_segments_run ni_store_eq)


lemma four_compose:
  "four W 60 (four W 56 (four W 52 (four W 48 (four W 44 (four W 40 (four W 36 (four W 32
      (four W 28 (four W 24 (four W 20 (four W 16 (four W 12 (four W 8 (four W 4 (four W 0 st))))))))))))))) =
    fold (\<lambda>t. fips_round (Krnd ! t) (W t)) [0..<64] st"
proof -
  have step: "four W n (fold (\<lambda>t. fips_round (Krnd ! t) (W t)) [0..<n] st)
      = fold (\<lambda>t. fips_round (Krnd ! t) (W t)) [0..<n + 4] st" for n
    using upt_add_eq_append[of 0 n 4] by (simp add: four_def)
  have "four W 0 st = fold (\<lambda>t. fips_round (Krnd ! t) (W t)) [0..<4] st"
    using step[of 0] by simp
  then show ?thesis
    using step[of 4] step[of 8] step[of 12] step[of 16] step[of 20] step[of 24] step[of 28] step[of 32]
      step[of 36] step[of 40] step[of 44] step[of 48] step[of 52] step[of 56] step[of 60] by simp
qed

lemma fips_schedule_recur:
  assumes "length block = 64"
  shows "recur ((!) (fips_schedule block))"
  unfolding recur_def
proof (intro allI impI)
  fix t :: nat assume t: "16 \<le> t \<and> t < 64"
  let ?M = "map be32dec (chunks 4 block)"
  have len: "length ?M = 16"
    using length_chunks[of 4 block] assms by simp
  have "sched ?M 48 ! t = sched ?M (Suc (t - 16)) ! t"
    using t len by (intro sched_nth) auto
  also have "\<dots> = s1 (sched ?M (t - 16) ! (t - 2)) + sched ?M (t - 16) ! (t - 7)
      + s0 (sched ?M (t - 16) ! (t - 15)) + sched ?M (t - 16) ! (t - 16)"
    using fips_extend_nth_new[of "sched ?M (t - 16)"] t len by (simp add: sched_length)
  also have "\<dots> = s1 (sched ?M 48 ! (t - 2)) + sched ?M 48 ! (t - 7)
      + s0 (sched ?M 48 ! (t - 15)) + sched ?M 48 ! (t - 16)"
  proof -
    have "sched ?M (t - 16) ! k = sched ?M 48 ! k" if "k < t" for k
      using t len that by (intro sched_nth[of "t - 16" 48 k ?M, symmetric]) auto
    then show ?thesis using t by simp
  qed
  finally show "fips_schedule block ! t = s1 (fips_schedule block ! (t - 2)) + fips_schedule block ! (t - 7)
      + s0 (fips_schedule block ! (t - 15)) + fips_schedule block ! (t - 16)"
    by (simp add: fips_schedule_def)
qed

lemma chunks_nth: "0 < n \<Longrightarrow> n dvd length xs \<Longrightarrow> n * k < length xs \<Longrightarrow> chunks n xs ! k = seg (n * k) n xs"
proof (induction n xs arbitrary: k rule: chunks.induct)
  case (1 n xs)
  then have ne: "xs \<noteq> []" by auto
  then have c: "chunks n xs = take n xs # chunks n (drop n xs)"
    using 1 by (subst chunks.simps) simp
  show ?case
  proof (cases k)
    case 0
    then show ?thesis by (simp add: c seg_def)
  next
    case (Suc j)
    have "chunks n (drop n xs) ! j = seg (n * j) n (drop n xs)"
      using 1 ne Suc by (intro "1.IH") (auto simp: dvd_diff_nat)
    then show ?thesis
      by (simp add: c Suc seg_def add.commute)
  qed
qed

lemma load_msg_be_msgs:
  assumes "length block = 64" "i < 4"
  shows "load_msg_be block i = msgs ((!) (fips_schedule block)) (4 * i)"
proof -
  have W: "fips_schedule block ! k = bswap32 (le32dec (seg (4 * k) 4 block))" if "k < 16" for k
  proof -
    have len: "length (map be32dec (chunks 4 block)) = 16"
      using length_chunks[of 4 block] assms(1) by simp
    have "fips_schedule block ! k = be32dec (chunks 4 block ! k)"
      using that sched_nth[of 0 48 k "map be32dec (chunks 4 block)"] len
      by (simp add: fips_schedule_def)
    also have "chunks 4 block ! k = seg (4 * k) 4 block"
      using that assms(1) by (intro chunks_nth) auto
    finally show ?thesis
      using that assms(1) be32dec_bswap[of "seg (4 * k) 4 block"] by (simp add: length_seg)
  qed
  show ?thesis
    using W[of "4 * i"] W[of "4 * i + 1"] W[of "4 * i + 2"] W[of "4 * i + 3"] assms(2)
    by (simp add: load_msg_be_def casti_v128_def msgs_def add.commute)
qed

lemma sha256_transform_be_fips:
  assumes "length st = 8" "length block = 64"
  shows "sha256_transform_be st block = fips_compress st block"
  using load_msg_be_msgs[OF assms(2), of 0] load_msg_be_msgs[OF assms(2), of 1]
    load_msg_be_msgs[OF assms(2), of 2] load_msg_be_msgs[OF assms(2), of 3]
    sha256_opt_rounds_eq[OF fips_schedule_recur[OF assms(2)] assms(1), of load_msg_be block]
  by (simp add: sha256_transform_be_def four_compose fips_compress_def Let_def)

text \<open>C29: the SHA-NI transform computes the compression function of FIPS 180-4.\<close>

theorem sha256_transform_be_correct:
  assumes "length st = 8" "length block = 64"
  shows "sha256_transform_be st block = fips_compress st block"
  using assms by (rule sha256_transform_be_fips)

theorem sha256_transform_be_correct_witness:
  "sha256_transform_be initial_state (replicate 64 0x80) = fips_compress initial_state (replicate 64 0x80)"
  by (rule sha256_transform_be_correct) (simp_all add: initial_state_def)

section \<open>The two-way transform\<close>

lemmas ni2x_segments_defs = ni2x_rounds_0_3_def
  ni2x_rounds_4_7_def
  ni2x_rounds_8_11_def
  ni2x_rounds_12_15_def
  ni2x_rounds_16_19_def
  ni2x_rounds_20_23_def
  ni2x_rounds_24_27_def
  ni2x_rounds_28_31_def
  ni2x_rounds_32_35_def
  ni2x_rounds_36_39_def
  ni2x_rounds_40_43_def
  ni2x_rounds_44_47_def
  ni2x_rounds_48_51_def
  ni2x_rounds_52_55_def
  ni2x_rounds_56_59_def
  ni2x_rounds_60_63_def

lemma ni2x_segments_run:
  shows
    "ni2x_rounds_0_3 (x, y) = (ni_rounds_0_3 x, ni_rounds_0_3 y)"
    "ni2x_rounds_4_7 (x, y) = (ni_rounds_4_7 x, ni_rounds_4_7 y)"
    "ni2x_rounds_8_11 (x, y) = (ni_rounds_8_11 x, ni_rounds_8_11 y)"
    "ni2x_rounds_12_15 (x, y) = (ni_rounds_12_15 x, ni_rounds_12_15 y)"
    "ni2x_rounds_16_19 (x, y) = (ni_rounds_16_19 x, ni_rounds_16_19 y)"
    "ni2x_rounds_20_23 (x, y) = (ni_rounds_20_23 x, ni_rounds_20_23 y)"
    "ni2x_rounds_24_27 (x, y) = (ni_rounds_24_27 x, ni_rounds_24_27 y)"
    "ni2x_rounds_28_31 (x, y) = (ni_rounds_28_31 x, ni_rounds_28_31 y)"
    "ni2x_rounds_32_35 (x, y) = (ni_rounds_32_35 x, ni_rounds_32_35 y)"
    "ni2x_rounds_36_39 (x, y) = (ni_rounds_36_39 x, ni_rounds_36_39 y)"
    "ni2x_rounds_40_43 (x, y) = (ni_rounds_40_43 x, ni_rounds_40_43 y)"
    "ni2x_rounds_44_47 (x, y) = (ni_rounds_44_47 x, ni_rounds_44_47 y)"
    "ni2x_rounds_48_51 (x, y) = (ni_rounds_48_51 x, ni_rounds_48_51 y)"
    "ni2x_rounds_52_55 (x, y) = (ni_rounds_52_55 x, ni_rounds_52_55 y)"
    "ni2x_rounds_56_59 (x, y) = (ni_rounds_56_59 x, ni_rounds_56_59 y)"
    "ni2x_rounds_60_63 (x, y) = (ni_rounds_60_63 x, ni_rounds_60_63 y)"
  by (cases x; cases y; simp add: ni2x_segments_defs ni_segments_defs Let_def)+

lemma ni2x_load_eq: "ni2x_load x y = (ni_load x, ni_load y)"
  by (simp add: ni2x_load_def ni_load_def Let_def)

lemma ni2x_store_eq: "ni2x_store a b c d = (ni_store a b, ni_store c d)"
  by (simp add: ni2x_store_def ni_store_def Let_def)

lemma sha256_2x_pair:
  "sha256_2x_transform_be msg_X msg_Y in_X in_Y =
    (sha256_transform_be in_X msg_X, sha256_transform_be in_Y msg_Y)"
  by (simp add: sha256_2x_transform_be_def sha256_transform_be_def sha256_ni2x_rounds_def sha256_opt_rounds_def
      ni2x_load_eq Let_def ni2x_segments_run ni2x_store_eq split: prod.splits)

text \<open>The interleaved two-way transform is two independent transforms: neither lane ever
  reads a register of the other.\<close>

theorem sha256_2x_transform_be_pair:
  "sha256_2x_transform_be msg_X msg_Y in_X in_Y =
    (sha256_transform_be in_X msg_X, sha256_transform_be in_Y msg_Y)"
  by (rule sha256_2x_pair)

end
