(* ===== verification/Soj_Sha256d.thy ===== *)
theory Soj_Sha256d
  imports Soj_ShaNi Soj_Hex
begin

text \<open>The incremental hash of \<open>sha256-hash.c\<close> on top of the SHA-NI transform, and
  \<open>sha256d\<close>.  Its context counts bytes where yespower's counts bits; the simulation
  \<open>conv\<close> relates the two, and gives the second interpretation of the contract
  \<open>incremental_hash\<close>.\<close>

record sha256_context =
  cbuf :: bytes
  cstate :: "u32 list"
  ccount :: u64

definition SHA256_IV :: "u32 list" where
  "SHA256_IV = [0x6A09E667, 0xBB67AE85, 0x3C6EF372, 0xA54FF53A,
     0x510E527F, 0x9B05688C, 0x1F83D9AB, 0x5BE0CD19]"

definition sha256_ctx_init :: "sha256_context \<Rightarrow> sha256_context" where
  "sha256_ctx_init ctx = ctx\<lparr>cstate := SHA256_IV, ccount := 0\<rparr>"

function sha256_blocks :: "u32 list \<Rightarrow> bytes \<Rightarrow> u32 list \<times> bytes" where
  "sha256_blocks st src =
    (if length src \<ge> 64 then sha256_blocks (sha256_transform_be st (take 64 src)) (drop 64 src)
     else (st, src))"
  by auto
termination by (relation "measure (\<lambda>(st, src). length src)") auto

declare sha256_blocks.simps [simp del]

definition sha256_update :: "sha256_context \<Rightarrow> bytes \<Rightarrow> sha256_context" where
  "sha256_update ctx src =
    (let len = length src;
         ptr = unat (ccount ctx AND 0x3f);
         ctx = ctx\<lparr>ccount := ccount ctx + of_nat len\<rparr>
     in if len < 64 - ptr then ctx\<lparr>cbuf := put_at ptr src (cbuf ctx)\<rparr>
        else
          let b = put_at ptr (take (64 - ptr) src) (cbuf ctx);
              st = sha256_transform_be (cstate ctx) b;
              (st, rest) = sha256_blocks st (drop (64 - ptr) src)
          in ctx\<lparr>cstate := st, cbuf := put_at 0 rest b\<rparr>)"

text \<open>Storing \<open>bswap_64 (x)\<close> and \<open>bswap_32 (x)\<close> on a little-endian machine stores the
  bytes of \<open>x\<close> big end first.\<close>

definition sha256_final :: "sha256_context \<Rightarrow> bytes" where
  "sha256_final ctx =
    (let ptr = unat (ccount ctx AND 0x3f);
         b = (cbuf ctx)[ptr := 0x80];
         ptr = ptr + 1;
         (st, b) = (if ptr > 56 then
             let b = put_at ptr (replicate (64 - ptr) 0) b
             in (sha256_transform_be (cstate ctx) b, put_at 0 (replicate 56 0) b)
           else (cstate ctx, put_at ptr (replicate (56 - ptr) 0) b));
         b = put_at 56 (be64enc (push_bit 3 (ccount ctx))) b;
         st = sha256_transform_be st b
     in concat (map be32enc st))"

definition sha256_full :: "sha256_context \<Rightarrow> bytes \<Rightarrow> bytes" where
  "sha256_full ctx src = sha256_final (sha256_update (sha256_ctx_init ctx) src)"

definition sha256d :: "sha256_context \<Rightarrow> bytes \<Rightarrow> bytes" where
  "sha256d ctx src = sha256_full ctx (sha256_full ctx src)"

section \<open>Simulation by the other context\<close>

definition conv :: "sha256_context \<Rightarrow> SHA256_CTX" where
  "conv c = \<lparr>state = cstate c, count = push_bit 3 (ccount c), buf = cbuf c\<rparr>"

definition good_ctx :: "sha256_context \<Rightarrow> bool" where
  "good_ctx c \<longleftrightarrow> length (cstate c) = 8 \<and> length (cbuf c) = 64"

lemma buffered_conv: "buffered (conv c) = unat (ccount c AND 0x3f)"
proof -
  have m: "(0x3f :: u64) = mask 6"
    by (simp add: mask_eq_exp_minus_1)
  have "drop_bit 3 (push_bit 3 (ccount c)) AND 0x3f = ccount c AND 0x3f"
    unfolding m by (rule bit_word_eqI) (auto simp: bit_simps)
  then show ?thesis
    by (simp only: buffered_def conv_def SHA256_CTX.simps)
qed

lemma sha256_blocks_eq: "length st = 8 \<Longrightarrow> sha256_blocks st src = update_blocks st src"
proof (induction "length src" arbitrary: st src rule: less_induct)
  case less
  show ?case
  proof (cases "64 \<le> length src")
    case True
    then show ?thesis
      using less by (subst sha256_blocks.simps; subst update_blocks.simps)
        (simp add: sha256_transform_be_fips SHA256_Transform_fips fips_compress_length)
  qed (subst sha256_blocks.simps, subst update_blocks.simps, simp)
qed

lemma transform_be_eq: "length st = 8 \<Longrightarrow> length b = 64 \<Longrightarrow> sha256_transform_be st b = SHA256_Transform st b"
  by (simp add: sha256_transform_be_fips SHA256_Transform_fips)

lemma conv_sel [simp]:
  "state (conv c) = cstate c" "count (conv c) = push_bit 3 (ccount c)" "buf (conv c) = cbuf c"
  by (simp_all add: conv_def)

lemma conv_update:
  assumes "good_ctx c"
  shows "conv (sha256_update c x) = YP_SHA256_Update (conv c) x"
proof -
  let ?p = "unat (ccount c AND 0x3f)"
  have g: "length (cstate c) = 8" "length (cbuf c) = 64"
    using assms by (auto simp: good_ctx_def)
  have p: "?p < 64"
    using buffered_less[of "conv c"] by (simp add: buffered_conv)
  show ?thesis
  proof (cases "x = []")
    case True
    then show ?thesis
      using p by (simp add: sha256_update_def YP_SHA256_Update_def Let_def conv_def)
  next
    case False
    have cnt: "push_bit 3 (ccount c + of_nat (length x)) = push_bit 3 (ccount c) + push_bit 3 (of_nat (length x) :: u64)"
      by (simp add: push_bit_eq_mult algebra_simps)
    show ?thesis
    proof (cases "length x < 64 - ?p")
      case True
      then show ?thesis
        using False cnt
        by (simp add: sha256_update_def YP_SHA256_Update_def Let_def buffered_conv)
    next
      case long: False
      let ?b = "put_at ?p (take (64 - ?p) x) (cbuf c)"
      have b: "length ?b = 64" using g p long by (simp add: length_put_at)
      have "sha256_blocks (sha256_transform_be (cstate c) ?b) (drop (64 - ?p) x)
          = update_blocks (SHA256_Transform (cstate c) ?b) (drop (64 - ?p) x)"
        using g b by (simp add: transform_be_eq sha256_blocks_eq SHA256_Transform_fips fips_compress_length)
      then show ?thesis
        using False long cnt
        by (cases "update_blocks (SHA256_Transform (cstate c) ?b) (drop (64 - ?p) x)")
          (simp add: sha256_update_def YP_SHA256_Update_def Let_def buffered_conv)
    qed
  qed
qed

lemma take_PAD_zeros: "0 < n \<Longrightarrow> n \<le> 64 \<Longrightarrow> take n PAD = [0x80] @ replicate (n - 1) 0"
  by (simp add: take_PAD)

lemma conv_final:
  assumes "good_ctx c"
  shows "sha256_final c = fst (YP_SHA256_Final (conv c))"
proof -
  let ?p = "unat (ccount c AND 0x3f)"
  have g: "length (cstate c) = 8" "length (cbuf c) = 64"
    using assms by (auto simp: good_ctx_def)
  have p: "?p < 64"
    using buffered_less[of "conv c"] by (simp add: buffered_conv)
  have one: "put_at (?p + 1) (replicate k 0) ((cbuf c)[?p := 0x80]) = put_at ?p ([0x80] @ replicate k 0) (cbuf c)"
    if "?p + 1 + k \<le> 64" for k
    using put_at_put_at_adjacent[of ?p "[0x80]" "replicate k 0" "cbuf c"] that g p
    by (simp add: list_update_put_at)
  have be: "be32enc_vect st 4 = concat (map be32enc st)" if "length st = 8" for st
    using that by (simp add: be32enc_vect_concat)
  show ?thesis
  proof (cases "?p < 56")
    case True
    then have "take (56 - ?p) PAD = [0x80] @ replicate (56 - (?p + 1)) 0"
      using take_PAD_zeros[of "56 - ?p"] by simp
    then show ?thesis
      using True g one[of "56 - (?p + 1)"] be
      by (simp add: sha256_final_def YP_SHA256_Final_def SHA256_Pad_def Let_def buffered_conv
          transform_be_eq SHA256_Transform_fips fips_compress_length length_put_at)
  next
    case False
    then have "take (64 - ?p) PAD = [0x80] @ replicate (64 - (?p + 1)) 0"
      using take_PAD_zeros[of "64 - ?p"] p by simp
    then show ?thesis
      using False g p one[of "64 - (?p + 1)"] be
      by (simp add: sha256_final_def YP_SHA256_Final_def SHA256_Pad_def Let_def buffered_conv
          transform_be_eq SHA256_Transform_fips fips_compress_length length_put_at)
  qed
qed

definition sha_absorbs :: "sha256_context \<Rightarrow> bytes \<Rightarrow> bool" where
  "sha_absorbs c m \<longleftrightarrow> good_ctx c \<and> absorbs (conv c) m"

interpretation sha: incremental_hash sha_absorbs sha256_ctx_init sha256_update sha256_final
  "\<lambda>c. length (cbuf c) = 64" fips_sha256
proof
  show "sha_absorbs (sha256_ctx_init c) []" if "length (cbuf c) = 64" for c
    using that yp.init_absorbs[of "conv c"]
    by (simp add: sha_absorbs_def good_ctx_def sha256_ctx_init_def SHA256_IV_def absorbs_def
        YP_SHA256_Init_def initial_state_def conv_def)
  show "sha_absorbs (sha256_update c x) (m @ x)" if "sha_absorbs c m" for c m x
  proof -
    have a: "absorbs (conv (sha256_update c x)) (m @ x)"
      using that yp.update_absorbs[of "conv c" m x] by (simp add: sha_absorbs_def conv_update)
    then show ?thesis
      by (simp add: sha_absorbs_def good_ctx_def absorbs_def)
  qed
  show "sha256_final c = fips_sha256 m" if "sha_absorbs c m" for c m
    using that yp.final_hash[of "conv c" m] by (simp add: sha_absorbs_def conv_final)
qed

lemma sha256_full_eq: "length (cbuf c) = 64 \<Longrightarrow> sha256_full c m = fips_sha256 m"
  by (simp add: sha256_full_def sha.one_shot)

text \<open>\<open>sha256d\<close> is SHA-256 applied twice, whatever was in the stack buffer.\<close>

theorem sha256d_correct:
  assumes "length (cbuf ctx) = 64"
  shows "sha256d ctx m = fips_sha256 (fips_sha256 m)"
  using assms by (simp add: sha256d_def sha256_full_eq)

theorem sha256d_correct_witness:
  "sha256d \<lparr>cbuf = replicate 64 5, cstate = [], ccount = 3\<rparr> (replicate 80 1)
     = fips_sha256 (fips_sha256 (replicate 80 1))"
  by (rule sha256d_correct) simp

end
