(* ===== verification/Soj_Gate.thy ===== *)
theory Soj_Gate
  imports Soj_Prelude
begin

text \<open>The algorithm gate of \<open>algo-gate-api.c\<close>: the sets of optimisations as bit
  masks, the table of functions and positions a registered algorithm fills, its
  registration, and the aliases of algorithm names.  A function pointer of the table is the name of
  the function it points to.\<close>

section \<open>Sets of optimisations\<close>

type_synonym set_t = u32

definition EMPTY_SET :: set_t where "EMPTY_SET = 0"
definition SSE2_OPT :: set_t where "SSE2_OPT = 1"
definition AVX2_OPT :: set_t where "AVX2_OPT = push_bit 5 1"
definition AVX512_OPT :: set_t where "AVX512_OPT = push_bit 6 1"
definition NEON_OPT :: set_t where "NEON_OPT = push_bit 11 1"

definition set_union :: "set_t \<Rightarrow> set_t \<Rightarrow> set_t" where "set_union a b = a OR b"
definition set_intsec :: "set_t \<Rightarrow> set_t \<Rightarrow> set_t" where "set_intsec a b = a AND b"
definition set_incl :: "set_t \<Rightarrow> set_t \<Rightarrow> bool" where "set_incl a b \<longleftrightarrow> a AND b = a"
definition set_excl :: "set_t \<Rightarrow> set_t \<Rightarrow> bool" where "set_excl a b \<longleftrightarrow> a AND b = 0"

text \<open>The set a mask stands for.\<close>

definition elems :: "set_t \<Rightarrow> nat set" where
  "elems a = {n. bit a n}"

lemma elems_ops:
  "elems (set_union a b) = elems a \<union> elems b"
  "elems (set_intsec a b) = elems a \<inter> elems b"
  "elems EMPTY_SET = {}"
  by (auto simp: elems_def set_union_def set_intsec_def EMPTY_SET_def bit_simps)

lemma set_bit_less: "bit (a :: set_t) n \<Longrightarrow> n < 32"
  using bit_imp_le_length[of a n] by simp

lemma elems_incl: "set_incl a b \<longleftrightarrow> elems a \<subseteq> elems b"
proof
  assume "set_incl a b"
  then have "bit (a AND b) n = bit a n" for n
    by (simp add: set_incl_def)
  then show "elems a \<subseteq> elems b"
    by (auto simp: elems_def bit_simps)
next
  assume "elems a \<subseteq> elems b"
  then show "set_incl a b"
    by (auto simp: set_incl_def elems_def bit_simps intro!: bit_word_eqI)
qed

lemma elems_excl: "set_excl a b \<longleftrightarrow> elems a \<inter> elems b = {}"
  unfolding set_excl_def elems_def
  by (auto simp: bit_eq_iff bit_simps set_bit_less)

section \<open>The gate\<close>

datatype algos = ALGO_NULL | ALGO_CIVICLIGHT | ALGO_COUNT

datatype gate_fn =
    F_do_nothing | F_scanhash_generic | F_scanhash_civiclight | F_null_hash | F_civiclight_hash
  | F_std_get_new_work | F_std_le_work_decode | F_sha256d_gen_merkle_root
  | F_std_le_build_stratum_request | F_std_malloc_txs_request | F_std_build_block_header
  | F_std_build_extraheader | F_std_get_work_data_size

record algo_gate_t =
  gate_scanhash :: gate_fn
  gate_hash :: gate_fn
  get_new_work :: gate_fn
  work_decode :: gate_fn
  decode_extra_data :: gate_fn
  gen_merkle_root :: gate_fn
  build_extraheader :: gate_fn
  build_block_header :: gate_fn
  build_stratum_request :: gate_fn
  malloc_txs_request :: gate_fn
  set_work_data_endian :: gate_fn
  get_work_data_size :: gate_fn
  optimizations :: set_t
  ntime_index :: nat
  nbits_index :: nat
  nonce_index :: nat
  work_cmp_size :: nat

definition STD_NTIME_INDEX :: nat where "STD_NTIME_INDEX = 17"
definition STD_NBITS_INDEX :: nat where "STD_NBITS_INDEX = 18"
definition STD_NONCE_INDEX :: nat where "STD_NONCE_INDEX = 19"
definition STD_WORK_DATA_SIZE :: nat where "STD_WORK_DATA_SIZE = 128"
definition STD_WORK_CMP_SIZE :: nat where "STD_WORK_CMP_SIZE = 76"

definition init_algo_gate :: "algo_gate_t \<Rightarrow> algo_gate_t" where
  "init_algo_gate gate = gate\<lparr>
     gate_scanhash := F_scanhash_generic, gate_hash := F_null_hash, get_new_work := F_std_get_new_work,
     work_decode := F_std_le_work_decode, decode_extra_data := F_do_nothing,
     gen_merkle_root := F_sha256d_gen_merkle_root,
     build_stratum_request := F_std_le_build_stratum_request,
     malloc_txs_request := F_std_malloc_txs_request,
     build_block_header := F_std_build_block_header,
     build_extraheader := F_std_build_extraheader,
     set_work_data_endian := F_do_nothing,
     get_work_data_size := F_std_get_work_data_size,
     optimizations := EMPTY_SET, ntime_index := STD_NTIME_INDEX, nbits_index := STD_NBITS_INDEX,
     nonce_index := STD_NONCE_INDEX, work_cmp_size := STD_WORK_CMP_SIZE\<rparr>"

definition register_civiclight_algo :: "algo_gate_t \<Rightarrow> bool \<times> algo_gate_t" where
  "register_civiclight_algo gate = (True, gate\<lparr>
     optimizations := SSE2_OPT OR AVX2_OPT OR AVX512_OPT OR NEON_OPT,
     gate_scanhash := F_scanhash_civiclight, gate_hash := F_civiclight_hash\<rparr>)"

text \<open>A null gate pointer is \<open>None\<close>.\<close>

definition register_algo_gate :: "algos \<Rightarrow> algo_gate_t option \<Rightarrow> bool \<times> algo_gate_t option" where
  "register_algo_gate algo gate =
    (case gate of
       None \<Rightarrow> (False, None)
     | Some gate \<Rightarrow>
         let gate = init_algo_gate gate in
         case algo of
           ALGO_CIVICLIGHT \<Rightarrow>
             let (rc, gate) = register_civiclight_algo gate
             in if \<not> rc then (False, Some gate) else (True, Some gate)
         | _ \<Rightarrow> (False, Some gate))"

text \<open>\<open>exec_hash_function\<close> calls the hash its gate ends with.\<close>

definition exec_hash_function :: "algos \<Rightarrow> algo_gate_t \<Rightarrow> gate_fn" where
  "exec_hash_function algo gate =
    (let gate = gate\<lparr>gate_hash := F_null_hash\<rparr>;
         (_, gate') = register_algo_gate algo (Some gate)
     in case gate' of None \<Rightarrow> gate_hash gate | Some gate' \<Rightarrow> gate_hash gate')"

text \<open>The gate the mining code runs with.\<close>

definition civiclight_gate :: "algo_gate_t \<Rightarrow> bool" where
  "civiclight_gate g \<longleftrightarrow> gate_scanhash g = F_scanhash_civiclight \<and> gate_hash g = F_civiclight_hash
     \<and> get_new_work g = F_std_get_new_work \<and> gen_merkle_root g = F_sha256d_gen_merkle_root
     \<and> build_extraheader g = F_std_build_extraheader \<and> build_block_header g = F_std_build_block_header
     \<and> build_stratum_request g = F_std_le_build_stratum_request \<and> set_work_data_endian g = F_do_nothing
     \<and> ntime_index g = 17 \<and> nbits_index g = 18 \<and> nonce_index g = 19 \<and> work_cmp_size g = 76"

lemma register_civiclight: "\<exists>g'. register_algo_gate ALGO_CIVICLIGHT (Some g) = (True, Some g') \<and> civiclight_gate g'"
  by (simp add: register_algo_gate_def register_civiclight_algo_def civiclight_gate_def init_algo_gate_def
      STD_NTIME_INDEX_def STD_NBITS_INDEX_def STD_NONCE_INDEX_def STD_WORK_CMP_SIZE_def)

text \<open>Registering an algorithm succeeds only for Civiclight; then the gate scans and
  hashes with Civiclight's functions, keeps the standard header layout, whatever the gate held
  before, and an unknown algorithm leaves the null hash in place.\<close>

theorem register_algo_gate_total:
  "case register_algo_gate algo (Some g) of
     (ok, None) \<Rightarrow> False
   | (ok, Some g') \<Rightarrow> (ok \<longleftrightarrow> algo = ALGO_CIVICLIGHT)
       \<and> (if ok then civiclight_gate g' \<and> set_incl AVX2_OPT (optimizations g')
          else gate_hash g' = F_null_hash \<and> optimizations g' = EMPTY_SET)
       \<and> exec_hash_function algo g = gate_hash g'"
  by (cases algo) (simp_all add: register_algo_gate_def register_civiclight_algo_def civiclight_gate_def
      init_algo_gate_def STD_NTIME_INDEX_def STD_NBITS_INDEX_def STD_NONCE_INDEX_def STD_WORK_CMP_SIZE_def
      exec_hash_function_def set_incl_def SSE2_OPT_def AVX2_OPT_def AVX512_OPT_def NEON_OPT_def)

text \<open>The global \<open>algo_gate\<close> starts zeroed.\<close>

definition zero_gate :: algo_gate_t where
  "zero_gate = \<lparr>gate_scanhash = F_do_nothing, gate_hash = F_do_nothing, get_new_work = F_do_nothing,
     work_decode = F_do_nothing, decode_extra_data = F_do_nothing, gen_merkle_root = F_do_nothing,
     build_extraheader = F_do_nothing, build_block_header = F_do_nothing,
     build_stratum_request = F_do_nothing, malloc_txs_request = F_do_nothing,
     set_work_data_endian = F_do_nothing, get_work_data_size = F_do_nothing, optimizations = 0,
     ntime_index = 0, nbits_index = 0, nonce_index = 0, work_cmp_size = 0\<rparr>"

definition algo_gate :: algo_gate_t where
  "algo_gate = snd (register_civiclight_algo (init_algo_gate zero_gate))"

lemma algo_gate_civiclight: "civiclight_gate algo_gate"
  "register_algo_gate ALGO_CIVICLIGHT (Some zero_gate) = (True, Some algo_gate)"
  by (simp_all add: algo_gate_def register_algo_gate_def register_civiclight_algo_def civiclight_gate_def
      init_algo_gate_def STD_NTIME_INDEX_def STD_NBITS_INDEX_def STD_NONCE_INDEX_def STD_WORK_CMP_SIZE_def)

section \<open>Aliases\<close>

definition algo_alias_map :: "(string \<times> string) list" where
  "algo_alias_map =
   [(''bitcore'', ''timetravel10''), (''bitzeny'', ''yescryptr8''), (''blake256r8'', ''blakecoin''),
    (''blake256r8vnl'', ''vanilla''), (''blake256r14'', ''blake''), (''diamond'', ''dmd-gr''),
    (''espers'', ''hmq1725''), (''flax'', ''c11''), (''jackpot'', ''jha''), (''lyra2'', ''lyra2re''),
    (''lyra2v2'', ''lyra2rev2''), (''lyra2v3'', ''lyra2rev3''), (''myrgr'', ''myr-gr''),
    (''myriad'', ''myr-gr''), (''neo'', ''neoscrypt''), (''phi'', ''phi1612''),
    (''scryptn2'', ''scrypt:1048576''), (''timetravel8'', ''timetravel''), (''yenten'', ''yescryptr16''),
    (''ziftr'', ''zr5'')]"

definition tolower :: "char \<Rightarrow> char" where
  "tolower c = (let n = of_char c :: nat in if 65 \<le> n \<and> n \<le> 90 then char_of (n + 32) else c)"

text \<open>The capital letters have bit 5 clear.\<close>

lemma tolower_id: "tolower (Char b0 b1 b2 b3 b4 True b6 b7) = Char b0 b1 b2 b3 b4 True b6 b7"
  by (cases b0; cases b1; cases b2; cases b3; cases b4; cases b6; cases b7) (simp_all add: tolower_def Let_def)

definition strcaseeq :: "string \<Rightarrow> string \<Rightarrow> bool" where
  "strcaseeq a b \<longleftrightarrow> map tolower a = map tolower b"

definition get_algo_alias :: "string \<Rightarrow> string" where
  "get_algo_alias arg =
    (case List.find (\<lambda>(alias, proper). strcaseeq arg alias) algo_alias_map of
       None \<Rightarrow> arg | Some (alias, proper) \<Rightarrow> proper)"

text \<open>\<open>-a\<close>: the algorithm of an argument, \<open>None\<close> when \<open>show_usage_and_exit\<close> is
  reached.  \<open>civiclight\<close> is the only name, at index 1.\<close>

definition algo_of_arg :: "string \<Rightarrow> algos option" where
  "algo_of_arg arg =
    (let arg = get_algo_alias arg; name = ''civiclight''; v = length name
     in if strcaseeq (take v arg) name \<and> (length arg = v \<or> arg ! v = CHR '':'')
        then Some ALGO_CIVICLIGHT else None)"

lemma aliases_lower: "(a, p) \<in> set algo_alias_map \<Longrightarrow> map tolower a = a \<and> map tolower p = p"
proof -
  have "\<forall>(a, p) \<in> set algo_alias_map. map tolower a = a \<and> map tolower p = p"
    by (simp add: algo_alias_map_def tolower_id)
  then show "(a, p) \<in> set algo_alias_map \<Longrightarrow> ?thesis" by (simp only: Ball_def split_paired_All prod.case)
qed

lemma proper_not_alias: "set (map snd algo_alias_map) \<inter> set (map fst algo_alias_map) = {}"
  by (simp add: algo_alias_map_def)

lemma aliases_are_not_proper:
  assumes "(a, p) \<in> set algo_alias_map" "(a', p') \<in> set algo_alias_map"
  shows "\<not> strcaseeq p a'"
proof
  assume "strcaseeq p a'"
  then have "p = a'"
    using aliases_lower[OF assms(1)] aliases_lower[OF assms(2)] by (simp add: strcaseeq_def)
  moreover have "p \<in> set (map snd algo_alias_map)" "a' \<in> set (map fst algo_alias_map)"
    using assms by force+
  ultimately show False using proper_not_alias by blast
qed

text \<open>Resolving an alias twice is resolving it once, so a proper name is never taken
  for an alias.\<close>

theorem get_algo_alias_idempotent: "get_algo_alias (get_algo_alias s) = get_algo_alias s"
proof (cases "List.find (\<lambda>(alias, proper). strcaseeq s alias) algo_alias_map")
  case None
  then show ?thesis by (simp add: get_algo_alias_def)
next
  case (Some ap)
  obtain a p where ap: "ap = (a, p)" by force
  then have "(a, p) \<in> set algo_alias_map"
    using Some by (auto simp: find_Some_iff in_set_conv_nth)
  then have "List.find (\<lambda>(alias, proper). strcaseeq p alias) algo_alias_map = None"
    by (auto simp: find_None_iff dest: aliases_are_not_proper)
  then show ?thesis using Some ap by (simp add: get_algo_alias_def)
qed

end
