(* ===== verification/Soj_Work.thy ===== *)
theory Soj_Work
  imports Soj_Hex Soj_Target Soj_Sha256d Soj_Gate "HOL-Library.Monad_Syntax"
begin

text \<open>Units of work, from \<open>soj.h\<close>, \<open>soj_work.c\<close>, \<open>soj_protocol.c\<close> and the header
  builders of \<open>soj.c\<close>: the records, the copies a thread takes of the shared work with their
  strings on an explicit heap, the nonce range of a thread, the merkle root, the block header and
  the \<open>mining.submit\<close> request.\<close>

section \<open>The heap\<close>

text \<open>Blocks are bytes, address 0 is \<open>NULL\<close>, and addresses are never given twice.  An access or
  a \<open>free\<close> of an address that is not allocated is undefined behaviour, here \<open>None\<close>.\<close>

type_synonym ptr = nat

record block_heap =
  hmem :: "ptr \<Rightarrow> bytes option"
  hnext :: ptr

definition halloc :: "block_heap \<Rightarrow> bytes \<Rightarrow> ptr \<times> block_heap" where
  "halloc h b = (hnext h, h\<lparr>hmem := (hmem h)(hnext h \<mapsto> b), hnext := hnext h + 1\<rparr>)"

definition hfree :: "block_heap \<Rightarrow> ptr \<Rightarrow> block_heap option" where
  "hfree h p = (if hmem h p = None then None else Some (h\<lparr>hmem := (hmem h)(p := None)\<rparr>))"

definition cstring_at :: "bytes \<Rightarrow> cstring option" where
  "cstring_at b = (if 0 \<in> set b then Some (takeWhile (\<lambda>c. c \<noteq> 0) b) else None)"

definition hstring :: "block_heap \<Rightarrow> ptr \<Rightarrow> cstring option" where
  "hstring h p = Option.bind (hmem h p) cstring_at"

definition hstrdup :: "block_heap \<Rightarrow> ptr \<Rightarrow> (ptr \<times> block_heap) option" where
  "hstrdup h p = do { s \<leftarrow> hstring h p; Some (halloc h (s @ [0])) }"

definition wf_heap :: "block_heap \<Rightarrow> bool" where
  "wf_heap h \<longleftrightarrow> 0 < hnext h \<and> (\<forall>p b. hmem h p = Some b \<longrightarrow> 0 < p \<and> p < hnext h)"

section \<open>Work, job and session records\<close>

record work =
  w_target :: bytes
  w_data :: "u32 list"
  w_hash :: bytes
  w_targetdiff :: rat
  w_sharediff :: rat
  w_stratum_diff :: rat
  w_ntime :: bytes
  w_height :: int
  w_txs :: ptr
  w_tx_count :: int
  w_workid :: ptr
  w_job_id :: ptr
  w_xnonce2_len :: nat
  w_xnonce2 :: ptr
  w_stale :: bool
  w_reauth_epoch :: u64

text \<open>The buffers of a job belong to the session alone and are values.  \<open>xnonce2\<close> points
  into \<open>coinbase\<close>: it is the position there.\<close>

record stratum_job =
  j_prevhash :: bytes
  j_job_id :: "cstring option"
  j_coinbase :: bytes
  j_xnonce2 :: nat
  j_merkle :: "bytes list"
  j_version :: bytes
  j_nbits :: bytes
  j_ntime :: bytes
  j_diff :: rat
  j_clean :: bool

record stratum_ctx =
  s_next_diff :: rat
  s_session_id :: "cstring option"
  s_xnonce1 :: bytes
  s_xnonce2_size :: nat
  s_job :: stratum_job
  s_block_height :: int
  s_new_job :: bool

section \<open>Copies of work\<close>

definition free_field :: "block_heap \<Rightarrow> ptr \<Rightarrow> block_heap option" where
  "free_field h p = (if p \<noteq> 0 then hfree h p else Some h)"

definition work_free :: "block_heap \<Rightarrow> work \<Rightarrow> block_heap option" where
  "work_free h w = do {
     h \<leftarrow> free_field h (w_txs w);
     h \<leftarrow> free_field h (w_workid w);
     h \<leftarrow> free_field h (w_job_id w);
     free_field h (w_xnonce2 w) }"

definition dup_field :: "block_heap \<Rightarrow> ptr \<Rightarrow> (ptr \<times> block_heap) option" where
  "dup_field h p = (if p \<noteq> 0 then hstrdup h p else Some (0, h))"

definition copy_xnonce2 :: "block_heap \<Rightarrow> ptr \<Rightarrow> nat \<Rightarrow> (ptr \<times> block_heap) option" where
  "copy_xnonce2 h p len =
    (if p \<noteq> 0 then do {
       b \<leftarrow> hmem h p;
       if len \<le> length b then Some (halloc h (take len b)) else None }
     else Some (0, h))"

definition work_copy :: "block_heap \<Rightarrow> work \<Rightarrow> (work \<times> block_heap) option" where
  "work_copy h src = do {
     let dest = src;
     (p, h) \<leftarrow> dup_field h (w_txs src);
     let dest = dest\<lparr>w_txs := p\<rparr>;
     (p, h) \<leftarrow> dup_field h (w_workid src);
     let dest = dest\<lparr>w_workid := p\<rparr>;
     (p, h) \<leftarrow> dup_field h (w_job_id src);
     let dest = dest\<lparr>w_job_id := p\<rparr>;
     (p, h) \<leftarrow> copy_xnonce2 h (w_xnonce2 src) (w_xnonce2_len src);
     let dest = dest\<lparr>w_xnonce2 := p\<rparr>;
     s \<leftarrow> cstring_at (w_ntime src);
     Some (dest\<lparr>w_ntime := put_at 0 (s @ [0]) (w_ntime dest)\<rparr>, h) }"

section \<open>A thread takes work\<close>

text \<open>\<open>strtoul (s, NULL, 16)\<close>: leading space, a sign, \<open>0x\<close>, then digits; a value out of range is
  \<open>ULONG_MAX\<close>.\<close>

definition is_space :: "u8 \<Rightarrow> bool" where
  "is_space c \<longleftrightarrow> c = 32 \<or> (9 \<le> c \<and> c \<le> 13)"

definition hex_number :: "cstring \<Rightarrow> nat" where
  "hex_number s = foldl (\<lambda>a c. 16 * a + unat (the (hex_val c))) 0 (takeWhile hex_ok s)"

definition strtoul16 :: "cstring \<Rightarrow> u64" where
  "strtoul16 s =
    (let s = dropWhile is_space s;
         neg = (s \<noteq> [] \<and> hd s = of_char CHR ''-'');
         s = (if s \<noteq> [] \<and> (hd s = of_char CHR ''-'' \<or> hd s = of_char CHR ''+'') then tl s else s);
         s = (if length s \<ge> 3 \<and> s ! 0 = of_char CHR ''0'' \<and> (s ! 1 = of_char CHR ''x'' \<or> s ! 1 = of_char CHR ''X'')
                 \<and> hex_ok (s ! 2) then drop 2 s else s);
         v = hex_number s
     in if v \<ge> 2 ^ 64 then - 1 else if neg then - of_nat v else of_nat v)"

definition data_bytes :: "u32 list \<Rightarrow> bytes" where
  "data_bytes ws = concat (map le32enc ws)"

text \<open>\<open>0xffffffffU / opt_n_threads * thr_id\<close> and the end of the range.\<close>

definition range_start :: "nat \<Rightarrow> nat \<Rightarrow> u32" where
  "range_start n_threads thr_id = 0xffffffff div of_nat n_threads * of_nat thr_id"

definition range_end :: "nat \<Rightarrow> nat \<Rightarrow> u32" where
  "range_end n_threads thr_id = (0xffffffff div of_nat n_threads) * (of_nat thr_id + 1) - 0x20"

definition force_new_work :: "bool \<Rightarrow> block_heap \<Rightarrow> work \<Rightarrow> work \<Rightarrow> bool option" where
  "force_new_work have_stratum h work g_work =
    (if have_stratum then
       if w_job_id work \<noteq> 0 \<and> w_job_id g_work \<noteq> 0 then do {
         a \<leftarrow> hstring h (w_job_id work);
         b \<leftarrow> hstring h (w_job_id g_work);
         Some (strtoul16 a \<noteq> strtoul16 b) }
       else Some True
     else Some False)"

definition std_get_new_work ::
  "algo_gate_t \<Rightarrow> bool \<Rightarrow> nat \<Rightarrow> block_heap \<Rightarrow> work \<Rightarrow> work \<Rightarrow> nat \<Rightarrow> u32 \<Rightarrow> (block_heap \<times> work \<times> u32) option" where
  "std_get_new_work gate have_stratum n_threads h work g_work thr_id end_nonce = do {
     force \<leftarrow> force_new_work have_stratum h work g_work;
     let i = nonce_index gate;
     if force \<or> w_data work ! i \<ge> end_nonce
        \<or> take (work_cmp_size gate) (data_bytes (w_data work)) \<noteq> take (work_cmp_size gate) (data_bytes (w_data g_work))
     then do {
       h \<leftarrow> work_free h work;
       (work, h) \<leftarrow> work_copy h g_work;
       Some (h, work\<lparr>w_data := (w_data work)[i := range_start n_threads thr_id]\<rparr>, range_end n_threads thr_id) }
     else Some (h, work\<lparr>w_data := (w_data work)[i := w_data work ! i + 1]\<rparr>, end_nonce) }"

section \<open>Decoding and byte order of work\<close>

definition std_get_work_data_size :: nat where
  "std_get_work_data_size = STD_WORK_DATA_SIZE"

text \<open>\<open>le32dec (work->data + i)\<close> reads the four bytes of the word.\<close>

definition word_bytes :: "u32 \<Rightarrow> bytes" where "word_bytes w = le32enc w"

definition decode_words :: "(bytes \<Rightarrow> u32) \<Rightarrow> nat \<Rightarrow> u32 list \<Rightarrow> u32 list" where
  "decode_words dec n ws = map (\<lambda>i. if i < n then dec (word_bytes (ws ! i)) else ws ! i) [0..<length ws]"

definition std_le_work_decode :: "u32 list \<Rightarrow> u32 list \<Rightarrow> u32 list \<times> u32 list" where
  "std_le_work_decode data target =
    (let adata_sz = std_get_work_data_size div 4
     in (decode_words le32dec adata_sz data, decode_words le32dec 8 target))"

definition std_be_work_decode :: "u32 list \<Rightarrow> u32 list \<Rightarrow> u32 list \<times> u32 list" where
  "std_be_work_decode data target =
    (let adata_sz = std_get_work_data_size div 4
     in (decode_words be32dec adata_sz data, decode_words le32dec 8 target))"

text \<open>\<open>be32enc\<close> stores big end first what the word holds.\<close>

definition set_work_data_big_endian :: "algo_gate_t \<Rightarrow> u32 list \<Rightarrow> u32 list" where
  "set_work_data_big_endian gate data =
    map (\<lambda>i. if i < nonce_index gate then le32dec (be32enc (data ! i)) else data ! i) [0..<length data]"

section \<open>The merkle root and the header\<close>

text \<open>The root is built in place in a 64-byte buffer, whose halves are what is hashed next.\<close>

definition merkle_step :: "sha256_context \<Rightarrow> bytes \<Rightarrow> bytes \<Rightarrow> bytes" where
  "merkle_step ctx merkle_root branch =
    (let merkle_root = put_at 32 (take 32 branch) merkle_root
     in put_at 0 (sha256d ctx (take 64 merkle_root)) merkle_root)"

definition sha256d_gen_merkle_root :: "sha256_context \<Rightarrow> bytes \<Rightarrow> stratum_ctx \<Rightarrow> bytes" where
  "sha256d_gen_merkle_root ctx merkle_root sctx =
    foldl (merkle_step ctx) (put_at 0 (sha256d ctx (j_coinbase (s_job sctx))) merkle_root) (j_merkle (s_job sctx))"

definition sha256_gen_merkle_root :: "sha256_context \<Rightarrow> bytes \<Rightarrow> stratum_ctx \<Rightarrow> bytes" where
  "sha256_gen_merkle_root ctx merkle_root sctx =
    foldl (merkle_step ctx) (put_at 0 (sha256_full ctx (j_coinbase (s_job sctx))) merkle_root) (j_merkle (s_job sctx))"

definition std_build_block_header ::
  "algo_gate_t \<Rightarrow> bool \<Rightarrow> u32 list \<Rightarrow> u32 \<Rightarrow> bytes \<Rightarrow> bytes \<Rightarrow> u32 \<Rightarrow> u32 \<Rightarrow> u32 list" where
  "std_build_block_header gate have_stratum data version prevhash merkle_tree ntime nbits =
    (let data = replicate (length data) 0;
         data = data[0 := version];
         data = (if have_stratum
                 then fold (\<lambda>i d. d[1 + i := le32dec (seg (4 * i) 4 prevhash)]) [0..<8] data
                 else fold (\<lambda>i d. d[8 - i := le32dec (seg (4 * i) 4 prevhash)]) [0..<8] data);
         data = fold (\<lambda>i d. d[9 + i := be32dec (seg (4 * i) 4 merkle_tree)]) [0..<8] data;
         data = data[ntime_index gate := ntime];
         data = data[nbits_index gate := nbits];
         data = data[20 := 0x80000000]
     in data[31 := 0x00000280])"

text \<open>\<open>std_build_extraheader\<close> with the functions of the standard gate.\<close>

definition std_build_extraheader ::
  "algo_gate_t \<Rightarrow> bool \<Rightarrow> sha256_context \<Rightarrow> u32 list \<Rightarrow> stratum_ctx \<Rightarrow> u32 list" where
  "std_build_extraheader gate have_stratum ctx data sctx =
    (let merkle_tree = replicate 64 0;
         merkle_tree = sha256d_gen_merkle_root ctx merkle_tree sctx
     in std_build_block_header gate have_stratum data (le32dec (j_version (s_job sctx)))
          (j_prevhash (s_job sctx)) merkle_tree (le32dec (j_ntime (s_job sctx))) (le32dec (j_nbits (s_job sctx))))"

section \<open>The submit request\<close>

definition JSON_BUF_LEN :: nat where "JSON_BUF_LEN = 8192"

definition submit_line :: "cstring \<Rightarrow> cstring \<Rightarrow> cstring \<Rightarrow> cstring \<Rightarrow> cstring \<Rightarrow> cstring" where
  "submit_line user job_id xnonce2 ntime nonce = concat
    [cstr ''{\"method\":\"mining.submit\",\"params\":[\"'', user, cstr ''\",\"'', job_id, cstr ''\",\"'',
     xnonce2, cstr ''\",\"'', ntime, cstr ''\",\"'', nonce, cstr ''\"],\"id\":4}'']"

text \<open>\<open>snprintf (req, JSON_BUF_LEN, ...)\<close> keeps at most \<open>JSON_BUF_LEN - 1\<close> bytes.\<close>

definition submit_request :: "cstring \<Rightarrow> cstring \<Rightarrow> cstring \<Rightarrow> cstring \<Rightarrow> cstring \<Rightarrow> cstring" where
  "submit_request rpc_user job_id xnonce2str ntimestr noncestr =
    take (JSON_BUF_LEN - 1) (submit_line rpc_user job_id xnonce2str ntimestr noncestr)"

definition xnonce2_at :: "block_heap \<Rightarrow> work \<Rightarrow> bytes option" where
  "xnonce2_at h w = do {
     b \<leftarrow> hmem h (w_xnonce2 w);
     if w_xnonce2_len w \<le> length b then Some (take (w_xnonce2_len w) b) else None }"

definition std_le_build_stratum_request ::
  "algo_gate_t \<Rightarrow> block_heap \<Rightarrow> cstring \<Rightarrow> work \<Rightarrow> cstring option" where
  "std_le_build_stratum_request gate h rpc_user work = do {
     let ntime = le32enc (w_data work ! ntime_index gate);
     let nonce = le32enc (w_data work ! nonce_index gate);
     let ntimestr = bin2hex ntime 4;
     let noncestr = bin2hex nonce 4;
     xnonce2 \<leftarrow> xnonce2_at h work;
     let xnonce2str = bin2hex xnonce2 (length xnonce2);
     job_id \<leftarrow> hstring h (w_job_id work);
     Some (submit_request rpc_user job_id xnonce2str ntimestr noncestr) }"

definition std_be_build_stratum_request ::
  "algo_gate_t \<Rightarrow> block_heap \<Rightarrow> cstring \<Rightarrow> work \<Rightarrow> cstring option" where
  "std_be_build_stratum_request gate h rpc_user work = do {
     let ntime = be32enc (w_data work ! ntime_index gate);
     let nonce = be32enc (w_data work ! nonce_index gate);
     let ntimestr = bin2hex ntime 4;
     let noncestr = bin2hex nonce 4;
     xnonce2 \<leftarrow> xnonce2_at h work;
     let xnonce2str = bin2hex xnonce2 (length xnonce2);
     job_id \<leftarrow> hstring h (w_job_id work);
     Some (submit_request rpc_user job_id xnonce2str ntimestr noncestr) }"

section \<open>A thread's copy owns its strings\<close>

definition ptrs :: "work \<Rightarrow> ptr list" where
  "ptrs w = filter (\<lambda>p. p \<noteq> 0) [w_txs w, w_workid w, w_job_id w, w_xnonce2 w]"

definition string_or_null :: "block_heap \<Rightarrow> ptr \<Rightarrow> bool" where
  "string_or_null h p \<longleftrightarrow> p = 0 \<or> hstring h p \<noteq> None"

definition owned :: "block_heap \<Rightarrow> work \<Rightarrow> bool" where
  "owned h w \<longleftrightarrow> string_or_null h (w_txs w) \<and> string_or_null h (w_workid w) \<and> string_or_null h (w_job_id w)
     \<and> (w_xnonce2 w = 0 \<or> xnonce2_at h w \<noteq> None) \<and> distinct (ptrs w) \<and> 0 \<in> set (w_ntime w)"

lemma string_or_null_mem: "string_or_null h p \<Longrightarrow> p \<noteq> 0 \<Longrightarrow> hmem h p \<noteq> None"
  by (auto simp: string_or_null_def hstring_def bind_eq_Some_conv)

lemma owned_mem: "owned h w \<Longrightarrow> p \<in> set (ptrs w) \<Longrightarrow> hmem h p \<noteq> None"
  unfolding owned_def ptrs_def set_filter
  by (auto simp: xnonce2_at_def bind_eq_Some_conv dest: string_or_null_mem)

text \<open>What \<open>owned\<close> depends on.\<close>

lemma owned_cong:
  assumes "\<And>p. p \<in> set (ptrs w) \<Longrightarrow> hmem h' p = hmem h p"
  shows "owned h' w \<longleftrightarrow> owned h w"
proof -
  have s: "string_or_null h' p = string_or_null h p" if "p \<noteq> 0 \<Longrightarrow> p \<in> set (ptrs w)" for p
    using assms[of p] that by (auto simp: string_or_null_def hstring_def)
  have "string_or_null h' (w_txs w) = string_or_null h (w_txs w)"
    "string_or_null h' (w_workid w) = string_or_null h (w_workid w)"
    "string_or_null h' (w_job_id w) = string_or_null h (w_job_id w)"
    by (rule s, simp add: ptrs_def)+
  moreover have "w_xnonce2 w = 0 \<or> xnonce2_at h' w = xnonce2_at h w"
  proof (cases "w_xnonce2 w = 0")
    case False
    then have "hmem h' (w_xnonce2 w) = hmem h (w_xnonce2 w)"
      by (intro assms) (simp add: ptrs_def)
    then show ?thesis by (simp add: xnonce2_at_def)
  qed simp
  then have "(w_xnonce2 w = 0 \<or> xnonce2_at h' w \<noteq> None) = (w_xnonce2 w = 0 \<or> xnonce2_at h w \<noteq> None)"
    by (elim disjE) simp_all
  ultimately show ?thesis
    unfolding owned_def by (simp only:)
qed

fun free_fields :: "block_heap \<Rightarrow> ptr list \<Rightarrow> block_heap option" where
  "free_fields h [] = Some h"
| "free_fields h (p # ps) = Option.bind (free_field h p) (\<lambda>h. free_fields h ps)"

lemma work_free_fields: "work_free h w = free_fields h [w_txs w, w_workid w, w_job_id w, w_xnonce2 w]"
  by (simp add: work_free_def)

lemma free_fields_ok:
  assumes "distinct (filter (\<lambda>p. p \<noteq> 0) ps)" "\<And>p. p \<in> set ps \<Longrightarrow> p \<noteq> 0 \<Longrightarrow> hmem h p \<noteq> None"
  shows "free_fields h ps = Some (h\<lparr>hmem := hmem h |` (- set (filter (\<lambda>p. p \<noteq> 0) ps))\<rparr>)"
  using assms
proof (induction ps arbitrary: h)
  case Nil
  then show ?case by (simp add: restrict_map_def)
next
  case (Cons p ps)
  show ?case
  proof (cases "p = 0")
    case True
    then show ?thesis using Cons by (simp add: free_field_def)
  next
    case False
    let ?h = "h\<lparr>hmem := (hmem h)(p := None)\<rparr>"
    have "free_fields ?h ps = Some (?h\<lparr>hmem := hmem ?h |` (- set (filter (\<lambda>p. p \<noteq> 0) ps))\<rparr>)"
      using Cons.prems False by (intro Cons.IH) auto
    moreover have "hmem ?h |` (- set (filter (\<lambda>p. p \<noteq> 0) ps)) = hmem h |` (- set (filter (\<lambda>p. p \<noteq> 0) (p # ps)))"
      using False by (auto simp: restrict_map_def fun_eq_iff)
    ultimately show ?thesis
      using Cons.prems(2)[of p] False by (simp add: free_field_def hfree_def)
  qed
qed

lemma work_free_ok:
  assumes "owned h w"
  shows "work_free h w = Some (h\<lparr>hmem := hmem h |` (- set (ptrs w))\<rparr>)"
proof -
  have "distinct (filter (\<lambda>p. p \<noteq> 0) [w_txs w, w_workid w, w_job_id w, w_xnonce2 w])"
    using assms by (simp add: owned_def ptrs_def)
  moreover have "hmem h p \<noteq> None" if "p \<in> set [w_txs w, w_workid w, w_job_id w, w_xnonce2 w]" "p \<noteq> 0" for p
    using owned_mem[OF assms, of p] that unfolding ptrs_def by (simp only: set_filter) blast
  ultimately show ?thesis
    unfolding work_free_fields ptrs_def by (rule free_fields_ok)
qed

lemma wf_heap_free: "wf_heap h \<Longrightarrow> wf_heap (h\<lparr>hmem := hmem h |` A\<rparr>)"
  by (auto simp: wf_heap_def restrict_map_def split: if_splits)

text \<open>One field copied: the new block is fresh, nothing else changes.\<close>

definition fresh_copy :: "block_heap \<Rightarrow> ptr \<Rightarrow> ptr \<Rightarrow> block_heap \<Rightarrow> bool" where
  "fresh_copy h p q h' \<longleftrightarrow> wf_heap h' \<and> hnext h \<le> hnext h' \<and> (q = 0 \<longleftrightarrow> p = 0)
     \<and> (q \<noteq> 0 \<longrightarrow> hnext h \<le> q \<and> q < hnext h' \<and> hmem h' q \<noteq> None) \<and> (\<forall>r. r \<noteq> q \<longrightarrow> hmem h' r = hmem h r)"

lemma cstring_at_terminated: "cstring_at b = Some s \<Longrightarrow> cstring_at (s @ [0]) = Some s"
  by (auto simp: cstring_at_def takeWhile_append dest: set_takeWhileD split: if_splits)

lemma halloc_fresh: "wf_heap h \<Longrightarrow> halloc h b = (q, h') \<Longrightarrow> p \<noteq> 0 \<Longrightarrow> fresh_copy h p q h'"
  by (auto simp: fresh_copy_def wf_heap_def halloc_def less_Suc_eq split: if_splits)

lemma dup_field_ok:
  assumes "wf_heap h" "string_or_null h p"
  obtains q h' where "dup_field h p = Some (q, h')" "fresh_copy h p q h'"
    "p \<noteq> 0 \<Longrightarrow> hstring h' q = hstring h p"
proof (cases "p = 0")
  case True
  then show ?thesis
    using that[of 0 h] assms by (simp add: dup_field_def fresh_copy_def)
next
  case False
  then obtain s where s: "hstring h p = Some s"
    using assms(2) by (auto simp: string_or_null_def)
  obtain q h' where a: "halloc h (s @ [0]) = (q, h')" by force
  have "hmem h' q = Some (s @ [0])"
    using a by (auto simp: halloc_def)
  then have "hstring h' q = Some s"
    using s cstring_at_terminated by (auto simp: hstring_def bind_eq_Some_conv)
  then show ?thesis
    using that[of q h'] False s a halloc_fresh[OF assms(1) a False] by (simp add: dup_field_def hstrdup_def)
qed

lemma copy_xnonce2_ok:
  assumes "wf_heap h" "w_xnonce2 w = 0 \<or> xnonce2_at h w = Some x"
  obtains q h' where "copy_xnonce2 h (w_xnonce2 w) (w_xnonce2_len w) = Some (q, h')" "fresh_copy h (w_xnonce2 w) q h'"
    "w_xnonce2 w \<noteq> 0 \<Longrightarrow> hmem h' q = Some x \<and> length x = w_xnonce2_len w"
proof (cases "w_xnonce2 w = 0")
  case True
  then show ?thesis
    using that[of 0 h] assms by (simp add: copy_xnonce2_def fresh_copy_def)
next
  case False
  then obtain b where b: "hmem h (w_xnonce2 w) = Some b" "w_xnonce2_len w \<le> length b" "x = take (w_xnonce2_len w) b"
    using assms(2) by (auto simp: xnonce2_at_def bind_eq_Some_conv split: if_splits)
  obtain q h' where a: "halloc h x = (q, h')" by force
  then have "hmem h' q = Some x"
    by (auto simp: halloc_def)
  then show ?thesis
    using that[of q h'] False b a halloc_fresh[OF assms(1) a False] by (simp add: copy_xnonce2_def)
qed

lemma fresh_copy_mem: "fresh_copy h p q h' \<Longrightarrow> wf_heap h \<Longrightarrow> hmem h r \<noteq> None \<Longrightarrow> hmem h' r = hmem h r"
  by (auto simp: fresh_copy_def wf_heap_def)

lemma string_or_null_copy:
  "(p \<noteq> 0 \<Longrightarrow> hstring h' q = hstring h p) \<Longrightarrow> string_or_null h p \<Longrightarrow> (q = 0 \<longleftrightarrow> p = 0) \<Longrightarrow> string_or_null h' q"
  by (auto simp: string_or_null_def)

text \<open>A copy: the new work owns fresh blocks with the same contents.\<close>

definition copies :: "block_heap \<Rightarrow> work \<Rightarrow> block_heap \<Rightarrow> work \<Rightarrow> bool" where
  "copies h w h' w' \<longleftrightarrow> wf_heap h' \<and> hnext h \<le> hnext h' \<and> owned h' w' \<and> (\<forall>p \<in> set (ptrs w'). hnext h \<le> p \<and> p < hnext h')
     \<and> (\<forall>p. p \<notin> set (ptrs w') \<longrightarrow> hmem h' p = hmem h p)
     \<and> (w_job_id w \<noteq> 0 \<longrightarrow> w_job_id w' \<noteq> 0 \<and> hstring h' (w_job_id w') = hstring h (w_job_id w))
     \<and> (w_xnonce2 w \<noteq> 0 \<longrightarrow> w_xnonce2 w' \<noteq> 0 \<and> xnonce2_at h' w' = xnonce2_at h w)
     \<and> w_data w' = w_data w \<and> w_target w' = w_target w \<and> w_xnonce2_len w' = w_xnonce2_len w
     \<and> w_reauth_epoch w' = w_reauth_epoch w"

lemma fresh_string:
  assumes "fresh_copy h p q h'" "wf_heap h" "string_or_null h r"
  shows "string_or_null h' r" "r \<noteq> 0 \<Longrightarrow> hstring h' r = hstring h r"
  using fresh_copy_mem[OF assms(1,2)] string_or_null_mem[OF assms(3)] assms(3)
  by (auto simp: string_or_null_def hstring_def)

lemma work_copy_ok:
  assumes wf: "wf_heap h" and o: "owned h w"
  obtains w' h' where "work_copy h w = Some (w', h')" "copies h w h' w'"
proof -
  note ow = o[unfolded owned_def]
  obtain p1 h1 where 1: "dup_field h (w_txs w) = Some (p1, h1)" "fresh_copy h (w_txs w) p1 h1"
    "w_txs w \<noteq> 0 \<Longrightarrow> hstring h1 p1 = hstring h (w_txs w)"
    using dup_field_ok[OF wf, of "w_txs w"] ow by metis
  note wf1 = 1(2)[unfolded fresh_copy_def, THEN conjunct1]
  have s1: "string_or_null h1 p1" using 1 ow by (auto simp: fresh_copy_def string_or_null_def)
  note t1 = fresh_string[OF 1(2) wf]
  obtain p2 h2 where 2: "dup_field h1 (w_workid w) = Some (p2, h2)" "fresh_copy h1 (w_workid w) p2 h2"
    "w_workid w \<noteq> 0 \<Longrightarrow> hstring h2 p2 = hstring h1 (w_workid w)"
    using dup_field_ok[OF wf1, of "w_workid w"] t1(1) ow by metis
  note wf2 = 2(2)[unfolded fresh_copy_def, THEN conjunct1]
  have s2: "string_or_null h2 p2" using 2 t1(1)[of "w_workid w"] ow by (auto simp: fresh_copy_def string_or_null_def)
  note t2 = fresh_string[OF 2(2) wf1]
  obtain p3 h3 where 3: "dup_field h2 (w_job_id w) = Some (p3, h3)" "fresh_copy h2 (w_job_id w) p3 h3"
    "w_job_id w \<noteq> 0 \<Longrightarrow> hstring h3 p3 = hstring h2 (w_job_id w)"
    using dup_field_ok[OF wf2, of "w_job_id w"] t2(1)[OF t1(1)] ow by metis
  note wf3 = 3(2)[unfolded fresh_copy_def, THEN conjunct1]
  have s3: "string_or_null h3 p3"
    using 3 t2(1)[OF t1(1), of "w_job_id w"] ow by (auto simp: fresh_copy_def string_or_null_def)
  note t3 = fresh_string[OF 3(2) wf2]
  have xn: "xnonce2_at h3 w = xnonce2_at h w" if "w_xnonce2 w \<noteq> 0"
  proof -
    have "hmem h (w_xnonce2 w) \<noteq> None" using that ow by (auto simp: xnonce2_at_def bind_eq_Some_conv)
    then have "hmem h3 (w_xnonce2 w) = hmem h (w_xnonce2 w)"
      using fresh_copy_mem[OF 1(2) wf] fresh_copy_mem[OF 2(2) wf1] fresh_copy_mem[OF 3(2) wf2] by metis
    then show ?thesis by (simp add: xnonce2_at_def)
  qed
  obtain x where x: "w_xnonce2 w = 0 \<or> xnonce2_at h3 w = Some x"
    using xn ow by (cases "w_xnonce2 w = 0") auto
  obtain p4 h4 where 4: "copy_xnonce2 h3 (w_xnonce2 w) (w_xnonce2_len w) = Some (p4, h4)"
    "fresh_copy h3 (w_xnonce2 w) p4 h4" "w_xnonce2 w \<noteq> 0 \<Longrightarrow> hmem h4 p4 = Some x \<and> length x = w_xnonce2_len w"
    using copy_xnonce2_ok[OF wf3 x] by metis
  note t4 = fresh_string[OF 4(2) wf3]
  obtain s where s: "cstring_at (w_ntime w) = Some s" using ow by (auto simp: cstring_at_def)
  define w' where "w' = w\<lparr>w_txs := p1, w_workid := p2, w_job_id := p3, w_xnonce2 := p4,
    w_ntime := put_at 0 (s @ [0]) (w_ntime w)\<rparr>"
  have "work_copy h w = Some (w', h4)"
    using 1(1) 2(1) 3(1) 4(1) s by (simp add: work_copy_def w'_def)
  moreover have "hnext h \<le> hnext h1" "hnext h1 \<le> hnext h2" "hnext h2 \<le> hnext h3" "hnext h3 \<le> hnext h4"
    "p1 \<noteq> 0 \<Longrightarrow> hnext h \<le> p1 \<and> p1 < hnext h1" "p2 \<noteq> 0 \<Longrightarrow> hnext h1 \<le> p2 \<and> p2 < hnext h2"
    "p3 \<noteq> 0 \<Longrightarrow> hnext h2 \<le> p3 \<and> p3 < hnext h3" "p4 \<noteq> 0 \<Longrightarrow> hnext h3 \<le> p4 \<and> p4 < hnext h4"
    and z: "p1 = 0 \<longleftrightarrow> w_txs w = 0" "p2 = 0 \<longleftrightarrow> w_workid w = 0" "p3 = 0 \<longleftrightarrow> w_job_id w = 0"
    "p4 = 0 \<longleftrightarrow> w_xnonce2 w = 0"
    using 1(2) 2(2) 3(2) 4(2) by (auto simp: fresh_copy_def)
  note bounds = this
  have wf4: "wf_heap h4" using 4(2) by (simp add: fresh_copy_def)
  have mem: "hmem h4 p = hmem h p" if "p \<notin> set (ptrs w')" for p
  proof (cases "p = 0")
    case True
    then show ?thesis using wf wf4 by (auto simp: wf_heap_def) (metis less_numeral_extra(3) not_None_eq)
  next
    case False
    then have "p \<noteq> p1" "p \<noteq> p2" "p \<noteq> p3" "p \<noteq> p4" using that unfolding ptrs_def w'_def set_filter by auto
    then show ?thesis using 1(2) 2(2) 3(2) 4(2) by (simp add: fresh_copy_def)
  qed
  have x4: "w_xnonce2 w \<noteq> 0 \<Longrightarrow> xnonce2_at h4 w' = Some x"
    using 4(3) by (simp add: xnonce2_at_def w'_def)
  have own: "owned h4 w'"
  proof -
    have "string_or_null h4 p1" "string_or_null h4 p2" "string_or_null h4 p3"
      using t4(1)[OF t3(1)[OF t2(1)[OF s1]]] t4(1)[OF t3(1)[OF s2]] t4(1)[OF s3] by auto
    moreover have "distinct (ptrs w')"
      using bounds by (auto simp: ptrs_def w'_def)
    moreover have "0 \<in> set (w_ntime w')"
      by (simp add: w'_def put_at_def)
    moreover have "p4 = 0 \<or> xnonce2_at h4 w' \<noteq> None"
      using x4 z(4) by auto
    ultimately show ?thesis by (simp add: owned_def w'_def)
  qed
  have sel: "w_data w' = w_data w" "w_target w' = w_target w" "w_xnonce2_len w' = w_xnonce2_len w"
    "w_reauth_epoch w' = w_reauth_epoch w" "w_job_id w' = p3" "w_xnonce2 w' = p4"
    by (simp_all add: w'_def)
  have "w_job_id w \<noteq> 0 \<longrightarrow> w_job_id w' \<noteq> 0 \<and> hstring h4 (w_job_id w') = hstring h (w_job_id w)"
  proof
    assume "w_job_id w \<noteq> 0"
    moreover from this have "p3 \<noteq> 0" using z by simp
    ultimately show "w_job_id w' \<noteq> 0 \<and> hstring h4 (w_job_id w') = hstring h (w_job_id w)"
      using t4(2)[OF s3] 3(3) t2(2)[OF t1(1), of "w_job_id w"] t1(2)[of "w_job_id w"] ow sel by simp
  qed
  have "\<forall>p \<in> set (ptrs w'). hnext h \<le> p \<and> p < hnext h4"
    using bounds by (auto simp: ptrs_def w'_def)
  have "w_xnonce2 w \<noteq> 0 \<longrightarrow> w_xnonce2 w' \<noteq> 0 \<and> xnonce2_at h4 w' = xnonce2_at h w"
    using z(4) x4 x xn sel by auto
  have "hnext h \<le> hnext h4" using bounds(1-4) by linarith
  have "\<forall>p. p \<notin> set (ptrs w') \<longrightarrow> hmem h4 p = hmem h p" using mem by blast
  have "copies h w h4 w'"
    unfolding copies_def by (intro conjI; fact)
  then show ?thesis using that \<open>work_copy h w = Some (w', h4)\<close> by blast
qed


lemma force_new_work_Some:
  assumes "owned h w" "owned h g"
  shows "force_new_work hs h w g \<noteq> None"
proof -
  have "p \<noteq> 0 \<Longrightarrow> string_or_null h p \<Longrightarrow> \<exists>a. hstring h p = Some a" for p
    by (auto simp: string_or_null_def)
  then obtain a b where "w_job_id w \<noteq> 0 \<longrightarrow> hstring h (w_job_id w) = Some a"
    "w_job_id g \<noteq> 0 \<longrightarrow> hstring h (w_job_id g) = Some b"
    using assms by (metis owned_def)
  then show ?thesis by (simp add: force_new_work_def del: not_None_eq)
qed

lemma ptrs_data [simp]: "ptrs (w\<lparr>w_data := d\<rparr>) = ptrs w"
  by (simp add: ptrs_def)

lemma owned_data [simp]: "owned h (w\<lparr>w_data := d\<rparr>) = owned h w"
proof -
  have "xnonce2_at h (w\<lparr>w_data := d\<rparr>) = xnonce2_at h w"
    unfolding xnonce2_at_def by (simp cong: if_cong)
  then show ?thesis by (simp add: owned_def)
qed

text \<open>C19: when a mining thread takes work, its own strings are freed and replaced by
  fresh copies, or kept: no block is freed twice or read after it was freed, nothing leaks, and
  the thread's blocks stay apart from those of the shared work, which is untouched.\<close>

theorem std_get_new_work_memory:
  assumes "wf_heap h" "owned h work" "owned h g_work" "set (ptrs work) \<inter> set (ptrs g_work) = {}"
  shows "\<exists>h' work' e. std_get_new_work gate hs n h work g_work tid end_nonce = Some (h', work', e)
    \<and> wf_heap h' \<and> owned h' work' \<and> owned h' g_work \<and> set (ptrs work') \<inter> set (ptrs g_work) = {}
    \<and> dom (hmem h') - set (ptrs work') = dom (hmem h) - set (ptrs work)
    \<and> (\<forall>p \<in> dom (hmem h) - set (ptrs work). hmem h' p = hmem h p)"
proof -
  obtain f where f: "force_new_work hs h work g_work = Some f"
    using force_new_work_Some[OF assms(2,3), of hs] by blast
  show ?thesis
  proof (cases "f \<or> w_data work ! nonce_index gate \<ge> end_nonce \<or> take (work_cmp_size gate) (data_bytes (w_data work))
      \<noteq> take (work_cmp_size gate) (data_bytes (w_data g_work))")
    case False
    then have "std_get_new_work gate hs n h work g_work tid end_nonce = Some (h,
        work\<lparr>w_data := (w_data work)[nonce_index gate := w_data work ! nonce_index gate + 1]\<rparr>, end_nonce)"
      using f by (auto simp add: std_get_new_work_def Let_def)
    then show ?thesis using assms by simp
  next
    case True
    let ?h = "h\<lparr>hmem := hmem h |` (- set (ptrs work))\<rparr>"
    have g: "hmem ?h p = hmem h p" if "p \<in> set (ptrs g_work)" for p
      using that assms(4) by (auto simp: restrict_map_def)
    have wf: "wf_heap ?h" using assms(1) by (rule wf_heap_free)
    have og: "owned ?h g_work" using owned_cong[of g_work ?h h] g assms(3) by simp
    obtain w' h' where c: "work_copy ?h g_work = Some (w', h')" "copies ?h g_work h' w'"
      using work_copy_ok[OF wf og] by blast
    then have eq: "std_get_new_work gate hs n h work g_work tid end_nonce = Some (h',
        w'\<lparr>w_data := (w_data w')[nonce_index gate := range_start n tid]\<rparr>, range_end n tid)"
      using f True work_free_ok[OF assms(2)] by (auto simp add: std_get_new_work_def Let_def)
    have fresh: "p \<notin> set (ptrs w')" if "hmem h p \<noteq> None" for p
    proof
      assume "p \<in> set (ptrs w')"
      then have "hnext h \<le> p" using c(2) by (simp add: copies_def)
      moreover have "p < hnext h" using that assms(1) by (auto simp: wf_heap_def)
      ultimately show False by simp
    qed
    have same: "hmem h' p = hmem ?h p" if "hmem h p \<noteq> None" for p
      using fresh[OF that] c(2) by (simp add: copies_def)
    have mg: "hmem h p \<noteq> None" if "p \<in> set (ptrs g_work)" for p
      using owned_mem[OF assms(3) that] .
    have "owned h' g_work"
      using owned_cong[of g_work h' ?h] same mg og by simp
    moreover have "set (ptrs w') \<inter> set (ptrs g_work) = {}"
      using fresh mg by blast
    moreover have "dom (hmem h') - set (ptrs w') = dom (hmem h) - set (ptrs work)"
    proof -
      have "hmem h' p = hmem ?h p" if "p \<notin> set (ptrs w')" for p
        using c(2) that by (simp add: copies_def)
      then have "p \<in> dom (hmem h') \<longleftrightarrow> p \<in> dom (hmem h) - set (ptrs work)" if "p \<notin> set (ptrs w')" for p
        using that by (auto simp: restrict_map_def split: if_splits)
      then show ?thesis using fresh by (auto simp: dom_def)
    qed
    moreover have "\<forall>p \<in> dom (hmem h) - set (ptrs work). hmem h' p = hmem h p"
      using same by (auto simp: restrict_map_def)
    moreover have "wf_heap h'" "owned h' w'" using c(2) by (simp_all add: copies_def)
    ultimately show ?thesis
      by (intro exI[of _ h'] exI[of _ "w'\<lparr>w_data := (w_data w')[nonce_index gate := range_start n tid]\<rparr>"]
          exI[of _ "range_end n tid"]) (simp add: eq)
  qed
qed

text \<open>A job with id "a1" is shared, the thread still holds job "a0".\<close>

definition two_jobs :: block_heap where
  "two_jobs = \<lparr>hmem = [1 \<mapsto> cstr ''a0'' @ [0], 2 \<mapsto> [0, 7], 3 \<mapsto> cstr ''a1'' @ [0], 4 \<mapsto> [0, 8]], hnext = 5\<rparr>"

definition work_on :: "ptr \<Rightarrow> ptr \<Rightarrow> work" where
  "work_on job xn = \<lparr>w_target = [], w_data = replicate 48 0, w_hash = [], w_targetdiff = 0, w_sharediff = 0,
     w_stratum_diff = 0, w_ntime = replicate 32 0, w_height = 0, w_txs = 0, w_tx_count = 0, w_workid = 0, w_job_id = job,
     w_xnonce2_len = 2, w_xnonce2 = xn, w_stale = False, w_reauth_epoch = 0\<rparr>"

lemma two_jobs_owned:
  "wf_heap two_jobs" "owned two_jobs (work_on 1 2)" "owned two_jobs (work_on 3 4)"
  by (simp_all add: wf_heap_def two_jobs_def owned_def work_on_def string_or_null_def hstring_def cstring_at_def
      xnonce2_at_def ptrs_def)

theorem std_get_new_work_memory_witness:
  "\<exists>h' work' e. std_get_new_work algo_gate True 4 two_jobs (work_on 1 2) (work_on 3 4) 1 0 = Some (h', work', e)
    \<and> wf_heap h' \<and> owned h' work' \<and> owned h' (work_on 3 4) \<and> set (ptrs work') \<inter> set (ptrs (work_on 3 4)) = {}
    \<and> dom (hmem h') - set (ptrs work') = dom (hmem two_jobs) - set (ptrs (work_on 1 2))
    \<and> (\<forall>p \<in> dom (hmem two_jobs) - set (ptrs (work_on 1 2)). hmem h' p = hmem two_jobs p)"
  by (rule std_get_new_work_memory[OF two_jobs_owned]) (simp add: ptrs_def work_on_def)

section \<open>Nonce ranges\<close>

text \<open>The \<open>n\<close> ranges, one per thread.\<close>

lemma range_width: "0 < n \<Longrightarrow> n \<le> 2 ^ 20 \<Longrightarrow> unat (0xffffffff div of_nat n :: u32) = 0xffffffff div n"
  by (simp add: unat_div_distrib unat_of_nat)

lemma range_nat:
  assumes "0 < n" "n \<le> 2 ^ 20" "i < n"
  shows "unat (range_start n i) = 0xffffffff div n * i"
    and "unat (range_end n i) = 0xffffffff div n * (i + 1) - 0x20"
    and "0x20 \<le> 0xffffffff div n" "0xffffffff div n * (i + 1) \<le> 0xffffffff"
proof -
  let ?w = "0xffffffff div n"
  have "(0xffffffff :: nat) div 2 ^ 20 \<le> 0xffffffff div n"
    using assms by (intro div_le_mono2)
  then show w: "0x20 \<le> ?w" by simp
  have "?w * (i + 1) \<le> ?w * n"
    using assms by (intro mult_le_mono2) simp
  also have "\<dots> \<le> 0xffffffff" by (simp add: mult.commute)
  finally show top: "?w * (i + 1) \<le> 0xffffffff" .
  have i: "unat (of_nat i :: u32) = i" "unat (of_nat i + 1 :: u32) = i + 1"
    using assms by (simp_all add: unat_of_nat unat_word_ariths)
  have "?w * i \<le> ?w * (i + 1)" by simp
  then have "?w * i < 4294967296" using top by simp
  then show "unat (range_start n i) = ?w * i"
    using range_width[OF assms(1,2)] i by (simp add: range_start_def unat_mult_lem[THEN iffD1])
  have "unat (0xffffffff div of_nat n * (of_nat i + 1) :: u32) = ?w * (i + 1)"
    using range_width[OF assms(1,2)] i top by (subst unat_mult_lem[THEN iffD1]) simp_all
  moreover have "0x20 \<le> ?w * (i + 1)"
    using w by (simp add: trans_le_add1)
  ultimately show "unat (range_end n i) = ?w * (i + 1) - 0x20"
    unfolding range_end_def by (subst unat_sub) (simp_all add: word_le_nat_alt)
qed

text \<open>With at most \<open>2 ^ 20\<close> threads the nonce ranges \<open>std_get_new_work\<close> gives out are
  nonempty up to the 32 nonces kept back, disjoint and in the order of the threads, and
  stay 32 below the largest nonce, so that counting in them never wraps.\<close>

theorem nonce_ranges_disjoint:
  assumes "i < j" "j < n" "n \<le> 2 ^ 20"
  shows "range_start n i \<le> range_end n i \<and> range_end n i \<le> range_start n j - 0x20
    \<and> 0x20 \<le> range_start n j \<and> range_end n j \<le> 0xffffffff - 0x20"
proof -
  note ri = range_nat[of n i] and rj = range_nat[of n j]
  let ?w = "0xffffffff div n"
  have s: "?w * (i + 1) \<le> ?w * j"
    using assms by (intro mult_le_mono2) simp
  have 1: "0x20 \<le> range_start n j"
    using rj assms s by (simp add: word_le_nat_alt)
  moreover have "range_start n i \<le> range_end n i"
    using ri assms by (simp add: word_le_nat_alt)
  moreover have "range_end n i \<le> range_start n j - 0x20"
    unfolding word_le_nat_alt unat_sub[OF 1] using ri rj assms s by (simp add: diff_le_mono)
  moreover have "range_end n j \<le> 0xffffffff - 0x20"
    using rj assms by (simp add: word_le_nat_alt)
  ultimately show ?thesis by blast
qed

theorem nonce_ranges_disjoint_witness:
  "range_start 4 1 \<le> range_end 4 1 \<and> range_end 4 1 \<le> range_start 4 2 - 0x20
    \<and> 0x20 \<le> range_start 4 2 \<and> range_end 4 2 \<le> 0xffffffff - 0x20"
  using nonce_ranges_disjoint[of 1 2 4] by simp

section \<open>The merkle root\<close>

definition merkle_root_spec :: "bytes \<Rightarrow> bytes list \<Rightarrow> bytes" where
  "merkle_root_spec coinbase branches =
    foldl (\<lambda>acc branch. fips_sha256 (fips_sha256 (acc @ branch))) (fips_sha256 (fips_sha256 coinbase)) branches"

lemma sha256d_fips: "length (cbuf ctx) = 64 \<Longrightarrow> sha256d ctx m = fips_sha256 (fips_sha256 m)"
  by (simp add: sha256d_def sha256_full_eq)

lemma merkle_fold:
  assumes "length (cbuf ctx) = 64" "length acc = 32" "length pad = 32" "\<forall>b \<in> set bs. length b = 32"
  shows "take 32 (foldl (merkle_step ctx) (acc @ pad) bs)
    = foldl (\<lambda>acc branch. fips_sha256 (fips_sha256 (acc @ branch))) acc bs"
  using assms(2-)
proof (induction bs arbitrary: acc pad)
  case (Cons b bs)
  have "merkle_step ctx (acc @ pad) b = fips_sha256 (fips_sha256 (acc @ b)) @ b"
    using Cons.prems assms(1) by (simp add: merkle_step_def sha256d_fips put_at_def fips_sha256_length)
  then show ?case
    using Cons.prems Cons.IH[of "fips_sha256 (fips_sha256 (acc @ b))" b] by (simp add: fips_sha256_length)
qed simp

lemma merkle_root_eq:
  assumes "length (cbuf ctx) = 64" "length mbuf = 64" "\<forall>b \<in> set (j_merkle (s_job sctx)). length b = 32"
  shows "take 32 (sha256d_gen_merkle_root ctx mbuf sctx)
    = merkle_root_spec (j_coinbase (s_job sctx)) (j_merkle (s_job sctx))"
proof -
  have "put_at 0 r mbuf = r @ drop 32 mbuf" if "length r = 32" for r :: bytes
    using that by (simp add: put_at_def)
  then show ?thesis
    using assms merkle_fold[OF assms(1), of "sha256d ctx (j_coinbase (s_job sctx))" "drop 32 mbuf" "j_merkle (s_job sctx)"]
    by (simp add: sha256d_gen_merkle_root_def merkle_root_spec_def sha256d_fips fips_sha256_length)
qed

text \<open>C30: the merkle root a job's header carries is the fold of double SHA-256 over the branches,
  from the double SHA-256 of the coinbase, whatever the buffer held.\<close>

theorem sha256d_gen_merkle_root_correct:
  assumes "length (cbuf ctx) = 64" "length mbuf = 64" "\<forall>b \<in> set (j_merkle (s_job sctx)). length b = 32"
  shows "take 32 (sha256d_gen_merkle_root ctx mbuf sctx)
    = foldl (\<lambda>acc branch. fips_sha256 (fips_sha256 (acc @ branch)))
        (fips_sha256 (fips_sha256 (j_coinbase (s_job sctx)))) (j_merkle (s_job sctx))"
  using merkle_root_eq[OF assms] by (simp add: merkle_root_spec_def)

theorem sha256d_gen_merkle_root_correct_witness:
  "let job = \<lparr>j_prevhash = [], j_job_id = None, j_coinbase = [1, 2], j_xnonce2 = 0, j_merkle = [replicate 32 7],
         j_version = [], j_nbits = [], j_ntime = [], j_diff = 1, j_clean = False\<rparr>;
       sctx = \<lparr>s_next_diff = 1, s_session_id = None, s_xnonce1 = [], s_xnonce2_size = 0, s_job = job,
         s_block_height = 0, s_new_job = False\<rparr>
   in take 32 (sha256d_gen_merkle_root \<lparr>cbuf = replicate 64 0, cstate = [], ccount = 0\<rparr> (replicate 64 0) sctx)
     = fips_sha256 (fips_sha256 (fips_sha256 (fips_sha256 [1, 2]) @ replicate 32 7))"
  unfolding Let_def by (subst sha256d_gen_merkle_root_correct) simp_all

section \<open>The header words\<close>

lemma header_words:
  "take 20 (std_build_block_header gate True data v prevhash acc t b) =
    v # map (\<lambda>i. le32dec (seg (4 * i) 4 prevhash)) [0..<8] @ map (\<lambda>i. be32dec (seg (4 * i) 4 acc)) [0..<8] @ [t, b, 0]"
  if "civiclight_gate gate" "length data = 48"
proof -
  have "take 20 ((((fold (\<lambda>i d. d[9 + i := g i]) [0..<8] (fold (\<lambda>i d. d[1 + i := f i]) [0..<8]
      ((replicate 48 0)[0 := v])))[17 := t])[18 := b])[20 := x, 31 := y])
     = v # map f [0..<8] @ map g [0..<8] @ [t, b, 0]" for f g :: "nat \<Rightarrow> u32" and x y
    by code_simp
  then show ?thesis
    using that by (simp only: std_build_block_header_def Let_def civiclight_gate_def if_True)
qed

section \<open>The request\<close>

lemma hex_decode_bin2hex: "hex_decode (bin2hex bs (length bs)) = Some bs"
  by (simp add: bin2hex_eq hex_decode_concat)

lemma le_request_eq:
  assumes "xnonce2_at h w = Some x" "hstring h (w_job_id w) = Some job"
    "length user + length job + 2 * length x \<le> 8000"
  shows "std_le_build_stratum_request gate h user w = Some (submit_line user job (bin2hex x (length x))
      (bin2hex (le32enc (w_data w ! ntime_index gate)) 4) (bin2hex (le32enc (w_data w ! nonce_index gate)) 4))"
proof -
  have "length (submit_line user job (bin2hex x (length x)) (bin2hex (le32enc a) 4) (bin2hex (le32enc b) 4)) \<le> 8191" for a b
    using assms(3) le32.length_enc
    by (simp add: submit_line_def bin2hex_eq length_concat_fmt)
  then show ?thesis
    using assms by (simp add: std_le_build_stratum_request_def submit_request_def JSON_BUF_LEN_def Let_def)
qed

text \<open>A share's request has the user, the job and three fields that decode to the extranonce,
  the time and the nonce words of the work, provided user, job id and extranonce leave room in the
  request buffer; nothing is cut off.\<close>

theorem std_le_build_stratum_request_fields:
  assumes "xnonce2_at h w = Some x" "hstring h (w_job_id w) = Some job"
    "length user + length job + 2 * length x \<le> 8000"
  shows "\<exists>xn nt no. std_le_build_stratum_request gate h user w = Some (concat
      [cstr ''{\"method\":\"mining.submit\",\"params\":[\"'', user, cstr ''\",\"'', job, cstr ''\",\"'',
       xn, cstr ''\",\"'', nt, cstr ''\",\"'', no, cstr ''\"],\"id\":4}''])
    \<and> hex_decode xn = Some x \<and> hex_decode nt = Some (le32enc (w_data w ! ntime_index gate))
    \<and> hex_decode no = Some (le32enc (w_data w ! nonce_index gate))"
  using le_request_eq[OF assms, of gate] hex_decode_bin2hex[of x]
    hex_decode_bin2hex[of "le32enc (w_data w ! ntime_index gate)"]
    hex_decode_bin2hex[of "le32enc (w_data w ! nonce_index gate)"]
  unfolding submit_line_def le32.length_enc by blast

theorem std_le_build_stratum_request_fields_witness:
  "\<exists>xn nt no. std_le_build_stratum_request algo_gate two_jobs (cstr ''u'') (work_on 3 4) = Some (concat
      [cstr ''{\"method\":\"mining.submit\",\"params\":[\"'', cstr ''u'', cstr ''\",\"'', cstr ''a1'', cstr ''\",\"'',
       xn, cstr ''\",\"'', nt, cstr ''\",\"'', no, cstr ''\"],\"id\":4}''])
    \<and> hex_decode xn = Some [0, 8] \<and> hex_decode nt = Some (le32enc (w_data (work_on 3 4) ! ntime_index algo_gate))
    \<and> hex_decode no = Some (le32enc (w_data (work_on 3 4) ! nonce_index algo_gate))"
  by (rule std_le_build_stratum_request_fields)
    (simp_all add: two_jobs_def work_on_def xnonce2_at_def hstring_def cstring_at_def cstr_def)

section \<open>Byte order of work\<close>

lemma le32dec_le32enc: "le32dec (le32enc w) = w"
  using le32.dec_enc .

text \<open>On the little-endian host decoding little-endian work changes nothing, and decoding
  big-endian work undoes \<open>set_work_data_big_endian\<close> on the words before the nonce and
  swaps the bytes of the others.\<close>

theorem work_decode_endian:
  assumes "length data = 48" "length target = 8"
  shows "std_le_work_decode data target = (data, target)
    \<and> fst (std_be_work_decode (set_work_data_big_endian algo_gate data) target)
      = map (\<lambda>i. if i < 19 \<or> i \<ge> 32 then data ! i else bswap32 (data ! i)) [0..<48]"
proof -
  have i: "nonce_index algo_gate = 19"
    using algo_gate_civiclight(1) by (simp add: civiclight_gate_def)
  have le: "decode_words le32dec n ws = ws" for n ws
    unfolding decode_words_def word_bytes_def le32dec_le32enc by (rule nth_equalityI) simp_all
  then have 1: "std_le_work_decode data target = (data, target)"
    by (simp add: std_le_work_decode_def)
  have be: "be32dec (le32enc (le32dec (be32enc w))) = w" for w
    by (simp add: le32.enc_dec be32.length_enc be32.dec_enc)
  have 2: "fst (std_be_work_decode (set_work_data_big_endian algo_gate data) target)
      = map (\<lambda>i. if i < 19 \<or> i \<ge> 32 then data ! i else bswap32 (data ! i)) [0..<48]"
    using assms by (auto simp: std_be_work_decode_def set_work_data_big_endian_def decode_words_def word_bytes_def i
      std_get_work_data_size_def STD_WORK_DATA_SIZE_def bswap32_def be)
  show ?thesis using 1 2 ..
qed

theorem work_decode_endian_witness:
  "std_le_work_decode (replicate 48 7) (replicate 8 0) = (replicate 48 7, replicate 8 0)"
  using work_decode_endian[of "replicate 48 7" "replicate 8 0"] by (simp del: upt_Suc)

end
