(* ===== verification/Soj_Civiclight.thy ===== *)
theory Soj_Civiclight
  imports Soj_Sha256d Soj_Target
begin

text \<open>The proof-of-work of \<open>civiclight.c\<close>: the double SHA-256 of the header (from a
  midstate, alone or two headers at a time), the original and the post-fork core, and the nonce
  scanner.  The two yespower implementations are reached through the function pointers
  \<open>civic_yespower_impl\<close> and \<open>civic_yespower2_impl\<close>, which are arguments here.
  Stack buffers are arguments too where their contents are not initialised.\<close>

text \<open>What \<open>civiclight_select_yespower_impl\<close> chooses among.\<close>

record yespower_impl =
  impl1 :: "bytes \<Rightarrow> bytes"
  impl2 :: "bytes \<Rightarrow> bytes \<Rightarrow> bytes \<times> bytes"

definition civiclight_select_yespower_impl ::
  "bool \<Rightarrow> bool \<Rightarrow> bool \<Rightarrow> yespower_impl \<Rightarrow> yespower_impl \<Rightarrow> yespower_impl \<times> string" where
  "civiclight_select_yespower_impl allow_avx512 has_avx512f has_avx512vl tls tls_avx512 =
    (if allow_avx512 \<and> has_avx512f \<and> has_avx512vl
     then (tls_avx512, ''yespower AVX-512VL'') else (tls, ''yespower AVX2''))"

definition CIVICLIGHT_V2_ACTIVATION_TIME :: u32 where
  "CIVICLIGHT_V2_ACTIVATION_TIME = 1784797200"

section \<open>SHA-256 of headers\<close>

definition sha256d_local :: "sha256_context \<Rightarrow> bytes \<Rightarrow> bytes" where
  "sha256d_local ctx input = (let h = sha256_full ctx input in sha256_full ctx h)"

text \<open>Storing the byte-swapped state words gives their bytes big end first.\<close>

definition store_swapped :: "u32 list \<Rightarrow> bytes" where
  "store_swapped st = concat (map (\<lambda>i. le32enc (bswap32 (st ! i))) [0..<8])"

definition block_32 :: "bytes \<Rightarrow> bytes" where
  "block_32 input = (take 32 input @ replicate 32 0)[32 := 0x80, 62 := 0x01]"

definition sha256_32_2way :: "sha256_context \<Rightarrow> bytes \<Rightarrow> bytes \<Rightarrow> bytes \<times> bytes" where
  "sha256_32_2way ctx in0 in1 =
    (let iv = sha256_ctx_init ctx;
         (st0, st1) = sha256_2x_transform_be (block_32 in0) (block_32 in1) (cstate iv) (cstate iv)
     in (store_swapped st0, store_swapped st1))"

definition block_80_tail :: "bytes \<Rightarrow> bytes" where
  "block_80_tail header =
    (put_at 0 (seg 64 16 header) (replicate 64 0))[16 := 0x80, 62 := 0x02, 63 := 0x80]"

definition sha256d_80_2way_midstate ::
  "sha256_context \<Rightarrow> bytes \<Rightarrow> bytes \<Rightarrow> sha256_context \<Rightarrow> bytes \<times> bytes" where
  "sha256d_80_2way_midstate ctx header0 header1 midstate =
    (let (st0, st1) = sha256_2x_transform_be (block_80_tail header0) (block_80_tail header1)
           (cstate midstate) (cstate midstate)
     in sha256_32_2way ctx (store_swapped st0) (store_swapped st1))"

definition sha256d_80_midstate :: "sha256_context \<Rightarrow> bytes \<Rightarrow> sha256_context \<Rightarrow> bytes" where
  "sha256d_80_midstate stack header80 midstate =
    (let ctx = midstate;
         ctx = sha256_update ctx (seg 64 16 header80);
         h = sha256_final ctx
     in sha256_full stack h)"

section \<open>The two cores\<close>

definition civiclight_core_v1 :: "sha256_context \<Rightarrow> bytes \<Rightarrow> bytes" where
  "civiclight_core_v1 ctx input =
    (let hash1 = sha256_full ctx input;
         hash1 = map (\<lambda>b. b XOR 0x5A) hash1
     in sha256_full ctx hash1)"

definition civiclight_core_v2 :: "yespower_impl \<Rightarrow> sha256_context \<Rightarrow> bytes \<Rightarrow> bytes" where
  "civiclight_core_v2 yp ctx input =
    (let hash1 = sha256_full ctx input;
         yp_out = impl1 yp hash1;
         xor_buf = map (\<lambda>i. yp_out ! i XOR hash1 ! i) [0..<32]
     in sha256_full ctx xor_buf)"

definition civiclight_core_v2_2way ::
  "yespower_impl \<Rightarrow> sha256_context \<Rightarrow> bytes \<Rightarrow> bytes \<Rightarrow> nat \<Rightarrow> bytes \<times> bytes" where
  "civiclight_core_v2_2way yp ctx input0 input1 len =
    (let (hash1_0, hash1_1) =
           (if len = 32 then sha256_32_2way ctx input0 input1
            else (sha256_full ctx (take len input0), sha256_full ctx (take len input1)));
         (yp_out_0, yp_out_1) = impl2 yp hash1_0 hash1_1;
         xor_buf_0 = map (\<lambda>i. yp_out_0 ! i XOR hash1_0 ! i) [0..<32];
         xor_buf_1 = map (\<lambda>i. yp_out_1 ! i XOR hash1_1 ! i) [0..<32]
     in sha256_32_2way ctx xor_buf_0 xor_buf_1)"

definition extract_ntime :: "bytes \<Rightarrow> u32" where
  "extract_ntime b = ucast (b ! 68) OR push_bit 8 (ucast (b ! 69)) OR push_bit 16 (ucast (b ! 70))
     OR push_bit 24 (ucast (b ! 71))"

definition civiclight_powhash :: "yespower_impl \<Rightarrow> sha256_context \<Rightarrow> bytes \<Rightarrow> bytes" where
  "civiclight_powhash yp ctx header80 =
    (let intermediate = sha256d_local ctx (take 80 header80);
         ntime = extract_ntime header80
     in if ntime \<ge> CIVICLIGHT_V2_ACTIVATION_TIME
        then civiclight_core_v2 yp ctx intermediate
        else civiclight_core_v1 ctx intermediate)"

definition civiclight_powhash_from_midstate ::
  "yespower_impl \<Rightarrow> sha256_context \<Rightarrow> bytes \<Rightarrow> sha256_context \<Rightarrow> bytes" where
  "civiclight_powhash_from_midstate yp ctx header80 midstate =
    (let intermediate = sha256d_80_midstate ctx header80 midstate
     in if extract_ntime header80 \<ge> CIVICLIGHT_V2_ACTIVATION_TIME
        then civiclight_core_v2 yp ctx intermediate
        else civiclight_core_v1 ctx intermediate)"

definition civiclight_powhash_2way_midstate ::
  "yespower_impl \<Rightarrow> sha256_context \<Rightarrow> bytes \<Rightarrow> bytes \<Rightarrow> sha256_context \<Rightarrow> bytes \<times> bytes" where
  "civiclight_powhash_2way_midstate yp ctx header0 header1 midstate =
    (let (i0, i1) = sha256d_80_2way_midstate ctx header0 header1 midstate in
     if extract_ntime header0 \<ge> CIVICLIGHT_V2_ACTIVATION_TIME
        \<and> extract_ntime header1 \<ge> CIVICLIGHT_V2_ACTIVATION_TIME
     then civiclight_core_v2_2way yp ctx i0 i1 32
     else
       (if extract_ntime header0 \<ge> CIVICLIGHT_V2_ACTIVATION_TIME
        then civiclight_core_v2 yp ctx i0 else civiclight_core_v1 ctx i0,
        if extract_ntime header1 \<ge> CIVICLIGHT_V2_ACTIVATION_TIME
        then civiclight_core_v2 yp ctx i1 else civiclight_core_v1 ctx i1))"

definition civiclight_hash :: "yespower_impl \<Rightarrow> sha256_context \<Rightarrow> bytes \<Rightarrow> int \<times> bytes" where
  "civiclight_hash yp ctx input = (1, civiclight_powhash yp ctx input)"

definition civiclight_hash_2way ::
  "yespower_impl \<Rightarrow> sha256_context \<Rightarrow> bytes \<Rightarrow> bytes \<Rightarrow> int \<times> bytes \<times> bytes" where
  "civiclight_hash_2way yp ctx input0 input1 =
    (if take 64 input0 \<noteq> take 64 input1
     then (1, civiclight_powhash yp ctx input0, civiclight_powhash yp ctx input1)
     else
       let midstate = sha256_ctx_init ctx;
           midstate = sha256_update midstate (take 64 input0)
       in (1, civiclight_powhash_2way_midstate yp ctx input0 input1 midstate))"

section \<open>The contract of a two-way function\<close>

locale two_way =
  fixes one :: "'a \<Rightarrow> 'b"
    and two :: "'a \<Rightarrow> 'a \<Rightarrow> 'b \<times> 'b"
    and dom :: "'a \<Rightarrow> bool"
  assumes two_pair: "dom x \<Longrightarrow> dom y \<Longrightarrow> two x y = (one x, one y)"
begin

lemma swapped: "dom x \<Longrightarrow> dom y \<Longrightarrow> two y x = prod.swap (two x y)"
  by (simp add: two_pair)

lemma same: "dom x \<Longrightarrow> two x x = (one x, one x)"
  by (simp add: two_pair)

lemma after: "dom (f x) \<Longrightarrow> dom (f y) \<Longrightarrow> two (f x) (f y) = ((one \<circ> f) x, (one \<circ> f) y)"
  by (simp add: two_pair)

end

section \<open>The two-way hashes are pairs of single hashes\<close>

lemma store_swapped_eq: "length st = 8 \<Longrightarrow> store_swapped st = concat (map be32enc st)"
proof -
  have "le32enc (bswap32 w) = be32enc w" for w
    using bswap32_rev[of w] by (simp add: le32enc_rev)
  then show "length st = 8 \<Longrightarrow> store_swapped st = concat (map be32enc st)"
    by (auto dest!: list8 simp: store_swapped_def upt_rec)
qed

lemma sha256_digest: "concat (map be32enc (md_state (m @ fips_pad (length m)))) = fips_sha256 m"
  by (simp add: fips_sha256_md)

lemma md_one_block:
  assumes "length (md_rest m @ x) < 64" "length (m @ x) mod 64 < 56"
  shows "concat (map be32enc (fips_compress (md_state m) (md_rest m @ x @ fips_pad (length (m @ x)))))
    = fips_sha256 (m @ x)"
proof -
  note ms = md_short[OF assms(1)]
  have len: "length (md_rest (m @ x) @ fips_pad (length (m @ x))) = 64"
    using assms(2) unfolding length_append[of "md_rest _"] length_md_rest fips_pad_def
    by (simp add: pad_short)
  show ?thesis
    using md_state_block(1)[OF len] ms by (simp add: sha256_digest[symmetric])
qed

lemma md_empty: "md_state [] = initial_state" "md_rest [] = []"
  by (simp_all add: md_state_def md_rest_def)

lemma block_32_eq: "length m = 32 \<Longrightarrow> block_32 m = m @ fips_pad 32"
proof -
  assume l: "length m = 32"
  have "(replicate 32 (0 :: u8))[0 := 0x80, 30 := 0x01] = fips_pad 32"
    by code_simp
  then show ?thesis
    using l by (simp add: block_32_def list_update_append)
qed

lemma block_80_tail_eq: "length h = 80 \<Longrightarrow> block_80_tail h = drop 64 h @ fips_pad 80"
proof -
  assume l: "length h = 80"
  have "(replicate 48 (0 :: u8))[0 := 0x80, 46 := 0x02, 47 := 0x80] = fips_pad 80"
    by code_simp
  moreover have "put_at 0 (seg 64 16 h) (replicate 64 0) = drop 64 h @ replicate 48 0"
    using l by (simp add: put_at_def seg_def)
  ultimately show ?thesis
    using l by (simp add: block_80_tail_def list_update_append)
qed

lemma sha256_32_2way_eq:
  assumes "length a = 32" "length b = 32"
  shows "sha256_32_2way ctx a b = (fips_sha256 a, fips_sha256 b)"
proof -
  have "store_swapped (sha256_transform_be initial_state (block_32 m)) = fips_sha256 m"
    if "length m = 32" for m
  proof -
    have "length (block_32 m) = 64" using that by (simp add: block_32_def)
    then show ?thesis
      using md_one_block[of "[]" m] that md_empty
      by (simp add: sha256_transform_be_fips initial_state_def store_swapped_eq fips_compress_length block_32_eq)
  qed
  then show ?thesis
    using assms by (simp add: sha256_32_2way_def sha256_2x_pair sha256_ctx_init_def SHA256_IV_def initial_state_def)
qed

interpretation sha2w: two_way "fips_sha256" "sha256_32_2way ctx" "\<lambda>m. length m = 32" for ctx
  by unfold_locales (rule sha256_32_2way_eq)

text \<open>What the midstate holds.\<close>

definition midstate_of :: "sha256_context \<Rightarrow> bytes \<Rightarrow> bool" where
  "midstate_of mid h \<longleftrightarrow> sha_absorbs mid (take 64 h)"

lemma midstate_state: "midstate_of mid h \<Longrightarrow> length h = 80 \<Longrightarrow> cstate mid = md_state (take 64 h)"
  by (simp add: midstate_of_def sha_absorbs_def absorbs_def)

lemma tail_digest:
  assumes "length h = 80"
  shows "store_swapped (sha256_transform_be (md_state (take 64 h)) (block_80_tail h)) = fips_sha256 h"
proof -
  have r: "md_rest (take 64 h) = []"
    using assms by (simp add: md_rest_def)
  have "length (block_80_tail h) = 64"
    using assms by (simp add: block_80_tail_def put_at_def seg_def)
  then show ?thesis
    using md_one_block[of "take 64 h" "drop 64 h"] assms r
    by (simp add: sha256_transform_be_fips store_swapped_eq fips_compress_length block_80_tail_eq)
qed

lemma sha256d_80_2way_midstate_eq:
  assumes "midstate_of mid h0" "take 64 h1 = take 64 h0" "length h0 = 80" "length h1 = 80"
  shows "sha256d_80_2way_midstate ctx h0 h1 mid = (fips_sha256 (fips_sha256 h0), fips_sha256 (fips_sha256 h1))"
  using assms midstate_state[OF assms(1,3)] tail_digest[of h0] tail_digest[of h1]
  by (simp add: sha256d_80_2way_midstate_def sha256_2x_pair sha256_32_2way_eq)

lemma sha256d_80_midstate_eq:
  assumes "midstate_of mid h" "length h = 80" "length (cbuf ctx) = 64"
  shows "sha256d_80_midstate ctx h mid = fips_sha256 (fips_sha256 h)"
proof -
  have "seg 64 16 h = drop 64 h" using assms(2) by (simp add: seg_def)
  then show ?thesis
    using sha.final_hash[OF sha.update_absorbs[of mid "take 64 h" "drop 64 h"]] assms
    by (simp add: sha256d_80_midstate_def midstate_of_def sha256_full_eq)
qed

section \<open>The proof-of-work function\<close>

definition core_v1 :: "bytes \<Rightarrow> bytes" where
  "core_v1 m = fips_sha256 (map (\<lambda>b. b XOR 0x5A) (fips_sha256 m))"

definition core_v2 :: "(bytes \<Rightarrow> bytes) \<Rightarrow> bytes \<Rightarrow> bytes" where
  "core_v2 yp m = (let h = fips_sha256 m in fips_sha256 (map (\<lambda>i. yp h ! i XOR h ! i) [0..<32]))"

definition powhash :: "(bytes \<Rightarrow> bytes) \<Rightarrow> bytes \<Rightarrow> bytes" where
  "powhash yp h = (if extract_ntime h \<ge> CIVICLIGHT_V2_ACTIVATION_TIME then core_v2 yp else core_v1)
     (fips_sha256 (fips_sha256 h))"

lemma core_v1_eq: "length (cbuf ctx) = 64 \<Longrightarrow> civiclight_core_v1 ctx m = core_v1 m"
  by (simp add: civiclight_core_v1_def core_v1_def sha256_full_eq)

lemma core_v2_eq: "length (cbuf ctx) = 64 \<Longrightarrow> civiclight_core_v2 yp ctx m = core_v2 (impl1 yp) m"
  by (simp add: civiclight_core_v2_def core_v2_def sha256_full_eq Let_def)

definition yespower_pairs :: "yespower_impl \<Rightarrow> bool" where
  "yespower_pairs yp \<longleftrightarrow> (\<forall>a b. length a = 32 \<longrightarrow> length b = 32 \<longrightarrow> impl2 yp a b = (impl1 yp a, impl1 yp b))"

lemma core_v2_2way_eq:
  assumes "yespower_pairs yp" "length a = 32" "length b = 32"
  shows "civiclight_core_v2_2way yp ctx a b 32 = (core_v2 (impl1 yp) a, core_v2 (impl1 yp) b)"
  using assms by (simp add: civiclight_core_v2_2way_def core_v2_def sha256_32_2way_eq yespower_pairs_def Let_def)

lemma powhash_eq:
  "length h = 80 \<Longrightarrow> length (cbuf ctx) = 64 \<Longrightarrow> civiclight_powhash yp ctx h = powhash (impl1 yp) h"
  by (simp add: civiclight_powhash_def powhash_def sha256d_local_def sha256_full_eq core_v1_eq core_v2_eq Let_def)

lemma powhash_mid_eq:
  assumes "midstate_of mid h" "length h = 80" "length (cbuf ctx) = 64"
  shows "civiclight_powhash_from_midstate yp ctx h mid = powhash (impl1 yp) h"
  using assms by (simp add: civiclight_powhash_from_midstate_def powhash_def sha256d_80_midstate_eq
      core_v1_eq core_v2_eq Let_def)

lemma powhash_2way_eq:
  assumes "yespower_pairs yp" "midstate_of mid h0" "take 64 h1 = take 64 h0"
    "length h0 = 80" "length h1 = 80" "length (cbuf ctx) = 64"
  shows "civiclight_powhash_2way_midstate yp ctx h0 h1 mid = (powhash (impl1 yp) h0, powhash (impl1 yp) h1)"
  using assms by (simp add: civiclight_powhash_2way_midstate_def powhash_def sha256d_80_2way_midstate_eq
      core_v1_eq core_v2_eq core_v2_2way_eq Let_def)

lemma midstate_init:
  "length (cbuf ctx) = 64 \<Longrightarrow> midstate_of (sha256_update (sha256_ctx_init ctx) (take 64 h)) h"
  using sha.update_absorbs[OF sha.init_absorbs[of ctx], of "take 64 h"] by (simp add: midstate_of_def)

text \<open>C21: hashing two headers at once gives the two proof-of-work hashes, whether or not the
  headers share the first block (the midstate) and on whichever side of the activation time each
  of them is, provided the selected two-way yespower is two single ones.\<close>

theorem civiclight_hash_2way_correct:
  assumes "\<And>a b. length a = 32 \<Longrightarrow> length b = 32 \<Longrightarrow> impl2 yp a b = (impl1 yp a, impl1 yp b)"
    and "length h0 = 80" "length h1 = 80" "length (cbuf ctx) = 64"
  shows "civiclight_hash_2way yp ctx h0 h1
    = (1, snd (civiclight_hash yp ctx h0), snd (civiclight_hash yp ctx h1))"
proof -
  have "yespower_pairs yp"
    using assms(1) by (simp add: yespower_pairs_def)
  then show ?thesis
    using assms(2-4) powhash_2way_eq[OF _ midstate_init[of ctx h0], of yp h1 ctx]
    by (auto simp add: civiclight_hash_2way_def civiclight_hash_def powhash_eq Let_def)
qed

theorem civiclight_hash_2way_correct_witness:
  "let yp = \<lparr>impl1 = rev, impl2 = \<lambda>a b. (rev a, rev b)\<rparr>;
       ctx = \<lparr>cbuf = replicate 64 0, cstate = [], ccount = 0\<rparr>;
       h0 = replicate 80 0xff; h1 = replicate 79 0xff @ [0]
   in civiclight_hash_2way yp ctx h0 h1 = (1, snd (civiclight_hash yp ctx h0), snd (civiclight_hash yp ctx h1))"
  unfolding Let_def by (rule civiclight_hash_2way_correct) simp_all

section \<open>The nonce scanner\<close>

text \<open>The variables of \<open>scanhash_civiclight\<close> that change: the header words of \<open>work\<close>,
  the nonce, the batch of hashes not yet reported, the total given to
  \<open>civiclight_stats_add_hashes\<close>, and the submissions, each with the header words and the hash
  at the call.\<close>

record scan_state =
  pdata :: "u32 list"
  nonce :: u32
  stats_batch :: u32
  stats_total :: nat
  submitted :: "(u32 list \<times> bytes) list"

definition header_bytes :: "u32 list \<Rightarrow> bytes" where
  "header_bytes edata = concat (map le32enc edata)"

definition scan_submit :: "bool \<Rightarrow> bytes \<Rightarrow> bytes \<Rightarrow> u32 \<Rightarrow> scan_state \<Rightarrow> scan_state" where
  "scan_submit bench ptarget hash n st =
    (if valid_hash hash ptarget \<and> \<not> bench
     then let st = st\<lparr>pdata := (pdata st)[19 := bswap32 n]\<rparr>
       in st\<lparr>submitted := submitted st @ [(pdata st, hash)]\<rparr>
     else st)"

definition civiclight_stats_add_hashes :: "u32 \<Rightarrow> scan_state \<Rightarrow> scan_state" where
  "civiclight_stats_add_hashes k st = st\<lparr>stats_total := stats_total st + unat k\<rparr>"

definition scan_count :: "bool \<Rightarrow> scan_state \<Rightarrow> scan_state" where
  "scan_count bench st =
    (if \<not> bench then
       let st = st\<lparr>stats_batch := stats_batch st + 2\<rparr>
       in if stats_batch st \<ge> 256
          then (civiclight_stats_add_hashes (stats_batch st) st)\<lparr>stats_batch := 0\<rparr> else st
     else st)"

text \<open>The body of the pair loop.\<close>

definition scan_pair_step :: "yespower_impl \<Rightarrow> sha256_context \<Rightarrow> bool \<Rightarrow> u32 list \<Rightarrow>
    sha256_context \<Rightarrow> bytes \<Rightarrow> scan_state \<Rightarrow> scan_state" where
  "scan_pair_step yp ctx bench edata mid ptarget st =
    (let n = nonce st;
         edata_0 = edata[19 := n];
         edata_1 = edata[19 := n + 1];
         (hash_0, hash_1) = civiclight_powhash_2way_midstate yp ctx
            (header_bytes edata_0) (header_bytes edata_1) mid;
         st = scan_count bench st;
         st = scan_submit bench ptarget hash_0 n st;
         st = scan_submit bench ptarget hash_1 (n + 1) st
     in st\<lparr>nonce := n + 2\<rparr>)"

text \<open>The pair loop.  \<open>restart k\<close> is what the \<open>k\<close>-th read of the restart flag sees;
  the fuel bounds the iterations.\<close>

fun scan_pairs :: "nat \<Rightarrow> yespower_impl \<Rightarrow> sha256_context \<Rightarrow> bool \<Rightarrow> (nat \<Rightarrow> bool) \<Rightarrow> nat \<Rightarrow> u32 list \<Rightarrow>
    sha256_context \<Rightarrow> bytes \<Rightarrow> u32 \<Rightarrow> scan_state \<Rightarrow> (nat \<times> scan_state) option" where
  "scan_pairs 0 yp ctx bench restart k edata mid ptarget last_nonce st = None"
| "scan_pairs (Suc fuel) yp ctx bench restart k edata mid ptarget last_nonce st =
    (if nonce st + 1 < last_nonce then
       if restart k then Some (k + 1, st)
       else scan_pairs fuel yp ctx bench restart (k + 1) edata mid ptarget last_nonce
         (scan_pair_step yp ctx bench edata mid ptarget st)
     else Some (k, st))"

text \<open>The odd nonce left at the end.\<close>

definition scan_last :: "yespower_impl \<Rightarrow> sha256_context \<Rightarrow> bool \<Rightarrow> (nat \<Rightarrow> bool) \<Rightarrow> nat \<Rightarrow> u32 list \<Rightarrow>
    sha256_context \<Rightarrow> bytes \<Rightarrow> u32 \<Rightarrow> scan_state \<Rightarrow> scan_state" where
  "scan_last yp ctx bench restart k edata mid ptarget last_nonce st =
    (if nonce st < last_nonce \<and> \<not> restart k then
       let n = nonce st;
           edata = edata[19 := n];
           hash = civiclight_powhash_from_midstate yp ctx (header_bytes edata) mid;
           st = (if \<not> bench then st\<lparr>stats_batch := stats_batch st + 1\<rparr> else st);
           st = scan_submit bench ptarget hash n st
       in st\<lparr>nonce := n + 1\<rparr>
     else st)"

definition v128_bswap32_80 :: "u32 list \<Rightarrow> u32 list" where
  "v128_bswap32_80 s = concat (map (\<lambda>i. xmm_list (v128_bswap32 (mm_load_si128 s (4 * i)))) [0..<5])"

text \<open>The result is \<open>*hashes_done\<close> with the final state.\<close>

definition scanhash_civiclight :: "nat \<Rightarrow> yespower_impl \<Rightarrow> sha256_context \<Rightarrow> bool \<Rightarrow> (nat \<Rightarrow> bool) \<Rightarrow>
    u32 list \<Rightarrow> bytes \<Rightarrow> u32 \<Rightarrow> (u64 \<times> scan_state) option" where
  "scanhash_civiclight fuel yp ctx bench restart data ptarget max_nonce =
    (let first_nonce = data ! 19;
         last_nonce = max_nonce - 1;
         edata = v128_bswap32_80 data;
         edata = (if bench then edata[17 := CIVICLIGHT_V2_ACTIVATION_TIME] else edata);
         mid = sha256_update (sha256_ctx_init ctx) (take 64 (header_bytes edata));
         st = \<lparr>pdata = data, nonce = first_nonce, stats_batch = 0, stats_total = 0, submitted = []\<rparr>
     in case scan_pairs fuel yp ctx bench restart 0 edata mid ptarget last_nonce st of
          None \<Rightarrow> None
        | Some (k, st) \<Rightarrow>
            let st = scan_last yp ctx bench restart k edata mid ptarget last_nonce st;
                st = (if \<not> bench \<and> stats_batch st \<noteq> 0
                      then civiclight_stats_add_hashes (stats_batch st) st else st)
            in Some (ucast (nonce st - first_nonce), st\<lparr>pdata := (pdata st)[19 := nonce st]\<rparr>))"

section \<open>What a scan covers\<close>

definition nonce_hash :: "(bytes \<Rightarrow> bytes) \<Rightarrow> u32 list \<Rightarrow> nat \<Rightarrow> bytes" where
  "nonce_hash yp edata n = powhash yp (header_bytes (edata[19 := of_nat n]))"

text \<open>The submissions a full scan of a list of nonces makes, in order.\<close>

definition hits :: "(bytes \<Rightarrow> bytes) \<Rightarrow> u32 list \<Rightarrow> u32 list \<Rightarrow> bytes \<Rightarrow> nat list \<Rightarrow> (u32 list \<times> bytes) list" where
  "hits yp data edata ptarget ns =
    map (\<lambda>n. (data[19 := bswap32 (of_nat n)], nonce_hash yp edata n))
      (filter (\<lambda>n. valid_hash (nonce_hash yp edata n) ptarget) ns)"

lemma hits_append: "hits yp d e t (xs @ ys) = hits yp d e t xs @ hits yp d e t ys"
  by (simp add: hits_def)

definition scanned :: "yespower_impl \<Rightarrow> bool \<Rightarrow> u32 list \<Rightarrow> u32 list \<Rightarrow> bytes \<Rightarrow> nat \<Rightarrow> nat \<Rightarrow> scan_state \<Rightarrow> bool" where
  "scanned yp bench data edata ptarget a m st \<longleftrightarrow>
     unat (nonce st) = m \<and> a \<le> m \<and>
     submitted st = (if bench then [] else hits (impl1 yp) data edata ptarget [a..<m]) \<and>
     stats_total st + unat (stats_batch st) = (if bench then 0 else m - a) \<and>
     stats_batch st < 256 \<and> (\<exists>x. pdata st = data[19 := x])"

lemma length_header_bytes: "length (header_bytes e) = 4 * length e"
  using le32.length_enc_all[of e] by (simp add: header_bytes_def le32.enc_all_def)

lemma header_prefix: "length e = 20 \<Longrightarrow> take 64 (header_bytes (e[19 := n])) = take 64 (header_bytes e)"
proof -
  assume l: "length e = 20"
  have "e[19 := n] = take 16 e @ drop 16 (e[19 := n])"
    by (metis append_take_drop_id take_update_cancel numeral_le_iff semiring_norm(68) semiring_norm(71)
        semiring_norm(72) semiring_norm(73))
  then have "header_bytes (e[19 := n]) = header_bytes (take 16 e) @ header_bytes (drop 16 (e[19 := n]))"
    by (metis header_bytes_def concat_append map_append)
  moreover have "header_bytes e = header_bytes (take 16 e) @ header_bytes (drop 16 e)"
    by (metis header_bytes_def concat_append map_append append_take_drop_id)
  moreover have "length (header_bytes (take 16 e)) = 64"
    using l by (simp add: length_header_bytes)
  ultimately show ?thesis by simp
qed

text \<open>One hash counted and submitted advances what is scanned by one nonce; the batch is
  treated apart.\<close>

lemma scan_submit_sel [simp]:
  "nonce (scan_submit bench t h n st) = nonce st"
  "stats_batch (scan_submit bench t h n st) = stats_batch st"
  "stats_total (scan_submit bench t h n st) = stats_total st"
  by (simp_all add: scan_submit_def Let_def)

lemma scan_submit_submitted:
  assumes "pdata st = data[19 := x]" "h = nonce_hash (impl1 yp) edata m" "unat n = m"
  shows "submitted (scan_submit bench t h n st)
      = submitted st @ (if bench then [] else hits (impl1 yp) data edata t [m])"
    and "\<exists>x. pdata (scan_submit bench t h n st) = data[19 := x]"
proof -
  have "of_nat m = n" using assms(3) by force
  then show "submitted (scan_submit bench t h n st)
      = submitted st @ (if bench then [] else hits (impl1 yp) data edata t [m])"
    using assms by (auto simp: scan_submit_def Let_def hits_def)
  show "\<exists>x. pdata (scan_submit bench t h n st) = data[19 := x]"
    using assms(1) by (auto simp: scan_submit_def Let_def)
qed

lemma scan_count_sel [simp]:
  "nonce (scan_count bench st) = nonce st"
  "pdata (scan_count bench st) = pdata st"
  "submitted (scan_count bench st) = submitted st"
  by (simp_all add: scan_count_def civiclight_stats_add_hashes_def Let_def)

lemma unat_u32: "unat (w :: u32) < 2 ^ 32"
proof -
  have "(unsigned w :: nat) < 2 ^ LENGTH(32)" by (rule unsigned_less)
  then show ?thesis by simp
qed

lemma unat_add_small: "b < 256 \<Longrightarrow> unat k < 256 \<Longrightarrow> unat (b + k) = unat b + unat (k :: u32)"
  by (subst unat_add_lem[THEN iffD1]) (auto simp: word_less_nat_alt)

lemma scan_count_batch:
  assumes "stats_batch st < 256"
  shows "stats_total (scan_count bench st) + unat (stats_batch (scan_count bench st))
    = stats_total st + unat (stats_batch st) + (if bench then 0 else 2)"
    and "stats_batch (scan_count bench st) < 256"
  using assms unat_add_small[OF assms, of 2]
  by (auto simp: scan_count_def civiclight_stats_add_hashes_def Let_def)

lemma hits_range: "a \<le> m \<Longrightarrow> hits yp d e t [a..<Suc m] = hits yp d e t [a..<m] @ hits yp d e t [m]"
  by (simp add: hits_append[symmetric])

lemma midstate_edata:
  assumes "length edata = 20" "length (cbuf ctx) = 64"
    "mid = sha256_update (sha256_ctx_init ctx) (take 64 (header_bytes edata))"
  shows "midstate_of mid (header_bytes (edata[19 := n]))"
  using midstate_init[OF assms(2), of "header_bytes (edata[19 := n])"] assms by (simp add: header_prefix)

lemma pair_step_scanned:
  assumes sc: "scanned yp bench data edata t a m st" and m: "m + 2 < 2 ^ 32"
    and pr: "yespower_pairs yp" and l: "length edata = 20" "length (cbuf ctx) = 64"
    and mid: "mid = sha256_update (sha256_ctx_init ctx) (take 64 (header_bytes edata))"
  shows "scanned yp bench data edata t a (m + 2) (scan_pair_step yp ctx bench edata mid t st)"
proof -
  let ?n = "nonce st"
  from sc have n: "unat ?n = m" and am: "a \<le> m" and b: "stats_batch st < 256"
    by (auto simp: scanned_def)
  obtain x where x: "pdata st = data[19 := x]" using sc by (auto simp: scanned_def)
  have n1: "unat (?n + 1) = m + 1" and n2: "unat (?n + 2) = m + 2"
    using n m by (simp_all add: unat_word_ariths)
  have nn: "of_nat m = ?n" "of_nat (m + 1) = ?n + 1" using n by force+
  let ?h0 = "nonce_hash (impl1 yp) edata m" and ?h1 = "nonce_hash (impl1 yp) edata (m + 1)"
  have hs: "civiclight_powhash_2way_midstate yp ctx (header_bytes (edata[19 := ?n]))
      (header_bytes (edata[19 := ?n + 1])) mid = (?h0, ?h1)"
    using powhash_2way_eq[OF pr midstate_edata[OF l mid], where ?h1.0 = "header_bytes (edata[19 := ?n + 1])"] l nn
    by (simp add: nonce_hash_def length_header_bytes header_prefix add.commute)
  let ?s1 = "scan_submit bench t ?h0 ?n (scan_count bench st)"
  let ?s2 = "scan_submit bench t ?h1 (?n + 1) ?s1"
  have s1: "submitted ?s1 = submitted st @ (if bench then [] else hits (impl1 yp) data edata t [m])"
    "\<exists>x. pdata ?s1 = data[19 := x]"
    using scan_submit_submitted[of "scan_count bench st" data x ?h0 yp edata m ?n bench t] x n by simp_all
  then obtain y where y: "pdata ?s1 = data[19 := y]" by blast
  have s2: "submitted ?s2 = submitted ?s1 @ (if bench then [] else hits (impl1 yp) data edata t [m + 1])"
    "\<exists>x. pdata ?s2 = data[19 := x]"
    using scan_submit_submitted[of ?s1 data y ?h1 yp edata "m + 1" "?n + 1" bench t] y n1 by simp_all
  have sub: "submitted ?s2 = (if bench then [] else hits (impl1 yp) data edata t [a..<m + 2])"
    using s1(1) s2(1) sc am by (simp add: scanned_def hits_range del: upt_Suc)
  show ?thesis
    unfolding scan_pair_step_def Let_def hs case_prod_conv scanned_def
    using sub s2(2) n2 am b sc scan_count_batch[OF b, of bench]
    by (auto simp: scanned_def)
qed

lemma scan_pairs_scanned:
  assumes "scanned yp bench data edata t a m st" "m \<le> unat last_nonce" "unat last_nonce < 2 ^ 32 - 1"
    and ctx: "yespower_pairs yp" "length edata = 20" "length (cbuf ctx) = 64"
      "mid = sha256_update (sha256_ctx_init ctx) (take 64 (header_bytes edata))"
    and "unat last_nonce - m < 2 * fuel"
  shows "\<exists>k' st' m'. scan_pairs fuel yp ctx bench restart k edata mid t last_nonce st = Some (k', st') \<and>
    scanned yp bench data edata t a m' st' \<and> m' \<le> unat last_nonce \<and>
    ((\<forall>i. \<not> restart i) \<longrightarrow> unat last_nonce \<le> m' + 1)"
  using assms(1,2,8)
proof (induction fuel arbitrary: k m st)
  case 0
  then show ?case by simp
next
  case (Suc fuel)
  have n: "unat (nonce st) = m" using Suc.prems(1) by (simp add: scanned_def)
  have n1: "unat (nonce st + 1) = m + 1"
    using n Suc.prems(2) assms(3) by (simp add: unat_word_ariths)
  have less: "nonce st + 1 < last_nonce \<longleftrightarrow> m + 1 < unat last_nonce"
    using n1 by (simp add: word_less_nat_alt)
  show ?case
  proof (cases "m + 1 < unat last_nonce \<and> \<not> restart k")
    case True
    have "scanned yp bench data edata t a (m + 2) (scan_pair_step yp ctx bench edata mid t st)"
      using True assms(3) by (intro pair_step_scanned[OF Suc.prems(1) _ ctx]) simp
    moreover have "m + 2 \<le> unat last_nonce" "unat last_nonce - (m + 2) < 2 * fuel"
      using conjunct1[OF True] Suc.prems(3) by simp_all
    ultimately show ?thesis
      using Suc.IH[of "m + 2" _ "k + 1"] True by (simp add: less)
  next
    case False
    then show ?thesis
      using Suc.prems(1,2) by (auto simp: less)
  qed
qed


lemma scan_last_scanned:
  fixes restart :: "nat \<Rightarrow> bool" and k :: nat
  assumes sc: "scanned yp bench data edata t a m st" and m: "m \<le> unat last_nonce"
    and l: "length edata = 20" "length (cbuf ctx) = 64"
    and mid: "mid = sha256_update (sha256_ctx_init ctx) (take 64 (header_bytes edata))"
  defines "st' \<equiv> scan_last yp ctx bench restart k edata mid t last_nonce st"
  shows "\<exists>m'. unat (nonce st') = m' \<and> a \<le> m' \<and> m' \<le> unat last_nonce
     \<and> submitted st' = (if bench then [] else hits (impl1 yp) data edata t [a..<m'])
     \<and> stats_total st' + unat (stats_batch st') = (if bench then 0 else m' - a)
     \<and> (\<exists>x. pdata st' = data[19 := x])
     \<and> ((\<forall>i. \<not> restart i) \<longrightarrow> unat last_nonce \<le> m + 1 \<longrightarrow> m' = unat last_nonce)"
proof (cases "nonce st < last_nonce \<and> \<not> restart k")
  case False
  then show ?thesis
    using sc m unfolding st'_def by (auto simp: scan_last_def scanned_def word_less_nat_alt)
next
  case True
  let ?n = "nonce st"
  from sc have n: "unat ?n = m" and am: "a \<le> m" and b: "stats_batch st < 256"
    by (auto simp: scanned_def)
  obtain x where x: "pdata st = data[19 := x]" using sc by (auto simp: scanned_def)
  have ml: "m < unat last_nonce" using True n by (simp add: word_less_nat_alt)
  then have n1: "unat (?n + 1) = m + 1"
    using n unat_u32[of last_nonce] by (simp add: unat_word_ariths)
  have nn: "of_nat m = ?n" using n by force
  have h: "civiclight_powhash_from_midstate yp ctx (header_bytes (edata[19 := ?n])) mid
      = nonce_hash (impl1 yp) edata m"
    using powhash_mid_eq[OF midstate_edata[OF l mid]] l nn by (simp add: nonce_hash_def length_header_bytes)
  let ?s0 = "if \<not> bench then st\<lparr>stats_batch := stats_batch st + 1\<rparr> else st"
  let ?s1 = "scan_submit bench t (nonce_hash (impl1 yp) edata m) ?n ?s0"
  have s1: "submitted ?s1 = submitted st @ (if bench then [] else hits (impl1 yp) data edata t [m])"
    "\<exists>x. pdata ?s1 = data[19 := x]"
    using scan_submit_submitted[of ?s0 data x _ yp edata m ?n bench t] x n by simp_all
  have st': "st' = ?s1\<lparr>nonce := ?n + 1\<rparr>"
    using True by (simp add: st'_def scan_last_def h Let_def)
  have "submitted ?s1 = (if bench then [] else hits (impl1 yp) data edata t [a..<m + 1])"
    using s1(1) sc am by (simp add: scanned_def hits_range del: upt_Suc)
  moreover have "stats_total ?s1 + unat (stats_batch ?s1) = (if bench then 0 else m + 1 - a)"
    using sc am unat_add_small[OF b, of 1] by (auto simp: scanned_def)
  ultimately show ?thesis
    unfolding st' using s1(2) n1 am ml by (intro exI[of _ "m + 1"]) auto
qed

text \<open>The whole scan, with the header words as \<open>bswap\<close> gives them.\<close>

definition scan_edata :: "bool \<Rightarrow> u32 list \<Rightarrow> u32 list" where
  "scan_edata bench data = (let e = map bswap32 (take 20 data) in
     if bench then e[17 := CIVICLIGHT_V2_ACTIVATION_TIME] else e)"


lemma v128_bswap32_80_eq: "20 \<le> length data \<Longrightarrow> v128_bswap32_80 data = map bswap32 (take 20 data)"
proof -
  assume l: "20 \<le> length data"
  have "[0..<20] = concat (map (\<lambda>i. [4 * i, 4 * i + 1, 4 * i + 2, 4 * i + 3]) [0..<5])"
    by (simp add: upt_rec)
  then have "map (\<lambda>j. bswap32 (data ! j)) [0..<20] = v128_bswap32_80 data"
    by (simp add: v128_bswap32_80_def mm_load_si128_def map_concat comp_def)
  moreover have "take 20 data = map ((!) data) [0..<20]"
    using l by (intro nth_equalityI) auto
  ultimately show ?thesis
    by (simp add: comp_def)
qed

lemma scan_edata_code: "20 \<le> length data \<Longrightarrow>
  (if bench then (v128_bswap32_80 data)[17 := CIVICLIGHT_V2_ACTIVATION_TIME] else v128_bswap32_80 data)
   = scan_edata bench data"
  by (simp add: v128_bswap32_80_eq scan_edata_def)

lemma scanhash_unfold:
  assumes "20 \<le> length data"
  shows "scanhash_civiclight fuel yp ctx bench restart data t max_nonce =
    (case scan_pairs fuel yp ctx bench restart 0 (scan_edata bench data)
        (sha256_update (sha256_ctx_init ctx) (take 64 (header_bytes (scan_edata bench data)))) t (max_nonce - 1)
        \<lparr>pdata = data, nonce = data ! 19, stats_batch = 0, stats_total = 0, submitted = []\<rparr> of
       None \<Rightarrow> None
     | Some (k, st) \<Rightarrow> Some
         (ucast (nonce (scan_last yp ctx bench restart k (scan_edata bench data)
            (sha256_update (sha256_ctx_init ctx) (take 64 (header_bytes (scan_edata bench data)))) t (max_nonce - 1) st)
            - data ! 19),
          (\<lambda>st. st\<lparr>pdata := (pdata st)[19 := nonce st]\<rparr>)
           ((\<lambda>st. if \<not> bench \<and> stats_batch st \<noteq> 0
             then civiclight_stats_add_hashes (stats_batch st) st else st)
            (scan_last yp ctx bench restart k (scan_edata bench data)
              (sha256_update (sha256_ctx_init ctx) (take 64 (header_bytes (scan_edata bench data)))) t (max_nonce - 1) st))))"
  unfolding scanhash_civiclight_def Let_def scan_edata_code[OF assms]
  by (simp add: civiclight_stats_add_hashes_def split: option.split)

lemma scanhash_covers:
  assumes "\<And>a b. length a = 32 \<Longrightarrow> length b = 32 \<Longrightarrow> impl2 yp a b = (impl1 yp a, impl1 yp b)"
    and "20 \<le> length data" "length (cbuf ctx) = 64"
    and "max_nonce \<noteq> 0" "data ! 19 \<le> max_nonce - 1" "unat max_nonce - unat (data ! 19) \<le> 2 * fuel"
  defines "first \<equiv> unat (data ! 19)" and "stop \<equiv> unat (max_nonce - 1)"
  shows "\<exists>hashes_done st m. scanhash_civiclight fuel yp ctx bench restart data t max_nonce = Some (hashes_done, st)
    \<and> first \<le> m \<and> m \<le> stop \<and> ((\<forall>k. \<not> restart k) \<longrightarrow> m = stop)
    \<and> submitted st = (if bench then [] else hits (impl1 yp) data (scan_edata bench data) t [first..<m])
    \<and> unat hashes_done = m - first \<and> stats_total st = (if bench then 0 else m - first)
    \<and> pdata st = data[19 := of_nat m]"
proof -
  let ?e = "scan_edata bench data" and ?last = "max_nonce - 1"
  define mid where "mid = sha256_update (sha256_ctx_init ctx) (take 64 (header_bytes ?e))"
  let ?st = "\<lparr>pdata = data, nonce = data ! 19, stats_batch = 0, stats_total = 0, submitted = []\<rparr>"
  have yp: "yespower_pairs yp" using assms(1) by (simp add: yespower_pairs_def)
  have le: "length ?e = 20" using assms(2) by (simp add: scan_edata_def Let_def)
  have un: "unat ?last = unat max_nonce - 1" using assms(4) by (simp add: unat_minus_one)
  have init: "scanned yp bench data ?e t first first ?st"
    using assms(2) by (auto simp: scanned_def first_def hits_def intro!: exI[of _ "data ! 19"])
  have fl: "first \<le> unat ?last" using assms(5) by (simp add: first_def word_le_nat_alt)
  have pos: "0 < unat max_nonce" using assms(4) by (simp add: unat_gt_0)
  have "unat ?last < 2 ^ 32 - 1" "unat ?last - first < 2 * fuel"
    using un pos assms(6)[folded first_def] unat_u32[of max_nonce] fl by linarith+
  then obtain k' st' m' where p: "scan_pairs fuel yp ctx bench restart 0 ?e mid t ?last ?st = Some (k', st')"
    "scanned yp bench data ?e t first m' st'" "m' \<le> unat ?last"
    "(\<forall>i. \<not> restart i) \<longrightarrow> unat ?last \<le> m' + 1"
    using scan_pairs_scanned[OF init fl _ yp le assms(3) mid_def, of fuel restart 0] by blast
  define l where "l = scan_last yp ctx bench restart k' ?e mid t ?last st'"
  obtain m x where m: "unat (nonce l) = m" "first \<le> m" "m \<le> unat ?last"
    "submitted l = (if bench then [] else hits (impl1 yp) data ?e t [first..<m])"
    "stats_total l + unat (stats_batch l) = (if bench then 0 else m - first)"
    "pdata l = data[19 := x]" "(\<forall>i. \<not> restart i) \<longrightarrow> m = unat ?last"
    using scan_last_scanned[OF p(2,3) le assms(3) mid_def, of restart k'] p(4) l_def by blast
  have nm: "nonce l = of_nat m" using m(1) by force
  have "unat (nonce l - data ! 19) = m - first"
    using m(1,2) by (simp add: first_def unat_sub word_le_nat_alt)
  moreover have "scanhash_civiclight fuel yp ctx bench restart data t max_nonce =
     Some (ucast (nonce l - data ! 19),
       (if \<not> bench \<and> stats_batch l \<noteq> 0 then civiclight_stats_add_hashes (stats_batch l) l else l)
         \<lparr>pdata := data[19 := of_nat m]\<rparr>)"
    unfolding scanhash_unfold[OF assms(2)] mid_def[symmetric] p(1) option.case prod.case l_def[symmetric]
    using nm m(6) by (simp add: civiclight_stats_add_hashes_def)
  moreover have "unat (ucast (nonce l - data ! 19) :: u64) = unat (nonce l - data ! 19)"
    using unat_u32[of "nonce l - data ! 19"] by (simp add: unsigned_ucast_eq take_bit_nat_eq_self)
  ultimately show ?thesis
    using m stop_def by (cases "stats_batch l = 0") (auto simp: civiclight_stats_add_hashes_def)
qed

lemma scanhash_empty:
  assumes "20 \<le> length data" "max_nonce - 1 \<le> data ! 19" "data ! 19 \<noteq> - 1" "0 < fuel"
  shows "scanhash_civiclight fuel yp ctx bench restart data t max_nonce
    = Some (0, \<lparr>pdata = data, nonce = data ! 19, stats_batch = 0, stats_total = 0, submitted = []\<rparr>)"
proof -
  have "unat (data ! 19) \<noteq> 2 ^ 32 - 1"
    using assms(3) word_unat_eq_iff[of "data ! 19" "- 1"] by (simp add: unsigned_minus_1_eq_mask mask_eq_exp_minus_1)
  then have "unat (data ! 19 + 1) = unat (data ! 19) + 1"
    using unat_u32[of "data ! 19"] by (simp add: unat_word_ariths)
  then have "\<not> data ! 19 + 1 < max_nonce - 1" "\<not> data ! 19 < max_nonce - 1"
    using assms(2) by (simp_all add: word_less_nat_alt word_le_nat_alt)
  moreover obtain f where "fuel = Suc f" using assms(4) by (cases fuel) auto
  ultimately show ?thesis
    by (simp add: scanhash_civiclight_def scan_last_def Let_def)
qed

text \<open>C1: a scan from the header's nonce to \<open>max_nonce - 1\<close> (not including it) returns.  It
  hashes a prefix of that range, each nonce once and in order, all of it unless the restart flag
  is seen; it submits exactly the nonces of the prefix whose hash meets the target, with the
  header carrying the nonce byte-swapped; \<open>*hashes_done\<close> and the statistics count the
  prefix, the header is left with the first nonce not done, and a benchmark submits and counts
  nothing.\<close>

theorem scanhash_civiclight_covers:
  assumes "\<And>a b. length a = 32 \<Longrightarrow> length b = 32 \<Longrightarrow> impl2 yp a b = (impl1 yp a, impl1 yp b)"
    and "20 \<le> length data" "length (cbuf ctx) = 64"
    and "max_nonce \<noteq> 0" "data ! 19 \<le> max_nonce - 1" "unat max_nonce - unat (data ! 19) \<le> 2 * fuel"
  defines "first \<equiv> unat (data ! 19)" and "stop \<equiv> unat (max_nonce - 1)"
  shows "\<exists>hashes_done st m. scanhash_civiclight fuel yp ctx bench restart data t max_nonce = Some (hashes_done, st)
    \<and> first \<le> m \<and> m \<le> stop \<and> ((\<forall>k. \<not> restart k) \<longrightarrow> m = stop)
    \<and> submitted st = (if bench then [] else hits (impl1 yp) data (scan_edata bench data) t [first..<m])
    \<and> unat hashes_done = m - first \<and> stats_total st = (if bench then 0 else m - first)
    \<and> pdata st = data[19 := of_nat m]"
  unfolding first_def stop_def by (rule scanhash_covers[OF assms(1-6)])

theorem scanhash_civiclight_covers_witness:
  "let yp = \<lparr>impl1 = rev, impl2 = \<lambda>a b. (rev a, rev b)\<rparr>; t = replicate 32 0xff;
       ctx = \<lparr>cbuf = replicate 64 0, cstate = [], ccount = 0\<rparr>; data = replicate 48 0
   in \<exists>hashes_done st. scanhash_civiclight 2 yp ctx False (\<lambda>_. False) data t 4 = Some (hashes_done, st)
     \<and> submitted st = hits rev data (scan_edata False data) t [0..<3] \<and> unat hashes_done = 3
     \<and> stats_total st = 3 \<and> pdata st = data[19 := 3]"
  unfolding Let_def
  using scanhash_civiclight_covers[of "\<lparr>impl1 = rev, impl2 = \<lambda>a b. (rev a, rev b)\<rparr>" "replicate 48 0"
      "\<lparr>cbuf = replicate 64 0, cstate = [], ccount = 0\<rparr>" 4 2 False "\<lambda>_. False" "replicate 32 0xff"]
  by (simp del: upt_Suc)

end
