(* ===== verification/Soj_Miner.thy ===== *)
theory Soj_Miner
  imports Soj_Work Soj_Civiclight
begin

text \<open>Where work comes from and where it goes, from \<open>soj.c\<close>: \<open>stratum_gen_work\<close>
  turns the session's job into the shared work, a mining thread takes it and scans its own
  nonces.  Locks make \<open>stratum_gen_work\<close> and the taking of work atomic; here each is one
  function on the state.  Doubles are rationals with the rounding of each operation as a parameter, as in
  \<open>Soj_Target\<close>.\<close>

section \<open>The shared state\<close>

record work_stats =
  net_diff :: "rat option"
  stratum_diff :: rat
  last_block_height :: int
  session_first_block :: int
  last_targetdiff :: rat
  lowest_share :: rat
  global_hashrate :: rat

record miner =
  m_heap :: block_heap
  m_stratum :: stratum_ctx
  m_g_work :: work
  m_restart :: "bool list"
  m_reauth_epoch :: u64
  m_stats :: work_stats

definition restart_threads :: "miner \<Rightarrow> miner" where
  "restart_threads m = m\<lparr>m_restart := map (\<lambda>_. True) (m_restart m)\<rparr>"

section \<open>Generating work\<close>

text \<open>\<open>for (t = 0; t < size && !(++xnonce2[t]); t++);\<close>\<close>

fun incr_bytes :: "bytes \<Rightarrow> bytes" where
  "incr_bytes [] = []"
| "incr_bytes (b # bs) = (if b + 1 = 0 then 0 # incr_bytes bs else (b + 1) # bs)"

definition incr_xnonce2 :: "stratum_ctx \<Rightarrow> stratum_ctx" where
  "incr_xnonce2 s =
    (let job = s_job s; x = seg (j_xnonce2 job) (s_xnonce2_size s) (j_coinbase job)
     in s\<lparr>s_job := job\<lparr>j_coinbase := put_at (j_xnonce2 job) (incr_bytes x) (j_coinbase job)\<rparr>\<rparr>)"

definition update_estimates :: "stratum_ctx \<Rightarrow> work \<Rightarrow> work_stats \<Rightarrow> work_stats" where
  "update_estimates s g_work e =
    (if stratum_diff e \<noteq> j_diff (s_job s) \<or> last_block_height e \<noteq> s_block_height s then
       let e = (if session_first_block e = 0 then e\<lparr>session_first_block := s_block_height s\<rparr> else e);
           e = e\<lparr>last_block_height := s_block_height s, stratum_diff := j_diff (s_job s),
                 last_targetdiff := w_targetdiff g_work\<rparr>
       in if lowest_share e < last_targetdiff e then e\<lparr>lowest_share := 9 * 10 ^ 99\<rparr> else e
     else e)"

text \<open>The job id and the extranonce are replaced in the shared work: \<open>free\<close> with
  \<open>strdup\<close>, and \<open>realloc\<close> with \<open>memcpy\<close> over the whole block.\<close>

definition replace_block :: "block_heap \<Rightarrow> ptr \<Rightarrow> bytes \<Rightarrow> (ptr \<times> block_heap) option" where
  "replace_block h p b = do { h \<leftarrow> free_field h p; Some (halloc h b) }"

text \<open>The extranonce is read through a pointer into the coinbase; reading past its end is
  undefined.\<close>

definition job_xnonce2 :: "stratum_ctx \<Rightarrow> bytes option" where
  "job_xnonce2 s =
    (if j_xnonce2 (s_job s) + s_xnonce2_size s \<le> length (j_coinbase (s_job s))
     then Some (seg (j_xnonce2 (s_job s)) (s_xnonce2_size s) (j_coinbase (s_job s))) else None)"

definition stratum_gen_work ::
  "algo_gate_t \<Rightarrow> bool \<Rightarrow> (rat \<Rightarrow> rat) \<Rightarrow> (rat \<Rightarrow> rat) \<Rightarrow> rat \<Rightarrow> rat \<Rightarrow> rat list \<Rightarrow> sha256_context \<Rightarrow> miner \<Rightarrow> miner option" where
  "stratum_gen_work gate have_stratum rl rd opt_target_factor opt_diff_factor thr_hashrates ctx m = do {
     let sctx = m_stratum m;
     let new_job = s_new_job sctx;
     let sctx = sctx\<lparr>s_new_job := False\<rparr>;
     let g_work = m_g_work m;
     s \<leftarrow> j_job_id (s_job sctx);
     x \<leftarrow> job_xnonce2 sctx;
     (p, h) \<leftarrow> replace_block (m_heap m) (w_job_id g_work) (s @ [0]);
     let g_work = g_work\<lparr>w_job_id := p, w_xnonce2_len := s_xnonce2_size sctx\<rparr>;
     (q, h) \<leftarrow> replace_block h (w_xnonce2 g_work) x;
     let g_work = g_work\<lparr>w_xnonce2 := q, w_height := s_block_height sctx,
       w_targetdiff := rd (j_diff (s_job sctx) / rd (opt_target_factor * opt_diff_factor)),
       w_reauth_epoch := m_reauth_epoch m\<rparr>;
     let g_work = g_work\<lparr>w_data := std_build_extraheader gate have_stratum ctx (w_data g_work) sctx\<rparr>;
     let g_work = g_work\<lparr>w_target := diff_to_hash rl rd (w_targetdiff g_work)\<rparr>;
     let stats = (m_stats m)\<lparr>net_diff := nbits_to_diff rl rd (w_data g_work ! nbits_index gate)\<rparr>;
     let m = m\<lparr>m_heap := h, m_g_work := g_work, m_stats := stats\<rparr>;
     let m = (if new_job then restart_threads m else m);
     let sctx = incr_xnonce2 sctx;
     let stats = stats\<lparr>global_hashrate := foldl (\<lambda>a r. rd (a + r)) 0 thr_hashrates\<rparr>;
     Some (m\<lparr>m_stratum := sctx, m_stats := update_estimates sctx g_work stats\<rparr>) }"

section \<open>A mining thread\<close>

text \<open>\<open>max64\<close> is the number of hashes the scan time allows, from the measured rate.\<close>

definition select_max_nonce :: "int \<Rightarrow> u32 \<Rightarrow> u32 \<Rightarrow> u32" where
  "select_max_nonce max64 work_nonce end_nonce =
    (let max64 = (if max64 \<le> 0 then 1000 else max64)
     in if uint work_nonce + max64 > uint end_nonce then end_nonce else work_nonce + word_of_int max64)"

text \<open>\<open>initial_end_nonce\<close> is what \<open>end_nonce\<close> holds before work is taken.\<close>

definition initial_end_nonce :: "nat \<Rightarrow> nat \<Rightarrow> u32" where
  "initial_end_nonce n_threads thr_id = 0xffffffff div of_nat n_threads * (of_nat thr_id + 1) - of_nat n_threads"

text \<open>One round of the thread's loop with stratum connected: when the range is exhausted and no restart is asked,
  more work is generated (with extranonce subscribed), else the thread waits for a restart, here
  \<open>None\<close>.\<close>

definition exhausted :: "algo_gate_t \<Rightarrow> work \<Rightarrow> u32 \<Rightarrow> bool \<Rightarrow> bool" where
  "exhausted gate work end_nonce restart \<longleftrightarrow> w_data work ! nonce_index gate \<ge> end_nonce \<and> \<not> restart"

section \<open>The header of a job\<close>

definition stratum_header :: "stratum_job \<Rightarrow> u32 \<Rightarrow> bytes" where
  "stratum_header job n =
    rev (j_version job) @ concat (map (\<lambda>i. rev (seg (4 * i) 4 (j_prevhash job))) [0..<8])
     @ merkle_root_spec (j_coinbase job) (j_merkle job) @ rev (j_ntime job) @ rev (j_nbits job) @ le32enc n"

definition job_ok :: "stratum_ctx \<Rightarrow> bool" where
  "job_ok s \<longleftrightarrow> (let job = s_job s in length (j_version job) = 4 \<and> length (j_prevhash job) = 32
     \<and> length (j_ntime job) = 4 \<and> length (j_nbits job) = 4 \<and> (\<forall>b \<in> set (j_merkle job). length b = 32)
     \<and> j_xnonce2 job + s_xnonce2_size s \<le> length (j_coinbase job)
     \<and> (\<exists>id. j_job_id job = Some id \<and> 0 \<notin> set id))"

lemma le32enc_bswap_le32dec: "length b = 4 \<Longrightarrow> le32enc (bswap32 (le32dec b)) = rev b"
  by (metis bswap32_rev le32.enc_dec le32enc_rev rev_rev_ident)

lemma le32enc_bswap_be32dec: "length b = 4 \<Longrightarrow> le32enc (bswap32 (be32dec b)) = b"
  by (metis be32.enc_dec bswap32_rev le32enc_rev rev_rev_ident)

lemma le32enc_bswap: "le32enc (bswap32 w) = be32enc w"
  by (metis bswap32_rev le32enc_rev rev_rev_ident)

lemma seg_blocks: "length p = 32 \<Longrightarrow> concat (map (\<lambda>i. seg (4 * i) 4 p) [0..<8]) = p"
  using seg_join[of 0 4 p 4] seg_join[of 0 8 p 4] seg_join[of 0 12 p 4] seg_join[of 0 16 p 4]
    seg_join[of 0 20 p 4] seg_join[of 0 24 p 4] seg_join[of 0 28 p 4] seg_all[of p 32]
  by (simp add: upt_rec flip: append_assoc)

lemma fold_update_length [simp]: "length (fold (\<lambda>i d. d[f i := x i]) is d) = length d"
  by (induction "is" arbitrary: d) auto

lemma merkle_root_spec_length: "length (merkle_root_spec c bs) = 32"
  unfolding merkle_root_spec_def by (induction bs rule: rev_induct) auto

lemma build_block_header_length: "length (std_build_block_header g hs d v p r t b) = length d"
  by (simp add: std_build_block_header_def Let_def)

lemma scan_header:
  assumes "job_ok s" "civiclight_gate gate" "length d = 48" "length (cbuf ctx) = 64"
  shows "header_bytes ((scan_edata False (std_build_extraheader gate True ctx d s))[19 := n])
    = stratum_header (s_job s) n"
proof -
  let ?job = "s_job s"
  let ?r = "sha256d_gen_merkle_root ctx (replicate 64 0) s"
  let ?d = "std_build_extraheader gate True ctx d s"
  have mr: "take 32 ?r = merkle_root_spec (j_coinbase ?job) (j_merkle ?job)"
    using assms by (intro merkle_root_eq) (auto simp: job_ok_def Let_def)
  have sr: "seg (4 * i) 4 ?r = seg (4 * i) 4 (take 32 ?r)" if "i < 8" for i
    using that by (simp add: seg_def drop_take min_def)
  have len: "length (take 32 ?r) = 32"
    unfolding mr by (rule merkle_root_spec_length)
  let ?ws = "le32dec (j_version ?job) # map (\<lambda>i. le32dec (seg (4 * i) 4 (j_prevhash ?job))) [0..<8]
    @ map (\<lambda>i. be32dec (seg (4 * i) 4 ?r)) [0..<8] @ [le32dec (j_ntime ?job), le32dec (j_nbits ?job)]"
  have "take 20 ?d = ?ws @ [0]"
    using header_words[OF assms(2,3)] by (simp add: std_build_extraheader_def)
  then have e: "(scan_edata False ?d)[19 := n] = map bswap32 ?ws @ [n]"
    by (simp only: scan_edata_def Let_def if_False map_append list_update_append) simp
  have a: "map (\<lambda>i. le32enc (bswap32 (le32dec (seg (4 * i) 4 (j_prevhash ?job))))) [0..<8]
      = map (\<lambda>i. rev (seg (4 * i) 4 (j_prevhash ?job))) [0..<8]"
    using assms(1) by (auto simp: job_ok_def Let_def le32enc_bswap_le32dec length_seg)
  have b: "map (\<lambda>i. le32enc (bswap32 (be32dec (seg (4 * i) 4 ?r)))) [0..<8]
      = map (\<lambda>i. seg (4 * i) 4 (take 32 ?r)) [0..<8]"
    using len by (auto simp: le32enc_bswap_be32dec length_seg sr)
  have "header_bytes (map bswap32 ?ws @ [n]) = rev (j_version ?job)
      @ concat (map (\<lambda>i. le32enc (bswap32 (le32dec (seg (4 * i) 4 (j_prevhash ?job))))) [0..<8])
      @ concat (map (\<lambda>i. le32enc (bswap32 (be32dec (seg (4 * i) 4 ?r)))) [0..<8])
      @ rev (j_ntime ?job) @ rev (j_nbits ?job) @ le32enc n"
    using assms(1)
    by (simp add: header_bytes_def comp_def job_ok_def Let_def le32enc_bswap_le32dec del: upt_Suc)
  then show ?thesis
    unfolding e a b using mr seg_blocks[OF len] by (simp add: stratum_header_def)
qed

section \<open>Generated work is one job's work\<close>

lemma replace_block_ok:
  assumes "wf_heap h" "p \<noteq> 0 \<Longrightarrow> hmem h p \<noteq> None"
  shows "replace_block h p b = Some (hnext h, \<lparr>hmem = (hmem h)(p := None, hnext h \<mapsto> b), hnext = hnext h + 1\<rparr>)"
    and "wf_heap \<lparr>hmem = (hmem h)(p := None, hnext h \<mapsto> b), hnext = hnext h + 1\<rparr>"
proof -
  have "hmem h 0 = None" using assms(1) by (auto simp: wf_heap_def)
  then show "replace_block h p b = Some (hnext h, \<lparr>hmem = (hmem h)(p := None, hnext h \<mapsto> b), hnext = hnext h + 1\<rparr>)"
    using assms(2) by (cases "p = 0") (auto simp: replace_block_def free_field_def hfree_def halloc_def fun_upd_idem)
  show "wf_heap \<lparr>hmem = (hmem h)(p := None, hnext h \<mapsto> b), hnext = hnext h + 1\<rparr>"
    using assms(1) by (auto simp: wf_heap_def less_Suc_eq split: if_splits)
qed

text \<open>What the shared work holds after \<open>stratum_gen_work\<close>, for the job it was made from.\<close>

definition work_of :: "algo_gate_t \<Rightarrow> block_heap \<Rightarrow> work \<Rightarrow> stratum_ctx \<Rightarrow> bool" where
  "work_of gate h w s \<longleftrightarrow> owned h w \<and> hstring h (w_job_id w) = j_job_id (s_job s)
     \<and> xnonce2_at h w = Some (seg (j_xnonce2 (s_job s)) (s_xnonce2_size s) (j_coinbase (s_job s)))
     \<and> w_height w = s_block_height s \<and> length (w_data w) = 48
     \<and> (\<forall>n. header_bytes ((scan_edata False (w_data w))[19 := n]) = stratum_header (s_job s) n)"

lemma distinct_ptrs:
  fixes a b c d n :: ptr
  assumes "distinct (filter (\<lambda>p. p \<noteq> 0) [a, b, c, d])" "a = 0 \<or> a < n" "b = 0 \<or> b < n"
  shows "distinct (filter (\<lambda>p. p \<noteq> 0) [a, b, n, n + 1])"
  using assms by (auto split: if_splits)

lemma distinct_ptrs_first:
  fixes a b c d p :: ptr
  assumes "distinct (filter (\<lambda>p. p \<noteq> 0) [a, b, c, d])" "p = a \<or> p = b"
  shows "p = 0 \<or> p \<noteq> c \<and> p \<noteq> d"
  using assms by (auto split: if_splits)

lemma build_extraheader_fields:
  assumes "length d = 48" "civiclight_gate gate"
  shows "length (std_build_extraheader gate True ctx d s) = 48"
  using assms by (simp add: std_build_extraheader_def build_block_header_length)

lemma stratum_gen_work_ok:
  assumes wf: "wf_heap (m_heap m)" and own: "owned (m_heap m) (m_g_work m)" and job: "job_ok (m_stratum m)"
    and g: "civiclight_gate gate" and d: "length (w_data (m_g_work m)) = 48" "length (cbuf ctx) = 64"
  obtains m' where "stratum_gen_work gate True rl rd tf df rates ctx m = Some m'"
    "wf_heap (m_heap m')" "work_of gate (m_heap m') (m_g_work m') (m_stratum m)"
    "m_stratum m' = incr_xnonce2 ((m_stratum m)\<lparr>s_new_job := False\<rparr>)"
    "m_restart m' = (if s_new_job (m_stratum m) then map (\<lambda>_. True) (m_restart m) else m_restart m)"
    "w_target (m_g_work m') = diff_to_hash rl rd (rd (j_diff (s_job (m_stratum m)) / rd (tf * df)))"
    "w_reauth_epoch (m_g_work m') = m_reauth_epoch m"
proof -
  let ?s = "m_stratum m" and ?w = "m_g_work m" and ?h = "m_heap m"
  obtain i where i: "j_job_id (s_job ?s) = Some i" "0 \<notin> set i" using job by (auto simp: job_ok_def Let_def)
  let ?x = "seg (j_xnonce2 (s_job ?s)) (s_xnonce2_size ?s) (j_coinbase (s_job ?s))"
  have jx: "job_xnonce2 (?s\<lparr>s_new_job := False\<rparr>) = Some ?x"
    using job by (simp add: job_xnonce2_def job_ok_def Let_def)
  have lx: "length ?x = s_xnonce2_size ?s" using job by (auto simp: job_ok_def Let_def length_seg)
  note ow = own[unfolded owned_def]
  have mem: "p \<noteq> 0 \<Longrightarrow> hmem ?h p \<noteq> None" if "p = w_job_id ?w \<or> p = w_xnonce2 ?w" for p
    using owned_mem[OF own, of p] that unfolding ptrs_def set_filter by auto
  define h1 where "h1 = \<lparr>hmem = (hmem ?h)(w_job_id ?w := None, hnext ?h \<mapsto> i @ [0]), hnext = hnext ?h + 1\<rparr>"
  have 1: "replace_block ?h (w_job_id ?w) (i @ [0]) = Some (hnext ?h, h1)" "wf_heap h1"
    using replace_block_ok[OF wf mem] by (simp_all add: h1_def)
  have new: "p < hnext ?h \<and> p \<noteq> 0" if "hmem ?h p \<noteq> None" for p
    using wf that by (auto simp: wf_heap_def)
  have dist: "w_xnonce2 ?w \<noteq> 0 \<Longrightarrow> w_xnonce2 ?w \<noteq> w_job_id ?w"
    using ow unfolding ptrs_def by (auto split: if_splits)
  have m2: "w_xnonce2 ?w \<noteq> 0 \<Longrightarrow> hmem h1 (w_xnonce2 ?w) \<noteq> None"
    using mem[of "w_xnonce2 ?w"] dist by (simp add: h1_def)
  define h2 where "h2 = \<lparr>hmem = (hmem h1)(w_xnonce2 ?w := None, hnext h1 \<mapsto> ?x), hnext = hnext h1 + 1\<rparr>"
  have 2: "replace_block h1 (w_xnonce2 ?w) ?x = Some (hnext h1, h2)" "wf_heap h2"
    using replace_block_ok[OF 1(2) m2] by (simp_all add: h2_def)
  have keep: "hmem h2 p = hmem ?h p" if "hmem ?h p \<noteq> None" "p \<noteq> w_job_id ?w" "p \<noteq> w_xnonce2 ?w" for p
    using that new[OF that(1)] by (simp add: h1_def h2_def)
  have h1n: "hnext h1 = hnext ?h + 1" by (simp add: h1_def)
  define w' where "w' = ?w\<lparr>w_job_id := hnext ?h, w_xnonce2_len := s_xnonce2_size ?s, w_xnonce2 := hnext h1,
    w_height := s_block_height ?s, w_targetdiff := rd (j_diff (s_job ?s) / rd (tf * df)),
    w_reauth_epoch := m_reauth_epoch m,
    w_data := std_build_extraheader gate True ctx (w_data ?w) (?s\<lparr>s_new_job := False\<rparr>),
    w_target := diff_to_hash rl rd (rd (j_diff (s_job ?s) / rd (tf * df)))\<rparr>"
  have other: "string_or_null h2 p" if "string_or_null ?h p" "p = 0 \<or> p \<noteq> w_job_id ?w \<and> p \<noteq> w_xnonce2 ?w" for p
    using that keep[of p] string_or_null_mem[OF that(1)] by (auto simp: string_or_null_def hstring_def)
  note dp = ow[THEN conjunct2, THEN conjunct2, THEN conjunct2, THEN conjunct2, THEN conjunct1, unfolded ptrs_def]
  have tw: "p = 0 \<or> p \<noteq> w_job_id ?w \<and> p \<noteq> w_xnonce2 ?w" "p = 0 \<or> p < hnext ?h"
    if "p = w_txs ?w \<or> p = w_workid ?w" for p
  proof -
    show "p = 0 \<or> p \<noteq> w_job_id ?w \<and> p \<noteq> w_xnonce2 ?w"
      using distinct_ptrs_first[OF dp that] .
    have "string_or_null ?h p" using that ow by blast
    then show "p = 0 \<or> p < hnext ?h" using string_or_null_mem new by blast
  qed
  have nx: "w_xnonce2 ?w \<noteq> hnext ?h"
    using wf new[of "w_xnonce2 ?w"] mem[of "w_xnonce2 ?w"] unfolding wf_heap_def by (metis less_irrefl)
  have id: "hstring h2 (hnext ?h) = Some i"
    using i(2) wf nx
    by (auto simp: h1_def h2_def hstring_def cstring_at_def takeWhile_append wf_heap_def)
  have xn: "xnonce2_at h2 w' = Some ?x"
    using lx by (simp add: xnonce2_at_def w'_def h2_def)
  have pw: "ptrs w' = filter (\<lambda>p. p \<noteq> 0) [w_txs ?w, w_workid ?w, hnext ?h, hnext ?h + 1]"
    by (simp add: ptrs_def w'_def h1n)
  have "owned h2 w'"
    unfolding owned_def
  proof (intro conjI)
    show "string_or_null h2 (w_txs w')" "string_or_null h2 (w_workid w')"
      using other tw(1) ow by (auto simp: w'_def)
    show "string_or_null h2 (w_job_id w')" using id by (simp add: string_or_null_def w'_def)
    show "distinct (ptrs w')"
      unfolding pw by (rule distinct_ptrs[OF dp tw(2)[of "w_txs ?w"] tw(2)[of "w_workid ?w"]]) simp_all
  qed (use xn ow in \<open>simp_all add: w'_def\<close>)
  moreover have "header_bytes ((scan_edata False (w_data w'))[19 := n]) = stratum_header (s_job ?s) n" for n
    using scan_header[of "?s\<lparr>s_new_job := False\<rparr>" gate "w_data ?w" ctx n] job g d
    by (simp add: w'_def job_ok_def)
  ultimately have wo: "work_of gate h2 w' ?s"
    using id i xn build_extraheader_fields[OF d(1) g] by (simp add: work_of_def w'_def)
  show ?thesis
  proof (rule that)
    show "stratum_gen_work gate True rl rd tf df rates ctx m = Some (the (stratum_gen_work gate True rl rd tf df rates ctx m))"
      using i 1 2 jx by (simp add: stratum_gen_work_def Let_def)
    show "wf_heap (m_heap (the (stratum_gen_work gate True rl rd tf df rates ctx m)))"
      "work_of gate (m_heap (the (stratum_gen_work gate True rl rd tf df rates ctx m)))
        (m_g_work (the (stratum_gen_work gate True rl rd tf df rates ctx m))) ?s"
      using i 1 2 wo jx by (simp_all add: stratum_gen_work_def Let_def restart_threads_def w'_def)
  qed (use i 1 2 jx in \<open>simp_all add: stratum_gen_work_def Let_def restart_threads_def\<close>)
qed

text \<open>What holds before and after \<open>stratum_gen_work\<close>.\<close>

definition miner_ok :: "miner \<Rightarrow> bool" where
  "miner_ok m \<longleftrightarrow> wf_heap (m_heap m) \<and> owned (m_heap m) (m_g_work m) \<and> job_ok (m_stratum m)
     \<and> length (w_data (m_g_work m)) = 48"

lemma incr_bytes_length [simp]: "length (incr_bytes bs) = length bs"
  by (induction bs) auto

lemma le_nat_incr: "le_nat (incr_bytes bs) = (le_nat bs + 1) mod 256 ^ length bs"
proof (induction bs)
  case (Cons b bs)
  have lt: "le_nat bs < 256 ^ length bs" by (rule le_nat_less)
  have max: "c = - 1 \<longleftrightarrow> unat c = 255" for c :: u8
    by (simp add: word_unat_eq_iff unsigned_minus_1_eq_mask mask_eq_exp_minus_1)
  show ?case
  proof (cases "b + 1 = 0")
    case True
    then have b: "unat b = 255" using max[of b] by (simp add: eq_neg_iff_add_eq_0)
    then show ?thesis
      using True Cons.IH by (simp add: mult_mod_right algebra_simps)
  next
    case False
    then have "unat b \<noteq> 255" using max[of b] by (simp add: eq_neg_iff_add_eq_0)
    moreover have "unat b < 256" using unsigned_less[of b] by simp
    ultimately have "unat (b + 1) = unat b + 1" "unat b + 1 < 256"
      by (simp_all add: unat_word_ariths)
    then show ?thesis using False lt by simp
  qed
qed simp

lemma job_ok_incr: "job_ok s \<Longrightarrow> job_ok (incr_xnonce2 (s\<lparr>s_new_job := False\<rparr>))"
  by (auto simp: job_ok_def incr_xnonce2_def Let_def length_put_at length_seg)

lemma incr_xnonce2_value:
  assumes "job_ok s"
  defines "s' \<equiv> incr_xnonce2 (s\<lparr>s_new_job := False\<rparr>)"
  shows "seg (j_xnonce2 (s_job s')) (s_xnonce2_size s') (j_coinbase (s_job s'))
     = incr_bytes (seg (j_xnonce2 (s_job s)) (s_xnonce2_size s) (j_coinbase (s_job s)))"
  and "s_xnonce2_size s' = s_xnonce2_size s"
proof -
  let ?x = "seg (j_xnonce2 (s_job s)) (s_xnonce2_size s) (j_coinbase (s_job s))"
  have "length ?x = s_xnonce2_size s" "j_xnonce2 (s_job s) + length (incr_bytes ?x) \<le> length (j_coinbase (s_job s))"
    using assms(1) by (auto simp: job_ok_def Let_def length_seg)
  then show "seg (j_xnonce2 (s_job s')) (s_xnonce2_size s') (j_coinbase (s_job s')) = incr_bytes ?x"
    using seg_put_at_same[of "j_xnonce2 (s_job s)" "incr_bytes ?x" "j_coinbase (s_job s)"]
    by (simp add: s'_def incr_xnonce2_def Let_def)
qed (simp add: s'_def incr_xnonce2_def Let_def)

lemma gen_work_ok:
  assumes "miner_ok m" "civiclight_gate gate" "length (cbuf ctx) = 64"
  obtains m' where "stratum_gen_work gate True rl rd tf df rates ctx m = Some m'" "miner_ok m'"
    "work_of gate (m_heap m') (m_g_work m') (m_stratum m)"
    "m_stratum m' = incr_xnonce2 ((m_stratum m)\<lparr>s_new_job := False\<rparr>)"
    "m_restart m' = (if s_new_job (m_stratum m) then map (\<lambda>_. True) (m_restart m) else m_restart m)"
    "w_target (m_g_work m') = diff_to_hash rl rd (rd (j_diff (s_job (m_stratum m)) / rd (tf * df)))"
    "w_reauth_epoch (m_g_work m') = m_reauth_epoch m"
proof -
  note ok = assms(1)[unfolded miner_ok_def]
  obtain m' where m': "stratum_gen_work gate True rl rd tf df rates ctx m = Some m'"
    "wf_heap (m_heap m')" "work_of gate (m_heap m') (m_g_work m') (m_stratum m)"
    "m_stratum m' = incr_xnonce2 ((m_stratum m)\<lparr>s_new_job := False\<rparr>)"
    "m_restart m' = (if s_new_job (m_stratum m) then map (\<lambda>_. True) (m_restart m) else m_restart m)"
    "w_target (m_g_work m') = diff_to_hash rl rd (rd (j_diff (s_job (m_stratum m)) / rd (tf * df)))"
    "w_reauth_epoch (m_g_work m') = m_reauth_epoch m"
    using stratum_gen_work_ok[of m gate ctx rl rd tf df rates] ok assms by metis
  have "miner_ok m'"
    using m'(2,3) job_ok_incr ok by (simp add: miner_ok_def work_of_def m'(4))
  then show ?thesis using that m' by blast
qed


section \<open>Properties of generated work\<close>

text \<open>C9: \<open>stratum_gen_work\<close> makes the shared work one consistent unit: the job id and
  extranonce it owns are the session's, the header a scan of it hashes is version, previous hash, merkle root of the coinbase with
  just that extranonce, time, bits and nonce of the job, each in header byte order; its target is that of
  the job's difficulty and its epoch the current one; the threads are restarted exactly when the job is new; and
  what it assumes of the state holds again.\<close>

theorem stratum_gen_work_consistent:
  assumes "miner_ok m" "civiclight_gate gate" "length (cbuf ctx) = 64"
  shows "\<exists>m'. stratum_gen_work gate True rl rd tf df rates ctx m = Some m' \<and> miner_ok m'
    \<and> hstring (m_heap m') (w_job_id (m_g_work m')) = j_job_id (s_job (m_stratum m))
    \<and> xnonce2_at (m_heap m') (m_g_work m') = Some (seg (j_xnonce2 (s_job (m_stratum m)))
          (s_xnonce2_size (m_stratum m)) (j_coinbase (s_job (m_stratum m))))
    \<and> (\<forall>n. header_bytes ((scan_edata False (w_data (m_g_work m')))[19 := n]) = stratum_header (s_job (m_stratum m)) n)
    \<and> w_target (m_g_work m') = diff_to_hash rl rd (rd (j_diff (s_job (m_stratum m)) / rd (tf * df)))
    \<and> w_reauth_epoch (m_g_work m') = m_reauth_epoch m
    \<and> m_restart m' = (if s_new_job (m_stratum m) then map (\<lambda>_. True) (m_restart m) else m_restart m)
    \<and> \<not> s_new_job (m_stratum m')"
proof -
  obtain m' where "stratum_gen_work gate True rl rd tf df rates ctx m = Some m'" "miner_ok m'"
    "work_of gate (m_heap m') (m_g_work m') (m_stratum m)"
    "m_stratum m' = incr_xnonce2 ((m_stratum m)\<lparr>s_new_job := False\<rparr>)"
    "m_restart m' = (if s_new_job (m_stratum m) then map (\<lambda>_. True) (m_restart m) else m_restart m)"
    "w_target (m_g_work m') = diff_to_hash rl rd (rd (j_diff (s_job (m_stratum m)) / rd (tf * df)))"
    "w_reauth_epoch (m_g_work m') = m_reauth_epoch m"
    using gen_work_ok[OF assms, of rl rd tf df rates] by blast
  moreover from this(4) have "\<not> s_new_job (m_stratum m')"
    by (simp add: incr_xnonce2_def Let_def)
  ultimately show ?thesis
    by (intro exI[of _ m']) (simp add: work_of_def)
qed

text \<open>A session with one job and a miner before its first work.\<close>

definition first_job :: stratum_job where
  "first_job = \<lparr>j_prevhash = replicate 32 3, j_job_id = Some (cstr ''7f''), j_coinbase = [9, 9, 255, 0, 9], j_xnonce2 = 2,
     j_merkle = [replicate 32 5], j_version = [0x20, 0, 0, 0], j_nbits = [0x1d, 0, 0xff, 0xff], j_ntime = [0x6a, 1, 2, 3],
     j_diff = 1, j_clean = True\<rparr>"

definition first_miner :: miner where
  "first_miner = \<lparr>m_heap = \<lparr>hmem = \<lambda>_. None, hnext = 1\<rparr>,
     m_stratum = \<lparr>s_next_diff = 1, s_session_id = None, s_xnonce1 = [9], s_xnonce2_size = 2, s_job = first_job,
        s_block_height = 100, s_new_job = True\<rparr>,
     m_g_work = (work_on 0 0)\<lparr>w_xnonce2_len := 0\<rparr>, m_restart = [False, False], m_reauth_epoch = 3,
     m_stats = \<lparr>net_diff = None, stratum_diff = 0, last_block_height = 0, session_first_block = 0,
        last_targetdiff = 0, lowest_share = 0, global_hashrate = 0\<rparr>\<rparr>"

lemma first_miner_ok: "miner_ok first_miner"
  by (simp add: miner_ok_def first_miner_def first_job_def work_on_def wf_heap_def owned_def string_or_null_def
      ptrs_def job_ok_def cstr_def)

theorem stratum_gen_work_consistent_witness:
  "\<exists>m'. stratum_gen_work algo_gate True (\<lambda>x. x) (\<lambda>x. x) 1 1 [] \<lparr>cbuf = replicate 64 0, cstate = [], ccount = 0\<rparr> first_miner = Some m'
    \<and> hstring (m_heap m') (w_job_id (m_g_work m')) = Some (cstr ''7f'')
    \<and> xnonce2_at (m_heap m') (m_g_work m') = Some [255, 0]
    \<and> header_bytes ((scan_edata False (w_data (m_g_work m')))[19 := 5]) = stratum_header first_job 5
    \<and> m_restart m' = [True, True]"
proof -
  have "length (cbuf \<lparr>cbuf = replicate 64 0, cstate = [], ccount = 0\<rparr>) = 64" by simp
  from stratum_gen_work_consistent[OF first_miner_ok algo_gate_civiclight(1) this, of "\<lambda>x. x" "\<lambda>x. x" 1 1 "[]"]
  obtain m' where "stratum_gen_work algo_gate True (\<lambda>x. x) (\<lambda>x. x) 1 1 [] \<lparr>cbuf = replicate 64 0, cstate = [], ccount = 0\<rparr> first_miner = Some m'"
    "hstring (m_heap m') (w_job_id (m_g_work m')) = Some (cstr ''7f'')" "xnonce2_at (m_heap m') (m_g_work m') = Some [255, 0]"
    "header_bytes ((scan_edata False (w_data (m_g_work m')))[19 := 5]) = stratum_header first_job 5"
    "m_restart m' = [True, True]"
    by (auto simp add: first_miner_def first_job_def seg_def)
  then show ?thesis by blast
qed

text \<open>Work generated again and again without a new job.\<close>

fun gen_works :: "(miner \<Rightarrow> miner option) \<Rightarrow> nat \<Rightarrow> miner \<Rightarrow> miner option" where
  "gen_works gen 0 m = Some m"
| "gen_works gen (Suc k) m = Option.bind (gen_works gen k m) gen"

definition xnonce2_value :: "stratum_ctx \<Rightarrow> nat" where
  "xnonce2_value s = le_nat (seg (j_xnonce2 (s_job s)) (s_xnonce2_size s) (j_coinbase (s_job s)))"

lemma xnonce2_value_incr:
  "job_ok s \<Longrightarrow> xnonce2_value (incr_xnonce2 (s\<lparr>s_new_job := False\<rparr>)) = (xnonce2_value s + 1) mod 256 ^ s_xnonce2_size s"
proof -
  assume j: "job_ok s"
  show ?thesis
    unfolding xnonce2_value_def incr_xnonce2_value(1)[OF j] le_nat_incr
    using j by (auto simp: job_ok_def Let_def length_seg)
qed

lemma gen_works_value:
  assumes "miner_ok m" "civiclight_gate gate" "length (cbuf ctx) = 64"
  shows "\<exists>m'. gen_works (stratum_gen_work gate True rl rd tf df rates ctx) k m = Some m' \<and> miner_ok m'
    \<and> s_xnonce2_size (m_stratum m') = s_xnonce2_size (m_stratum m)
    \<and> xnonce2_value (m_stratum m') = (xnonce2_value (m_stratum m) + k) mod 256 ^ s_xnonce2_size (m_stratum m)
    \<and> (0 < k \<longrightarrow> (\<exists>x. xnonce2_at (m_heap m') (m_g_work m') = Some x
        \<and> le_nat x = (xnonce2_value (m_stratum m) + (k - 1)) mod 256 ^ s_xnonce2_size (m_stratum m)))"
proof (induction k)
  case 0
  have "length (seg (j_xnonce2 (s_job (m_stratum m))) (s_xnonce2_size (m_stratum m)) (j_coinbase (s_job (m_stratum m))))
      = s_xnonce2_size (m_stratum m)"
    using assms(1) by (auto simp: miner_ok_def job_ok_def Let_def length_seg)
  then have "xnonce2_value (m_stratum m) < 256 ^ s_xnonce2_size (m_stratum m)"
    unfolding xnonce2_value_def by (metis le_nat_less)
  then show ?case using assms(1) by simp
next
  case (Suc k)
  then obtain m1 where m1: "gen_works (stratum_gen_work gate True rl rd tf df rates ctx) k m = Some m1" "miner_ok m1"
    "s_xnonce2_size (m_stratum m1) = s_xnonce2_size (m_stratum m)"
    "xnonce2_value (m_stratum m1) = (xnonce2_value (m_stratum m) + k) mod 256 ^ s_xnonce2_size (m_stratum m)"
    by blast
  obtain m2 where m2: "stratum_gen_work gate True rl rd tf df rates ctx m1 = Some m2" "miner_ok m2"
    "work_of gate (m_heap m2) (m_g_work m2) (m_stratum m1)"
    "m_stratum m2 = incr_xnonce2 ((m_stratum m1)\<lparr>s_new_job := False\<rparr>)"
    using gen_work_ok[OF m1(2) assms(2,3)] by metis
  have job: "job_ok (m_stratum m1)" using m1(2) by (simp add: miner_ok_def)
  show ?case
    using m1 m2 xnonce2_value_incr[OF job] incr_xnonce2_value(2)[OF job]
    by (auto simp: work_of_def xnonce2_value_def mod_Suc_eq)
qed

text \<open>Without a new job, the works generated one after the other have distinct extranonces
  (and so distinct coinbases) until the extranonce has gone through all its values.\<close>

theorem generated_xnonce2_distinct:
  assumes "miner_ok m" "civiclight_gate gate" "length (cbuf ctx) = 64"
    and "0 < i" "i < j" "j < i + 256 ^ s_xnonce2_size (m_stratum m)"
  shows "\<exists>mi mj x y. gen_works (stratum_gen_work gate True rl rd tf df rates ctx) i m = Some mi
    \<and> gen_works (stratum_gen_work gate True rl rd tf df rates ctx) j m = Some mj
    \<and> xnonce2_at (m_heap mi) (m_g_work mi) = Some x \<and> xnonce2_at (m_heap mj) (m_g_work mj) = Some y \<and> x \<noteq> y"
proof -
  let ?v = "xnonce2_value (m_stratum m)" and ?n = "256 ^ s_xnonce2_size (m_stratum m)"
  have "(?v + (i - 1)) mod ?n \<noteq> (?v + (j - 1)) mod ?n"
  proof
    assume "(?v + (i - 1)) mod ?n = (?v + (j - 1)) mod ?n"
    then have "?n dvd (?v + (j - 1)) - (?v + (i - 1))"
      using assms(5) by (intro mod_eq_dvd_iff_nat[THEN iffD1]) simp_all
    then have "?n dvd j - i" using assms(4,5) by simp
    then show False using assms(5,6) by (auto dest: dvd_imp_le)
  qed
  then show ?thesis
    using gen_works_value[OF assms(1-3), of rl rd tf df rates i] gen_works_value[OF assms(1-3), of rl rd tf df rates j] assms(4,5)
    by fastforce
qed

theorem generated_xnonce2_distinct_witness:
  "\<exists>mi mj x y. gen_works (stratum_gen_work algo_gate True (\<lambda>x. x) (\<lambda>x. x) 1 1 [] \<lparr>cbuf = replicate 64 0, cstate = [], ccount = 0\<rparr>) 1 first_miner = Some mi
    \<and> gen_works (stratum_gen_work algo_gate True (\<lambda>x. x) (\<lambda>x. x) 1 1 [] \<lparr>cbuf = replicate 64 0, cstate = [], ccount = 0\<rparr>) 9 first_miner = Some mj
    \<and> xnonce2_at (m_heap mi) (m_g_work mi) = Some x \<and> xnonce2_at (m_heap mj) (m_g_work mj) = Some y \<and> x \<noteq> y"
  by (rule generated_xnonce2_distinct[OF first_miner_ok algo_gate_civiclight(1)]) (simp_all add: first_miner_def)

section \<open>The nonces a thread hashes\<close>

text \<open>The data and end of range of a thread while it works on one job, whether it is about to scan, and the
  nonces it has hashed so far: \<open>std_get_new_work\<close> gives it the start of its range and later,
  after each scan of at most \<open>max64\<close> nonces, the next nonce.\<close>

inductive thread_run :: "nat \<Rightarrow> nat \<Rightarrow> nat \<Rightarrow> yespower_impl \<Rightarrow> sha256_context \<Rightarrow> bytes \<Rightarrow> u32 list \<Rightarrow> bool \<Rightarrow> u32 \<Rightarrow> nat set \<Rightarrow> bool"
  for fuel n_threads thr_id yp ctx t where
  take_work: "20 \<le> length d \<Longrightarrow>
    thread_run fuel n_threads thr_id yp ctx t (d[19 := range_start n_threads thr_id]) True (range_end n_threads thr_id) {}"
| scan: "thread_run fuel n_threads thr_id yp ctx t d True e S \<Longrightarrow>
    scanhash_civiclight fuel yp ctx False restart d t (select_max_nonce max64 (d ! 19) e) = Some (hashes_done, st) \<Longrightarrow>
    thread_run fuel n_threads thr_id yp ctx t (pdata st) False e (S \<union> {unat (d ! 19)..<unat (pdata st ! 19)})"
| resume: "thread_run fuel n_threads thr_id yp ctx t d False e S \<Longrightarrow> d ! 19 < e \<Longrightarrow>
    thread_run fuel n_threads thr_id yp ctx t (d[19 := d ! 19 + 1]) True e S"

inductive_cases thread_run_resumed: "thread_run fuel n i yp ctx t d True e S"

lemma uint_unat: "uint (w :: u32) = int (unat w)"
  by simp

lemma range_wide: "0 < n \<Longrightarrow> n \<le> 2 ^ 20 \<Longrightarrow> 0x20 < (0xffffffff :: nat) div n"
proof -
  assume n: "0 < n" "n \<le> 2 ^ 20"
  have "(0xffffffff :: nat) div 2 ^ 20 \<le> 0xffffffff div n"
    using n by (intro div_le_mono2)
  then show ?thesis by simp
qed

lemma select_max_nonce_between:
  assumes "w < e"
  shows "w < select_max_nonce max64 w e \<and> select_max_nonce max64 w e \<le> e"
proof -
  let ?m = "if max64 \<le> 0 then 1000 else max64"
  show ?thesis
  proof (cases "uint w + ?m > uint e")
    case True
    then show ?thesis using assms by (simp add: select_max_nonce_def)
  next
    case False
    have "uint e < 2 ^ 32" using unsigned_less[of e] by simp
    then have "uint (word_of_int (uint w + ?m) :: u32) = uint w + ?m"
      using False by (subst uint_word_of_int) (auto intro: mod_pos_pos_trivial)
    moreover have "word_of_int (uint w + ?m) = w + word_of_int ?m" by simp
    ultimately have "uint (w + word_of_int ?m) = uint w + ?m" by metis
    then show ?thesis using False
      by (simp add: select_max_nonce_def Let_def word_less_def word_le_def)
  qed
qed

lemma select_max_nonce_end: "select_max_nonce max64 e e = e"
  by (simp add: select_max_nonce_def Let_def)

lemma thread_run_inv:
  assumes "thread_run fuel n i yp ctx t d r e S"
    and n: "0 < n" "n \<le> 2 ^ 20" "i < n" and yp: "yespower_pairs yp" "length (cbuf ctx) = 64" "2 ^ 32 \<le> fuel"
  shows "20 \<le> length d \<and> e = range_end n i \<and> S \<subseteq> {unat (range_start n i)..<unat (range_end n i) - 1}
    \<and> (\<forall>x\<in>S. x < unat (d ! 19)) \<and> d ! 19 \<le> e \<and> unat (range_start n i) \<le> unat (d ! 19)
    \<and> (r \<longrightarrow> d ! 19 \<noteq> range_start n i \<longrightarrow> unat (d ! 19) - 1 \<notin> S)"
  using assms(1)
proof induction
  case (take_work d)
  have "range_start n i \<le> range_end n i"
    using range_nat[OF n] by (simp add: word_le_nat_alt)
  then show ?case using take_work by simp
next
  case (scan d e S restart max64 hd st)
  let ?max = "select_max_nonce max64 (d ! 19) e"
  have l: "20 \<le> length d" and e: "e = range_end n i" and de: "d ! 19 \<le> e" using scan.IH by auto
  have eb: "unat e \<le> 0xffffffdf" "0 < unat e"
    using range_nat[OF n] range_wide[OF n(1,2)] e by (simp_all add: trans_less_add1)
  show ?case
  proof (cases "d ! 19 < e")
    case True
    then have m: "d ! 19 < ?max" "?max \<le> e" using select_max_nonce_between by auto
    have mx: "?max \<noteq> 0" using m(1) by auto
    then have m0: "?max \<noteq> 0" "d ! 19 \<le> ?max - 1"
      using m(1) by (simp_all add: word_less_nat_alt word_le_nat_alt unat_minus_one)
    have "unat ?max - unat (d ! 19) \<le> 2 * fuel"
      using unat_u32[of ?max] yp(3) by linarith
    with m0 obtain m where st: "unat (d ! 19) \<le> m" "m \<le> unat (?max - 1)" "pdata st = d[19 := of_nat m]"
      using scanhash_covers[OF _ l yp(2), of yp ?max fuel False restart t] scan.hyps yp(1)
      by (auto simp: yespower_pairs_def)
    have um: "unat (?max - 1) = unat ?max - 1" "0 < unat ?max"
      using m0(1) by (simp_all add: unat_minus_one unat_gt_0)
    have mm: "unat (pdata st ! 19) = m"
      using st l um unat_u32[of ?max] by (simp add: unat_of_nat)
    have me: "m \<le> unat e - 1" using st(2) um m(2) by (simp add: word_le_nat_alt)
    show ?thesis
      using scan.IH st mm l me e by (auto simp: word_le_nat_alt)
  next
    case False
    then have "d ! 19 = e" using de by simp
    then have "?max = e" by (simp add: select_max_nonce_end)
    moreover have "e \<noteq> 0" using eb by auto
    ultimately have "?max - 1 \<le> d ! 19" "d ! 19 \<noteq> - 1"
      using \<open>d ! 19 = e\<close> eb by (auto simp: word_le_nat_alt unat_minus_one unsigned_minus_1_eq_mask mask_eq_exp_minus_1)
    then have "pdata st = d"
      using scanhash_empty[OF l, of ?max fuel yp ctx False restart t] scan.hyps yp(3) by auto
    then show ?thesis using scan.IH by auto
  qed
next
  case (resume d e S)
  have "unat (d ! 19 + 1) = unat (d ! 19) + 1"
    using resume.hyps unat_u32[of e] by (simp add: unat_word_ariths word_less_nat_alt)
  then show ?case
    using resume.IH resume.hyps by (auto simp: word_less_nat_alt word_le_nat_alt)
qed

text \<open>C10: as long as threads work on the same job, no nonce is hashed by two of them: each
  stays within its own range, whatever scan times and restarts cut its scans.\<close>

theorem threads_hash_disjoint_nonces:
  assumes "thread_run fuel n i yp ctx t d r e S" "thread_run fuel n j yp ctx t d' r' e' S'"
    and "i < j" "j < n" "n \<le> 2 ^ 20" "2 ^ 32 \<le> fuel" "length (cbuf ctx) = 64"
    and "\<And>a b. length a = 32 \<Longrightarrow> length b = 32 \<Longrightarrow> impl2 yp a b = (impl1 yp a, impl1 yp b)"
  shows "S \<inter> S' = {} \<and> S \<subseteq> {unat (range_start n i)..<unat (range_end n i) - 1}"
proof -
  have yp: "yespower_pairs yp" using assms(8) by (simp add: yespower_pairs_def)
  have "S \<subseteq> {unat (range_start n i)..<unat (range_end n i) - 1}"
    "S' \<subseteq> {unat (range_start n j)..<unat (range_end n j) - 1}"
    using thread_run_inv[OF assms(1) _ assms(5) _ yp assms(7,6)]
      thread_run_inv[OF assms(2) _ assms(5) _ yp assms(7,6)] assms(3,4) by auto
  moreover have "unat (range_end n i) \<le> unat (range_start n j)"
  proof -
    have "0xffffffff div n * (i + 1) \<le> 0xffffffff div n * j"
      using assms(3) by (intro mult_le_mono2) simp
    then show ?thesis using range_nat[of n i] range_nat[of n j] assms(3-5) by simp
  qed
  ultimately show ?thesis by force
qed

definition swap_yp :: yespower_impl where
  "swap_yp = \<lparr>impl1 = rev, impl2 = \<lambda>a b. (rev a, rev b)\<rparr>"

theorem threads_hash_disjoint_nonces_witness:
  "\<exists>S S'. thread_run (2 ^ 32) 2 0 swap_yp \<lparr>cbuf = replicate 64 0, cstate = [], ccount = 0\<rparr> (replicate 32 0)
       ((replicate 48 0)[19 := range_start 2 0]) True (range_end 2 0) S
    \<and> thread_run (2 ^ 32) 2 1 swap_yp \<lparr>cbuf = replicate 64 0, cstate = [], ccount = 0\<rparr> (replicate 32 0)
       ((replicate 48 0)[19 := range_start 2 1]) True (range_end 2 1) S'
    \<and> S \<inter> S' = {}"
proof -
  note r = thread_run.take_work[of "replicate 48 0" "2 ^ 32" 2 _ swap_yp
    "\<lparr>cbuf = replicate 64 0, cstate = [], ccount = 0\<rparr>" "replicate 32 0"]
  show ?thesis
    using r[of 0] r[of 1] threads_hash_disjoint_nonces[OF r[of 0] r[of 1]] by (auto simp: swap_yp_def)
qed

text \<open>C36: resuming after a scan skips a nonce.  The scan leaves the first nonce it did not hash
  in the header and \<open>std_get_new_work\<close> starts the next one after it; so whenever a thread is about to
  scan on a job it already scanned, the nonce before its starting point lies in its range and was
  not hashed (and later scans only go up).\<close>

theorem resume_skips_nonce:
  assumes "thread_run fuel n i yp ctx t d True e S" "d ! 19 \<noteq> range_start n i"
    and "i < n" "n \<le> 2 ^ 20" "2 ^ 32 \<le> fuel" "length (cbuf ctx) = 64"
    and "\<And>a b. length a = 32 \<Longrightarrow> length b = 32 \<Longrightarrow> impl2 yp a b = (impl1 yp a, impl1 yp b)"
  shows "unat (d ! 19) - 1 \<notin> S \<and> unat (range_start n i) \<le> unat (d ! 19) - 1
    \<and> unat (d ! 19) - 1 < unat (range_end n i) \<and> (\<forall>x\<in>S. x < unat (d ! 19))"
proof -
  have yp: "yespower_pairs yp" using assms(7) by (simp add: yespower_pairs_def)
  note inv = thread_run_inv[OF assms(1) _ assms(4,3) yp assms(6,5)]
  have "unat (range_start n i) \<noteq> unat (d ! 19)" using assms(2) by (simp add: word_unat_eq_iff)
  then show ?thesis
    using inv assms(2,3) by (auto simp: word_le_nat_alt)
qed

lemma swap_yp_pairs: "impl2 swap_yp a b = (impl1 swap_yp a, impl1 swap_yp b)"
  by (simp add: swap_yp_def)

theorem resume_skips_nonce_witness:
  "\<exists>d e S. thread_run (2 ^ 32) 2 1 swap_yp \<lparr>cbuf = replicate 64 0, cstate = [], ccount = 0\<rparr> (replicate 32 0) d True e S
    \<and> unat (d ! 19) - 1 \<notin> S \<and> unat (d ! 19) - 1 < unat (range_end 2 1)"
proof -
  let ?ctx = "\<lparr>cbuf = replicate 64 0, cstate = [], ccount = 0\<rparr>" and ?t = "replicate 32 0"
  let ?d = "(replicate 48 0)[19 := range_start 2 1] :: u32 list" and ?e = "range_end 2 1"
  have n: "?d ! 19 = 0x7fffffff" "?e = 0xffffffde" by (simp_all add: range_start_def range_end_def)
  note r0 = thread_run.take_work[of "replicate 48 0" "2 ^ 32" 2 1 swap_yp ?ctx ?t]
  have m: "select_max_nonce 20 (?d ! 19) ?e = 0x80000013"
    unfolding n by (simp add: select_max_nonce_def)
  obtain hd st k where s: "scanhash_civiclight (2 ^ 32) swap_yp ?ctx False (\<lambda>_. False) ?d ?t 0x80000013 = Some (hd, st)"
    "pdata st = ?d[19 := of_nat k]" "k = unat (0x80000012 :: u32)"
    using scanhash_covers[of swap_yp ?d ?ctx "0x80000013" "2 ^ 32" False "\<lambda>_. False" ?t] n swap_yp_pairs
    by auto
  let ?d1 = "pdata st"
  have d1: "?d1 ! 19 = 0x80000012" using s(2,3) by simp
  have "thread_run (2 ^ 32) 2 1 swap_yp ?ctx ?t ?d1 False ?e ({} \<union> {unat (?d ! 19)..<unat (?d1 ! 19)})"
    using thread_run.scan[OF r0, of "\<lambda>_. False" 20 hd st] s(1) unfolding m by simp
  from thread_run.resume[OF this] have r: "thread_run (2 ^ 32) 2 1 swap_yp ?ctx ?t (?d1[19 := 0x80000013]) True ?e
      {unat (?d ! 19)..<unat (?d1 ! 19)}"
    using d1 n by simp
  have l: "length ?d1 = 48" using s(2) by simp
  show ?thesis
    using resume_skips_nonce[OF r _ _ _ _ _ swap_yp_pairs] r l n by (intro exI conjI) auto
qed

end
