(* ===== verification/Soj_Session.thy ===== *)
theory Soj_Session
  imports Soj_Miner
begin

text \<open>The stratum session as \<open>soj_stratum_transport.c\<close> and \<open>soj_stratum_methods.c\<close>
  share it: JSON values with the accessors of the vendored \<open>jansson\<close> the code calls, the
  connection part of \<open>struct stratum_ctx\<close>, leaving the session, and its extranonce.  Parsing
  and printing JSON are parameters.\<close>

section \<open>JSON values\<close>

datatype json =
    JNull | JTrue | JFalse | JInt int | JReal rat | JString cstring
  | JArray "json list" | JObject "(cstring \<times> json) list"

text \<open>A \<open>json_t *\<close> that may be \<open>NULL\<close> is an option.\<close>

fun json_object_get :: "json option \<Rightarrow> cstring \<Rightarrow> json option" where
  "json_object_get (Some (JObject kvs)) k = map_of kvs k"
| "json_object_get _ k = None"

fun json_is_array :: "json option \<Rightarrow> bool" where
  "json_is_array (Some (JArray xs)) = True"
| "json_is_array _ = False"

fun json_array_size :: "json option \<Rightarrow> nat" where
  "json_array_size (Some (JArray xs)) = length xs"
| "json_array_size _ = 0"

fun json_array_get :: "json option \<Rightarrow> nat \<Rightarrow> json option" where
  "json_array_get (Some (JArray xs)) i = (if i \<ge> length xs then None else Some (xs ! i))"
| "json_array_get _ i = None"

fun json_string_value :: "json option \<Rightarrow> cstring option" where
  "json_string_value (Some (JString s)) = Some s"
| "json_string_value _ = None"

fun json_integer_value :: "json option \<Rightarrow> int" where
  "json_integer_value (Some (JInt i)) = i"
| "json_integer_value _ = 0"

fun json_number_value :: "json option \<Rightarrow> rat" where
  "json_number_value (Some (JInt i)) = of_int i"
| "json_number_value (Some (JReal r)) = r"
| "json_number_value _ = 0"

definition json_is_true :: "json option \<Rightarrow> bool" where "json_is_true j \<longleftrightarrow> j = Some JTrue"
definition json_is_false :: "json option \<Rightarrow> bool" where "json_is_false j \<longleftrightarrow> j = Some JFalse"
definition json_is_null :: "json option \<Rightarrow> bool" where "json_is_null j \<longleftrightarrow> j = Some JNull"

fun json_is_string :: "json option \<Rightarrow> bool" where
  "json_is_string (Some (JString s)) = True"
| "json_is_string _ = False"

text \<open>\<open>(int) json_integer_value (...)\<close> keeps the low 32 bits.\<close>

definition to_int32 :: "int \<Rightarrow> int" where
  "to_int32 i = sint (word_of_int i :: u32)"

section \<open>Strings\<close>

definition lower :: "u8 \<Rightarrow> u8" where
  "lower c = (if 65 \<le> c \<and> c \<le> 90 then c + 32 else c)"

definition strcasecmp_eq :: "cstring \<Rightarrow> cstring \<Rightarrow> bool" where
  "strcasecmp_eq a b \<longleftrightarrow> map lower a = map lower b"

text \<open>The position of the first occurrence.\<close>

fun strstr_at :: "cstring \<Rightarrow> cstring \<Rightarrow> nat option" where
  "strstr_at [] pat = (if pat = [] then Some 0 else None)"
| "strstr_at (c # s) pat =
    (if take (length pat) (c # s) = pat then Some 0 else map_option Suc (strstr_at s pat))"

definition method_eq2 :: "cstring \<Rightarrow> cstring \<Rightarrow> cstring \<Rightarrow> bool" where
  "method_eq2 meth left right = strcasecmp_eq meth (take 63 (left @ cstr ''.'' @ right))"

section \<open>The session\<close>

text \<open>\<open>curl\<close> is the handle (here whether it is there), \<open>sock\<close> whether the socket is
  valid, \<open>sockbuf\<close> the string in the receive buffer (\<open>None\<close> before it is allocated) and
  \<open>sockbuf_size\<close> its capacity; \<open>sent\<close> collects the lines that went out.\<close>

record session =
  sess_ctx :: stratum_ctx
  url :: cstring
  curl_url :: cstring
  curl :: bool
  sock :: bool
  sockbuf :: "cstring option"
  sockbuf_size :: nat
  sharediff :: rat
  last_rejected_job_id :: "cstring option"
  immediate_disconnect :: bool
  next_reconnect_time :: int
  sent :: "cstring list"

definition stratum_disconnect :: "session \<Rightarrow> session" where
  "stratum_disconnect s =
    (let s = (if curl s then s\<lparr>curl := False\<rparr> else s);
         s = (case sockbuf s of None \<Rightarrow> s | Some b \<Rightarrow> s\<lparr>sockbuf := Some []\<rparr>);
         s = s\<lparr>sock := False\<rparr>;
         c = (sess_ctx s)\<lparr>s_new_job := False\<rparr>;
         c = c\<lparr>s_session_id := None, s_xnonce1 := [], s_xnonce2_size := 0, s_next_diff := 0\<rparr>;
         c = c\<lparr>s_job := (s_job c)\<lparr>j_job_id := None\<rparr>\<rparr>
     in s\<lparr>sess_ctx := c, sharediff := 0\<rparr>)"

fun find_session_id :: "json list \<Rightarrow> cstring option" where
  "find_session_id [] = None"
| "find_session_id (arr # rest) =
    (if \<not> json_is_array (Some arr) then None
     else case json_string_value (json_array_get (Some arr) 0) of
       None \<Rightarrow> find_session_id rest
     | Some notify \<Rightarrow>
         if strcasecmp_eq notify (cstr ''mining.notify'') then json_string_value (json_array_get (Some arr) 1)
         else find_session_id rest)"

definition get_stratum_session_id :: "json option \<Rightarrow> cstring option" where
  "get_stratum_session_id val =
    (case json_array_get val 0 of
       Some (JArray arr) \<Rightarrow> find_session_id arr
     | _ \<Rightarrow> None)"

text \<open>\<open>calloc\<close> gives zeroed bytes (and is taken to succeed).\<close>

definition stratum_parse_extranonce :: "stratum_ctx \<Rightarrow> json option \<Rightarrow> nat \<Rightarrow> bool \<times> stratum_ctx" where
  "stratum_parse_extranonce sctx params pndx =
    (case json_string_value (json_array_get params pndx) of
       None \<Rightarrow> (False, sctx)
     | Some xnonce1 \<Rightarrow>
         let xn2_size = to_int32 (json_integer_value (json_array_get params (pndx + 1)))
         in if xn2_size = 0 then (False, sctx)
            else if xn2_size < 2 \<or> xn2_size > 16 then (False, sctx)
            else
              let n = length xnonce1 div 2
              in (True, sctx\<lparr>s_xnonce1 := snd (hex2bin (replicate n 0) (Some xnonce1) n),
                   s_xnonce2_size := nat xn2_size\<rparr>))"

section \<open>Lemmas\<close>

lemma hex_decode_digits: "hex_decode s = Some bs \<Longrightarrow> \<forall>b\<in>set s. unat b < 0xba"
proof -
  have d: "hex_val c \<noteq> None \<Longrightarrow> unat c < 0xba" for c
    by (auto simp: hex_val_def word_le_nat_alt split: if_splits)
  show "hex_decode s = Some bs \<Longrightarrow> ?thesis"
    by (induction s arbitrary: bs rule: hex_decode.induct) (auto simp: d hex_decode.simps split: option.splits)
qed

lemma hex2bin_exact:
  assumes "hex_decode s = Some bs" "length bs = n" "n \<le> length p"
  shows "hex2bin p (Some s) n = (True, bs @ drop n p)"
proof -
  have "hex_swar_loop s 0 (put_at 0 (replicate n 0) p) = (True, put_at 0 bs (put_at 0 (replicate n 0) p))"
    using assms hex_decode_digits[OF assms(1)] by (intro hex_swar_loop_Some) (auto simp: length_put_at)
  then show ?thesis
    using assms length_hex_decode[OF assms(1)] by (simp add: hex2bin_def put_at_replicate)
qed

lemma hex2bin_length: "length p = n \<Longrightarrow> length (snd (hex2bin p s n)) = n"
proof -
  have t: "length (snd (hex_tail s j p)) = length p" for s j p
    by (induction s j p rule: hex_tail.induct) auto
  have l: "length (snd (hex_swar_loop s j p)) = length p" if "j + length s div 2 \<le> length p" for s j p
    using that
  proof (induction s j p rule: hex_swar_loop.induct)
    case (1 s j p)
    show ?case
      using 1 by (subst hex_swar_loop.simps) (auto simp: Let_def t length_put_at)
  qed
  show "length p = n \<Longrightarrow> length (snd (hex2bin p s n)) = n"
    by (auto simp: hex2bin_def l length_put_at split: option.split)
qed

end
