(* ===== verification/Soj_Libc.thy ===== *)
theory Soj_Libc
  imports Soj_Session
begin

text \<open>What the code uses of the C library on strings: searching, comparing, reading numbers and printing them.\<close>

section \<open>C strings in a buffer\<close>

text \<open>The string at \<open>mem + i\<close>, and \<open>strchr (mem + i, c)\<close>, \<open>strrchr\<close> as positions in \<open>mem\<close>.\<close>

definition str_at :: "nat \<Rightarrow> bytes \<Rightarrow> cstring" where
  "str_at i mem = takeWhile (\<lambda>c. c \<noteq> 0) (drop i mem)"

fun chr_pos :: "'a \<Rightarrow> 'a list \<Rightarrow> nat option" where
  "chr_pos c [] = None"
| "chr_pos c (x # xs) = (if x = c then Some 0 else map_option Suc (chr_pos c xs))"

fun rchr_pos :: "'a \<Rightarrow> 'a list \<Rightarrow> nat option" where
  "rchr_pos c [] = None"
| "rchr_pos c (x # xs) =
    (case rchr_pos c xs of Some k \<Rightarrow> Some (Suc k) | None \<Rightarrow> if x = c then Some 0 else None)"

definition strchr :: "bytes \<Rightarrow> nat \<Rightarrow> u8 \<Rightarrow> nat option" where
  "strchr mem i c = map_option ((+) i) (chr_pos c (str_at i mem))"

definition strrchr :: "bytes \<Rightarrow> nat \<Rightarrow> u8 \<Rightarrow> nat option" where
  "strrchr mem i c = map_option ((+) i) (rchr_pos c (str_at i mem))"

text \<open>\<open>strncasecmp (a, b, n) == 0\<close>\<close>

definition strncasecmp_eq :: "cstring \<Rightarrow> cstring \<Rightarrow> nat \<Rightarrow> bool" where
  "strncasecmp_eq a b n \<longleftrightarrow> strcasecmp_eq (take n a) (take n b)"

definition CH :: "char \<Rightarrow> u8" where
  "CH c = of_char c"

lemma takeWhile_to_zero: "0 \<notin> set s \<Longrightarrow> takeWhile (\<lambda>c. c \<noteq> 0) (s @ 0 # r) = s"
  by (induction s) auto

lemma str_at_append: "0 \<notin> set s \<Longrightarrow> length a = i \<Longrightarrow> str_at i (a @ s @ 0 # r) = s"
  by (auto simp: str_at_def takeWhile_to_zero)

lemmas str_at_start = str_at_append [where a = "[]" and i = 0, simplified]

lemma chr_pos_append: "c \<notin> set a \<Longrightarrow> chr_pos c (a @ c # r) = Some (length a)"
  by (induction a) auto

lemma chr_pos_None: "c \<notin> set a \<Longrightarrow> chr_pos c a = None"
  by (induction a) auto

lemma rchr_pos_None: "c \<notin> set a \<Longrightarrow> rchr_pos c a = None"
  by (induction a) auto

lemma rchr_pos_append: "c \<notin> set r \<Longrightarrow> rchr_pos c (a @ c # r) = Some (length a)"
  by (induction a) (auto simp: rchr_pos_None)

lemma CH_nonzero [simp]: "CH CHR '':'' = 58" "CH CHR ''@'' = 64" "CH CHR ''x'' = 120" "CH CHR ''/'' = 47"
  by (simp_all add: CH_def)

section \<open>Reading numbers\<close>

definition is_digit :: "u8 \<Rightarrow> bool" where
  "is_digit c \<longleftrightarrow> 48 \<le> c \<and> c \<le> 57"

definition digits_value :: "cstring \<Rightarrow> nat" where
  "digits_value s = foldl (\<lambda>a c. 10 * a + unat (c - 48)) 0 s"

definition take_sign :: "cstring \<Rightarrow> bool \<times> cstring" where
  "take_sign s = (if s \<noteq> [] \<and> hd s = 45 then (True, tl s) else if s \<noteq> [] \<and> hd s = 43 then (False, tl s) else (False, s))"

text \<open>\<open>atof\<close> on plain decimal numbers: leading space, a sign, digits, a fraction and an
  exponent, rounded to a double by \<open>rd\<close>; nothing readable gives 0.  (The words for infinity and
  NaN and hexadecimal numbers, which \<open>atof\<close> also reads, are not modelled.)\<close>

definition atof :: "(rat \<Rightarrow> rat) \<Rightarrow> cstring \<Rightarrow> rat" where
  "atof rd s =
    (let (neg, s) = take_sign (dropWhile is_space s);
         ip = takeWhile is_digit s; s = dropWhile is_digit s;
         fp = (if s \<noteq> [] \<and> hd s = 46 then takeWhile is_digit (tl s) else []);
         s = (if s \<noteq> [] \<and> hd s = 46 then dropWhile is_digit (tl s) else s);
         (eneg, es) = (if s \<noteq> [] \<and> (hd s = 101 \<or> hd s = 69) then take_sign (tl s) else (False, []));
         ex = digits_value (takeWhile is_digit es);
         v = of_nat (digits_value (ip @ fp)) / 10 ^ length fp;
         v = (if eneg then v / 10 ^ ex else v * 10 ^ ex)
     in if ip = [] \<and> fp = [] then 0 else rd (if neg then - v else v))"

text \<open>The value \<open>strtol\<close> and \<open>strtoll\<close> read in base 10, which stops at the bounds of a 64-bit
  \<open>long\<close>.\<close>

definition strtol :: "cstring \<Rightarrow> int" where
  "strtol s =
    (let (neg, s) = take_sign (dropWhile is_space s);
         v = int (digits_value (takeWhile is_digit s));
         v = (if neg then - v else v)
     in max (- (2 ^ 63)) (min (2 ^ 63 - 1) v))"

text \<open>\<open>atoi\<close> is \<open>(int) strtol\<close>.\<close>

definition atoi :: "cstring \<Rightarrow> int" where
  "atoi s = to_int32 (strtol s)"

definition hex_digit :: "u8 \<Rightarrow> nat option" where
  "hex_digit c =
    (if is_digit c then Some (unat (c - 48))
     else if 97 \<le> c \<and> c \<le> 102 then Some (unat (c - 87))
     else if 65 \<le> c \<and> c \<le> 70 then Some (unat (c - 55)) else None)"

fun hex_value :: "nat \<Rightarrow> cstring \<Rightarrow> nat" where
  "hex_value v [] = v"
| "hex_value v (c # s) = (case hex_digit c of None \<Rightarrow> v | Some d \<Rightarrow> hex_value (16 * v + d) s)"

text \<open>\<open>strtoull (p, NULL, 16)\<close> of a string that starts with \<open>0x\<close>.\<close>

definition strtoull_0x :: "cstring \<Rightarrow> u64" where
  "strtoull_0x p = of_nat (min (2 ^ 64 - 1) (hex_value 0 (drop 2 p)))"

section \<open>Printing numbers\<close>

text \<open>\<open>"%d"\<close>\<close>

fun dec_digits :: "nat \<Rightarrow> cstring" where
  "dec_digits n = (if n < 10 then [48 + of_nat n] else dec_digits (n div 10) @ [48 + of_nat (n mod 10)])"

declare dec_digits.simps [simp del]

definition fmt_d :: "int \<Rightarrow> cstring" where
  "fmt_d i = (if i < 0 then 45 # dec_digits (nat (- i)) else dec_digits (nat i))"

lemma dec_digits_length: "0 < k \<Longrightarrow> n < 10 ^ k \<Longrightarrow> length (dec_digits n) \<le> k"
proof (induction n arbitrary: k rule: dec_digits.induct)
  case (1 n)
  show ?case
  proof (cases "n < 10")
    case True
    then show ?thesis using 1 by (subst dec_digits.simps) simp
  next
    case False
    then obtain j where j: "k = Suc j" "0 < j" using 1(2,3) by (cases k; cases "k - 1") auto
    then have "n div 10 < 10 ^ j" using 1(3) by (simp add: less_mult_imp_div_less mult.commute)
    then have "length (dec_digits (n div 10)) \<le> j" using 1(1)[OF False] j by simp
    then show ?thesis using False j by (subst dec_digits.simps) simp
  qed
qed

lemma to_int32_range: "- (2 ^ 31) \<le> to_int32 i \<and> to_int32 i < 2 ^ 31"
  using sint_range_size[of "word_of_int i :: u32"] by (simp add: to_int32_def word_size)

lemma fmt_d_length: "- (2 ^ 31) \<le> i \<Longrightarrow> i < 2 ^ 31 \<Longrightarrow> length (fmt_d i) \<le> 11"
proof -
  assume "- (2 ^ 31) \<le> i" "i < 2 ^ 31"
  then have "nat i < 10 ^ 10" "nat (- i) < 10 ^ 10" by simp_all
  then have "length (dec_digits (nat i)) \<le> 10" "length (dec_digits (nat (- i))) \<le> 10"
    using dec_digits_length[of 10 "nat i"] dec_digits_length[of 10 "nat (- i)"] by simp_all
  then show ?thesis by (auto simp: fmt_d_def)
qed

end
