(* ===== verification/Soj_Methods.thy ===== *)
theory Soj_Methods
  imports Soj_Libc
begin

text \<open>The requests of the pool, from \<open>soj_stratum_methods.c\<close>: \<open>mining.notify\<close> builds the
  session's job, \<open>set_difficulty\<close>, \<open>set_extranonce\<close> and \<open>client.reconnect\<close> change the
  session, the others answer with one line.  Whether that line could be sent is a parameter, as
  are the JSON reader and printer.\<close>

section \<open>The height in a coinbase\<close>

text \<open>A read past the end of the coinbase is undefined: \<open>None\<close>.\<close>

definition byte_at :: "bytes \<Rightarrow> nat \<Rightarrow> u8 option" where
  "byte_at cb p = (if p < length cb then Some (cb ! p) else None)"

function skip_while :: "(u8 \<Rightarrow> bool) \<Rightarrow> bytes \<Rightarrow> nat \<Rightarrow> nat \<Rightarrow> nat option" where
  "skip_while P cb p m =
    (case byte_at cb p of None \<Rightarrow> None
     | Some b \<Rightarrow> if P b \<and> p < m then skip_while P cb (p + 1) m else Some p)"
  by auto
termination by (relation "measure (\<lambda>(P, cb, p, m). m - p)") auto

declare skip_while.simps [simp del]

definition le16_at :: "bytes \<Rightarrow> nat \<Rightarrow> u32 option" where
  "le16_at cb p = do { a \<leftarrow> byte_at cb p; b \<leftarrow> byte_at cb (p + 1); Some (ucast (le16dec [a, b])) }"

definition getblocheight :: "bytes \<Rightarrow> u32 option" where
  "getblocheight cb = do {
     let m = length cb - 2;
     p \<leftarrow> skip_while (\<lambda>b. b \<noteq> 0xff) cb 32 m;
     p \<leftarrow> skip_while (\<lambda>b. b = 0xff) cb p m;
     b1 \<leftarrow> byte_at cb (p - 1);
     b2 \<leftarrow> byte_at cb (p - 2);
     if b1 = 0xff \<and> b2 = 0xff then do {
       let p = p + 1;
       hlen \<leftarrow> byte_at cb p;
       let p = p + 1;
       height \<leftarrow> le16_at cb p;
       let p = p + 2;
       if hlen = 4 then do { h \<leftarrow> le16_at cb p; Some (height + 0x10000 * h) }
       else if hlen = 3 then do { h \<leftarrow> byte_at cb p; Some (height + 0x10000 * ucast h) }
       else Some height }
     else Some 0 }"

section \<open>mining.notify\<close>

text \<open>The branches are read into the job's slots; \<open>None\<close> is an invalid one.\<close>

fun read_branches :: "json list \<Rightarrow> bytes list option" where
  "read_branches [] = Some []"
| "read_branches (j # js) =
    (case json_string_value (Some j) of
       None \<Rightarrow> None
     | Some s \<Rightarrow>
         if length s \<noteq> 64 then None
         else map_option ((#) (snd (hex2bin (replicate 32 0) (Some s) 32))) (read_branches js))"

text \<open>\<open>realloc\<close> keeps the old bytes and leaves new ones undetermined (\<open>junk\<close>).\<close>

definition realloc_bytes :: "bytes \<Rightarrow> bytes \<Rightarrow> nat \<Rightarrow> bytes" where
  "realloc_bytes junk old n = take n (old @ junk @ replicate n 0)"

definition hex2bin_at :: "nat \<Rightarrow> nat \<Rightarrow> cstring \<Rightarrow> bytes \<Rightarrow> bytes" where
  "hex2bin_at off n s cb = put_at off (snd (hex2bin (seg off n cb) (Some s) n)) cb"

definition notify_coinbase :: "bytes \<Rightarrow> stratum_ctx \<Rightarrow> cstring \<Rightarrow> cstring \<Rightarrow> cstring \<Rightarrow> bytes \<times> nat" where
  "notify_coinbase junk sctx job_id coinb1 coinb2 =
    (let coinb1_size = length coinb1 div 2;
         coinb2_size = length coinb2 div 2;
         xnonce1_size = length (s_xnonce1 sctx);
         coinbase_size = coinb1_size + xnonce1_size + s_xnonce2_size sctx + coinb2_size;
         cb = realloc_bytes junk (j_coinbase (s_job sctx)) coinbase_size;
         xnonce2 = coinb1_size + xnonce1_size;
         cb = hex2bin_at 0 coinb1_size coinb1 cb;
         cb = put_at coinb1_size (s_xnonce1 sctx) cb;
         cb = (if j_job_id (s_job sctx) \<noteq> Some job_id
               then put_at xnonce2 (replicate (s_xnonce2_size sctx) 0) cb else cb);
         cb = hex2bin_at (xnonce2 + s_xnonce2_size sctx) coinb2_size coinb2 cb
     in (cb, xnonce2))"

definition stratum_notify :: "bytes \<Rightarrow> stratum_ctx \<Rightarrow> json option \<Rightarrow> (bool \<times> stratum_ctx) option" where
  "stratum_notify junk sctx params =
    (let str = (\<lambda>i. json_string_value (json_array_get params i));
         merkle_arr = json_array_get params 4;
         clean = json_is_true (json_array_get params 8)
     in case merkle_arr of
       Some (JArray merkle) \<Rightarrow>
         (case (str 0, str 1, str 2, str 3, str 5, str 6, str 7) of
            (Some job_id, Some prevhash, Some coinb1, Some coinb2, Some version, Some nbits, Some stime) \<Rightarrow>
              if length prevhash \<noteq> 64 \<or> length version \<noteq> 8 \<or> length nbits \<noteq> 8 \<or> length stime \<noteq> 8
              then Some (False, sctx)
              else
                let job = s_job sctx;
                    job = job\<lparr>j_version := snd (hex2bin (j_version job) (Some version) 4)\<rparr>
                in (case read_branches merkle of
                      None \<Rightarrow> Some (False, sctx\<lparr>s_job := job\<lparr>j_merkle := []\<rparr>\<rparr>)
                    | Some branches \<Rightarrow>
                        let (cb, xnonce2) = notify_coinbase junk sctx job_id coinb1 coinb2;
                            job = job\<lparr>j_merkle := branches, j_coinbase := cb, j_xnonce2 := xnonce2,
                              j_job_id := Some job_id,
                              j_prevhash := snd (hex2bin (j_prevhash job) (Some prevhash) 32)\<rparr>
                        in map_option (\<lambda>height.
                             let job = job\<lparr>j_nbits := snd (hex2bin (j_nbits job) (Some nbits) 4),
                                   j_ntime := snd (hex2bin (j_ntime job) (Some stime) 4),
                                   j_clean := clean, j_diff := s_next_diff sctx\<rparr>
                             in (True, sctx\<lparr>s_job := job, s_block_height := sint height\<rparr>))
                           (getblocheight cb))
          | _ \<Rightarrow> Some (False, sctx))
     | _ \<Rightarrow> Some (False, sctx))"

section \<open>mining.set_difficulty\<close>

definition stratum_set_difficulty :: "(rat \<Rightarrow> rat) \<Rightarrow> cstring option \<Rightarrow> stratum_ctx \<Rightarrow> json option \<Rightarrow> bool \<times> stratum_ctx" where
  "stratum_set_difficulty rd rpc_pass sctx params =
    (let diff = rd (json_number_value (json_array_get params 0))
     in if diff = 0 then (False, sctx)
        else case rpc_pass of
          None \<Rightarrow> (True, sctx\<lparr>s_next_diff := diff\<rparr>)
        | Some pass \<Rightarrow>
            (case strstr_at pass (cstr ''d='') of
               None \<Rightarrow> (True, sctx\<lparr>s_next_diff := diff\<rparr>)
             | Some i \<Rightarrow>
                 let user_diff = atof rd (drop (i + 2) pass)
                 in (True, sctx\<lparr>s_next_diff := (if user_diff > 0 then user_diff else diff)\<rparr>)))"

section \<open>client.reconnect\<close>

text \<open>The new URL: the first 15 bytes of the old one are copied and what follows their
  \<open>://\<close> is overwritten.  When \<open>://\<close> is not among them \<open>strstr\<close> leaves the copied
  bytes: undefined.\<close>

definition reconnect_url :: "cstring \<Rightarrow> cstring \<Rightarrow> int \<Rightarrow> cstring option" where
  "reconnect_url old host port =
    (case strstr_at (take 15 old) (cstr ''://'') of
       None \<Rightarrow> None
     | Some i \<Rightarrow> Some (take (i + 3) old @ host @ 58 # fmt_d port))"

definition stratum_reconnect :: "bool \<Rightarrow> session \<Rightarrow> json option \<Rightarrow> (bool \<times> session) option" where
  "stratum_reconnect opt_redirect s params =
    (let port_val = json_array_get params 1;
         port = (case json_string_value port_val of Some p \<Rightarrow> atoi p | None \<Rightarrow> to_int32 (json_integer_value port_val))
     in case json_string_value (json_array_get params 0) of
          None \<Rightarrow> Some (False, s)
        | Some host \<Rightarrow>
            if port = 0 then Some (False, s)
            else map_option (\<lambda>u.
              if \<not> opt_redirect then (True, s) else (True, stratum_disconnect (s\<lparr>url := u\<rparr>)))
             (reconnect_url (url s) host port))"

section \<open>Answers\<close>

definition json_object_set :: "json \<Rightarrow> cstring \<Rightarrow> json \<Rightarrow> json" where
  "json_object_set obj k v =
    (case obj of
       JObject kvs \<Rightarrow> JObject (if k \<in> fst ` set kvs then map (\<lambda>(k', v'). if k' = k then (k, v) else (k', v')) kvs
                               else kvs @ [(k, v)])
     | _ \<Rightarrow> obj)"

definition json_object_set_error :: "json \<Rightarrow> int \<Rightarrow> cstring \<Rightarrow> json" where
  "json_object_set_error result code msg =
    (let val = JObject [];
         val = json_object_set val (cstr ''code'') (JInt code);
         val = json_object_set val (cstr ''message'') (JString msg)
     in json_object_set result (cstr ''error'') val)"

definition send_answer :: "bool \<Rightarrow> session \<Rightarrow> cstring \<Rightarrow> bool \<times> session" where
  "send_answer send_ok s line = (if send_ok then (True, s\<lparr>sent := sent s @ [line]\<rparr>) else (False, s))"

definition no_id :: "json option \<Rightarrow> bool" where
  "no_id i \<longleftrightarrow> i = None \<or> json_is_null i"

definition answer :: "json option \<Rightarrow> json \<Rightarrow> json" where
  "answer i result =
    (let val = JObject [];
         val = json_object_set val (cstr ''id'') (the i);
         val = json_object_set val (cstr ''error'') JNull
     in json_object_set val (cstr ''result'') result)"

definition stratum_unknown_method :: "(json \<Rightarrow> cstring) \<Rightarrow> bool \<Rightarrow> session \<Rightarrow> json option \<Rightarrow> bool \<times> session" where
  "stratum_unknown_method dumps send_ok s i =
    (if no_id i then (False, s)
     else
       let val = JObject [];
           val = json_object_set val (cstr ''id'') (the i);
           val = json_object_set val (cstr ''result'') JFalse;
           val = json_object_set_error val 38 (cstr ''unknown method'')
       in send_answer send_ok s (dumps val))"

definition stratum_pong :: "bool \<Rightarrow> session \<Rightarrow> json option \<Rightarrow> bool \<times> session" where
  "stratum_pong send_ok s i =
    (if no_id i then (False, s)
     else send_answer send_ok s
       (cstr ''{\"id\":'' @ fmt_d (to_int32 (json_integer_value i)) @ cstr '',\"result\":\"pong\",\"error\":null}''))"

definition stratum_get_algo :: "(json \<Rightarrow> cstring) \<Rightarrow> bool \<Rightarrow> session \<Rightarrow> json option \<Rightarrow> bool \<times> session" where
  "stratum_get_algo dumps send_ok s i =
    (if no_id i then (False, s)
     else send_answer send_ok s (dumps (answer i (JString (take 63 (cstr ''civiclight''))))))"

definition stratum_get_version :: "(json \<Rightarrow> cstring) \<Rightarrow> cstring \<Rightarrow> bool \<Rightarrow> session \<Rightarrow> json option \<Rightarrow> bool \<times> session" where
  "stratum_get_version dumps user_agent send_ok s i =
    (if no_id i then (False, s) else send_answer send_ok s (dumps (answer i (JString user_agent))))"

definition stratum_show_message :: "(json \<Rightarrow> cstring) \<Rightarrow> bool \<Rightarrow> session \<Rightarrow> json option \<Rightarrow> bool \<times> session" where
  "stratum_show_message dumps send_ok s i =
    (if no_id i then (True, s) else send_answer send_ok s (dumps (answer i JTrue)))"

section \<open>Dispatch\<close>

record method_env =
  loads :: "cstring \<Rightarrow> json option"
  dumps :: "json \<Rightarrow> cstring"
  round_double :: "rat \<Rightarrow> rat"
  user_agent :: cstring
  rpc_pass :: "cstring option"
  opt_redirect :: bool

definition with_ctx :: "session \<Rightarrow> bool \<times> stratum_ctx \<Rightarrow> bool \<times> session" where
  "with_ctx s r = (fst r, s\<lparr>sess_ctx := snd r\<rparr>)"

definition stratum_handle_method :: "method_env \<Rightarrow> bytes \<Rightarrow> bool \<Rightarrow> session \<Rightarrow> cstring \<Rightarrow> (bool \<times> session) option" where
  "stratum_handle_method env junk send_ok s line =
    (case loads env line of
       None \<Rightarrow> Some (False, s)
     | Some val \<Rightarrow>
       (case json_string_value (json_object_get (Some val) (cstr ''method'')) of
          None \<Rightarrow> Some (False, s)
        | Some meth \<Rightarrow>
          let params = json_object_get (Some val) (cstr ''params'');
              i = json_object_get (Some val) (cstr ''id'')
          in if method_eq2 meth (cstr ''mining'') (cstr ''notify'') then
               map_option (\<lambda>(ret, c). (ret, s\<lparr>sess_ctx := c\<lparr>s_new_job := True\<rparr>\<rparr>))
                 (stratum_notify junk (sess_ctx s) params)
             else if method_eq2 meth (cstr ''mining'') (cstr ''ping'') then Some (stratum_pong send_ok s i)
             else if method_eq2 meth (cstr ''mining'') (cstr ''set_difficulty'') then
               Some (with_ctx s (stratum_set_difficulty (round_double env) (rpc_pass env) (sess_ctx s) params))
             else if method_eq2 meth (cstr ''mining'') (cstr ''set_extranonce'') then
               Some (with_ctx s (stratum_parse_extranonce (sess_ctx s) params 0))
             else if strcasecmp_eq meth (cstr ''client.reconnect'') then
               stratum_reconnect (opt_redirect env) s params
             else if strcasecmp_eq meth (cstr ''client.get_algo'') then
               Some (stratum_get_algo (dumps env) send_ok s i)
             else if strcasecmp_eq meth (cstr ''client.get_version'') then
               Some (stratum_get_version (dumps env) (user_agent env) send_ok s i)
             else if strcasecmp_eq meth (cstr ''client.show_message'') then
               Some (stratum_show_message (dumps env) send_ok s i)
             else Some (stratum_unknown_method (dumps env) send_ok s i)))"

section \<open>What the handlers keep\<close>

text \<open>The job's arrays have their sizes, and a job that has an id has its extranonce within its
  coinbase.\<close>

definition session_job_ok :: "stratum_ctx \<Rightarrow> bool" where
  "session_job_ok c \<longleftrightarrow> (let job = s_job c in length (j_version job) = 4 \<and> length (j_prevhash job) = 32
     \<and> length (j_ntime job) = 4 \<and> length (j_nbits job) = 4 \<and> (\<forall>b \<in> set (j_merkle job). length b = 32)
     \<and> (j_job_id job \<noteq> None \<longrightarrow> j_xnonce2 job + s_xnonce2_size c \<le> length (j_coinbase job)))"

lemma read_branches_length: "read_branches js = Some bs \<Longrightarrow> b \<in> set bs \<Longrightarrow> length b = 32"
  by (induction js arbitrary: bs) (auto simp: hex2bin_length split: option.splits if_splits)

lemma length_hex2bin_at: "off + n \<le> length cb \<Longrightarrow> length (hex2bin_at off n s cb) = length cb"
  by (simp add: hex2bin_at_def length_put_at hex2bin_length length_seg)

lemma length_realloc [simp]: "length (realloc_bytes junk old n) = n"
  by (simp add: realloc_bytes_def)

lemma notify_coinbase_fits:
  "length (fst (notify_coinbase junk c i c1 c2))
     = length c1 div 2 + length (s_xnonce1 c) + s_xnonce2_size c + length c2 div 2"
  "snd (notify_coinbase junk c i c1 c2) = length c1 div 2 + length (s_xnonce1 c)"
  by (auto simp: notify_coinbase_def Let_def length_hex2bin_at length_put_at)

lemma stratum_notify_job_ok:
  assumes "stratum_notify junk c params = Some (ret, c')" "session_job_ok c"
  shows "session_job_ok c'" "s_xnonce2_size c' = s_xnonce2_size c"
  using assms notify_coinbase_fits
  by (auto simp: stratum_notify_def session_job_ok_def Let_def case_prod_beta hex2bin_length
      dest: read_branches_length split: option.splits json.splits if_splits)

text \<open>What one request does to the parts of the session that matter for work.\<close>

lemma set_difficulty_job: "session_job_ok (snd (stratum_set_difficulty rd pass c params)) = session_job_ok c"
  by (simp add: stratum_set_difficulty_def session_job_ok_def Let_def split: option.split)

lemma disconnect_job_ok: "session_job_ok (sess_ctx s) \<Longrightarrow> session_job_ok (sess_ctx (stratum_disconnect s))"
  by (simp add: stratum_disconnect_def session_job_ok_def Let_def split: option.split)

lemma answer_ctx [simp]:
  "sess_ctx (snd (stratum_pong ok s i)) = sess_ctx s"
  "sess_ctx (snd (stratum_get_algo d ok s i)) = sess_ctx s"
  "sess_ctx (snd (stratum_get_version d ua ok s i)) = sess_ctx s"
  "sess_ctx (snd (stratum_show_message d ok s i)) = sess_ctx s"
  "sess_ctx (snd (stratum_unknown_method d ok s i)) = sess_ctx s"
  by (simp_all add: stratum_pong_def stratum_get_algo_def stratum_get_version_def stratum_show_message_def
      stratum_unknown_method_def send_answer_def Let_def)

lemma answer_keeps:
  "stratum_pong ok s i = (r, s') \<Longrightarrow> sess_ctx s' = sess_ctx s"
  "stratum_get_algo d ok s i = (r, s') \<Longrightarrow> sess_ctx s' = sess_ctx s"
  "stratum_get_version d ua ok s i = (r, s') \<Longrightarrow> sess_ctx s' = sess_ctx s"
  "stratum_show_message d ok s i = (r, s') \<Longrightarrow> sess_ctx s' = sess_ctx s"
  "stratum_unknown_method d ok s i = (r, s') \<Longrightarrow> sess_ctx s' = sess_ctx s"
  by (metis answer_ctx snd_conv)+

lemma reconnect_job_ok:
  "stratum_reconnect red s params = Some (ret, s') \<Longrightarrow> session_job_ok (sess_ctx s) \<Longrightarrow> session_job_ok (sess_ctx s')"
  by (auto simp: stratum_reconnect_def Let_def disconnect_job_ok split: option.splits if_splits)


text \<open>A session with \<open>first_job\<close> and a pool that sends \<open>set_difficulty\<close>.\<close>

definition first_session :: session where
  "first_session = \<lparr>sess_ctx = m_stratum first_miner, url = cstr ''stratum+tcp://pool.example:3333'', curl_url = [],
     curl = True, sock = True, sockbuf = Some [], sockbuf_size = 2048, sharediff = 0, last_rejected_job_id = None,
     immediate_disconnect = False, next_reconnect_time = 0, sent = []\<rparr>"

definition pool_env :: "json \<Rightarrow> method_env" where
  "pool_env val = \<lparr>loads = \<lambda>_. Some val, dumps = \<lambda>_. [], round_double = \<lambda>x. x, user_agent = cstr ''soj'',
     rpc_pass = None, opt_redirect = False\<rparr>"

definition set_difficulty_8 :: json where
  "set_difficulty_8 = JObject [(cstr ''method'', JString (cstr ''mining.set_difficulty'')), (cstr ''params'', JArray [JInt 8])]"

lemma first_session_ok: "session_job_ok (sess_ctx first_session)"
  by (simp add: first_session_def first_miner_def first_job_def session_job_ok_def)

lemma set_difficulty_8_method:
  "json_string_value (json_object_get (Some set_difficulty_8) (cstr ''method'')) = Some (cstr ''mining.set_difficulty'')"
  "\<not> method_eq2 (cstr ''mining.set_difficulty'') (cstr ''mining'') (cstr ''set_extranonce'')"
  "\<not> method_eq2 (cstr ''mining.set_difficulty'') (cstr ''mining'') (cstr ''notify'')"
  "\<not> method_eq2 (cstr ''mining.set_difficulty'') (cstr ''mining'') (cstr ''ping'')"
  "method_eq2 (cstr ''mining.set_difficulty'') (cstr ''mining'') (cstr ''set_difficulty'')"
  by code_simp+


section \<open>A job from a notification\<close>

lemma hex2bin_at_exact:
  assumes "hex_decode s = Some bs" "off + length bs \<le> length cb"
  shows "hex2bin_at off (length bs) s cb = put_at off bs cb"
  using assms hex2bin_exact[OF assms(1) refl, of "seg off (length bs) cb"]
  by (simp add: hex2bin_at_def length_seg)

lemma hex_decode_half: "hex_decode s = Some bs \<Longrightarrow> length s div 2 = length bs"
  using length_hex_decode[of s bs] by simp

text \<open>The bytes of the extranonce: zero for a new job, kept for a job sent again.\<close>

definition notify_xnonce2 :: "bytes \<Rightarrow> stratum_ctx \<Rightarrow> cstring \<Rightarrow> nat \<Rightarrow> nat \<Rightarrow> bytes" where
  "notify_xnonce2 junk c job_id off tot =
    (if j_job_id (s_job c) \<noteq> Some job_id then replicate (s_xnonce2_size c) 0
     else seg off (s_xnonce2_size c) (realloc_bytes junk (j_coinbase (s_job c)) tot))"

lemma put_four:
  assumes "length cb = length a + length b + length d + length e"
  shows "put_at (length a + length b + length d) e (put_at (length a + length b) d (put_at (length a) b (put_at 0 a cb)))
    = a @ b @ d @ e"
proof -
  have "put_at (0 + length a) b (put_at 0 a cb) = put_at 0 (a @ b) cb"
    using assms by (intro put_at_put_at_adjacent) simp
  moreover have "put_at (0 + length (a @ b)) d (put_at 0 (a @ b) cb) = put_at 0 ((a @ b) @ d) cb"
    using assms by (intro put_at_put_at_adjacent) simp
  moreover have "put_at (0 + length ((a @ b) @ d)) e (put_at 0 ((a @ b) @ d) cb) = put_at 0 (((a @ b) @ d) @ e) cb"
    using assms by (intro put_at_put_at_adjacent) simp
  ultimately show ?thesis using assms by (simp add: put_at_def add.assoc)
qed

lemma put_at_seg_same: "length pre = off \<Longrightarrow> put_at off (seg off n cb) (pre @ drop off cb) = pre @ drop off cb"
proof -
  assume l: "length pre = off"
  have "take n xs @ drop (length (take n xs)) xs = xs" for xs :: "'a list"
    by (simp add: min_def)
  from this[of "drop off cb"] show ?thesis using l by (simp add: put_at_def seg_def del: length_take)
qed

lemma notify_coinbase_eq:
  fixes c :: stratum_ctx
  assumes "hex_decode coinb1 = Some b1" "hex_decode coinb2 = Some b2"
  defines "tot \<equiv> length b1 + length (s_xnonce1 c) + s_xnonce2_size c + length b2"
  shows "notify_coinbase junk c job_id coinb1 coinb2
    = (b1 @ s_xnonce1 c @ notify_xnonce2 junk c job_id (length b1 + length (s_xnonce1 c)) tot @ b2,
       length b1 + length (s_xnonce1 c))"
proof -
  let ?cb = "realloc_bytes junk (j_coinbase (s_job c)) tot"
  let ?off = "length b1 + length (s_xnonce1 c)"
  let ?x = "notify_xnonce2 junk c job_id ?off tot"
  let ?cb1 = "put_at (length b1) (s_xnonce1 c) (put_at 0 b1 ?cb)"
  have lx: "length ?x = s_xnonce2_size c"
    by (simp add: notify_xnonce2_def tot_def length_seg)
  have "?cb1 = b1 @ s_xnonce1 c @ drop ?off ?cb"
    by (simp add: put_at_def tot_def add.commute)
  then have "(if j_job_id (s_job c) \<noteq> Some job_id then put_at ?off (replicate (s_xnonce2_size c) 0) ?cb1 else ?cb1)
      = put_at ?off ?x ?cb1"
    using put_at_seg_same[of "b1 @ s_xnonce1 c" ?off "s_xnonce2_size c" ?cb] by (simp add: notify_xnonce2_def)
  moreover have "length ?cb1 = tot"
    by (simp add: length_put_at tot_def)
  moreover have "put_at (?off + s_xnonce2_size c) b2 (put_at ?off ?x ?cb1) = b1 @ s_xnonce1 c @ ?x @ b2"
    using put_four[of ?cb b1 "s_xnonce1 c" ?x b2] lx by (simp add: tot_def)
  ultimately show ?thesis
    using assms(1,2) lx
    by (cases "j_job_id (s_job c) = Some job_id")
      (simp_all add: notify_coinbase_def Let_def hex_decode_half hex2bin_at_exact length_put_at tot_def)
qed

lemma read_branches_eq:
  "list_all2 (\<lambda>s b. hex_decode s = Some b \<and> length b = 32) ss bs \<Longrightarrow> read_branches (map JString ss) = Some bs"
proof (induction rule: list_all2_induct)
  case (Cons s ss b bs)
  then show ?case
    using length_hex_decode[of s b] hex2bin_exact[of s b 32 "replicate 32 0"] by simp
qed simp

text \<open>The parameters of a notification.\<close>

definition notify_params :: "cstring \<Rightarrow> cstring \<Rightarrow> cstring \<Rightarrow> cstring \<Rightarrow> cstring list \<Rightarrow> cstring \<Rightarrow> cstring \<Rightarrow> cstring \<Rightarrow> json \<Rightarrow> json option" where
  "notify_params job_id prevhash coinb1 coinb2 branches version nbits ntime clean = Some (JArray
    [JString job_id, JString prevhash, JString coinb1, JString coinb2, JArray (map JString branches),
     JString version, JString nbits, JString ntime, clean])"

lemma notify_params_get:
  assumes "params = notify_params job_id prevhash coinb1 coinb2 branches version nbits ntime clean"
  shows "json_array_get params 0 = Some (JString job_id)" "json_array_get params 1 = Some (JString prevhash)"
    "json_array_get params 2 = Some (JString coinb1)" "json_array_get params 3 = Some (JString coinb2)"
    "json_array_get params 4 = Some (JArray (map JString branches))" "json_array_get params 5 = Some (JString version)"
    "json_array_get params 6 = Some (JString nbits)" "json_array_get params 7 = Some (JString ntime)"
    "json_array_get params 8 = Some clean"
  by (simp_all add: assms notify_params_def)

section \<open>The height of a standard coinbase\<close>

lemma skip_while_step:
  "p < m \<Longrightarrow> p < length cb \<Longrightarrow> P (cb ! p) \<Longrightarrow> skip_while P cb p m = skip_while P cb (p + 1) m"
  by (subst skip_while.simps) (simp add: byte_at_def)

lemma skip_while_stop: "p < length cb \<Longrightarrow> \<not> P (cb ! p) \<Longrightarrow> skip_while P cb p m = Some p"
  by (subst skip_while.simps) (simp add: byte_at_def)

text \<open>Version, one input with the null previous output, script length, then the height as three bytes.\<close>

definition bip34_coinbase :: "bytes \<Rightarrow> u8 \<Rightarrow> u8 \<Rightarrow> u8 \<Rightarrow> u8 \<Rightarrow> bytes \<Rightarrow> bytes" where
  "bip34_coinbase version script_len a b c rest =
    version @ [1] @ replicate 32 0 @ replicate 4 0xff @ [script_len, 3, a, b, c] @ rest"

lemma bip34_nth:
  assumes "length v = 4" "cb = bip34_coinbase v l a b c rest"
  shows "length cb = 46 + length rest" "i \<in> {32..36} \<Longrightarrow> cb ! i = 0" "i \<in> {37..40} \<Longrightarrow> cb ! i = 0xff"
    "cb ! 41 = l" "cb ! 42 = 3" "cb ! 43 = a" "cb ! 44 = b" "cb ! 45 = c"
  using assms by (auto simp: bip34_coinbase_def nth_append nth_Cons')

lemma getblocheight_bip34:
  assumes "length v = 4" "l \<noteq> 0xff"
  shows "getblocheight (bip34_coinbase v l a b c rest) = Some (ucast (le16dec [a, b]) + 0x10000 * ucast c)"
proof -
  define cb where "cb = bip34_coinbase v l a b c rest"
  note n = bip34_nth[OF assms(1) cb_def]
  let ?m = "length cb - 2"
  have m: "44 \<le> ?m" using n(1) by simp
  have "skip_while (\<lambda>b. b \<noteq> 0xff) cb 32 ?m = Some 37"
    using n m by (simp add: skip_while_step skip_while_stop)
  moreover have "skip_while (\<lambda>b. b = 0xff) cb 37 ?m = Some 41"
    using n m assms(2) by (simp add: skip_while_step skip_while_stop)
  ultimately show ?thesis
    unfolding cb_def[symmetric] using n
    by (simp add: getblocheight_def byte_at_def le16_at_def Let_def)
qed

text \<open>C12: a well-formed \<open>mining.notify\<close> replaces the whole job: every field is the decoded
  parameter, the coinbase is first part, extranonce1, extranonce2 and second part with the extranonce2 at the
  recorded position (zero for a new job id, kept for a repeated one), the difficulty is the one
  announced last, and the height is read from the coinbase.\<close>

theorem stratum_notify_builds_job:
  assumes "session_job_ok c"
    and "hex_decode prevhash = Some ph" "length ph = 32" "hex_decode coinb1 = Some b1" "hex_decode coinb2 = Some b2"
    and "list_all2 (\<lambda>s b. hex_decode s = Some b \<and> length b = 32) branches bs"
    and "hex_decode version = Some v" "length v = 4" "hex_decode nbits = Some nb" "length nb = 4"
    and "hex_decode ntime = Some nt" "length nt = 4"
    and "x = notify_xnonce2 junk c job_id (length b1 + length (s_xnonce1 c))
          (length b1 + length (s_xnonce1 c) + s_xnonce2_size c + length b2)"
    and "getblocheight (b1 @ s_xnonce1 c @ x @ b2) = Some height"
  shows "stratum_notify junk c (notify_params job_id prevhash coinb1 coinb2 branches version nbits ntime clean) =
    Some (True, c\<lparr>s_job := \<lparr>j_prevhash = ph, j_job_id = Some job_id, j_coinbase = b1 @ s_xnonce1 c @ x @ b2,
        j_xnonce2 = length b1 + length (s_xnonce1 c), j_merkle = bs, j_version = v, j_nbits = nb, j_ntime = nt,
        j_diff = s_next_diff c, j_clean = (clean = JTrue)\<rparr>, s_block_height := sint height\<rparr>)"
proof -
  let ?p = "notify_params job_id prevhash coinb1 coinb2 branches version nbits ntime clean"
  note lens = length_hex_decode[OF assms(2)] length_hex_decode[OF assms(7)] length_hex_decode[OF assms(9)]
    length_hex_decode[OF assms(11)]
  have buf: "length (j_version (s_job c)) = 4" "length (j_prevhash (s_job c)) = 32" "length (j_ntime (s_job c)) = 4"
    "length (j_nbits (s_job c)) = 4"
    using assms(1) by (simp_all add: session_job_ok_def Let_def)
  have h: "snd (hex2bin (j_version (s_job c)) (Some version) 4) = v" "snd (hex2bin (j_nbits (s_job c)) (Some nbits) 4) = nb"
    "snd (hex2bin (j_ntime (s_job c)) (Some ntime) 4) = nt" "snd (hex2bin (j_prevhash (s_job c)) (Some prevhash) 32) = ph"
    using assms buf by (simp_all add: hex2bin_exact)
  have cb: "notify_coinbase junk c job_id coinb1 coinb2 = (b1 @ s_xnonce1 c @ x @ b2, length b1 + length (s_xnonce1 c))"
    using notify_coinbase_eq[OF assms(4,5), of junk c job_id] assms(13) by simp
  show ?thesis
    using lens assms(3,8,10,12,14) h
    unfolding stratum_notify_def notify_params_get[OF refl] Let_def
    by (simp add: read_branches_eq[OF assms(6)] cb json_is_true_def)
qed

theorem stratum_notify_builds_job_witness:
  "\<exists>c'. let b1 = bip34_coinbase [2, 0, 0, 0] 9 0x10 0x27 0x0b [7]; z = replicate 32 1 in
    stratum_notify [] (m_stratum first_miner) (notify_params (cstr ''80'') (bin2hex z 32) (bin2hex b1 (length b1))
      (bin2hex [5, 6] 2) [bin2hex z 32] (bin2hex [0x20, 0, 0, 0] 4) (bin2hex [0x1d, 0, 0xff, 0xff] 4)
      (bin2hex [0x6a, 1, 2, 4] 4) JTrue) = Some (True, c')
    \<and> j_coinbase (s_job c') = b1 @ [9] @ [0, 0] @ [5, 6] \<and> j_merkle (s_job c') = [z] \<and> j_xnonce2 (s_job c') = 48"
proof -
  let ?b1 = "bip34_coinbase [2, 0, 0, 0] 9 0x10 0x27 0x0b [7]" and ?z = "replicate 32 1 :: bytes"
  let ?c = "m_stratum first_miner"
  have ok: "session_job_ok ?c" using first_session_ok by (simp add: first_session_def)
  have l: "length ?b1 = 47" by (simp add: bip34_coinbase_def)
  have x: "notify_xnonce2 [] ?c (cstr ''80'') n k = [0, 0]" for n k
    by (simp add: notify_xnonce2_def first_miner_def first_job_def cstr_def numeral_2_eq_2)
  have f: "s_xnonce1 ?c = [9]" "s_xnonce2_size ?c = 2" by (simp_all add: first_miner_def)
  have "?b1 @ [9] @ [0, 0] @ [5, 6] = bip34_coinbase [2, 0, 0, 0] 9 0x10 0x27 0x0b [7, 9, 0, 0, 5, 6]"
    by (simp add: bip34_coinbase_def)
  then obtain h where h: "getblocheight (?b1 @ s_xnonce1 ?c @ [0, 0] @ [5, 6]) = Some h"
    using getblocheight_bip34[of "[2, 0, 0, 0]" 9 "0x10" "0x27" "0x0b" "[7, 9, 0, 0, 5, 6]"] f by simp
  have d: "hex_decode (bin2hex b (length b)) = Some b" for b by (rule hex_decode_bin2hex)
  have d': "hex_decode (bin2hex ?z 32) = Some ?z" "hex_decode (bin2hex [p, q] 2) = Some [p, q]"
    "hex_decode (bin2hex [p, q, r, s] 4) = Some [p, q, r, s]" for p q r s
    subgoal using d[of ?z] by simp
    subgoal using d[of "[p, q]"] by (simp add: numeral_2_eq_2)
    subgoal using d[of "[p, q, r, s]"] by (simp add: eval_nat_numeral)
    done
  let ?c' = "?c\<lparr>s_job := \<lparr>j_prevhash = ?z, j_job_id = Some (cstr ''80''),
        j_coinbase = ?b1 @ s_xnonce1 ?c @ [0, 0] @ [5, 6], j_xnonce2 = length ?b1 + length (s_xnonce1 ?c), j_merkle = [?z],
        j_version = [0x20, 0, 0, 0], j_nbits = [0x1d, 0, 0xff, 0xff], j_ntime = [0x6a, 1, 2, 4],
        j_diff = s_next_diff ?c, j_clean = (JTrue = JTrue)\<rparr>, s_block_height := sint h\<rparr>"
  have "stratum_notify [] ?c (notify_params (cstr ''80'') (bin2hex ?z 32) (bin2hex ?b1 (length ?b1))
      (bin2hex [5, 6] 2) [bin2hex ?z 32] (bin2hex [0x20, 0, 0, 0] 4) (bin2hex [0x1d, 0, 0xff, 0xff] 4)
      (bin2hex [0x6a, 1, 2, 4] 4) JTrue) = Some (True, ?c')"
    using d[of ?b1] h by (intro stratum_notify_builds_job[OF ok]) (simp_all add: d' x)
  then show ?thesis unfolding Let_def using f l by (intro exI[of _ ?c']) simp
qed

section \<open>Where a request leaves the session unusable\<close>

text \<open>C38: \<open>mining.set_extranonce\<close> changes the extranonce sizes under the current job without
  rebuilding its coinbase.  When the new extranonce2 no longer fits between its position and the
  end of the coinbase, the next \<open>stratum_gen_work\<close> reads past the coinbase.\<close>

theorem set_extranonce_breaks_job:
  assumes "json_string_value (json_array_get params 0) = Some xn1"
    and "json_array_get params 1 = Some (JInt n)" "2 \<le> n" "n \<le> 16"
    and "length (j_coinbase (s_job c)) < j_xnonce2 (s_job c) + nat n"
  shows "\<exists>c'. stratum_parse_extranonce c params 0 = (True, c')
    \<and> stratum_gen_work gate hs rl rd tf df rates sha (m\<lparr>m_stratum := c'\<rparr>) = None"
proof -
  have n: "to_int32 n = n"
    using assms(3,4) by (simp add: to_int32_def signed_of_int signed_take_bit_int_eq_self)
  define c' where "c' = c\<lparr>s_xnonce1 := snd (hex2bin (replicate (length xn1 div 2) 0) (Some xn1) (length xn1 div 2)),
    s_xnonce2_size := nat n\<rparr>"
  have "stratum_parse_extranonce c params 0 = (True, c')"
    using assms n by (simp add: stratum_parse_extranonce_def c'_def Let_def)
  moreover have "job_xnonce2 (c'\<lparr>s_new_job := False\<rparr>) = None"
    using assms(5) by (simp add: job_xnonce2_def c'_def)
  then have "stratum_gen_work gate hs rl rd tf df rates sha (m\<lparr>m_stratum := c'\<rparr>) = None"
    by (simp add: stratum_gen_work_def Let_def bind_eq_None_conv)
  ultimately show ?thesis by blast
qed

theorem set_extranonce_breaks_job_witness:
  "\<exists>c'. stratum_parse_extranonce (m_stratum first_miner) (Some (JArray [JString (cstr ''ab''), JInt 8])) 0 = (True, c')
    \<and> stratum_gen_work algo_gate True (\<lambda>x. x) (\<lambda>x. x) 1 1 [] undefined (first_miner\<lparr>m_stratum := c'\<rparr>) = None"
  by (rule set_extranonce_breaks_job[where n = 8 and ?xn1.0 = "cstr ''ab''"]) (simp_all add: first_miner_def first_job_def)


definition bad_notify :: json where
  "bad_notify = JObject [(cstr ''method'', JString (cstr ''mining.notify'')),
     (cstr ''params'', the (notify_params (cstr ''81'') (replicate 64 48) [] [] [cstr ''zz''] (bin2hex [0, 0, 0, 9] 4)
        (replicate 8 48) (replicate 8 48) JTrue))]"


section \<open>Redirection\<close>

lemma reconnect_url_length:
  "reconnect_url old host port = Some u \<Longrightarrow> length u \<le> 16 + length host + length (fmt_d port)"
proof -
  assume u: "reconnect_url old host port = Some u"
  have at: "strstr_at s p = Some i \<Longrightarrow> i + length p \<le> length s" for s p i
    by (induction s arbitrary: i) (auto split: if_splits dest: arg_cong[where f = length])
  from u obtain i where "strstr_at (take 15 old) (cstr ''://'') = Some i" "u = take (i + 3) old @ host @ 58 # fmt_d port"
    by (auto simp: reconnect_url_def split: option.splits)
  then show ?thesis using at[of "take 15 old" "cstr ''://''" i] by simp
qed

text \<open>The URL \<open>client.reconnect\<close> composes fits, with its terminator, the
  \<open>32 + strlen (host)\<close> bytes allocated for it, whatever host and port the pool sends; and the
  redirection is followed only when it is enabled.\<close>

theorem stratum_reconnect_fits:
  assumes "stratum_reconnect red s params = Some (ret, s')" "ret"
    and "json_string_value (json_array_get params 0) = Some host"
  shows "(if red then length (url s') + 1 \<le> 32 + length host else s' = s)"
proof -
  have d: "stratum_disconnect (s\<lparr>url := z\<rparr>) = t \<Longrightarrow> url t = z" for s z t
    by (auto simp: stratum_disconnect_def Let_def split: option.split)
  have d': "url (stratum_disconnect x) = url x" for x
    by (simp add: stratum_disconnect_def Let_def split: option.split)
  let ?port = "case json_string_value (json_array_get params 1) of Some p \<Rightarrow> atoi p
    | None \<Rightarrow> to_int32 (json_integer_value (json_array_get params 1))"
  have "- (2 ^ 31) \<le> ?port \<and> ?port < 2 ^ 31"
    using to_int32_range by (auto simp: atoi_def Let_def split: option.split prod.split)
  then have "length (fmt_d ?port) \<le> 11" using fmt_d_length by blast
  then show ?thesis
    using assms reconnect_url_length[of "url s" host ?port]
    by (auto simp: stratum_reconnect_def Let_def d' dest!: d split: option.splits if_splits)
qed

theorem stratum_reconnect_fits_witness:
  "\<exists>s'. stratum_reconnect True first_session (Some (JArray [JString (cstr ''other''), JInt 3334])) = Some (True, s')
    \<and> length (url s') + 1 \<le> 32 + length (cstr ''other'')"
proof -
  have "case stratum_reconnect True first_session (Some (JArray [JString (cstr ''other''), JInt 3334])) of
      Some (r, s') \<Rightarrow> r | None \<Rightarrow> False"
    by code_simp
  then obtain s' where s': "stratum_reconnect True first_session (Some (JArray [JString (cstr ''other''), JInt 3334])) = Some (True, s')"
    by (auto split: option.splits)
  show ?thesis
    using s' stratum_reconnect_fits[OF s', of "cstr ''other''"] by simp
qed

end
