(* ===== verification/Soj_Transport.thy ===== *)
theory Soj_Transport
  imports Soj_Methods
begin

text \<open>The connection to the pool, from \<open>soj_stratum_transport.c\<close>: sending and receiving
  lines, connecting, subscribing, authorizing and reauthenticating.  What the network, the clock
  and \<open>libcurl\<close> answer is a script: each call that asks takes the next event, and a script
  that does not fit (or an access through a null pointer) gives \<open>None\<close>.  Sleeping and
  logging leave no trace.\<close>

section \<open>Events\<close>

text \<open>\<open>Readable\<close> and \<open>Writable\<close> answer \<open>select\<close>; a receive gives bytes, nothing yet, the end
  of the stream or an error; a send says how many bytes went out.  \<open>Socket\<close> is whether
  \<open>curl_easy_getinfo\<close> succeeded and whether the socket is valid, \<open>Peeked\<close> whether the peer has
  closed.  \<open>Handled\<close> stands for what happens inside \<open>stratum_handle_method\<close>: the content
  of fresh memory and whether an answer could be sent; \<open>Clock\<close> is \<open>time\<close> and \<open>TimeOfDay\<close>
  \<open>gettimeofday\<close>.\<close>

datatype event =
    Readable bool | Writable bool | Clock int
  | Received cstring | NoData | Closed | Broken
  | Sent nat | SendBusy | SendBroken
  | CurlInit bool | Performed bool | Socket bool bool | Peeked bool
  | Handled bytes bool
  | TimeOfDay int int

fun next_clock :: "event list \<Rightarrow> (int \<times> event list) option" where
  "next_clock (Clock t # ev) = Some (t, ev)"
| "next_clock _ = None"

fun next_flag :: "(event \<Rightarrow> bool option) \<Rightarrow> event list \<Rightarrow> (bool \<times> event list) option" where
  "next_flag g (e # ev) = map_option (\<lambda>b. (b, ev)) (g e)"
| "next_flag g [] = None"

fun readable :: "event \<Rightarrow> bool option" where "readable (Readable b) = Some b" | "readable _ = None"
fun writable :: "event \<Rightarrow> bool option" where "writable (Writable b) = Some b" | "writable _ = None"
fun curl_inited :: "event \<Rightarrow> bool option" where "curl_inited (CurlInit b) = Some b" | "curl_inited _ = None"
fun performed :: "event \<Rightarrow> bool option" where "performed (Performed b) = Some b" | "performed _ = None"
fun peeked :: "event \<Rightarrow> bool option" where "peeked (Peeked b) = Some b" | "peeked _ = None"

fun next_socket :: "event list \<Rightarrow> (bool \<times> bool \<times> event list) option" where
  "next_socket (Socket rc_ok valid # ev) = Some (rc_ok, valid, ev)"
| "next_socket _ = None"

fun next_handled :: "event list \<Rightarrow> (bytes \<times> bool \<times> event list) option" where
  "next_handled (Handled junk send_ok # ev) = Some (junk, send_ok, ev)"
| "next_handled _ = None"

fun next_timeofday :: "event list \<Rightarrow> ((int \<times> int) \<times> event list) option" where
  "next_timeofday (TimeOfDay sec usec # ev) = Some ((sec, usec), ev)"
| "next_timeofday _ = None"

section \<open>State\<close>

text \<open>The session and the globals of the file: the failure counter and the end of the pause, the
  \<open>--no-extranonce\<close> option, and the flags of reauthentication.\<close>

record transport =
  t_session :: session
  t_failures :: int
  t_pause_until :: int
  t_extranonce :: bool
  t_down :: bool
  t_reauth_in_progress :: bool
  t_suspended :: bool
  t_pre_reauth_job_id :: cstring
  t_rejection_epoch :: u64
  t_last_ban_check :: int
  t_ban_failures :: int

abbreviation on_session :: "(session \<Rightarrow> session) \<Rightarrow> transport \<Rightarrow> transport" where
  "on_session f t \<equiv> t\<lparr>t_session := f (t_session t)\<rparr>"

section \<open>Sending\<close>

text \<open>\<open>len\<close> counts the bytes of the line and its newline still to send.\<close>

fun send_loop :: "session \<Rightarrow> nat \<Rightarrow> event list \<Rightarrow> (bool \<times> event list) option" where
  "send_loop s len ev =
    (if len = 0 then Some (True, ev)
     else if \<not> sock s then Some (False, ev)
     else case ev of
       Writable False # ev \<Rightarrow> Some (False, ev)
     | Writable True # Sent n # ev \<Rightarrow> send_loop s (len - n) ev
     | Writable True # SendBusy # ev \<Rightarrow> send_loop s len ev
     | Writable True # SendBroken # ev \<Rightarrow> Some (False, ev)
     | _ \<Rightarrow> None)"

declare send_loop.simps [simp del]

definition stratum_send_line :: "session \<Rightarrow> cstring \<Rightarrow> event list \<Rightarrow> (bool \<times> session \<times> event list) option" where
  "stratum_send_line s line ev = do {
     (ok, ev) \<leftarrow> send_loop s (length line + 1) ev;
     Some (ok, if ok then s\<lparr>sent := sent s @ [line]\<rparr> else s, ev) }"

section \<open>Receiving\<close>

definition socket_full :: "session \<Rightarrow> event list \<Rightarrow> (bool \<times> event list) option" where
  "socket_full s ev = (if \<not> sock s then Some (False, ev) else next_flag readable ev)"

definition stratum_socket_full :: "session \<Rightarrow> event list \<Rightarrow> (bool \<times> event list) option" where
  "stratum_socket_full s ev = do {
     b \<leftarrow> sockbuf s;
     if b \<noteq> [] then Some (True, ev) else socket_full s ev }"

definition RBUFSIZE :: nat where "RBUFSIZE = 2048"

definition stratum_buffer_append :: "session \<Rightarrow> cstring \<Rightarrow> session option" where
  "stratum_buffer_append s x = do {
     b \<leftarrow> sockbuf s;
     let n = length b + length x + 1;
     let s = (if n \<ge> sockbuf_size s then s\<lparr>sockbuf_size := n + (RBUFSIZE - n mod RBUFSIZE)\<rparr> else s);
     Some (s\<lparr>sockbuf := Some (b @ x)\<rparr>) }"

text \<open>One turn of the receiving loop; \<open>False\<close> is the failing exit.  The received bytes are
  appended as a C string, up to the first zero byte.\<close>

definition recv_step :: "session \<Rightarrow> event list \<Rightarrow> (bool \<times> session \<times> event list) option" where
  "recv_step s ev =
    (case ev of
       Closed # ev \<Rightarrow> Some (False, s, ev)
     | Broken # ev \<Rightarrow> Some (False, s, ev)
     | NoData # ev \<Rightarrow> map_option (\<lambda>(full, ev). (full, s, ev)) (socket_full s ev)
     | Received x # ev \<Rightarrow> map_option (\<lambda>s. (True, s, ev)) (stratum_buffer_append s (takeWhile (\<lambda>c. c \<noteq> 0) x))
     | _ \<Rightarrow> None)"

definition rx_text :: "session \<Rightarrow> cstring" where
  "rx_text s = (case sockbuf s of None \<Rightarrow> [] | Some b \<Rightarrow> b)"

lemma next_flag_less: "next_flag g ev = Some (b, ev') \<Longrightarrow> length ev' < length ev"
  by (cases ev) auto

lemma next_clock_less: "next_clock ev = Some (now, ev') \<Longrightarrow> length ev' < length ev"
  by (cases ev rule: next_clock.cases) auto

lemma socket_full_le: "socket_full s ev = Some (b, ev') \<Longrightarrow> length ev' \<le> length ev"
  by (auto simp: socket_full_def dest: next_flag_less split: if_splits)

lemma recv_step_less: "recv_step s ev = Some (ok, s', ev') \<Longrightarrow> length ev' < length ev"
  by (auto simp: recv_step_def dest!: socket_full_le split: list.splits event.splits)

function recv_loop :: "session \<Rightarrow> int \<Rightarrow> event list \<Rightarrow> (bool \<times> session \<times> event list) option" where
  "recv_loop s rstart ev = do {
     (ok, s, ev) \<leftarrow> recv_step s ev;
     if \<not> ok then Some (False, s, ev)
     else do {
       (now, ev) \<leftarrow> next_clock ev;
       if now - rstart < 60 \<and> 10 \<notin> set (rx_text s) then recv_loop s rstart ev else Some (True, s, ev) } }"
  by auto
termination
  by (relation "measure (\<lambda>(s, rstart, ev). length ev)") (auto dest!: recv_step_less next_clock_less)

declare recv_loop.simps [simp del]

text \<open>A failure is counted; the second one in a row also disconnects, and the third starts a pause until the next
  multiple of 240 seconds and clears the counter.\<close>

definition note_failure :: "transport \<Rightarrow> event list \<Rightarrow> (transport \<times> event list) option" where
  "note_failure t ev =
    (let t = t\<lparr>t_failures := t_failures t + 1\<rparr>;
         t = (if t_failures t \<ge> 2 then on_session stratum_disconnect t else t)
     in if t_failures t \<ge> 3 then do {
          (now, ev) \<leftarrow> next_clock ev;
          Some (t\<lparr>t_pause_until := (now div 240 + 1) * 240, t_failures := 0\<rparr>, ev) }
        else Some (t, ev))"

definition take_line :: "transport \<Rightarrow> event list \<Rightarrow> (cstring option \<times> transport \<times> event list) option" where
  "take_line t ev =
    (let b = rx_text (t_session t)
     in if 10 \<notin> set b then do { (t, ev) \<leftarrow> note_failure t ev; Some (None, t, ev) }
        else Some (Some (takeWhile (\<lambda>c. c \<noteq> 10) b),
               on_session (\<lambda>s. s\<lparr>sockbuf := Some (tl (dropWhile (\<lambda>c. c \<noteq> 10) b))\<rparr>) t\<lparr>t_failures := 0\<rparr>, ev))"

definition stratum_recv_line :: "transport \<Rightarrow> event list \<Rightarrow> (cstring option \<times> transport \<times> event list) option" where
  "stratum_recv_line t ev = do {
     b \<leftarrow> sockbuf (t_session t);
     if 10 \<in> set b then take_line t ev
     else do {
       (rstart, ev) \<leftarrow> next_clock ev;
       (full, ev) \<leftarrow> socket_full (t_session t) ev;
       if \<not> full then Some (None, t, ev)
       else do {
         (ret, s, ev) \<leftarrow> recv_loop (t_session t) rstart ev;
         let t = t\<lparr>t_session := s\<rparr>;
         if \<not> ret then do { (t, ev) \<leftarrow> note_failure t ev; Some (None, t, ev) }
         else take_line t ev } } }"

section \<open>Connecting\<close>

text \<open>The URL for \<open>libcurl\<close>: the scheme is replaced, and what follows kept from its
  \<open>://\<close>.  The buffer has as many bytes as the old URL; writing more is undefined.\<close>

definition curl_scheme :: "cstring \<Rightarrow> cstring" where
  "curl_scheme u =
    (if strstr_at u (cstr ''s://'') \<noteq> None \<or> strstr_at u (cstr ''ssl://'') \<noteq> None then cstr ''https'' else cstr ''http'')"

definition make_curl_url :: "cstring \<Rightarrow> cstring option" where
  "make_curl_url u = do {
     i \<leftarrow> strstr_at u (cstr ''://'');
     let r = curl_scheme u @ drop i u;
     if length r + 1 \<le> length u then Some r else None }"

definition drop_curl :: "transport \<Rightarrow> transport" where
  "drop_curl t = on_session (\<lambda>s. s\<lparr>curl := False\<rparr>) t"

definition stratum_connect :: "cstring \<Rightarrow> transport \<Rightarrow> event list \<Rightarrow> (bool \<times> transport \<times> event list) option" where
  "stratum_connect u t ev = do {
     (ok, ev) \<leftarrow> next_flag curl_inited ev;
     let t = on_session (\<lambda>s. s\<lparr>curl := ok\<rparr>) t;
     if \<not> ok then Some (False, t, ev)
     else do {
       let t = (if sockbuf (t_session t) = None then on_session (\<lambda>s. s\<lparr>sockbuf_size := RBUFSIZE\<rparr>) t else t);
       let t = on_session (\<lambda>s. s\<lparr>sockbuf := Some [], url := u\<rparr>) t;
       cu \<leftarrow> make_curl_url u;
       let t = on_session (\<lambda>s. s\<lparr>curl_url := cu\<rparr>) t;
       (done, ev) \<leftarrow> next_flag performed ev;
       if \<not> done then Some (False, drop_curl t, ev)
       else do {
         (cooling, ev) \<leftarrow> (if immediate_disconnect (t_session t) then do {
             (now, ev) \<leftarrow> next_clock ev; Some (now < next_reconnect_time (t_session t), ev) } else Some (False, ev));
         if cooling then Some (False, drop_curl t, ev)
         else do {
           (rc_ok, valid, ev) \<leftarrow> next_socket ev;
           let t = on_session (\<lambda>s. s\<lparr>sock := valid\<rparr>) t;
           if \<not> rc_ok \<or> \<not> valid then Some (False, drop_curl t, ev)
           else do {
             let t = on_session (\<lambda>s. s\<lparr>immediate_disconnect := False\<rparr>) t;
             (sel, ev) \<leftarrow> next_flag readable ev;
             (closed, ev) \<leftarrow> (if sel then next_flag peeked ev else Some (False, ev));
             if closed then do {
               (now, ev) \<leftarrow> next_clock ev;
               Some (False, drop_curl (on_session (\<lambda>s. s\<lparr>immediate_disconnect := True,
                 next_reconnect_time := now + 180\<rparr>) t), ev) }
             else Some (True, t, ev) } } } } }"

section \<open>Subscribing\<close>

definition subscribe_request :: "cstring \<Rightarrow> bool \<Rightarrow> cstring option \<Rightarrow> cstring" where
  "subscribe_request agent retry sid =
    cstr ''{\"id\":1,\"method\":\"mining.subscribe\",\"params\":['' @
    (if retry then []
     else case sid of
       Some i \<Rightarrow> [34] @ agent @ cstr ''\",\"'' @ i @ [34]
     | None \<Rightarrow> [34] @ agent @ [34]) @ cstr '']}''"

text \<open>One attempt: whether it succeeded, and whether a line was received.\<close>

definition subscribe_once :: "method_env \<Rightarrow> bool \<Rightarrow> transport \<Rightarrow> event list \<Rightarrow> (bool \<times> bool \<times> transport \<times> event list) option" where
  "subscribe_once env retry t ev = do {
     let line = subscribe_request (user_agent env) retry (s_session_id (sess_ctx (t_session t)));
     (ok, s, ev) \<leftarrow> stratum_send_line (t_session t) line ev;
     let t = t\<lparr>t_session := s\<rparr>;
     if \<not> ok then Some (False, False, t, ev)
     else do {
       (full, ev) \<leftarrow> socket_full s ev;
       if \<not> full then Some (False, False, t, ev)
       else do {
         (sret, t, ev) \<leftarrow> stratum_recv_line t ev;
         case sret of
           None \<Rightarrow> Some (False, False, t, ev)
         | Some line \<Rightarrow>
             (case loads env line of
                None \<Rightarrow> Some (False, True, t, ev)
              | Some val \<Rightarrow>
                  let res_val = json_object_get (Some val) (cstr ''result'');
                      err_val = json_object_get (Some val) (cstr ''error'')
                  in if res_val = None \<or> json_is_null res_val \<or> (err_val \<noteq> None \<and> \<not> json_is_null err_val)
                     then Some (False, True, t, ev)
                     else
                       let c = (sess_ctx (t_session t))\<lparr>s_session_id := get_stratum_session_id res_val, s_next_diff := 1\<rparr>;
                           (ok, c) = stratum_parse_extranonce c res_val 1
                       in Some (ok, True, on_session (\<lambda>s. s\<lparr>sess_ctx := c\<rparr>) t, ev)) } } }"

definition stratum_subscribe :: "method_env \<Rightarrow> transport \<Rightarrow> event list \<Rightarrow> (bool \<times> transport \<times> event list) option" where
  "stratum_subscribe env t ev =
    (if \<not> sock (t_session t) then Some (False, t, ev)
     else do {
       (ret, got, t, ev) \<leftarrow> subscribe_once env False t ev;
       if \<not> ret \<and> got then do {
         (ret, got, t, ev) \<leftarrow> subscribe_once env True t ev;
         Some (ret, t, ev) }
       else Some (ret, t, ev) })"

section \<open>Authorizing\<close>

definition handle_method :: "method_env \<Rightarrow> cstring \<Rightarrow> transport \<Rightarrow> event list \<Rightarrow> (bool \<times> transport \<times> event list) option" where
  "handle_method env line t ev = do {
     (junk, send_ok, ev) \<leftarrow> next_handled ev;
     (ret, s) \<leftarrow> stratum_handle_method env junk send_ok (t_session t) line;
     Some (ret, t\<lparr>t_session := s\<rparr>, ev) }"

lemma handle_method_less: "handle_method env line t ev = Some (ret, t', ev') \<Longrightarrow> length ev' < length ev"
  by (cases ev rule: next_handled.cases) (auto simp: handle_method_def bind_eq_Some_conv)

lemma recv_loop_cases:
  assumes "recv_loop s r ev = Some (ok, s', ev')"
  obtains (fail) "recv_step s ev = Some (False, s', ev')" "\<not> ok"
  | (again) s1 ev1 now ev2 where "recv_step s ev = Some (True, s1, ev1)" "next_clock ev1 = Some (now, ev2)"
      "now - r < 60" "10 \<notin> set (rx_text s1)" "recv_loop s1 r ev2 = Some (ok, s', ev')"
  | (complete) ev1 now where "recv_step s ev = Some (True, s', ev1)" "next_clock ev1 = Some (now, ev')"
      "60 \<le> now - r \<or> 10 \<in> set (rx_text s')" ok
proof -
  obtain ok1 s1 ev1 where 1: "recv_step s ev = Some (ok1, s1, ev1)"
    using assms by (cases "recv_step s ev") (auto simp: recv_loop.simps[of s r ev])
  note eq = assms[unfolded recv_loop.simps[of s r ev] 1]
  show thesis
  proof (cases ok1)
    case True
    then obtain now ev2 where 2: "next_clock ev1 = Some (now, ev2)"
      using eq by (cases "next_clock ev1") auto
    show thesis
    proof (cases "now - r < 60 \<and> 10 \<notin> set (rx_text s1)")
      case run: True
      then show thesis using eq 1 2 True by (intro again[of s1 ev1 now ev2]) simp_all
    next
      case False
      then show thesis using eq 1 2 True by (intro complete[of ev1 now]) auto
    qed
  qed (use eq 1 fail in auto)
qed

text \<open>What a turn of the loop keeps, the loop keeps.\<close>

lemma recv_loop_rule:
  assumes "recv_loop s r ev = Some (ok, s', ev')" "P s ev"
    and step: "\<And>s ev ok s' ev'. recv_step s ev = Some (ok, s', ev') \<Longrightarrow> P s ev \<Longrightarrow> P s' ev'"
    and clock: "\<And>s ev now ev'. next_clock ev = Some (now, ev') \<Longrightarrow> P s ev \<Longrightarrow> P s ev'"
  shows "P s' ev'"
  using assms(1,2)
proof (induction "length ev" arbitrary: s ev rule: less_induct)
  case less
  from less.prems(1) show ?case
  proof (cases rule: recv_loop_cases)
    case (again s1 ev1 now ev2)
    have "length ev2 < length ev" using again recv_step_less next_clock_less by fastforce
    then show ?thesis using less.hyps[OF _ again(5)] again(1,2) step clock less.prems(2) by blast
  qed (use step clock less.prems(2) in blast)+
qed

lemma recv_loop_le: "recv_loop s r ev = Some (ok, s', ev') \<Longrightarrow> length ev' \<le> length ev"
  by (erule recv_loop_rule[where P = "\<lambda>_ e. length e \<le> length ev"])
    (auto dest!: recv_step_less next_clock_less)

lemma note_failure_le: "note_failure t ev = Some (t', ev') \<Longrightarrow> length ev' \<le> length ev"
  by (auto simp: note_failure_def Let_def bind_eq_Some_conv dest!: next_clock_less split: if_splits)

lemma take_line_le: "take_line t ev = Some (l, t', ev') \<Longrightarrow> length ev' \<le> length ev"
  by (auto simp: take_line_def Let_def bind_eq_Some_conv dest: note_failure_le split: if_splits)

lemma recv_line_le: "stratum_recv_line t ev = Some (l, t', ev') \<Longrightarrow> length ev' \<le> length ev"
  by (fastforce simp: stratum_recv_line_def Let_def bind_eq_Some_conv
      dest!: note_failure_le take_line_le recv_loop_le next_clock_less socket_full_le split: if_splits)

text \<open>Lines that are requests of the pool are handled until one is not: the answer.\<close>

function await_answer :: "method_env \<Rightarrow> transport \<Rightarrow> event list \<Rightarrow> (cstring option \<times> transport \<times> event list) option" where
  "await_answer env t ev = do {
     (sret, t, ev) \<leftarrow> stratum_recv_line t ev;
     case sret of
       None \<Rightarrow> Some (None, t, ev)
     | Some line \<Rightarrow> do {
         (handled, t, ev) \<leftarrow> handle_method env line t ev;
         if handled then await_answer env t ev else Some (Some line, t, ev) } }"
  by auto
termination
  by (relation "measure (\<lambda>(env, t, ev). length ev)") (auto dest!: recv_line_le handle_method_less)

declare await_answer.simps [simp del]

definition authorize_request :: "cstring \<Rightarrow> cstring \<Rightarrow> cstring" where
  "authorize_request user pass =
    cstr ''{\"id\":2,\"method\":\"mining.authorize\",\"params\":[\"'' @ user @ cstr ''\",\"'' @ pass @ cstr ''\"]}''"

definition extranonce_request :: cstring where
  "extranonce_request = cstr ''{\"id\":3,\"method\":\"mining.extranonce.subscribe\",\"params\":[]}''"

text \<open>Asking for extranonce changes is optional: whatever becomes of it, the session is authorized.\<close>

definition subscribe_extranonce :: "method_env \<Rightarrow> transport \<Rightarrow> event list \<Rightarrow> (transport \<times> event list) option" where
  "subscribe_extranonce env t ev = do {
     (ok, s, ev) \<leftarrow> stratum_send_line (t_session t) extranonce_request ev;
     let t = t\<lparr>t_session := s\<rparr>;
     if \<not> ok then Some (t, ev)
     else do {
       (full, ev) \<leftarrow> socket_full s ev;
       if \<not> full then Some (t\<lparr>t_extranonce := False\<rparr>, ev)
       else do {
         (sret, t, ev) \<leftarrow> stratum_recv_line t ev;
         case sret of
           None \<Rightarrow> Some (t, ev)
         | Some line \<Rightarrow>
             (case loads env line of
                None \<Rightarrow> Some (t, ev)
              | Some extra \<Rightarrow>
                  if json_integer_value (json_object_get (Some extra) (cstr ''id'')) \<noteq> 3
                  then do { (handled, t, ev) \<leftarrow> handle_method env line t ev; Some (t, ev) }
                  else Some (t, ev)) } } }"

definition stratum_authorize :: "method_env \<Rightarrow> cstring \<Rightarrow> cstring \<Rightarrow> transport \<Rightarrow> event list \<Rightarrow> (bool \<times> transport \<times> event list) option" where
  "stratum_authorize env user pass t ev = do {
     (ok, s, ev) \<leftarrow> stratum_send_line (t_session t) (authorize_request user pass) ev;
     let t = t\<lparr>t_session := s\<rparr>;
     if \<not> ok then Some (False, t, ev)
     else do {
       (sret, t, ev) \<leftarrow> await_answer env t ev;
       case sret of
         None \<Rightarrow> Some (False, t, ev)
       | Some line \<Rightarrow>
           (case loads env line of
              None \<Rightarrow> Some (False, t, ev)
            | Some val \<Rightarrow>
                let res_val = json_object_get (Some val) (cstr ''result'');
                    err_val = json_object_get (Some val) (cstr ''error'')
                in if res_val = None \<or> json_is_false res_val \<or> (err_val \<noteq> None \<and> \<not> json_is_null err_val)
                   then Some (False, t, ev)
                   else if \<not> t_extranonce t then Some (True, t, ev)
                   else do { (t, ev) \<leftarrow> subscribe_extranonce env t ev; Some (True, t, ev) }) } }"

text \<open>\<open>fmt_f\<close> prints a double as \<open>%f\<close> does.\<close>

definition stratum_suggest_difficulty :: "(rat \<Rightarrow> cstring) \<Rightarrow> rat \<Rightarrow> session \<Rightarrow> event list \<Rightarrow> (bool \<times> session \<times> event list) option" where
  "stratum_suggest_difficulty fmt_f diff s ev =
    stratum_send_line s (cstr ''{\"id\":1,\"method\":\"mining.suggest_difficulty\",\"params\":[\"'' @ fmt_f diff @ cstr ''\"]}'') ev"

section \<open>Reauthenticating\<close>

text \<open>Three attempts of one step.\<close>

fun attempts :: "nat \<Rightarrow> (transport \<Rightarrow> event list \<Rightarrow> (bool \<times> transport \<times> event list) option) \<Rightarrow> transport \<Rightarrow> event list \<Rightarrow> (bool \<times> transport \<times> event list) option" where
  "attempts 0 step t ev = Some (False, t, ev)"
| "attempts (Suc n) step t ev = do {
     (ok, t, ev) \<leftarrow> step t ev;
     if ok then Some (True, t, ev) else attempts n step t ev }"

definition clear_session :: "session \<Rightarrow> session" where
  "clear_session s =
    (let c = sess_ctx s;
         c = c\<lparr>s_job := (s_job c)\<lparr>j_job_id := None\<rparr>, s_session_id := None, s_xnonce1 := []\<rparr>;
         c = c\<lparr>s_new_job := False, s_next_diff := 0\<rparr>
     in s\<lparr>sess_ctx := c, last_rejected_job_id := None, sharediff := 0\<rparr>)"

definition reauth_begin :: "transport \<Rightarrow> int \<Rightarrow> transport" where
  "reauth_begin t now =
    (let t = t\<lparr>t_reauth_in_progress := True, t_suspended := True,
           t_pre_reauth_job_id := (case j_job_id (s_job (sess_ctx (t_session t))) of None \<Rightarrow> [] | Some j \<Rightarrow> take 63 j)\<rparr>;
         t = (if now - t_last_ban_check t > 300 then t\<lparr>t_ban_failures := 0\<rparr> else t)
     in on_session (\<lambda>s. clear_session (stratum_disconnect s)) (t\<lparr>t_last_ban_check := now, t_down := True\<rparr>))"

definition note_ban :: "transport \<Rightarrow> transport" where
  "note_ban t =
    (let t = t\<lparr>t_ban_failures := t_ban_failures t + 1\<rparr>
     in if t_ban_failures t \<ge> 3 then t\<lparr>t_ban_failures := 0\<rparr> else t)"

definition stratum_reauthenticate ::
  "method_env \<Rightarrow> cstring \<Rightarrow> cstring \<Rightarrow> cstring \<Rightarrow> transport \<Rightarrow> event list \<Rightarrow> (bool \<times> transport \<times> event list) option" where
  "stratum_reauthenticate env u user pass t ev =
    (if t_reauth_in_progress t then Some (True, t, ev)
     else do {
       (now, ev) \<leftarrow> next_clock ev;
       (ok, t, ev) \<leftarrow> attempts 3 (stratum_connect u) (reauth_begin t now) ev;
       if \<not> ok then Some (False, note_ban t, ev)
       else do {
         (ok, t, ev) \<leftarrow> attempts 3 (stratum_subscribe env) t ev;
         if \<not> ok then Some (False, on_session stratum_disconnect t, ev)
         else do {
           (ok, t, ev) \<leftarrow> attempts 3 (stratum_authorize env user pass) t ev;
           if \<not> ok then Some (False, on_session stratum_disconnect t, ev)
           else Some (True, t\<lparr>t_down := False, t_reauth_in_progress := False, t_suspended := False,
                  t_rejection_epoch := t_rejection_epoch t + 1\<rparr>, ev) } } })"

section \<open>What the operations keep\<close>

text \<open>The string in the receive buffer fits with its terminator, fewer than three failures are counted, and a
  pause ends on a multiple of 240 seconds.\<close>

definition buffer_ok :: "session \<Rightarrow> bool" where
  "buffer_ok s \<longleftrightarrow> (case sockbuf s of None \<Rightarrow> True | Some b \<Rightarrow> length b < sockbuf_size s \<and> 0 \<notin> set b)"

definition line_ok :: "transport \<Rightarrow> bool" where
  "line_ok t \<longleftrightarrow> buffer_ok (t_session t) \<and> 0 \<le> t_failures t \<and> t_failures t \<le> 2 \<and> 240 dvd t_pause_until t"

text \<open>Whether mining and submitting are held back, and a reauthentication is under way.\<close>

definition flags :: "transport \<Rightarrow> bool \<times> bool \<times> bool" where
  "flags t = (t_down t, t_reauth_in_progress t, t_suspended t)"

definition keeps :: "transport \<Rightarrow> transport \<Rightarrow> bool" where
  "keeps t t' \<longleftrightarrow> (line_ok t \<longrightarrow> line_ok t' \<and> flags t' = flags t)"

lemma keeps_refl [simp]: "keeps t t"
  by (simp add: keeps_def)

lemma keeps_trans: "keeps t t' \<Longrightarrow> keeps t' t'' \<Longrightarrow> keeps t t''"
  by (simp add: keeps_def)

text \<open>A step of the session, such as connecting, that may be tried again.\<close>

locale session_step =
  fixes step :: "transport \<Rightarrow> event list \<Rightarrow> (bool \<times> transport \<times> event list) option"
  assumes step_keeps: "step t ev = Some (r, t', ev') \<Longrightarrow> keeps t t'"
begin

lemma attempts_keeps: "attempts n step t ev = Some (r, t', ev') \<Longrightarrow> keeps t t'"
  by (induction n arbitrary: t ev)
    (auto simp: bind_eq_Some_conv intro: step_keeps keeps_trans split: if_splits)

end

lemma send_line_session:
  "stratum_send_line s line ev = Some (ok, s', ev') \<Longrightarrow> s' = s \<or> s' = s\<lparr>sent := sent s @ [line]\<rparr>"
  by (auto simp: stratum_send_line_def bind_eq_Some_conv split: if_splits)

lemma send_line_buffer_ok: "stratum_send_line s line ev = Some (ok, s', ev') \<Longrightarrow> buffer_ok s' = buffer_ok s"
  by (auto dest!: send_line_session simp: buffer_ok_def split: option.splits)

lemma disconnect_buffer_ok: "buffer_ok s \<Longrightarrow> buffer_ok (stratum_disconnect s)"
  by (auto simp: stratum_disconnect_def buffer_ok_def Let_def split: option.split)

lemma append_buffer_ok:
  assumes "stratum_buffer_append s x = Some s'" "buffer_ok s" "0 \<notin> set x"
  shows "buffer_ok s'"
proof -
  have "(n::nat) < n + (2048 - n mod 2048)" for n
    using mod_less_divisor[of 2048 n] by linarith
  then show ?thesis
    using assms by (auto simp: stratum_buffer_append_def buffer_ok_def RBUFSIZE_def Let_def Suc_lessD not_le
        bind_eq_Some_conv split: if_splits)
qed

lemma recv_step_buffer_ok: "recv_step s ev = Some (ok, s', ev') \<Longrightarrow> buffer_ok s \<Longrightarrow> buffer_ok s'"
proof -
  have "0 \<notin> set (takeWhile (\<lambda>c. c \<noteq> 0) x)" for x :: cstring
    by (auto dest: set_takeWhileD)
  then show "recv_step s ev = Some (ok, s', ev') \<Longrightarrow> buffer_ok s \<Longrightarrow> buffer_ok s'"
    by (auto simp: recv_step_def dest: append_buffer_ok split: list.splits event.splits)
qed

lemma recv_loop_buffer_ok: "recv_loop s r ev = Some (ok, s', ev') \<Longrightarrow> buffer_ok s \<Longrightarrow> buffer_ok s'"
  by (erule recv_loop_rule[where P = "\<lambda>s _. buffer_ok s"]) (auto dest: recv_step_buffer_ok)

lemma note_failure_line_ok: "note_failure t ev = Some (t', ev') \<Longrightarrow> line_ok t \<Longrightarrow> line_ok t' \<and> flags t' = flags t"
  by (auto simp: note_failure_def line_ok_def flags_def Let_def disconnect_buffer_ok bind_eq_Some_conv split: if_splits)

lemma take_line_line_ok: "take_line t ev = Some (l, t', ev') \<Longrightarrow> line_ok t \<Longrightarrow> line_ok t' \<and> flags t' = flags t"
proof -
  have d: "length (tl (dropWhile P b)) < n" "z \<in> set (tl (dropWhile P b)) \<Longrightarrow> z \<in> set b" if "length b < n"
    for P and b :: cstring and n z
    using that length_dropWhile_le[of P b] by (auto dest: list.set_sel(2) set_dropWhileD)
      (metis list.set_sel(2) set_dropWhileD tl_Nil)
  assume "take_line t ev = Some (l, t', ev')" "line_ok t"
  then show ?thesis
    using d by (auto simp: take_line_def Let_def bind_eq_Some_conv line_ok_def flags_def buffer_ok_def rx_text_def
        dest: note_failure_line_ok[unfolded line_ok_def flags_def buffer_ok_def] split: if_splits option.splits)
qed

lemma recv_line_line_ok:
  "stratum_recv_line t ev = Some (l, t', ev') \<Longrightarrow> line_ok t \<Longrightarrow> line_ok t' \<and> flags t' = flags t"
proof -
  have s: "flags (t\<lparr>t_session := s\<rparr>) = flags t" "line_ok t \<Longrightarrow> buffer_ok s \<Longrightarrow> line_ok (t\<lparr>t_session := s\<rparr>)" for s
    by (simp_all add: flags_def line_ok_def)
  assume a: "stratum_recv_line t ev = Some (l, t', ev')" "line_ok t"
  then have "buffer_ok (t_session t)" by (simp add: line_ok_def)
  with a s show ?thesis
    by (auto simp: stratum_recv_line_def Let_def bind_eq_Some_conv
        dest!: take_line_line_ok note_failure_line_ok recv_loop_buffer_ok split: if_splits)
qed

lemma set_session_line_ok:
  "line_ok t \<Longrightarrow> buffer_ok s \<Longrightarrow> line_ok (t\<lparr>t_session := s\<rparr>) \<and> flags (t\<lparr>t_session := s\<rparr>) = flags t"
  by (simp add: line_ok_def flags_def)

lemma bind_SomeD: "Option.bind m f = Some x \<Longrightarrow> \<exists>a. m = Some a \<and> f a = Some x"
  by (cases m) auto

lemma connect_line_ok:
  "stratum_connect u t ev = Some (r, t', ev') \<Longrightarrow> line_ok t \<Longrightarrow> line_ok t' \<and> flags t' = flags t"
proof -
  assume a: "stratum_connect u t ev = Some (r, t', ev')" "line_ok t"
  have "t' = t\<lparr>t_session := t_session t'\<rparr> \<and> (sockbuf (t_session t') = sockbuf (t_session t) \<and> sockbuf_size (t_session t') = sockbuf_size (t_session t)
      \<or> sockbuf (t_session t') = Some [] \<and> sockbuf_size (t_session t')
          = (if sockbuf (t_session t) = None then 2048 else sockbuf_size (t_session t)))"
    using a(1) unfolding stratum_connect_def Let_def drop_curl_def
    by (auto simp: RBUFSIZE_def split: prod.splits if_splits dest!: bind_SomeD)
  then have "buffer_ok (t_session t')" and t': "t' = t\<lparr>t_session := t_session t'\<rparr>"
    using a(2) by (auto simp: line_ok_def buffer_ok_def split: option.splits)
  then show ?thesis using set_session_line_ok[OF a(2)] by (subst t', subst (2) t') blast
qed

lemma recv_line_keeps: "stratum_recv_line t ev = Some (l, t', ev') \<Longrightarrow> keeps t t'"
  using recv_line_line_ok by (auto simp: keeps_def)

lemma connect_keeps: "stratum_connect u t ev = Some (r, t', ev') \<Longrightarrow> keeps t t'"
  using connect_line_ok by (auto simp: keeps_def)

lemma session_keeps: "(buffer_ok (t_session t) \<Longrightarrow> buffer_ok s) \<Longrightarrow> keeps t (t\<lparr>t_session := s\<rparr>)"
  using set_session_line_ok by (auto simp: keeps_def line_ok_def)

lemma send_line_keeps: "stratum_send_line (t_session t) line ev = Some (ok, s, ev') \<Longrightarrow> keeps t (t\<lparr>t_session := s\<rparr>)"
  by (rule session_keeps) (simp add: send_line_buffer_ok)

lemma ctx_keeps: "keeps t t' \<Longrightarrow> keeps t (on_session (\<lambda>s. s\<lparr>sess_ctx := c\<rparr>) t')"
  by (erule keeps_trans, rule session_keeps) (simp add: buffer_ok_def split: option.splits)

lemma disconnect_keeps: "keeps t (on_session stratum_disconnect t)"
  by (rule session_keeps) (rule disconnect_buffer_ok)

lemma subscribe_once_keeps: "subscribe_once env retry t ev = Some (r, got, t', ev') \<Longrightarrow> keeps t t'"
  unfolding subscribe_once_def Let_def
  by (auto split: prod.splits if_splits option.splits dest!: bind_SomeD send_line_keeps recv_line_keeps
      intro!: ctx_keeps) (blast intro: keeps_trans)+

lemma subscribe_keeps: "stratum_subscribe env t ev = Some (r, t', ev') \<Longrightarrow> keeps t t'"
  unfolding stratum_subscribe_def
  by (auto split: prod.splits if_splits dest!: bind_SomeD subscribe_once_keeps intro: keeps_trans)

lemma reconnect_buffer_ok: "stratum_reconnect red s params = Some (r, s') \<Longrightarrow> buffer_ok s \<Longrightarrow> buffer_ok s'"
proof -
  have "buffer_ok (s\<lparr>url := u\<rparr>) = buffer_ok s" for u by (simp add: buffer_ok_def split: option.splits)
  then show "stratum_reconnect red s params = Some (r, s') \<Longrightarrow> buffer_ok s \<Longrightarrow> buffer_ok s'"
    by (auto simp: stratum_reconnect_def Let_def intro!: disconnect_buffer_ok split: option.splits if_splits)
qed

lemma answers_buffer_ok:
  "stratum_pong ok s i = (r, s') \<Longrightarrow> buffer_ok s' = buffer_ok s"
  "stratum_get_algo d ok s i = (r, s') \<Longrightarrow> buffer_ok s' = buffer_ok s"
  "stratum_get_version d ua ok s i = (r, s') \<Longrightarrow> buffer_ok s' = buffer_ok s"
  "stratum_show_message d ok s i = (r, s') \<Longrightarrow> buffer_ok s' = buffer_ok s"
  "stratum_unknown_method d ok s i = (r, s') \<Longrightarrow> buffer_ok s' = buffer_ok s"
  by (auto simp: stratum_pong_def stratum_get_algo_def stratum_get_version_def stratum_show_message_def
      stratum_unknown_method_def send_answer_def Let_def buffer_ok_def split: if_splits option.splits)

lemma method_buffer_ok:
  assumes "stratum_handle_method env junk send_ok s line = Some (r, s')" "buffer_ok s"
  shows "buffer_ok s'"
proof -
  have c: "buffer_ok (s\<lparr>sess_ctx := c\<rparr>) = buffer_ok s" for c by (simp add: buffer_ok_def split: option.splits)
  show ?thesis
    using assms
    by (auto simp: stratum_handle_method_def Let_def with_ctx_def c split: option.splits if_splits
        dest: answers_buffer_ok reconnect_buffer_ok)
qed

lemma handle_method_keeps: "handle_method env line t ev = Some (r, t', ev') \<Longrightarrow> keeps t t'"
  by (auto simp: handle_method_def bind_eq_Some_conv intro!: session_keeps elim: method_buffer_ok)

lemma await_answer_keeps: "await_answer env t ev = Some (l, t', ev') \<Longrightarrow> keeps t t'"
proof (induction "length ev" arbitrary: t ev rule: less_induct)
  case less
  note eq = less.prems[unfolded await_answer.simps[of env t ev]]
  from bind_SomeD[OF eq] obtain l1 t1 ev1 where 1: "stratum_recv_line t ev = Some (l1, t1, ev1)"
    and eq1: "(case l1 of None \<Rightarrow> Some (None, t1, ev1)
      | Some line \<Rightarrow> handle_method env line t1 ev1 \<bind> (\<lambda>(handled, t, ev). if handled then await_answer env t ev else Some (Some line, t, ev)))
      = Some (l, t', ev')"
    by auto
  show ?case
  proof (cases l1)
    case None
    then show ?thesis using eq1 recv_line_keeps[OF 1] by simp
  next
    case (Some line)
    then obtain h t2 ev2 where 2: "handle_method env line t1 ev1 = Some (h, t2, ev2)"
      and eq2: "(if h then await_answer env t2 ev2 else Some (Some line, t2, ev2)) = Some (l, t', ev')"
      using eq1 by (auto dest!: bind_SomeD)
    have k: "keeps t t2"
      using recv_line_keeps[OF 1] handle_method_keeps[OF 2] by (rule keeps_trans)
    show ?thesis
    proof (cases h)
      case True
      have "length ev2 < length ev" using recv_line_le[OF 1] handle_method_less[OF 2] by simp
      then show ?thesis using less.hyps[of ev2 t2] eq2 True k keeps_trans by auto
    qed (use eq2 k in simp)
  qed
qed

lemma subscribe_extranonce_keeps: "subscribe_extranonce env t ev = Some (t', ev') \<Longrightarrow> keeps t t'"
proof -
  have x: "keeps t t' \<Longrightarrow> keeps t (t'\<lparr>t_extranonce := False\<rparr>)" for t t'
    by (simp add: keeps_def line_ok_def flags_def)
  show "subscribe_extranonce env t ev = Some (t', ev') \<Longrightarrow> keeps t t'"
    unfolding subscribe_extranonce_def Let_def
    by (auto split: prod.splits if_splits option.splits
        dest!: bind_SomeD send_line_keeps recv_line_keeps handle_method_keeps intro!: x) (blast intro: keeps_trans)+
qed

lemma authorize_keeps: "stratum_authorize env user pass t ev = Some (r, t', ev') \<Longrightarrow> keeps t t'"
  unfolding stratum_authorize_def Let_def
  by (auto split: prod.splits if_splits option.splits
      dest!: bind_SomeD send_line_keeps await_answer_keeps subscribe_extranonce_keeps) (blast intro: keeps_trans)+

interpretation connecting: session_step "stratum_connect u" for u
  by unfold_locales (rule connect_keeps)

interpretation subscribing: session_step "stratum_subscribe env" for env
  by unfold_locales (rule subscribe_keeps)

interpretation authorizing: session_step "stratum_authorize env user pass" for env user pass
  by unfold_locales (rule authorize_keeps)

section \<open>Reauthentication\<close>

lemma reauth_begin_line_ok: "line_ok t \<Longrightarrow> line_ok (reauth_begin t now) \<and> flags (reauth_begin t now) = (True, True, True)"
proof -
  have "buffer_ok s \<Longrightarrow> buffer_ok (clear_session (stratum_disconnect s))" for s
    using disconnect_buffer_ok[of s] by (simp add: clear_session_def buffer_ok_def Let_def split: option.splits)
  then show "line_ok t \<Longrightarrow> line_ok (reauth_begin t now) \<and> flags (reauth_begin t now) = (True, True, True)"
    by (simp add: reauth_begin_def line_ok_def flags_def Let_def)
qed

lemma note_ban_keeps: "keeps t (note_ban t)"
  by (simp add: keeps_def note_ban_def line_ok_def flags_def Let_def)

lemma reauthenticate_result:
  assumes "stratum_reauthenticate env u user pass t ev = Some (r, t', ev')" "line_ok t" "\<not> t_reauth_in_progress t"
  shows "line_ok t' \<and> flags t' = (\<not> r, \<not> r, \<not> r)"
proof -
  obtain now ev1 where now: "next_clock ev = Some (now, ev1)"
    using assms(1,3) by (auto simp: stratum_reauthenticate_def dest!: bind_SomeD)
  let ?t0 = "reauth_begin t now"
  have b: "line_ok ?t0" "flags ?t0 = (True, True, True)" using reauth_begin_line_ok assms(2) by simp_all
  have k: "keeps ?t0 t' \<Longrightarrow> line_ok t' \<and> flags t' = (True, True, True)" for t'
    using b by (simp add: keeps_def)
  have d: "line_ok (t\<lparr>t_down := x, t_reauth_in_progress := y, t_suspended := z, t_rejection_epoch := w\<rparr>) = line_ok t" for t x y z w
    by (simp add: line_ok_def)
  obtain r1 t1 ev2 where 1: "attempts 3 (stratum_connect u) ?t0 ev1 = Some (r1, t1, ev2)"
    using assms(1,3) now by (auto simp: stratum_reauthenticate_def dest!: bind_SomeD)
  note k1 = connecting.attempts_keeps[OF 1]
  show ?thesis
  proof (cases r1)
    case False
    then have "r = False" "t' = note_ban t1"
      using assms(1,3) now 1 by (simp_all add: stratum_reauthenticate_def)
    then show ?thesis using k[OF keeps_trans[OF k1 note_ban_keeps]] by simp
  next
    case r1: True
    obtain r2 t2 ev3 where 2: "attempts 3 (stratum_subscribe env) t1 ev2 = Some (r2, t2, ev3)"
      using assms(1,3) now 1 r1 by (auto simp: stratum_reauthenticate_def dest!: bind_SomeD)
    note k2 = keeps_trans[OF k1 subscribing.attempts_keeps[OF 2]]
    show ?thesis
    proof (cases r2)
      case False
      then have "r = False" "t' = on_session stratum_disconnect t2"
        using assms(1,3) now 1 2 r1 by (simp_all add: stratum_reauthenticate_def)
      then show ?thesis using k[OF keeps_trans[OF k2 disconnect_keeps]] by simp
    next
      case r2: True
      obtain r3 t3 ev4 where 3: "attempts 3 (stratum_authorize env user pass) t2 ev3 = Some (r3, t3, ev4)"
        using assms(1,3) now 1 2 r1 r2 by (auto simp: stratum_reauthenticate_def dest!: bind_SomeD)
      note k3 = keeps_trans[OF k2 authorizing.attempts_keeps[OF 3]]
      show ?thesis
      proof (cases r3)
        case False
        then have "r = False" "t' = on_session stratum_disconnect t3"
          using assms(1,3) now 1 2 3 r1 r2 by (simp_all add: stratum_reauthenticate_def)
        then show ?thesis using k[OF keeps_trans[OF k3 disconnect_keeps]] by simp
      next
        case r3: True
        then have "r = True" "t' = t3\<lparr>t_down := False, t_reauth_in_progress := False, t_suspended := False,
                  t_rejection_epoch := t_rejection_epoch t3 + 1\<rparr>"
          using assms(1,3) now 1 2 3 r1 r2 by (simp_all add: stratum_reauthenticate_def)
        then show ?thesis using k[OF k3] d by (simp add: flags_def)
      qed
    qed
  qed
qed

section \<open>Receiving the pool's lines\<close>

fun recv_lines :: "nat \<Rightarrow> transport \<Rightarrow> event list \<Rightarrow> (cstring list \<times> transport \<times> event list) option" where
  "recv_lines 0 t ev = Some ([], t, ev)"
| "recv_lines (Suc n) t ev = do {
     (l, t, ev) \<leftarrow> stratum_recv_line t ev;
     line \<leftarrow> l;
     (ls, t, ev) \<leftarrow> recv_lines n t ev;
     Some (line # ls, t, ev) }"

text \<open>A pool that delivers its text in pieces whenever the miner reads: the pieces up to the first newline,
  and the script of a number of lines; both with the text left in the buffer and the pieces not yet
  delivered.\<close>

fun fill :: "cstring \<Rightarrow> cstring list \<Rightarrow> event list \<times> cstring \<times> cstring list" where
  "fill b [] = ([], b, [])"
| "fill b (c # cs) =
    (if 10 \<in> set (b @ c) then ([Received c, Clock 0], b @ c, cs)
     else let (ev, b', cs') = fill (b @ c) cs in (Received c # Clock 0 # ev, b', cs'))"

definition after_line :: "cstring \<Rightarrow> cstring" where
  "after_line b = tl (dropWhile (\<lambda>c. c \<noteq> 10) b)"

fun deliver :: "cstring \<Rightarrow> cstring list \<Rightarrow> nat \<Rightarrow> event list \<times> cstring \<times> cstring list" where
  "deliver b cs 0 = ([], b, cs)"
| "deliver b cs (Suc n) =
    (let (e1, b1, c1) = (if 10 \<in> set b then ([], b, cs)
           else let (e, b1, c1) = fill b cs in (Clock 0 # Readable True # e, b1, c1));
         (e2, b2, c2) = deliver (after_line b1) c1 n
     in (e1 @ e2, b2, c2))"

lemma recv_step_received:
  assumes "sockbuf s = Some b" "0 \<notin> set c"
  shows "\<exists>n. \<forall>ev. recv_step s (Received c # ev) = Some (True, s\<lparr>sockbuf_size := n, sockbuf := Some (b @ c)\<rparr>, ev)"
proof -
  have tk: "takeWhile (\<lambda>x. x \<noteq> 0) c = c" using assms(2) by (auto simp: takeWhile_eq_all_conv)
  let ?l = "length b + length c + 1"
  show ?thesis
    using assms(1)
    by (intro exI[of _ "if ?l \<ge> sockbuf_size s then ?l + (RBUFSIZE - ?l mod RBUFSIZE) else sockbuf_size s"])
      (simp add: recv_step_def stratum_buffer_append_def Let_def tk)
qed

lemma recv_loop_fill:
  assumes "sockbuf s = Some b" "10 \<in> set (concat cs)" "0 \<notin> set (concat cs)" "fill b cs = (e, b', cs')"
  shows "\<exists>n. recv_loop s 0 (e @ ev) = Some (True, s\<lparr>sockbuf_size := n, sockbuf := Some b'\<rparr>, ev)
    \<and> 10 \<in> set b' \<and> b' @ concat cs' = b @ concat cs \<and> 0 \<notin> set (concat cs')"
  using assms
proof (induction cs arbitrary: s b e)
  case (Cons c cs)
  have "0 \<notin> set c" using Cons.prems(3) by simp
  with recv_step_received[OF Cons.prems(1)]
  obtain n where n: "recv_step s (Received c # ev2) = Some (True, s\<lparr>sockbuf_size := n, sockbuf := Some (b @ c)\<rparr>, ev2)" for ev2
    by blast
  show ?case
  proof (cases "10 \<in> set (b @ c)")
    case True
    then show ?thesis
      using Cons.prems n by (intro exI[of _ n]) (auto simp: recv_loop.simps[of s] rx_text_def)
  next
    case False
    let ?s = "s\<lparr>sockbuf_size := n, sockbuf := Some (b @ c)\<rparr>"
    obtain e1 where e: "e = Received c # Clock 0 # e1" "fill (b @ c) cs = (e1, b', cs')"
      using Cons.prems(4) False by (auto split: prod.splits)
    obtain m where "recv_loop ?s 0 (e1 @ ev) = Some (True, ?s\<lparr>sockbuf_size := m, sockbuf := Some b'\<rparr>, ev)"
      "10 \<in> set b'" "b' @ concat cs' = (b @ c) @ concat cs" "0 \<notin> set (concat cs')"
      using Cons.IH[of ?s "b @ c" e1] Cons.prems(2,3) e False by auto
    moreover have "recv_loop s 0 (e @ ev) = recv_loop ?s 0 (e1 @ ev)"
      using False n by (simp add: e recv_loop.simps[of s] rx_text_def)
    ultimately show ?thesis by (intro exI[of _ m]) simp
  qed
qed simp

lemma recv_line_deliver:
  assumes "sockbuf (t_session t) = Some b" "sock (t_session t)" "b @ concat cs = l @ 10 # rest" "10 \<notin> set l"
    and "0 \<notin> set (concat cs)"
    and "(e1, b1, c1) = (if 10 \<in> set b then ([], b, cs)
           else let (e, b1, c1) = fill b cs in (Clock 0 # Readable True # e, b1, c1))"
  obtains t' where "stratum_recv_line t (e1 @ ev) = Some (Some l, t', ev)" "sockbuf (t_session t') = Some (after_line b1)"
    "sock (t_session t')" "after_line b1 @ concat c1 = rest" "0 \<notin> set (concat c1)" "t_failures t' = 0"
proof -
  have split: "takeWhile (\<lambda>c. c \<noteq> 10) b1 = l" "after_line b1 @ concat c1 = rest"
    if "10 \<in> set b1" "b1 @ concat c1 = l @ 10 # rest"
  proof -
    have l: "takeWhile (\<lambda>c. c \<noteq> 10) l = l" "dropWhile (\<lambda>c. c \<noteq> 10) l = []"
      using assms(4) by (auto simp: takeWhile_eq_all_conv)
    have "takeWhile (\<lambda>c. c \<noteq> 10) (b1 @ concat c1) = l" "dropWhile (\<lambda>c. c \<noteq> 10) (b1 @ concat c1) = 10 # rest"
      unfolding that(2) using l assms(4) by (simp_all add: takeWhile_append dropWhile_append)
    then show "takeWhile (\<lambda>c. c \<noteq> 10) b1 = l" "after_line b1 @ concat c1 = rest"
      using that(1)
      by (auto simp: after_line_def takeWhile_append1 dropWhile_append1 neq_Nil_conv; cases "dropWhile (\<lambda>c. c \<noteq> 10) b1";
          auto simp: dropWhile_eq_Nil_conv)+
  qed
  show thesis
  proof (cases "10 \<in> set b")
    case True
    then show thesis
      using assms split
      by (intro that[of "on_session (\<lambda>s. s\<lparr>sockbuf := Some (after_line b)\<rparr>) t\<lparr>t_failures := 0\<rparr>"])
        (auto simp: stratum_recv_line_def take_line_def rx_text_def after_line_def Let_def)
  next
    case False
    then obtain e where e: "e1 = Clock 0 # Readable True # e" "fill b cs = (e, b1, c1)"
      using assms(6) by (auto split: prod.splits)
    have "10 \<in> set (concat cs)"
      using False assms(3) by (metis Un_iff list.set_intros(1) set_append)
    from recv_loop_fill[OF assms(1) this assms(5) e(2), of ev] obtain n where
      n: "recv_loop (t_session t) 0 (e @ ev) = Some (True, (t_session t)\<lparr>sockbuf_size := n, sockbuf := Some b1\<rparr>, ev)"
      "10 \<in> set b1" "b1 @ concat c1 = b @ concat cs" "0 \<notin> set (concat c1)"
      by blast
    note s = split[OF n(2)]
    have "b1 @ concat c1 = l @ 10 # rest" using n(3) assms(3) by simp
    note s = split[OF n(2) this]
    show thesis
      using False assms(1,2) n s e
      by (intro that[of "on_session (\<lambda>x. (x\<lparr>sockbuf_size := n, sockbuf := Some (after_line b1)\<rparr>)) t\<lparr>t_failures := 0\<rparr>"])
        (auto simp: stratum_recv_line_def take_line_def rx_text_def after_line_def Let_def socket_full_def)
  qed
qed

lemma recv_lines_deliver:
  assumes "sockbuf (t_session t) = Some b" "sock (t_session t)" "b @ concat cs = concat (map (\<lambda>l. l @ [10]) ls) @ rest"
    and "\<forall>l \<in> set ls. 10 \<notin> set l" "0 \<notin> set (concat cs)" "deliver b cs (length ls) = (e, b', cs')"
  shows "\<exists>t'. recv_lines (length ls) t (e @ ev) = Some (ls, t', ev) \<and> sockbuf (t_session t') = Some b'
    \<and> b' @ concat cs' = rest \<and> (ls \<noteq> [] \<longrightarrow> t_failures t' = 0)"
  using assms
proof (induction ls arbitrary: t b cs e)
  case (Cons l ls)
  obtain e1 b1 c1 where 1: "(e1, b1, c1) = (if 10 \<in> set b then ([], b, cs)
           else let (e, b1, c1) = fill b cs in (Clock 0 # Readable True # e, b1, c1))"
    by (metis prod_cases3)
  obtain e2 where 2: "deliver (after_line b1) c1 (length ls) = (e2, b', cs')" "e = e1 @ e2"
    using Cons.prems(6) by (auto simp flip: 1 simp: Let_def split: prod.splits)
  have eq: "b @ concat cs = l @ 10 # (concat (map (\<lambda>l. l @ [10]) ls) @ rest)" using Cons.prems(3) by simp
  have nl: "10 \<notin> set l" using Cons.prems(4) by simp
  obtain t1 where t1: "stratum_recv_line t (e1 @ (e2 @ ev)) = Some (Some l, t1, e2 @ ev)" "sockbuf (t_session t1) = Some (after_line b1)"
    "sock (t_session t1)" "after_line b1 @ concat c1 = concat (map (\<lambda>l. l @ [10]) ls) @ rest" "0 \<notin> set (concat c1)" "t_failures t1 = 0"
    using recv_line_deliver[OF Cons.prems(1,2) eq nl Cons.prems(5) 1, of "e2 @ ev"] by blast
  obtain t2 where t2: "recv_lines (length ls) t1 (e2 @ ev) = Some (ls, t2, ev)" "sockbuf (t_session t2) = Some b'"
    "b' @ concat cs' = rest" "ls \<noteq> [] \<longrightarrow> t_failures t2 = 0"
    using Cons.IH[OF t1(2,3,4) _ t1(5) 2(1)] Cons.prems(4) by auto
  moreover have "recv_lines (length (l # ls)) t (e @ ev) = Some (l # ls, t2, ev)"
    using t1(1) t2(1) by (simp add: 2(2))
  moreover have "t_failures t2 = 0" using t1(6) t2 by (cases ls) auto
  ultimately show ?case by blast
qed auto

text \<open>C8: the lines come out as the pool wrote them.  Whatever pieces the text is cut into, and
  whatever is already in the buffer, reading as many lines as it holds gives exactly those lines in
  order; what follows them stays in the buffer or undelivered, and the count of failures is cleared.\<close>

theorem received_lines_are_sent_lines:
  assumes "sockbuf (t_session t) = Some b" "sock (t_session t)" "b @ concat cs = concat (map (\<lambda>l. l @ [10]) ls) @ rest"
    and "\<forall>l \<in> set ls. 10 \<notin> set l" "0 \<notin> set (concat cs)" "deliver b cs (length ls) = (e, b', cs')"
  shows "\<exists>t'. recv_lines (length ls) t e = Some (ls, t', []) \<and> sockbuf (t_session t') = Some b'
    \<and> b' @ concat cs' = rest \<and> (ls \<noteq> [] \<longrightarrow> t_failures t' = 0)"
  using recv_lines_deliver[OF assms, of "[]"] by simp

definition first_transport :: transport where
  "first_transport = \<lparr>t_session = first_session, t_failures = 1, t_pause_until = 0, t_extranonce = True, t_down = False,
     t_reauth_in_progress = False, t_suspended = False, t_pre_reauth_job_id = [], t_rejection_epoch = 0,
     t_last_ban_check = 0, t_ban_failures = 0\<rparr>"

theorem received_lines_are_sent_lines_witness:
  "\<exists>t'. recv_lines 2 first_transport [Clock 0, Readable True, Received (cstr ''{a''), Clock 0, Received (cstr ''}'' @ 10 # cstr ''{'' @ [10, 7]), Clock 0]
      = Some ([cstr ''{a}'', cstr ''{''], t', []) \<and> sockbuf (t_session t') = Some [7] \<and> [7] @ concat [] = [7 :: u8]
    \<and> ([cstr ''{a}'', cstr ''{''] \<noteq> [] \<longrightarrow> t_failures t' = 0)"
proof -
  have l: "length [cstr ''{a}'', cstr ''{''] = 2" by simp
  have c: "cstr ''{a'' = [123, 97]" "cstr ''}'' = [125]" "cstr ''{'' = [123]" "cstr ''{a}'' = [123, 97, 125]" by code_simp+
  show ?thesis
    unfolding l[symmetric]
    by (rule received_lines_are_sent_lines[where b = "[]" and cs = "[cstr ''{a'', cstr ''}'' @ 10 # cstr ''{'' @ [10, 7]]"])
      (simp_all add: first_transport_def first_session_def c after_line_def)
qed

section \<open>Bounds\<close>

text \<open>What the transport can get to from the start of the program.\<close>

definition fresh_transport :: "transport \<Rightarrow> bool" where
  "fresh_transport t \<longleftrightarrow> sockbuf (t_session t) = None \<and> t_failures t = 0 \<and> t_pause_until t = 0"

inductive reached :: "method_env \<Rightarrow> transport \<Rightarrow> bool" for env where
  start: "fresh_transport t \<Longrightarrow> reached env t"
| recv: "reached env t \<Longrightarrow> stratum_recv_line t ev = Some (l, t', ev') \<Longrightarrow> reached env t'"
| send: "reached env t \<Longrightarrow> stratum_send_line (t_session t) line ev = Some (ok, s, ev') \<Longrightarrow> reached env (t\<lparr>t_session := s\<rparr>)"
| handle: "reached env t \<Longrightarrow> handle_method env line t ev = Some (r, t', ev') \<Longrightarrow> reached env t'"
| work: "reached env t \<Longrightarrow> reached env (on_session (\<lambda>s. s\<lparr>sess_ctx := c\<rparr>) t)"
| connect: "reached env t \<Longrightarrow> stratum_connect u t ev = Some (r, t', ev') \<Longrightarrow> reached env t'"
| disconnect: "reached env t \<Longrightarrow> reached env (on_session stratum_disconnect t)"
| subscribe: "reached env t \<Longrightarrow> stratum_subscribe env t ev = Some (r, t', ev') \<Longrightarrow> reached env t'"
| authorize: "reached env t \<Longrightarrow> stratum_authorize env user pass t ev = Some (r, t', ev') \<Longrightarrow> reached env t'"
| reauthenticate: "reached env t \<Longrightarrow> stratum_reauthenticate env u user pass t ev = Some (r, t', ev') \<Longrightarrow> reached env t'"

lemma keepsD: "keeps t t' \<Longrightarrow> line_ok t \<Longrightarrow> line_ok t'"
  by (simp add: keeps_def)

lemma reached_line_ok: "reached env t \<Longrightarrow> line_ok t"
proof (induction rule: reached.induct)
  case (start t)
  then show ?case by (simp add: fresh_transport_def line_ok_def buffer_ok_def)
next
  case (work t c)
  then show ?case using keepsD[OF ctx_keeps[OF keeps_refl, of t c]] by blast
next
  case (reauthenticate t u user pass ev r t' ev')
  then show ?case
    by (cases "t_reauth_in_progress t") (simp add: stratum_reauthenticate_def, blast dest: reauthenticate_result)
qed (blast intro: keepsD[OF recv_line_keeps] keepsD[OF send_line_keeps] keepsD[OF handle_method_keeps]
    keepsD[OF connect_keeps] keepsD[OF disconnect_keeps] keepsD[OF subscribe_keeps] keepsD[OF authorize_keeps])+

text \<open>C22: in every state the transport reaches, whatever the network and the pool do, the receive buffer is
  large enough for its string and the terminator, at most two failures are counted, and a pause ends on a
  multiple of 240 seconds of the clock.\<close>

theorem transport_bounds:
  assumes "reached env t"
  shows "(\<forall>b. sockbuf (t_session t) = Some b \<longrightarrow> length b + 1 \<le> sockbuf_size (t_session t))
    \<and> 0 \<le> t_failures t \<and> t_failures t \<le> 2 \<and> 240 dvd t_pause_until t"
  using reached_line_ok[OF assms] by (auto simp: line_ok_def buffer_ok_def)

theorem transport_bounds_witness:
  "let t = first_transport\<lparr>t_session := first_session\<lparr>sockbuf := None, sockbuf_size := 0\<rparr>, t_failures := 0\<rparr> in
   \<exists>t'. stratum_connect (cstr ''stratum+tcp://p:1'') t [CurlInit True, Performed True, Socket True True, Readable False] = Some (True, t', [])
     \<and> sockbuf (t_session t') = Some [] \<and> 1 \<le> sockbuf_size (t_session t')"
proof -
  let ?t = "first_transport\<lparr>t_session := first_session\<lparr>sockbuf := None, sockbuf_size := 0\<rparr>, t_failures := 0\<rparr>"
  have u: "make_curl_url (cstr ''stratum+tcp://p:1'') = Some (cstr ''http://p:1'')" by code_simp
  have "reached undefined ?t"
    by (rule reached.start) (simp add: fresh_transport_def first_transport_def)
  moreover obtain t' where t': "stratum_connect (cstr ''stratum+tcp://p:1'') ?t [CurlInit True, Performed True, Socket True True, Readable False] = Some (True, t', [])"
    "sockbuf (t_session t') = Some []"
    by (auto simp: stratum_connect_def u first_transport_def first_session_def)
  ultimately have "reached undefined t'" by (blast intro: reached.connect)
  from transport_bounds[OF this] show ?thesis using t' by (auto simp: Let_def)
qed

section \<open>A failed reauthentication\<close>

text \<open>C31: when \<open>stratum_reauthenticate\<close> fails it leaves its own mark set: mining is held back,
  submissions are suspended, and every later reauthentication returns success at once
  without disconnecting or connecting, so its callers never fall back to a reset.\<close>

theorem failed_reauthentication_sticks:
  assumes "line_ok t" "stratum_reauthenticate env u user pass t ev = Some (False, t', ev')"
  shows "t_down t' \<and> t_suspended t'
    \<and> (\<forall>env' u' user' pass' ev2. stratum_reauthenticate env' u' user' pass' t' ev2 = Some (True, t', ev2))"
proof -
  have "\<not> t_reauth_in_progress t" using assms(2) by (auto simp: stratum_reauthenticate_def)
  from reauthenticate_result[OF assms(2,1) this] show ?thesis
    by (simp add: flags_def stratum_reauthenticate_def)
qed

theorem failed_reauthentication_sticks_witness:
  "\<exists>t'. stratum_reauthenticate undefined [] [] [] first_transport [Clock 1000, CurlInit False, CurlInit False, CurlInit False] = Some (False, t', [])
    \<and> t_down t' \<and> t_suspended t'
    \<and> (\<forall>env' u' user' pass' ev2. stratum_reauthenticate env' u' user' pass' t' ev2 = Some (True, t', ev2))"
proof -
  have ok: "line_ok first_transport"
    by (simp add: line_ok_def buffer_ok_def first_transport_def first_session_def)
  obtain t' where t': "stratum_reauthenticate undefined [] [] [] first_transport [Clock 1000, CurlInit False, CurlInit False, CurlInit False] = Some (False, t', [])"
    by (auto simp: stratum_reauthenticate_def stratum_connect_def eval_nat_numeral first_transport_def Let_def)
  show ?thesis using t' failed_reauthentication_sticks[OF ok t'] by blast
qed

section \<open>Requests before the answer\<close>

text \<open>\<open>stratum_authorize\<close> takes the first line it cannot handle as a request for the answer.
  A request it refuses, such as a notification without an id or one with bad parameters, makes authorization fail
  although the answer may follow.\<close>

theorem refused_request_fails_authorize:
  assumes "stratum_send_line (t_session t) (authorize_request user pass) ev = Some (True, s, ev1)"
    and "stratum_recv_line (t\<lparr>t_session := s\<rparr>) ev1 = Some (Some line, t1, ev2)"
    and "handle_method env line t1 ev2 = Some (False, t2, ev3)"
    and "loads env line = Some val" "json_object_get (Some val) (cstr ''result'') = None"
  shows "stratum_authorize env user pass t ev = Some (False, t2, ev3)"
  using assms by (simp add: stratum_authorize_def await_answer.simps Let_def)

text \<open>A pool that announces something unknown, then accepts.\<close>

definition unknown_request :: json where
  "unknown_request = JObject [(cstr ''method'', JString (cstr ''mining.x''))]"

theorem refused_request_fails_authorize_witness:
  "\<exists>t'. stratum_authorize (pool_env unknown_request) [] [] (first_transport\<lparr>t_session := first_session\<lparr>sockbuf := Some (cstr ''x'' @ 10 # cstr ''accept'' @ [10])\<rparr>\<rparr>)
     [Writable True, Sent 55, Handled [] True] = Some (False, t', [])
    \<and> sockbuf (t_session t') = Some (cstr ''accept'' @ [10])"
proof -
  let ?s = "first_session\<lparr>sockbuf := Some (cstr ''x'' @ 10 # cstr ''accept'' @ [10])\<rparr>"
  let ?t = "first_transport\<lparr>t_session := ?s\<rparr>"
  let ?line = "authorize_request [] []"
  have c: "cstr ''x'' = [120]" "length ?line \<le> 54" by code_simp+
  have 1: "stratum_send_line (t_session ?t) ?line [Writable True, Sent 55, Handled [] True] = Some (True, ?s\<lparr>sent := [?line]\<rparr>, [Handled [] True])"
    using c(2) by (simp add: stratum_send_line_def send_loop.simps first_session_def)
  let ?t1 = "?t\<lparr>t_session := ?s\<lparr>sent := [?line], sockbuf := Some (cstr ''accept'' @ [10])\<rparr>, t_failures := 0\<rparr>"
  have 2: "stratum_recv_line (?t\<lparr>t_session := ?s\<lparr>sent := [?line]\<rparr>\<rparr>) [Handled [] True] = Some (Some (cstr ''x''), ?t1, [Handled [] True])"
    by (simp add: stratum_recv_line_def take_line_def rx_text_def c first_transport_def)
  have m: "json_string_value (json_object_get (Some unknown_request) (cstr ''method'')) = Some (cstr ''mining.x'')"
    "json_object_get (Some unknown_request) (cstr ''id'') = None"
    "json_object_get (Some unknown_request) (cstr ''result'') = None"
    "\<not> method_eq2 (cstr ''mining.x'') (cstr ''mining'') (cstr ''notify'')"
    "\<not> method_eq2 (cstr ''mining.x'') (cstr ''mining'') (cstr ''ping'')"
    "\<not> method_eq2 (cstr ''mining.x'') (cstr ''mining'') (cstr ''set_difficulty'')"
    "\<not> method_eq2 (cstr ''mining.x'') (cstr ''mining'') (cstr ''set_extranonce'')"
    "\<not> strcasecmp_eq (cstr ''mining.x'') (cstr ''client.reconnect'')" "\<not> strcasecmp_eq (cstr ''mining.x'') (cstr ''client.get_algo'')"
    "\<not> strcasecmp_eq (cstr ''mining.x'') (cstr ''client.get_version'')" "\<not> strcasecmp_eq (cstr ''mining.x'') (cstr ''client.show_message'')"
    by code_simp+
  have l: "loads (pool_env unknown_request) l = Some unknown_request" for l by (simp add: pool_env_def)
  have 3: "handle_method (pool_env unknown_request) (cstr ''x'') ?t1 [Handled [] True] = Some (False, ?t1, [])"
    using m by (simp add: handle_method_def stratum_handle_method_def l stratum_unknown_method_def no_id_def Let_def)
  show ?thesis
    using refused_request_fails_authorize[OF 1 2 3 l m(3)] by simp
qed

text \<open>The URL given to \<open>libcurl\<close> is built in a buffer as long as the configured URL, so the
  scheme must be shorter in the new one.\<close>

lemma make_curl_url_fits:
  "strstr_at u (cstr ''://'') = Some i \<Longrightarrow> i \<le> length u \<Longrightarrow> make_curl_url u \<noteq> None \<longleftrightarrow> length (curl_scheme u) < i"
  by (auto simp: make_curl_url_def Let_def)

end
