(* ===== verification/Soj_Queue.thy ===== *)
theory Soj_Queue
  imports Soj_Prelude
begin

text \<open>The intrusive doubly linked list of \<open>elist.h\<close> and the thread queue of
  \<open>soj_queue.c\<close>, on an explicit store: a pointer is a natural number, 0 is \<open>NULL\<close>, and
  the store holds the \<open>next\<close>/\<open>prev\<close> links of every \<open>list_head\<close>, the \<open>data\<close>
  of every \<open>tq_ent\<close> (whose \<open>q_node\<close> has the address of the entry) and the set of live
  entries.  The mutex makes each operation one step; while \<open>tq_pop\<close> waits, other threads
  run, so a wait yields an arbitrary new state, listed in a script.  The abstraction is the
  list of the queued data; the contract is the locale \<open>fifo_queue\<close>.\<close>

record 'a heap =
  nxt :: "nat \<Rightarrow> nat"
  prv :: "nat \<Rightarrow> nat"
  dat :: "nat \<Rightarrow> 'a"
  live :: "nat set"

section \<open>elist.h\<close>

definition set_next :: "nat \<Rightarrow> nat \<Rightarrow> 'a heap \<Rightarrow> 'a heap" where
  "set_next p v h = h\<lparr>nxt := (nxt h)(p := v)\<rparr>"

definition set_prev :: "nat \<Rightarrow> nat \<Rightarrow> 'a heap \<Rightarrow> 'a heap" where
  "set_prev p v h = h\<lparr>prv := (prv h)(p := v)\<rparr>"

definition INIT_LIST_HEAD :: "nat \<Rightarrow> 'a heap \<Rightarrow> 'a heap" where
  "INIT_LIST_HEAD ptr h = set_prev ptr ptr (set_next ptr ptr h)"

text \<open>\<open>__list_add\<close>: the four stores in the order of the source.\<close>

definition list_add_between :: "nat \<Rightarrow> nat \<Rightarrow> nat \<Rightarrow> 'a heap \<Rightarrow> 'a heap" where
  "list_add_between node prev next h =
    set_next prev node (set_prev node prev (set_next node next (set_prev next node h)))"

definition list_add_tail :: "nat \<Rightarrow> nat \<Rightarrow> 'a heap \<Rightarrow> 'a heap" where
  "list_add_tail node head h = list_add_between node (prv h head) head h"

text \<open>\<open>__list_del\<close>.\<close>

definition list_del_between :: "nat \<Rightarrow> nat \<Rightarrow> 'a heap \<Rightarrow> 'a heap" where
  "list_del_between prev next h = set_next prev next (set_prev next prev h)"

definition list_del :: "nat \<Rightarrow> 'a heap \<Rightarrow> 'a heap" where
  "list_del entry h =
    set_prev entry 0 (set_next entry 0 (list_del_between (prv h entry) (nxt h entry) h))"

definition list_empty :: "nat \<Rightarrow> 'a heap \<Rightarrow> bool" where
  "list_empty head h \<longleftrightarrow> nxt h head = head"

section \<open>The queue\<close>

record 'a thread_q =
  store :: "'a heap"
  q :: nat
  frozen :: bool
  stop :: bool

definition free_ent :: "nat \<Rightarrow> 'a heap \<Rightarrow> 'a heap" where
  "free_ent p h = h\<lparr>live := live h - {p}\<rparr>"

definition calloc_ent :: "nat \<Rightarrow> 'a \<Rightarrow> 'a heap \<Rightarrow> 'a heap" where
  "calloc_ent p d h = h\<lparr>dat := (dat h)(p := d), live := insert p (live h)\<rparr>"

text \<open>\<open>alloc\<close> is what \<open>calloc\<close> returns (\<open>None\<close> for \<open>NULL\<close>).\<close>

definition tq_new :: "nat option \<Rightarrow> 'a heap \<Rightarrow> 'a thread_q option" where
  "tq_new alloc h =
    (case alloc of None \<Rightarrow> None
     | Some p \<Rightarrow> Some \<lparr>store = INIT_LIST_HEAD p h, q = p, frozen = False, stop = False\<rparr>)"

definition tq_freezethaw :: "bool \<Rightarrow> 'a thread_q \<Rightarrow> 'a thread_q" where
  "tq_freezethaw fr tq = tq\<lparr>frozen := fr\<rparr>"

definition tq_freeze :: "'a thread_q \<Rightarrow> 'a thread_q" where
  "tq_freeze tq = tq_freezethaw True tq"

definition tq_push :: "nat option \<Rightarrow> 'a \<Rightarrow> 'a thread_q \<Rightarrow> bool \<times> 'a thread_q" where
  "tq_push alloc data tq =
    (case alloc of None \<Rightarrow> (False, tq)
     | Some ent \<Rightarrow>
        let h = INIT_LIST_HEAD ent (calloc_ent ent data (store tq))
        in if \<not> frozen tq
           then (True, tq\<lparr>store := list_add_tail ent (q tq) h\<rparr>)
           else (False, tq\<lparr>store := free_ent ent h\<rparr>))"

text \<open>The part of \<open>tq_pop\<close> after the wait, with its corruption checks.\<close>

definition tq_take :: "'a thread_q \<Rightarrow> 'a option \<times> 'a thread_q" where
  "tq_take tq =
    (let h = store tq; head = q tq in
     if list_empty head h then (None, tq)
     else if nxt h head = 0 \<or> prv h head = 0 then (None, tq)
     else if nxt h head = head then (None, tq)
     else let ent = nxt h head in
     if ent = 0 then (None, tq)
     else (Some (dat h ent), tq\<lparr>store := free_ent ent (list_del ent h)\<rparr>))"

text \<open>One element of the script per return of \<open>pthread_cond_wait\<close>: its result code and the
  state of the queue when the mutex is held again.  \<open>None\<close>: the script is exhausted, the
  thread still waits.\<close>

fun tq_wait :: "(int \<times> 'a thread_q) list \<Rightarrow> 'a thread_q \<Rightarrow> ('a option \<times> 'a thread_q) option" where
  "tq_wait script tq =
    (if list_empty (q tq) (store tq) \<and> \<not> stop tq
     then (case script of [] \<Rightarrow> None
       | (rc, tq') # rest \<Rightarrow> if rc \<noteq> 0 then Some (None, tq') else tq_wait rest tq')
     else Some (tq_take tq))"

declare tq_wait.simps [simp del]

definition tq_pop :: "(int \<times> 'a thread_q) list \<Rightarrow> 'a thread_q option \<Rightarrow>
    ('a option \<times> 'a thread_q option) option" where
  "tq_pop script tqo =
    (case tqo of None \<Rightarrow> Some (None, None)
     | Some tq \<Rightarrow> map_option (\<lambda>(r, tq'). (r, Some tq')) (tq_wait script tq))"

text \<open>\<open>list_for_each_entry_safe\<close> of \<open>tq_free\<close>; the fuel bounds the walk.\<close>

fun free_walk :: "nat \<Rightarrow> nat \<Rightarrow> nat \<Rightarrow> nat \<Rightarrow> 'a heap \<Rightarrow> 'a heap option" where
  "free_walk 0 head pos n h = None"
| "free_walk (Suc fuel) head pos n h =
    (if pos = head then Some h
     else let h' = free_ent pos (list_del pos h)
       in free_walk fuel head n (nxt h' n) h')"

definition tq_free :: "nat \<Rightarrow> 'a thread_q \<Rightarrow> 'a heap option" where
  "tq_free fuel tq =
    (let h = store tq; head = q tq; pos = nxt h head
     in map_option (\<lambda>h'. free_ent head (INIT_LIST_HEAD head h')) (free_walk fuel head pos (nxt h pos) h))"

section \<open>The list a store holds\<close>

fun dseg :: "'a heap \<Rightarrow> nat \<Rightarrow> nat list \<Rightarrow> nat \<Rightarrow> bool" where
  "dseg h a [] b \<longleftrightarrow> nxt h a = b \<and> prv h b = a"
| "dseg h a (x # xs) b \<longleftrightarrow> nxt h a = x \<and> prv h x = a \<and> dseg h x xs b"

definition dll :: "'a heap \<Rightarrow> nat \<Rightarrow> nat list \<Rightarrow> bool" where
  "dll h head xs \<longleftrightarrow> dseg h head xs head \<and> distinct (head # xs) \<and> 0 \<notin> set (head # xs) \<and> set xs \<subseteq> live h"

lemma dseg_append: "dseg h a (xs @ x # ys) b \<longleftrightarrow> dseg h a xs x \<and> dseg h x ys b"
  by (induction xs arbitrary: a) auto

lemma dseg_unique: "dseg h a xs b \<Longrightarrow> dseg h a ys b \<Longrightarrow> b \<notin> set xs \<Longrightarrow> b \<notin> set ys \<Longrightarrow> xs = ys"
proof (induction xs arbitrary: a ys)
  case Nil
  then show ?case by (cases ys) auto
next
  case (Cons x xs)
  then show ?case by (cases ys) auto
qed

lemma dseg_cong:
  "(\<And>x. x \<in> insert a (set xs) \<Longrightarrow> nxt h x = nxt h' x) \<Longrightarrow>
   (\<And>x. x \<in> insert b (set xs) \<Longrightarrow> prv h x = prv h' x) \<Longrightarrow> dseg h a xs b = dseg h' a xs b"
proof (induction xs arbitrary: a)
  case (Cons x xs)
  have "dseg h x xs b = dseg h' x xs b"
    by (rule Cons.IH) (use Cons.prems in auto)
  then show ?case using Cons.prems by auto
qed auto

lemma dseg_last: "dseg h a (xs @ [x]) b \<Longrightarrow> nxt h x = b \<and> prv h b = x"
  by (simp add: dseg_append)

lemma dseg_prv_end: "dseg h a xs b \<Longrightarrow> prv h b = last (a # xs)"
  by (induction xs arbitrary: a) auto

lemmas heap_defs = set_next_def set_prev_def INIT_LIST_HEAD_def list_add_between_def
  list_add_tail_def list_del_between_def list_del_def free_ent_def calloc_ent_def

lemma dll_add_tail:
  assumes d: "dll h head xs" and new: "a \<notin> set (head # xs)" "a \<noteq> 0" "a \<in> live h"
  shows "dll (list_add_tail a head h) head (xs @ [a])"
proof -
  let ?l = "last (head # xs)"
  let ?h = "list_add_tail a head h"
  have l: "prv h head = ?l"
    using d by (auto simp: dll_def dest: dseg_prv_end)
  have seg: "dseg h head xs head" and dist: "distinct (head # xs)" 
    using d by (auto simp: dll_def)
  have "dseg ?h head xs a"
  proof (cases xs rule: rev_cases)
    case Nil
    then show ?thesis using l new by (auto simp: heap_defs)
  next
    case (snoc ys y)
    have "dseg h head ys y"
      using seg snoc by (simp add: dseg_append)
    moreover have "dseg ?h head ys y = dseg h head ys y"
      using dist new snoc l by (intro dseg_cong) (auto simp: heap_defs)
    ultimately show ?thesis
      using snoc l dist new by (auto simp: dseg_append heap_defs)
  qed
  moreover have "nxt ?h a = head \<and> prv ?h head = a"
    using l new dist by (auto simp: heap_defs)
  ultimately show ?thesis
    using d new by (auto simp: dll_def dseg_append heap_defs)
qed

lemma dll_del_first:
  assumes d: "dll h head (x # xs)"
  shows "dll (free_ent x (list_del x h)) head xs"
proof -
  let ?h = "free_ent x (list_del x h)"
  have facts: "nxt h head = x" "prv h x = head" "dseg h x xs head" "distinct (head # x # xs)"
    using d by (auto simp: dll_def)
  have "dseg ?h head xs head"
  proof (cases xs)
    case Nil
    then show ?thesis using facts by (auto simp: heap_defs)
  next
    case (Cons y ys)
    have "dseg ?h y ys head = dseg h y ys head"
      using facts Cons by (intro dseg_cong) (auto simp: heap_defs)
    then show ?thesis using facts Cons by (auto simp: heap_defs)
  qed
  then show ?thesis
    using d by (auto simp: dll_def heap_defs)
qed

section \<open>The contract of a queue\<close>

locale fifo_queue =
  fixes holds :: "'s \<Rightarrow> 'a list \<Rightarrow> bool"
    and closed :: "'s \<Rightarrow> bool"
    and fresh :: "'s \<Rightarrow> 'e \<Rightarrow> bool"
    and put :: "'e \<Rightarrow> 'a \<Rightarrow> 's \<Rightarrow> bool \<times> 's"
    and get :: "'s \<Rightarrow> 'a option \<times> 's"
  assumes holds_unique: "holds s xs \<Longrightarrow> holds s ys \<Longrightarrow> xs = ys"
    and put_open: "holds s xs \<Longrightarrow> fresh s e \<Longrightarrow> \<not> closed s \<Longrightarrow>
      fst (put e x s) \<and> holds (snd (put e x s)) (xs @ [x]) \<and> \<not> closed (snd (put e x s))"
    and put_closed: "holds s xs \<Longrightarrow> fresh s e \<Longrightarrow> closed s \<Longrightarrow>
      \<not> fst (put e x s) \<and> holds (snd (put e x s)) xs \<and> closed (snd (put e x s))"
    and get_some: "holds s (x # xs) \<Longrightarrow>
      fst (get s) = Some x \<and> holds (snd (get s)) xs \<and> closed (snd (get s)) = closed s"
    and get_none: "holds s [] \<Longrightarrow> get s = (None, s)"
begin

primrec put_all :: "('e \<times> 'a) list \<Rightarrow> 's \<Rightarrow> 's" where
  "put_all [] s = s"
| "put_all (ex # rest) s = put_all rest (snd (put (fst ex) (snd ex) s))"

primrec all_fresh :: "('e \<times> 'a) list \<Rightarrow> 's \<Rightarrow> bool" where
  "all_fresh [] s = True"
| "all_fresh (ex # rest) s \<longleftrightarrow> fresh s (fst ex) \<and> all_fresh rest (snd (put (fst ex) (snd ex) s))"

primrec get_times :: "nat \<Rightarrow> 's \<Rightarrow> 'a option list" where
  "get_times 0 s = []"
| "get_times (Suc n) s = fst (get s) # get_times n (snd (get s))"

lemma put_all_holds:
  "holds s xs \<Longrightarrow> \<not> closed s \<Longrightarrow> all_fresh es s \<Longrightarrow> holds (put_all es s) (xs @ map snd es)"
proof (induction es arbitrary: s xs)
  case (Cons ex es)
  then show ?case
    using put_open[of s xs "fst ex" "snd ex"] by fastforce
qed simp

lemma put_all_closed:
  "holds s xs \<Longrightarrow> closed s \<Longrightarrow> all_fresh es s \<Longrightarrow> holds (put_all es s) xs"
proof (induction es arbitrary: s)
  case (Cons ex es)
  then show ?case
    using put_closed[of s xs "fst ex" "snd ex"] by fastforce
qed simp

lemma get_times_holds:
  "holds s xs \<Longrightarrow> get_times n s = map Some (take n xs) @ replicate (n - length xs) None"
proof (induction n arbitrary: s xs)
  case (Suc n)
  show ?case
  proof (cases xs)
    case Nil
    then show ?thesis using Suc.IH[of s "[]"] Suc.prems get_none by simp
  next
    case (Cons y ys)
    then show ?thesis using Suc.IH[of "snd (get s)" ys] Suc.prems get_some[of s y ys] by simp
  qed
qed simp

lemma fifo:
  "holds s [] \<Longrightarrow> \<not> closed s \<Longrightarrow> all_fresh es s \<Longrightarrow>
     get_times (length es) (put_all es s) = map (Some \<circ> snd) es"
  using put_all_holds[of s "[]" es] get_times_holds[of "put_all es s" "map snd es" "length es"]
  by simp

end

section \<open>The queue of the code keeps the contract\<close>

definition queued :: "'a thread_q \<Rightarrow> 'a list \<Rightarrow> bool" where
  "queued tq ds \<longleftrightarrow> (\<exists>xs. dll (store tq) (q tq) xs \<and> ds = map (dat (store tq)) xs)"

definition alloc_ok :: "'a thread_q \<Rightarrow> nat option \<Rightarrow> bool" where
  "alloc_ok tq alloc \<longleftrightarrow> (case alloc of None \<Rightarrow> False
     | Some p \<Rightarrow> p \<noteq> 0 \<and> p \<noteq> q tq \<and> p \<notin> live (store tq))"

lemma dll_calloc:
  "dll h head xs \<Longrightarrow> a \<notin> set (head # xs) \<Longrightarrow> dll (INIT_LIST_HEAD a (calloc_ent a d h)) head xs"
  unfolding dll_def
  by (auto simp: heap_defs intro: dseg_cong[THEN iffD1, rotated -1])

lemma tq_push_open:
  assumes "queued tq ds" "alloc_ok tq alloc" "\<not> frozen tq"
  shows "fst (tq_push alloc d tq) \<and> queued (snd (tq_push alloc d tq)) (ds @ [d])
    \<and> \<not> frozen (snd (tq_push alloc d tq))"
proof -
  obtain xs where xs: "dll (store tq) (q tq) xs" "ds = map (dat (store tq)) xs"
    using assms(1) by (auto simp: queued_def)
  obtain a where a: "alloc = Some a" "a \<noteq> 0" "a \<noteq> q tq" "a \<notin> live (store tq)"
    using assms(2) by (auto simp: alloc_ok_def split: option.splits)
  have new: "a \<notin> set (q tq # xs)"
    using xs(1) a by (auto simp: dll_def)
  let ?h = "INIT_LIST_HEAD a (calloc_ent a d (store tq))"
  have "dll (list_add_tail a (q tq) ?h) (q tq) (xs @ [a])"
    by (rule dll_add_tail[OF dll_calloc[OF xs(1) new]]) (use new a in \<open>auto simp: heap_defs\<close>)
  moreover have "map (dat (list_add_tail a (q tq) ?h)) (xs @ [a]) = ds @ [d]"
    using new xs(2) by (auto simp: heap_defs)
  ultimately have "queued (tq\<lparr>store := list_add_tail a (q tq) ?h\<rparr>) (ds @ [d])"
    by (auto simp: queued_def intro!: exI[of _ "xs @ [a]"])
  then show ?thesis
    using a assms(3) by (simp add: tq_push_def Let_def)
qed

lemma tq_push_frozen:
  assumes "queued tq ds" "alloc_ok tq alloc" "frozen tq"
  shows "\<not> fst (tq_push alloc d tq) \<and> queued (snd (tq_push alloc d tq)) ds
    \<and> frozen (snd (tq_push alloc d tq))"
proof -
  obtain xs where xs: "dll (store tq) (q tq) xs" "ds = map (dat (store tq)) xs"
    using assms(1) by (auto simp: queued_def)
  obtain a where a: "alloc = Some a" "a \<noteq> 0" "a \<noteq> q tq" "a \<notin> live (store tq)"
    using assms(2) by (auto simp: alloc_ok_def split: option.splits)
  have new: "a \<notin> set (q tq # xs)" and sub: "set xs \<subseteq> live (store tq)"
    using xs(1) a by (auto simp: dll_def)
  let ?h = "free_ent a (INIT_LIST_HEAD a (calloc_ent a d (store tq)))"
  have "dll ?h (q tq) xs"
    using dll_calloc[OF xs(1) new, of d] new sub
    unfolding dll_def by (auto simp: heap_defs intro: dseg_cong[THEN iffD1, rotated -1])
  moreover have "map (dat ?h) xs = ds"
    using new xs(2) by (auto simp: heap_defs)
  ultimately have "queued (tq\<lparr>store := ?h\<rparr>) ds"
    by (auto simp: queued_def intro!: exI[of _ xs])
  then show ?thesis
    using a assms(3) by (simp add: tq_push_def Let_def)
qed

lemma tq_take_some:
  assumes "queued tq (d # ds)"
  shows "fst (tq_take tq) = Some d \<and> queued (snd (tq_take tq)) ds
    \<and> frozen (snd (tq_take tq)) = frozen tq"
proof -
  obtain x xs where xs: "dll (store tq) (q tq) (x # xs)" "d # ds = map (dat (store tq)) (x # xs)"
    using assms unfolding queued_def by (auto simp: Cons_eq_map_conv)
  have facts: "nxt (store tq) (q tq) = x" "x \<noteq> q tq" "x \<noteq> 0" "prv (store tq) (q tq) \<noteq> 0"
  proof -
    have seg: "dseg (store tq) (q tq) (x # xs) (q tq)" and nz: "0 \<notin> set (x # xs)"
      using xs(1) by (auto simp: dll_def)
    have "last (x # xs) \<in> set (x # xs)"
      by (rule last_in_set) simp
    then have "last (x # xs) \<noteq> 0"
      using nz by metis
    then show "prv (store tq) (q tq) \<noteq> 0"
      using dseg_prv_end[OF seg] by simp
  qed (use xs(1) in \<open>auto simp: dll_def\<close>)
  have "queued (tq\<lparr>store := free_ent x (list_del x (store tq))\<rparr>) ds"
    using dll_del_first[OF xs(1)] xs(2) unfolding queued_def
    by (auto simp: heap_defs intro!: exI[of _ xs])
  then show ?thesis
    using facts xs(2) by (simp add: tq_take_def list_empty_def Let_def)
qed

lemma tq_take_none: "queued tq [] \<Longrightarrow> tq_take tq = (None, tq)"
  by (auto simp: queued_def dll_def tq_take_def list_empty_def)

lemma queued_unique: "queued tq xs \<Longrightarrow> queued tq ys \<Longrightarrow> xs = ys"
  unfolding queued_def dll_def by (auto dest: dseg_unique)

lemma tq_pop_first:
  assumes "queued tq (d # ds)"
  shows "\<exists>tq'. tq_pop script (Some tq) = Some (Some d, Some tq') \<and> queued tq' ds"
proof -
  have "\<not> list_empty (q tq) (store tq)"
    using assms by (auto simp: queued_def dll_def list_empty_def Cons_eq_map_conv)
  then show ?thesis
    using tq_take_some[OF assms] by (cases "tq_take tq") (auto simp: tq_pop_def tq_wait.simps[of _ tq])
qed

interpretation tq: fifo_queue queued frozen alloc_ok tq_push tq_take
proof
  show "xs = ys" if "queued s xs" "queued s ys" for s :: "'a thread_q" and xs ys
    using that by (rule queued_unique)
qed (rule tq_push_open tq_push_frozen tq_take_some tq_take_none, assumption+)+


section \<open>What the queue guarantees\<close>

text \<open>Several pushes, each with the address its \<open>calloc\<close> returned, and several takes.\<close>

primrec push_all :: "(nat option \<times> 'a) list \<Rightarrow> 'a thread_q \<Rightarrow> 'a thread_q" where
  "push_all [] s = s"
| "push_all (ex # rest) s = push_all rest (snd (tq_push (fst ex) (snd ex) s))"

primrec pop_times :: "nat \<Rightarrow> 'a thread_q \<Rightarrow> 'a option list" where
  "pop_times 0 s = []"
| "pop_times (Suc n) s = fst (tq_take s) # pop_times n (snd (tq_take s))"

primrec allocs_ok :: "(nat option \<times> 'a) list \<Rightarrow> 'a thread_q \<Rightarrow> bool" where
  "allocs_ok [] s = True"
| "allocs_ok (ex # rest) s \<longleftrightarrow> alloc_ok s (fst ex) \<and> allocs_ok rest (snd (tq_push (fst ex) (snd ex) s))"

lemma push_all_eq: "push_all es s = tq.put_all es s"
  by (induction es arbitrary: s) auto

lemma pop_times_eq: "pop_times n s = tq.get_times n s"
  by (induction n arbitrary: s) auto

lemma allocs_ok_eq: "allocs_ok es s = tq.all_fresh es s"
  by (induction es arbitrary: s) auto

text \<open>C27: first in, first out: what a sequence of \<open>tq_push\<close> calls put into an empty,
  unfrozen queue, the same number of takes returns, in the same order, for any addresses
  \<open>calloc\<close> gave the entries.\<close>

theorem tq_first_in_first_out:
  assumes "queued s []" "\<not> frozen s" "allocs_ok es s"
  shows "pop_times (length es) (push_all es s) = map (Some \<circ> snd) es"
  using assms unfolding push_all_eq pop_times_eq allocs_ok_eq by (rule tq.fifo)

lemma tq_new_empty: "p \<noteq> 0 \<Longrightarrow> tq_new (Some p) h = Some tq \<Longrightarrow> queued tq [] \<and> \<not> frozen tq \<and> \<not> stop tq"
  by (auto simp: tq_new_def queued_def dll_def heap_defs intro!: exI[of _ "[]"])

theorem tq_first_in_first_out_witness:
  "\<exists>s. tq_new (Some 7) \<lparr>nxt = \<lambda>_. 0, prv = \<lambda>_. 0, dat = \<lambda>_. (0 :: nat), live = {}\<rparr> = Some s \<and>
    pop_times 2 (push_all [(Some 3, 10), (Some 5, 20)] s) = [Some 10, Some 20]"
proof -
  let ?h = "\<lparr>nxt = \<lambda>_. 0, prv = \<lambda>_. 0, dat = \<lambda>_. (0 :: nat), live = {}\<rparr>"
  obtain s where s: "tq_new (Some 7) ?h = Some s"
    by (simp add: tq_new_def)
  have emp: "queued s []" "\<not> frozen s"
    using tq_new_empty[of 7, OF _ s] by auto
  have "allocs_ok [(Some 3, 10), (Some 5, 20)] s"
    using s by (auto simp: tq_new_def alloc_ok_def tq_push_def Let_def heap_defs)
  from tq_first_in_first_out[OF emp this] show ?thesis
    using s by (auto simp: numeral_2_eq_2)
qed

text \<open>\<open>tq_pop\<close> never waits while the queue holds something: whatever the other threads
  would do, it returns the oldest datum and leaves the rest.  On an empty queue it returns
  \<open>NULL\<close> once the queue is stopped, blocks otherwise, and reports a failed wait as
  \<open>NULL\<close>.\<close>

theorem tq_pop_behaviour:
  assumes "queued tq ds"
  shows "case ds of
      d # ds' \<Rightarrow> \<exists>tq'. tq_pop script (Some tq) = Some (Some d, Some tq') \<and> queued tq' ds'
    | [] \<Rightarrow> if stop tq then tq_pop script (Some tq) = Some (None, Some tq)
        else tq_pop [] (Some tq) = None
          \<and> (rc \<noteq> 0 \<longrightarrow> tq_pop ((rc, tq') # script) (Some tq) = Some (None, Some tq'))
          \<and> (rc = 0 \<longrightarrow> tq_pop ((rc, tq') # script) (Some tq) = tq_pop script (Some tq'))"
proof (cases ds)
  case Nil
  then have "list_empty (q tq) (store tq)"
    using assms by (auto simp: queued_def dll_def list_empty_def)
  then show ?thesis
    using Nil assms tq_take_none[of tq]
    by (auto simp: tq_pop_def tq_wait.simps[of _ tq])
next
  case (Cons d ds')
  then show ?thesis using tq_pop_first[of tq d ds' script] assms by simp
qed

theorem tq_pop_behaviour_witness:
  "\<exists>tq :: nat thread_q. queued tq [] \<and> \<not> stop tq \<and> tq_pop [] (Some tq) = None
     \<and> tq_pop [(110, tq)] (Some tq) = Some (None, Some tq)"
proof -
  let ?h = "\<lparr>nxt = \<lambda>_. 0, prv = \<lambda>_. 0, dat = \<lambda>_. (0 :: nat), live = {}\<rparr>"
  obtain s where s: "tq_new (Some 7) ?h = Some s"
    by (simp add: tq_new_def)
  have "queued s []" "\<not> stop s"
    using tq_new_empty[of 7, OF _ s] by auto
  then show ?thesis
    using tq_pop_behaviour[of s "[]" "[]" 110 s] by auto
qed

lemma free_walk_dll:
  assumes "dll h head xs" "length xs < fuel"
  shows "\<exists>h'. free_walk fuel head (nxt h head) (nxt h (nxt h head)) h = Some h'
    \<and> live h' = live h - set xs \<and> nxt h' head = head"
  using assms
proof (induction xs arbitrary: h fuel)
  case Nil
  then show ?case by (cases fuel) (auto simp: dll_def)
next
  case (Cons x xs)
  obtain f where f: "fuel = Suc f" "length xs < f"
    using Cons.prems(2) by (cases fuel) auto
  let ?h = "free_ent x (list_del x h)"
  have d: "dll ?h head xs"
    using Cons.prems(1) by (rule dll_del_first)
  have facts: "nxt h head = x" "x \<noteq> head" "prv h x = head"
    using Cons.prems(1) by (auto simp: dll_def)
  have nx: "nxt ?h head = nxt h x"
    using facts by (auto simp: heap_defs)
  obtain h' where h': "free_walk f head (nxt ?h head) (nxt ?h (nxt ?h head)) ?h = Some h'"
    "live h' = live ?h - set xs" "nxt h' head = head"
    using Cons.IH[OF d f(2)] by auto
  then show ?case
    using f facts nx by (auto simp: Let_def heap_defs)
qed

text \<open>C35: \<open>tq_free\<close> ends and frees every queued entry and the queue itself, and nothing
  else.\<close>

theorem tq_free_frees_all:
  assumes "dll (store tq) (q tq) xs" "length xs < fuel"
  shows "\<exists>h. tq_free fuel tq = Some h \<and> live h = live (store tq) - set xs - {q tq}"
proof -
  obtain h' where "free_walk fuel (q tq) (nxt (store tq) (q tq))
      (nxt (store tq) (nxt (store tq) (q tq))) (store tq) = Some h'"
    "live h' = live (store tq) - set xs"
    using free_walk_dll[OF assms] by auto
  then show ?thesis
    by (auto simp: tq_free_def Let_def heap_defs)
qed

theorem tq_free_frees_all_witness:
  "\<exists>h. tq_free 3 \<lparr>store = \<lparr>nxt = (\<lambda>p. if p = 1 then 2 else 1), prv = (\<lambda>p. if p = 1 then 2 else 1),
      dat = (\<lambda>_. 0 :: nat), live = {1, 2}\<rparr>, q = 1, frozen = False, stop = False\<rparr> = Some h
    \<and> live h = {}"
  using tq_free_frees_all[of "\<lparr>store = \<lparr>nxt = (\<lambda>p. if p = 1 then 2 else 1),
      prv = (\<lambda>p. if p = 1 then 2 else 1), dat = (\<lambda>_. 0 :: nat), live = {1, 2}\<rparr>, q = 1,
      frozen = False, stop = False\<rparr>" "[2]" 3]
  by (auto simp: dll_def)

end
