(* ===== verification/Soj_Pool.thy ===== *)
theory Soj_Pool
  imports Soj_Transport Soj_Queue
begin

text \<open>What \<open>soj.c\<close> and \<open>util.c\<close> do with the pool over the transport: submitting
  shares through the queue of the workio thread, counting the pool's answers, waiting out a
  protection backoff, and the loop of the stratum thread that connects, receives, reauthenticates
  and generates work.\<close>

section \<open>State\<close>

record share_stat =
  st_share_count :: u32
  st_submit_time :: "int \<times> int"
  st_share_diff :: rat
  st_net_diff :: "rat option"
  st_stratum_diff :: rat
  st_target_diff :: rat
  st_height :: u32
  st_job_id :: bytes

text \<open>A command of the workio thread, with the epoch it was queued in.  (\<open>WC_GET_WORK\<close> is
  never sent: \<open>get_work\<close> has no caller.)\<close>

record workio_cmd =
  wc_work :: work
  wc_epoch_token :: u64

text \<open>The globals of the two files, with the thread's static variables last.\<close>

record pool =
  p_tr :: transport
  p_miner :: miner
  p_queue :: "workio_cmd option thread_q"
  p_submitted :: u32
  p_accepted :: u32
  p_rejected :: u32
  p_share_stats :: "share_stat list"
  p_get_ptr :: nat
  p_put_ptr :: nat
  p_last_submit :: "int \<times> int"
  p_need_reset :: bool
  p_suspended_for_job :: bool
  p_dup_errors :: int
  p_cycle_errors :: int
  p_g_work_time :: int
  p_stratum_errors :: u32
  p_reset_time :: "int \<times> int"
  p_keepalive_timer :: "int \<times> int"
  p_recv_failures :: int
  p_last_recv_failure :: int

text \<open>Options and what is outside: the rounding of doubles, the rates of the threads, the printing
  of doubles and the unused content of a SHA-256 context.\<close>

record config =
  c_env :: method_env
  c_gate :: algo_gate_t
  c_rpc_url :: cstring
  c_user :: cstring
  c_pass :: cstring
  c_retries :: int
  c_keepalive :: bool
  c_rl :: "rat \<Rightarrow> rat"
  c_rd :: "rat \<Rightarrow> rat"
  c_target_factor :: rat
  c_diff_factor :: rat
  c_rates :: "rat list"
  c_ctx :: sha256_context
  c_fmt_f :: "rat \<Rightarrow> cstring"

abbreviation on_tr :: "(transport \<Rightarrow> transport) \<Rightarrow> pool \<Rightarrow> pool" where
  "on_tr f p \<equiv> p\<lparr>p_tr := f (p_tr p)\<rparr>"

abbreviation p_session :: "pool \<Rightarrow> session" where
  "p_session p \<equiv> t_session (p_tr p)"

definition restart_all :: "pool \<Rightarrow> pool" where
  "restart_all p = p\<lparr>p_miner := restart_threads (p_miner p)\<rparr>"

definition bump_epoch :: "pool \<Rightarrow> pool" where
  "bump_epoch p = p\<lparr>p_miner := (p_miner p)\<lparr>m_reauth_epoch := m_reauth_epoch (p_miner p) + 1\<rparr>\<rparr>"

section \<open>Protection backoff\<close>

definition activate_protection_backoff :: "pool \<Rightarrow> event list \<Rightarrow> (pool \<times> event list) option" where
  "activate_protection_backoff p ev = do {
     (now, ev) \<leftarrow> next_clock ev;
     let next_boundary = (now div 240 + 1) * 240;
     Some (restart_all (on_tr (\<lambda>t. t\<lparr>t_pause_until := next_boundary\<rparr>) p), ev) }"

text \<open>Each turn reads the clock and sleeps at most five seconds.\<close>

fun enforce_backoff_wait_if_needed :: "int \<Rightarrow> event list \<Rightarrow> event list option" where
  "enforce_backoff_wait_if_needed until (Clock now # ev) =
    (if until = 0 \<or> now \<ge> until then Some ev else enforce_backoff_wait_if_needed until ev)"
| "enforce_backoff_wait_if_needed until _ = None"

section \<open>Shares\<close>

definition share_result :: "bool \<Rightarrow> pool \<Rightarrow> pool" where
  "share_result result p =
    (if result then p\<lparr>p_accepted := p_accepted p + 1\<rparr> else p\<lparr>p_rejected := p_rejected p + 1\<rparr>)"

definition s_stats_size :: nat where "s_stats_size = 256"

definition stats_ptr_incr :: "nat \<Rightarrow> nat" where
  "stats_ptr_incr i = (i + 1) mod s_stats_size"

text \<open>\<open>strncpy (dst, src, 30)\<close> fills 30 bytes.\<close>

definition strncpy30 :: "bytes \<Rightarrow> cstring \<Rightarrow> bytes" where
  "strncpy30 dst src = put_at 0 (take 30 (src @ replicate 30 0)) dst"

definition update_submit_stats :: "work \<Rightarrow> pool \<Rightarrow> event list \<Rightarrow> (pool \<times> event list) option" where
  "update_submit_stats work p ev = do {
     let p = p\<lparr>p_submitted := p_submitted p + 1\<rparr>;
     (tod, ev) \<leftarrow> next_timeofday ev;
     job_id \<leftarrow> hstring (m_heap (p_miner p)) (w_job_id work);
     let i = p_put_ptr p;
     let old = p_share_stats p ! i;
     let new = \<lparr>st_share_count = p_submitted p, st_submit_time = tod, st_share_diff = w_sharediff work,
           st_net_diff = net_diff (m_stats (p_miner p)), st_stratum_diff = stratum_diff (m_stats (p_miner p)),
           st_target_diff = w_targetdiff work, st_height = word_of_int (w_height work),
           st_job_id = strncpy30 (st_job_id old) job_id\<rparr>;
     Some (p\<lparr>p_last_submit := tod, p_share_stats := (p_share_stats p)[i := new], p_put_ptr := stats_ptr_incr i\<rparr>, ev) }"

text \<open>\<open>wc_ok\<close> and \<open>work_ok\<close> say whether the allocations succeed, \<open>alloc\<close> is the
  address of the queue's entry.  On failure the copy is freed again.\<close>

definition submit_work :: "bool \<Rightarrow> bool \<Rightarrow> nat option \<Rightarrow> pool \<Rightarrow> work \<Rightarrow> (bool \<times> pool) option" where
  "submit_work wc_ok work_ok alloc p work_in =
    (if \<not> wc_ok \<or> \<not> work_ok then Some (False, p)
     else do {
       (w, h) \<leftarrow> work_copy (m_heap (p_miner p)) work_in;
       let wc = \<lparr>wc_work = w, wc_epoch_token = m_reauth_epoch (p_miner p)\<rparr>;
       let (pushed, q') = tq_push alloc (Some wc) (p_queue p);
       h \<leftarrow> (if pushed then Some h else work_free h w);
       Some (pushed, p\<lparr>p_miner := (p_miner p)\<lparr>m_heap := h\<rparr>, p_queue := q'\<rparr>) })"

text \<open>A hash whose upper half is zero would have an infinite difficulty, which the rationals do not
  have: \<open>None\<close>.\<close>

definition submit_solution ::
  "config \<Rightarrow> bool \<Rightarrow> bool \<Rightarrow> nat option \<Rightarrow> work \<Rightarrow> bytes \<Rightarrow> pool \<Rightarrow> event list \<Rightarrow> (bool \<times> work \<times> pool \<times> event list) option" where
  "submit_solution cfg wc_ok work_ok alloc work hash p ev = do {
     d \<leftarrow> hash_to_diff (c_rl cfg) (c_rd cfg) hash;
     let work = work\<lparr>w_sharediff := d\<rparr>;
     (ok, p) \<leftarrow> submit_work wc_ok work_ok alloc p work;
     if ok then do { (p, ev) \<leftarrow> update_submit_stats work p ev; Some (True, work, p, ev) }
     else Some (False, work, p, ev) }"

definition submit_upstream_work ::
  "config \<Rightarrow> bool \<Rightarrow> work \<Rightarrow> pool \<Rightarrow> event list \<Rightarrow> (bool \<times> pool \<times> event list) option" where
  "submit_upstream_work cfg have_stratum work p ev =
    (if \<not> have_stratum then Some (False, p, ev)
     else if t_suspended (p_tr p) then Some (True, p, ev)
     else if w_reauth_epoch work < m_reauth_epoch (p_miner p) then Some (True, p, ev)
     else do {
       let p = on_tr (on_session (\<lambda>s. s\<lparr>sharediff := w_sharediff work\<rparr>)) p;
       req \<leftarrow> std_le_build_stratum_request (c_gate cfg) (m_heap (p_miner p)) (c_user cfg) work;
       (ok, s, ev) \<leftarrow> stratum_send_line (p_session p) req ev;
       Some (ok, on_tr (\<lambda>t. t\<lparr>t_session := s\<rparr>) p, ev) })"

text \<open>Whatever becomes of the submission, the command counts as handled.\<close>

definition workio_submit_work ::
  "config \<Rightarrow> bool \<Rightarrow> workio_cmd \<Rightarrow> pool \<Rightarrow> event list \<Rightarrow> (bool \<times> pool \<times> event list) option" where
  "workio_submit_work cfg have_stratum wc p ev =
    (if wc_epoch_token wc < m_reauth_epoch (p_miner p) then Some (True, p, ev)
     else do {
       ev \<leftarrow> enforce_backoff_wait_if_needed (t_pause_until (p_tr p)) ev;
       (ok, p, ev) \<leftarrow> submit_upstream_work cfg have_stratum (wc_work wc) p ev;
       if \<not> ok then Some (True, p, ev) else Some (True, p, ev) })"

text \<open>One turn of the workio thread: a command is taken, carried out and freed; a null command ends
  the thread, which then freezes its queue.\<close>

definition workio_step ::
  "config \<Rightarrow> bool \<Rightarrow> (int \<times> workio_cmd option thread_q) list \<Rightarrow> pool \<Rightarrow> event list \<Rightarrow> (bool \<times> pool \<times> event list) option" where
  "workio_step cfg have_stratum script p ev = do {
     (wc, q') \<leftarrow> tq_pop script (Some (p_queue p));
     tq \<leftarrow> q';
     let p = p\<lparr>p_queue := tq\<rparr>;
     case wc of
       Some (Some cmd) \<Rightarrow> do {
         (ok, p, ev) \<leftarrow> workio_submit_work cfg have_stratum cmd p ev;
         h \<leftarrow> work_free (m_heap (p_miner p)) (wc_work cmd);
         let p = p\<lparr>p_miner := (p_miner p)\<lparr>m_heap := h\<rparr>\<rparr>;
         Some (ok, if ok then p else p\<lparr>p_queue := tq_freeze (p_queue p)\<rparr>, ev) }
     | _ \<Rightarrow> Some (False, p\<lparr>p_queue := tq_freeze (p_queue p)\<rparr>, ev) }"

section \<open>Answers of the pool\<close>

definition reauthenticate :: "config \<Rightarrow> pool \<Rightarrow> event list \<Rightarrow> (bool \<times> pool \<times> event list) option" where
  "reauthenticate cfg p ev = do {
     (ok, t, ev) \<leftarrow> stratum_reauthenticate (c_env cfg) (c_rpc_url cfg) (c_user cfg) (c_pass cfg) (p_tr p) ev;
     Some (ok, p\<lparr>p_tr := t\<rparr>, ev) }"

definition contains :: "cstring \<Rightarrow> cstring \<Rightarrow> bool" where
  "contains s pat \<longleftrightarrow> strstr_at s pat \<noteq> None"

text \<open>The reaction to an error message; the flag is the early return for a duplicate.\<close>

definition pool_error :: "config \<Rightarrow> cstring \<Rightarrow> pool \<Rightarrow> event list \<Rightarrow> (bool \<times> pool \<times> event list) option" where
  "pool_error cfg msg p ev =
    (if contains msg (cstr ''stale'') \<or> contains msg (cstr ''incorrect cycle'') \<or> contains msg (cstr ''job not found'') then
       if contains msg (cstr ''duplicate'') then Some (True, p\<lparr>p_dup_errors := p_dup_errors p + 1\<rparr>, ev)
       else
         let p = p\<lparr>p_dup_errors := 0\<rparr>;
             (should, p) =
               (if contains msg (cstr ''incorrect cycle'') then
                  let p = p\<lparr>p_cycle_errors := p_cycle_errors p + 1\<rparr>
                  in if p_cycle_errors p > 2 then (True, (restart_all p)\<lparr>p_suspended_for_job := True\<rparr>) else (False, p)
                else (True, p\<lparr>p_cycle_errors := 0\<rparr>))
         in if \<not> should then Some (False, p, ev)
            else do {
              (ok, p, ev) \<leftarrow> reauthenticate cfg p ev;
              let p = (if \<not> ok then p\<lparr>p_need_reset := True\<rparr> else restart_all ((bump_epoch p)\<lparr>p_g_work_time := 0\<rparr>));
              Some (False, p\<lparr>p_cycle_errors := 0\<rparr>, ev) }
     else Some (False, p, ev))"

text \<open>A message that is not a string is searched through a null pointer: undefined.\<close>

definition stratum_handle_response :: "config \<Rightarrow> cstring \<Rightarrow> pool \<Rightarrow> event list \<Rightarrow> (bool \<times> pool \<times> event list) option" where
  "stratum_handle_response cfg line p ev =
    (case loads (c_env cfg) line of
       None \<Rightarrow> do {
         (ok, p, ev) \<leftarrow> reauthenticate cfg p ev;
         Some (False, if \<not> ok then p\<lparr>p_need_reset := True\<rparr> else p, ev) }
     | Some val \<Rightarrow>
         let id_val = json_object_get (Some val) (cstr ''id'');
             res_val = json_object_get (Some val) (cstr ''result'');
             err_val = json_object_get (Some val) (cstr ''error'')
         in if no_id id_val then Some (False, p, ev)
            else do {
              (stop, p, ev) \<leftarrow>
                (case json_object_get err_val (cstr ''message'') of
                   None \<Rightarrow> Some (False, p, ev)
                 | Some message \<Rightarrow> do { msg \<leftarrow> json_string_value (Some message); pool_error cfg msg p ev });
              if stop then Some (True, p, ev)
              else if res_val \<noteq> None \<and> json_integer_value id_val \<ge> 4 then
                let share_accepted = json_is_true res_val;
                    p = share_result share_accepted p;
                    p = (if share_accepted then p\<lparr>p_dup_errors := 0, p_cycle_errors := 0\<rparr> else p)
                in Some (True, p, ev)
              else Some (False, p, ev) })"

section \<open>The stratum thread\<close>

definition generate_work :: "config \<Rightarrow> pool \<Rightarrow> event list \<Rightarrow> (pool \<times> event list) option" where
  "generate_work cfg p ev = do {
     (now, ev) \<leftarrow> next_clock ev;
     m \<leftarrow> stratum_gen_work (c_gate cfg) True (c_rl cfg) (c_rd cfg) (c_target_factor cfg) (c_diff_factor cfg)
       (c_rates cfg) (c_ctx cfg) ((p_miner p)\<lparr>m_stratum := sess_ctx (p_session p)\<rparr>);
     Some (on_tr (on_session (\<lambda>s. s\<lparr>sess_ctx := m_stratum m\<rparr>)) (p\<lparr>p_miner := m, p_g_work_time := now\<rparr>), ev) }"

text \<open>A requested reset.  The shared work's job id is freed before it is compared, so
  \<open>last_rejected_job_id\<close> is never set.\<close>

definition stratum_reset :: "config \<Rightarrow> pool \<Rightarrow> event list \<Rightarrow> (pool \<times> event list) option" where
  "stratum_reset cfg p ev = do {
     (now, ev) \<leftarrow> next_clock ev;
     let p = p\<lparr>p_need_reset := False\<rparr>;
     (tod, ev) \<leftarrow> next_timeofday ev;
     let p = on_tr (\<lambda>t. t\<lparr>t_down := True\<rparr>) (p\<lparr>p_reset_time := tod, p_stratum_errors := p_stratum_errors p + 1\<rparr>);
     let p = on_tr (on_session stratum_disconnect) p;
     h \<leftarrow> free_field (m_heap (p_miner p)) (w_job_id (m_g_work (p_miner p)));
     let p = p\<lparr>p_miner := (p_miner p)\<lparr>m_heap := h, m_g_work := (m_g_work (p_miner p))\<lparr>w_job_id := 0\<rparr>\<rparr>, p_g_work_time := 0\<rparr>;
     let p = on_tr (on_session (\<lambda>s. s\<lparr>url := c_rpc_url cfg\<rparr>)) p;
     let p = restart_all p;
     Some (if p_get_ptr p \<noteq> p_put_ptr p then p\<lparr>p_get_ptr := 0, p_put_ptr := 0\<rparr> else p, ev) }"

text \<open>One attempt to connect, subscribe and authorize.\<close>

definition open_session :: "config \<Rightarrow> pool \<Rightarrow> event list \<Rightarrow> (bool \<times> pool \<times> event list) option" where
  "open_session cfg p ev = do {
     (ok, t, ev) \<leftarrow> stratum_connect (url (p_session p)) (p_tr p) ev;
     if \<not> ok then Some (False, p\<lparr>p_tr := t\<rparr>, ev)
     else do {
       (ok, t, ev) \<leftarrow> stratum_subscribe (c_env cfg) t ev;
       if \<not> ok then Some (False, p\<lparr>p_tr := t\<rparr>, ev)
       else do {
         (ok, t, ev) \<leftarrow> stratum_authorize (c_env cfg) (c_user cfg) (c_pass cfg) t ev;
         Some (ok, p\<lparr>p_tr := t\<rparr>, ev) } } }"

text \<open>One turn of the connecting loop; \<open>failures\<close> counts on only with a limit on retries.
  The first flag is false when the limit is passed and the workio thread is told to end.\<close>

definition count_failure :: "config \<Rightarrow> int \<Rightarrow> int" where
  "count_failure cfg failures = (if c_retries cfg \<ge> 0 then failures + 1 else failures)"

definition connect_turn :: "config \<Rightarrow> nat option \<Rightarrow> int \<Rightarrow> pool \<Rightarrow> event list \<Rightarrow> (bool \<times> int \<times> pool \<times> event list) option" where
  "connect_turn cfg alloc failures p ev = do {
     let p = on_tr (\<lambda>t. t\<lparr>t_down := True\<rparr>) p;
     let p = bump_epoch ((restart_all p)\<lparr>p_g_work_time := 0\<rparr>);
     ev \<leftarrow> enforce_backoff_wait_if_needed (t_pause_until (p_tr p)) ev;
     (ok, p, ev) \<leftarrow> open_session cfg p ev;
     if \<not> ok then do {
       let p = on_tr (on_session stratum_disconnect) p;
       let failures = count_failure cfg failures;
       if c_retries cfg \<ge> 0 \<and> failures > c_retries cfg
       then Some (False, failures, p\<lparr>p_queue := snd (tq_push alloc None (p_queue p))\<rparr>, ev)
       else if failures \<ge> 3 then do {
         (p, ev) \<leftarrow> activate_protection_backoff p ev;
         ev \<leftarrow> enforce_backoff_wait_if_needed (t_pause_until (p_tr p)) ev;
         Some (True, failures, p, ev) }
       else Some (True, failures, p, ev) }
     else if s_new_job (sess_ctx (p_session p)) then do {
       (p, ev) \<leftarrow> generate_work cfg (on_tr (\<lambda>t. t\<lparr>t_down := False\<rparr>) p) ev;
       Some (True, failures, p, ev) }
     else Some (True, failures, p, ev) }"

text \<open>The loop may go on as long as connecting fails: fuel bounds the turns, and running out of it or of events
  is \<open>None\<close>.\<close>

fun connect_loop :: "nat \<Rightarrow> config \<Rightarrow> nat option \<Rightarrow> int \<Rightarrow> pool \<Rightarrow> event list \<Rightarrow> (bool \<times> pool \<times> event list) option" where
  "connect_loop fuel cfg alloc failures p ev =
    (if curl (p_session p) then Some (True, p, ev)
     else case fuel of
       0 \<Rightarrow> None
     | Suc n \<Rightarrow> do {
         (go, failures, p, ev) \<leftarrow> connect_turn cfg alloc failures p ev;
         if \<not> go then Some (False, p, ev) else connect_loop n cfg alloc failures p ev })"

declare connect_loop.simps [simp del]

text \<open>Waiting for a message and handling it.  After a failed reauthentication the suspension of submissions is
  lifted here.\<close>

definition lift_suspension :: "pool \<Rightarrow> pool" where
  "lift_suspension p = on_tr (\<lambda>t. t\<lparr>t_suspended := False\<rparr>) (p\<lparr>p_need_reset := True\<rparr>)"

definition receive_failed :: "config \<Rightarrow> pool \<Rightarrow> event list \<Rightarrow> (pool \<times> event list) option" where
  "receive_failed cfg p ev = do {
     (now, ev) \<leftarrow> next_clock ev;
     let p = (if now - p_last_recv_failure p > 300 then p\<lparr>p_recv_failures := 0\<rparr> else p);
     let p = p\<lparr>p_last_recv_failure := now, p_recv_failures := p_recv_failures p + 1\<rparr>;
     if p_recv_failures p \<ge> 3 then do {
       (p, ev) \<leftarrow> activate_protection_backoff (p\<lparr>p_recv_failures := 0\<rparr>) ev;
       ev \<leftarrow> enforce_backoff_wait_if_needed (t_pause_until (p_tr p)) ev;
       Some (p\<lparr>p_need_reset := True\<rparr>, ev) }
     else do {
       (ok, p, ev) \<leftarrow> reauthenticate cfg p ev;
       Some (if \<not> ok then lift_suspension p else p\<lparr>p_recv_failures := 0\<rparr>, ev) } }"

definition stratum_receive :: "config \<Rightarrow> pool \<Rightarrow> event list \<Rightarrow> (pool \<times> event list) option" where
  "stratum_receive cfg p ev = do {
     (full, ev) \<leftarrow> stratum_socket_full (p_session p) ev;
     if full then do {
       (s, t, ev) \<leftarrow> stratum_recv_line (p_tr p) ev;
       let p = p\<lparr>p_tr := t\<rparr>;
       case s of
         Some line \<Rightarrow> do {
           let p = on_tr (\<lambda>t. t\<lparr>t_down := False\<rparr>) p;
           (handled, t, ev) \<leftarrow> handle_method (c_env cfg) line (p_tr p) ev;
           let p = p\<lparr>p_tr := t\<rparr>;
           if \<not> handled then do { (ret, p, ev) \<leftarrow> stratum_handle_response cfg line p ev; Some (p, ev) }
           else Some (p, ev) }
       | None \<Rightarrow> receive_failed cfg p ev }
     else do {
       (ok, p, ev) \<leftarrow> reauthenticate cfg p ev;
       Some (if \<not> ok then lift_suspension p else p, ev) } }"

definition timeval_diff_nonneg :: "int \<times> int \<Rightarrow> int \<times> int \<Rightarrow> int \<times> int" where
  "timeval_diff_nonneg x y =
    (let sec = fst x - fst y; usec = snd x - snd y
     in if usec < 0 then (sec - 1, usec + 1000000) else (sec, usec))"

definition stratum_keepalive_timeout :: int where "stratum_keepalive_timeout = 150"

definition stratum_keepalive :: "config \<Rightarrow> pool \<Rightarrow> event list \<Rightarrow> (pool \<times> event list) option" where
  "stratum_keepalive cfg p ev = do {
     (now, ev) \<leftarrow> next_timeofday ev;
     let p = (if fst (p_last_submit p) > fst (p_keepalive_timer p) then p\<lparr>p_keepalive_timer := p_last_submit p\<rparr> else p);
     let et = timeval_diff_nonneg now (p_keepalive_timer p);
     (p, ev) \<leftarrow> (if fst et > stratum_keepalive_timeout then do {
         let diff = j_diff (s_job (sess_ctx (p_session p)));
         let p = p\<lparr>p_keepalive_timer := now\<rparr>;
         (ok, s, ev) \<leftarrow> stratum_suggest_difficulty (c_fmt_f cfg) diff (p_session p) ev;
         Some (on_tr (\<lambda>t. t\<lparr>t_session := s\<rparr>) p, ev) } else Some (p, ev));
     let et = (if fst (p_last_submit p) > fst (p_reset_time p) then timeval_diff_nonneg now (p_last_submit p)
               else timeval_diff_nonneg now (p_reset_time p));
     if fst et > stratum_keepalive_timeout + 90 then do {
       (ok, p, ev) \<leftarrow> reauthenticate cfg p ev;
       let p = (if \<not> ok then p\<lparr>p_need_reset := True\<rparr> else p);
       Some (p\<lparr>p_keepalive_timer := now\<rparr>, ev) }
     else Some (p, ev) }"

text \<open>One turn of the thread's loop; the flag is false when it ends.\<close>

definition stratum_turn :: "nat \<Rightarrow> config \<Rightarrow> nat option \<Rightarrow> pool \<Rightarrow> event list \<Rightarrow> (bool \<times> pool \<times> event list) option" where
  "stratum_turn fuel cfg alloc p ev = do {
     (p, ev) \<leftarrow> (if p_need_reset p then stratum_reset cfg p ev else Some (p, ev));
     (go, p, ev) \<leftarrow> connect_loop fuel cfg alloc 0 p ev;
     if \<not> go then Some (False, p, ev)
     else do {
       (p, ev) \<leftarrow> stratum_receive cfg p ev;
       if p_need_reset p then Some (True, p, ev)
       else do {
         (p, ev) \<leftarrow> (if c_keepalive cfg then stratum_keepalive cfg p ev else Some (p, ev));
         if s_new_job (sess_ctx (p_session p)) \<and> \<not> p_need_reset p
         then do { (p, ev) \<leftarrow> generate_work cfg p ev; Some (True, p, ev) }
         else Some (True, p, ev) } } }"

section \<open>Which shares are sent\<close>

text \<open>A concrete client with an empty queue, two threads and nothing submitted.\<close>

definition first_config :: config where
  "first_config = \<lparr>c_env = pool_env JNull, c_gate = algo_gate, c_rpc_url = cstr ''stratum+tcp://p:1'', c_user = cstr ''u'',
     c_pass = cstr ''x'', c_retries = -1, c_keepalive = False, c_rl = (\<lambda>x. x), c_rd = (\<lambda>x. x), c_target_factor = 1,
     c_diff_factor = 1, c_rates = [0, 0], c_ctx = \<lparr>cbuf = replicate 64 0, cstate = [], ccount = 0\<rparr>, c_fmt_f = (\<lambda>_. [])\<rparr>"

definition no_share :: share_stat where
  "no_share = \<lparr>st_share_count = 0, st_submit_time = (0, 0), st_share_diff = 0, st_net_diff = None, st_stratum_diff = 0,
     st_target_diff = 0, st_height = 0, st_job_id = replicate 31 0\<rparr>"

definition empty_queue :: "workio_cmd option thread_q" where
  "empty_queue = the (tq_new (Some 7) \<lparr>nxt = \<lambda>_. 0, prv = \<lambda>_. 0, dat = \<lambda>_. None, live = {}\<rparr>)"

definition first_pool :: pool where
  "first_pool = \<lparr>p_tr = first_transport, p_miner = first_miner\<lparr>m_heap := two_jobs\<rparr>, p_queue = empty_queue, p_submitted = 0,
     p_accepted = 0, p_rejected = 0, p_share_stats = replicate 256 no_share, p_get_ptr = 0, p_put_ptr = 0,
     p_last_submit = (0, 0), p_need_reset = False, p_suspended_for_job = False, p_dup_errors = 0, p_cycle_errors = 0,
     p_g_work_time = 0, p_stratum_errors = 0, p_reset_time = (0, 0), p_keepalive_timer = (0, 0), p_recv_failures = 0,
     p_last_recv_failure = 0\<rparr>"

lemma empty_queue_queued: "queued empty_queue []" "\<not> frozen empty_queue" "alloc_ok empty_queue (Some 3)"
proof -
  obtain s where s: "tq_new (Some 7) \<lparr>nxt = \<lambda>_. 0, prv = \<lambda>_. 0, dat = \<lambda>_. (None :: workio_cmd option), live = {}\<rparr> = Some s"
    by (simp add: tq_new_def)
  have e: "empty_queue = s" using s by (simp add: empty_queue_def)
  show "queued empty_queue []" "\<not> frozen empty_queue" using tq_new_empty[OF _ s] e by simp_all
  show "alloc_ok empty_queue (Some 3)" by (simp add: alloc_ok_def empty_queue_def tq_new_def heap_defs)
qed

text \<open>C24: the workio thread sends a share only when it belongs to the current session: submissions
  are not suspended, and both the epoch in which the work was generated and that in which the command
  was queued are not older than the current one.  Then it sends exactly that share's request; otherwise nothing.\<close>

theorem only_current_shares_sent:
  assumes "workio_submit_work cfg hs wc p ev = Some (r, p', ev')"
  shows "sent (p_session p') = sent (p_session p)
    \<or> (hs \<and> \<not> t_suspended (p_tr p) \<and> m_reauth_epoch (p_miner p) \<le> wc_epoch_token wc
       \<and> m_reauth_epoch (p_miner p) \<le> w_reauth_epoch (wc_work wc)
       \<and> (\<exists>req. std_le_build_stratum_request (c_gate cfg) (m_heap (p_miner p)) (c_user cfg) (wc_work wc) = Some req
            \<and> sent (p_session p') = sent (p_session p) @ [req]))"
  using assms
  by (auto simp: workio_submit_work_def submit_upstream_work_def bind_eq_Some_conv Let_def not_less
      dest!: send_line_session split: if_splits)

theorem only_current_shares_sent_witness:
  "(\<exists>p'. workio_submit_work first_config True \<lparr>wc_work = (work_on 1 2)\<lparr>w_reauth_epoch := 3\<rparr>, wc_epoch_token = 2\<rparr> first_pool []
      = Some (True, p', []) \<and> sent (p_session p') = [])
   \<and> (\<exists>p' req. workio_submit_work first_config True \<lparr>wc_work = (work_on 1 2)\<lparr>w_reauth_epoch := 3\<rparr>, wc_epoch_token = 3\<rparr> first_pool
      [Clock 0, Writable True, Sent 8192] = Some (True, p', []) \<and> sent (p_session p') = [req])"
proof (intro conjI)
  have e: "m_reauth_epoch (p_miner first_pool) = 3" by (simp add: first_pool_def first_miner_def)
  have s0: "sent (p_session first_pool) = []" by (simp add: first_pool_def first_transport_def first_session_def)
  have run: "workio_submit_work first_config True \<lparr>wc_work = (work_on 1 2)\<lparr>w_reauth_epoch := 3\<rparr>, wc_epoch_token = 2\<rparr> first_pool []
      = Some (True, first_pool, [])"
    by (simp add: workio_submit_work_def e)
  show "\<exists>p'. workio_submit_work first_config True \<lparr>wc_work = (work_on 1 2)\<lparr>w_reauth_epoch := 3\<rparr>, wc_epoch_token = 2\<rparr> first_pool []
      = Some (True, p', []) \<and> sent (p_session p') = []"
    using run only_current_shares_sent[OF run] e s0 by auto
  obtain req where req: "std_le_build_stratum_request (c_gate first_config) (m_heap (p_miner first_pool)) (c_user first_config)
      ((work_on 1 2)\<lparr>w_reauth_epoch := 3\<rparr>) = Some req"
    by (simp add: std_le_build_stratum_request_def first_pool_def two_jobs_def work_on_def xnonce2_at_def hstring_def cstring_at_def)
  have len: "length req \<le> 8191" using req
    by (auto simp: std_le_build_stratum_request_def bind_eq_Some_conv submit_request_def JSON_BUF_LEN_def Let_def)
  show "\<exists>p' req. workio_submit_work first_config True \<lparr>wc_work = (work_on 1 2)\<lparr>w_reauth_epoch := 3\<rparr>, wc_epoch_token = 3\<rparr> first_pool
      [Clock 0, Writable True, Sent 8192] = Some (True, p', []) \<and> sent (p_session p') = [req]"
    using req len e
    by (simp add: workio_submit_work_def submit_upstream_work_def stratum_send_line_def send_loop.simps
        first_pool_def first_transport_def first_session_def)
qed

section \<open>A share of a lost session\<close>

lemma word_add_one_less: "e \<noteq> - 1 \<Longrightarrow> e < e + 1" for e :: "'a::len word"
proof -
  assume "e \<noteq> - 1"
  then have "e + 1 \<noteq> 0" by (simp add: eq_neg_iff_add_eq_0)
  then have "unat (e + 1) = unat e + 1" using unatSuc[of e] by (simp add: add.commute)
  then show ?thesis by (simp add: word_less_nat_alt)
qed



section \<open>Connections that are refused\<close>

fun connect_turns :: "nat \<Rightarrow> config \<Rightarrow> nat option \<Rightarrow> int \<Rightarrow> pool \<Rightarrow> event list \<Rightarrow> (int \<times> pool \<times> event list) option" where
  "connect_turns 0 cfg alloc f p ev = Some (f, p, ev)"
| "connect_turns (Suc n) cfg alloc f p ev = do {
     (go, f, p, ev) \<leftarrow> connect_turn cfg alloc f p ev;
     if go then connect_turns n cfg alloc f p ev else None }"

lemma refused_turn:
  assumes "c_retries cfg < 0" "t_pause_until (p_tr p) = 0" "f < 3"
  shows "\<exists>p'. connect_turn cfg alloc f p (Clock c # CurlInit False # ev) = Some (True, f, p', ev)
    \<and> t_pause_until (p_tr p') = 0"
  using assms
  by (simp add: connect_turn_def bump_epoch_def restart_all_def open_session_def stratum_connect_def count_failure_def Let_def)



end
