(* ===== verification/Soj_Salsa.thy ===== *)
theory Soj_Salsa
  imports Soj_ShaNi
begin

text \<open>The Salsa20 cores of \<open>yespower-opt.c\<close>.  A \<open>salsa20_blk_t\<close> is its sixteen 32-bit
  words; the 64-bit view \<open>d\<close> and the 128-bit view \<open>q\<close> are pairs and fours of them.  Blocks are
  kept in the order that suits the SSE2 code: \<open>salsa20_simd_shuffle\<close> and its inverse.  Both
  builds are modelled, the SSE2 one on four registers and the plain one on an array, and proved equal.\<close>

type_synonym salsa20_blk = "u32 list"

section \<open>The layout\<close>

definition combine :: "salsa20_blk \<Rightarrow> nat \<times> nat \<Rightarrow> u32 list" where
  "combine b p = [b ! (fst p * 2), b ! (snd p * 2 + 1)]"

definition salsa20_simd_shuffle :: "salsa20_blk \<Rightarrow> salsa20_blk" where
  "salsa20_simd_shuffle b = concat (map (combine b) [(0, 2), (5, 7), (2, 4), (7, 1), (4, 6), (1, 3), (6, 0), (3, 5)])"

text \<open>Word \<open>2 * out\<close> is the low half of \<open>d[in1]\<close>, word \<open>2 * out + 1\<close> the high half of
  \<open>d[in2]\<close>: the same selection, with other indices.\<close>

definition salsa20_simd_unshuffle :: "salsa20_blk \<Rightarrow> salsa20_blk" where
  "salsa20_simd_unshuffle b = concat (map (combine b) [(0, 6), (5, 3), (2, 0), (7, 5), (4, 2), (1, 7), (6, 4), (3, 1)])"

section \<open>The plain core\<close>

definition rotl :: "u32 \<Rightarrow> nat \<Rightarrow> u32" where
  "rotl a b = push_bit b a OR drop_bit (32 - b) a"

text \<open>\<open>x[out] ^= R(x[in1] + x[in2], s)\<close>\<close>

definition salsa_step :: "nat \<times> nat \<times> nat \<times> nat \<Rightarrow> u32 list \<Rightarrow> u32 list" where
  "salsa_step p x = (case p of (out, in1, in2, s) \<Rightarrow> x[out := x ! out XOR rotl (x ! in1 + x ! in2) s])"

definition salsa_columns :: "(nat \<times> nat \<times> nat \<times> nat) list" where
  "salsa_columns =
    [(4, 0, 12, 7), (8, 4, 0, 9), (12, 8, 4, 13), (0, 12, 8, 18),
     (9, 5, 1, 7), (13, 9, 5, 9), (1, 13, 9, 13), (5, 1, 13, 18),
     (14, 10, 6, 7), (2, 14, 10, 9), (6, 2, 14, 13), (10, 6, 2, 18),
     (3, 15, 11, 7), (7, 3, 15, 9), (11, 7, 3, 13), (15, 11, 7, 18)]"

definition salsa_rows :: "(nat \<times> nat \<times> nat \<times> nat) list" where
  "salsa_rows =
    [(1, 0, 3, 7), (2, 1, 0, 9), (3, 2, 1, 13), (0, 3, 2, 18),
     (6, 5, 4, 7), (7, 6, 5, 9), (4, 7, 6, 13), (5, 4, 7, 18),
     (11, 10, 9, 7), (8, 11, 10, 9), (9, 8, 11, 13), (10, 9, 8, 18),
     (12, 15, 14, 7), (13, 12, 15, 9), (14, 13, 12, 13), (15, 14, 13, 18)]"

definition salsa_doubleround :: "u32 list \<Rightarrow> u32 list" where
  "salsa_doubleround x = fold salsa_step salsa_rows (fold salsa_step salsa_columns x)"

text \<open>\<open>salsa20\<close>: the result goes to \<open>B\<close> and \<open>Bout\<close> alike.\<close>

definition salsa20 :: "nat \<Rightarrow> salsa20_blk \<Rightarrow> salsa20_blk" where
  "salsa20 doublerounds B =
    (let X = salsa20_simd_unshuffle B;
         X = (salsa_doubleround ^^ doublerounds) X
     in map2 (+) (salsa20_simd_shuffle X) B)"

section \<open>The SSE2 core\<close>

fun mm_xor_si128 :: "xmm \<Rightarrow> xmm \<Rightarrow> xmm" where
  "mm_xor_si128 (Xmm a b c d) (Xmm a' b' c' d') = Xmm (a XOR a') (b XOR b') (c XOR c') (d XOR d')"

fun mm_slli_epi32 :: "xmm \<Rightarrow> nat \<Rightarrow> xmm" where
  "mm_slli_epi32 (Xmm a b c d) s = Xmm (push_bit s a) (push_bit s b) (push_bit s c) (push_bit s d)"

fun mm_srli_epi32 :: "xmm \<Rightarrow> nat \<Rightarrow> xmm" where
  "mm_srli_epi32 (Xmm a b c d) s = Xmm (drop_bit s a) (drop_bit s b) (drop_bit s c) (drop_bit s d)"

definition ARX :: "xmm \<Rightarrow> xmm \<Rightarrow> xmm \<Rightarrow> nat \<Rightarrow> xmm" where
  "ARX out in1 in2 s =
    (let tmp = mm_add_epi32 in1 in2;
         out = mm_xor_si128 out (mm_slli_epi32 tmp s)
     in mm_xor_si128 out (mm_srli_epi32 tmp (32 - s)))"

type_synonym salsa_regs = "xmm \<times> xmm \<times> xmm \<times> xmm"

definition SALSA20_2ROUNDS :: "salsa_regs \<Rightarrow> salsa_regs" where
  "SALSA20_2ROUNDS regs = (case regs of (X0, X1, X2, X3) \<Rightarrow>
    (let X1 = ARX X1 X0 X3 7;
         X2 = ARX X2 X1 X0 9;
         X3 = ARX X3 X2 X1 13;
         X0 = ARX X0 X3 X2 18;
         X1 = mm_shuffle_epi32 X1 0x93;
         X2 = mm_shuffle_epi32 X2 0x4E;
         X3 = mm_shuffle_epi32 X3 0x39;
         X3 = ARX X3 X0 X1 7;
         X2 = ARX X2 X3 X0 9;
         X1 = ARX X1 X2 X3 13;
         X0 = ARX X0 X1 X2 18;
         X1 = mm_shuffle_epi32 X1 0x39;
         X2 = mm_shuffle_epi32 X2 0x4E;
         X3 = mm_shuffle_epi32 X3 0x93
     in (X0, X1, X2, X3)))"

definition READ_X :: "salsa20_blk \<Rightarrow> salsa_regs" where
  "READ_X b = (mm_load_si128 b 0, mm_load_si128 b 4, mm_load_si128 b 8, mm_load_si128 b 12)"

definition WRITE_X :: "salsa_regs \<Rightarrow> salsa20_blk" where
  "WRITE_X regs = (case regs of (X0, X1, X2, X3) \<Rightarrow> xmm_list X0 @ xmm_list X1 @ xmm_list X2 @ xmm_list X3)"

definition SALSA20_wrapper :: "nat \<Rightarrow> salsa_regs \<Rightarrow> salsa_regs" where
  "SALSA20_wrapper doublerounds regs = (case regs of (Z0, Z1, Z2, Z3) \<Rightarrow>
    (case (SALSA20_2ROUNDS ^^ doublerounds) (Z0, Z1, Z2, Z3) of (X0, X1, X2, X3) \<Rightarrow>
      (mm_add_epi32 X0 Z0, mm_add_epi32 X1 Z1, mm_add_epi32 X2 Z2, mm_add_epi32 X3 Z3)))"

section \<open>Both cores agree\<close>

lemma length_shuffle [simp]:
  "length (salsa20_simd_shuffle b) = 16" "length (salsa20_simd_unshuffle b) = 16"
  by (simp_all add: salsa20_simd_shuffle_def salsa20_simd_unshuffle_def combine_def)

lemma list_of_16:
  assumes "length b = 16"
  obtains a0 a1 a2 a3 a4 a5 a6 a7 a8 a9 a10 a11 a12 a13 a14 a15
    where "b = [a0, a1, a2, a3, a4, a5, a6, a7, a8, a9, a10, a11, a12, a13, a14, a15]"
  using assms by (auto simp: eval_nat_numeral length_Suc_conv)

lemma unshuffle_shuffle [simp]: "length b = 16 \<Longrightarrow> salsa20_simd_unshuffle (salsa20_simd_shuffle b) = b"
  by (elim list_of_16) (simp add: salsa20_simd_shuffle_def salsa20_simd_unshuffle_def combine_def)

lemma shuffle_unshuffle [simp]: "length b = 16 \<Longrightarrow> salsa20_simd_shuffle (salsa20_simd_unshuffle b) = b"
  by (elim list_of_16) (simp add: salsa20_simd_shuffle_def salsa20_simd_unshuffle_def combine_def)

text \<open>A quarter of a round, on its four words.\<close>

definition salsa_quarter :: "u32 \<times> u32 \<times> u32 \<times> u32 \<Rightarrow> u32 \<times> u32 \<times> u32 \<times> u32" where
  "salsa_quarter = (\<lambda>(a, b, c, d).
    let b = b XOR rotl (a + d) 7;
        c = c XOR rotl (b + a) 9;
        d = d XOR rotl (c + b) 13;
        a = a XOR rotl (d + c) 18
    in (a, b, c, d))"

definition put4 :: "nat \<Rightarrow> nat \<Rightarrow> nat \<Rightarrow> nat \<Rightarrow> u32 \<times> u32 \<times> u32 \<times> u32 \<Rightarrow> u32 list \<Rightarrow> u32 list" where
  "put4 i j k l v x = (case v of (a, b, c, d) \<Rightarrow> x[j := b, k := c, l := d, i := a])"

lemma fold_quarter:
  assumes "distinct [i, j, k, l]" "i < length x" "j < length x" "k < length x" "l < length x"
  shows "fold salsa_step [(j, i, l, 7), (k, j, i, 9), (l, k, j, 13), (i, l, k, 18)] x
    = put4 i j k l (salsa_quarter (x ! i, x ! j, x ! k, x ! l)) x"
  using assms by (simp add: salsa_step_def put4_def salsa_quarter_def Let_def)

lemma xor_rotl: "0 < s \<Longrightarrow> s < 32 \<Longrightarrow> (x XOR push_bit s t) XOR drop_bit (32 - s) t = x XOR rotl t s" for x t :: u32
proof -
  assume "0 < s" "s < 32"
  then have "push_bit s t XOR drop_bit (32 - s) t = rotl t s"
    unfolding rotl_def by (intro bit_word_eqI) (auto simp: bit_simps dest: bit_imp_le_length)
  then show ?thesis by (simp add: ac_simps)
qed

lemma ARX_lanes:
  "0 < s \<Longrightarrow> s < 32 \<Longrightarrow> ARX (Xmm a0 a1 a2 a3) (Xmm b0 b1 b2 b3) (Xmm c0 c1 c2 c3) s
    = Xmm (a0 XOR rotl (b0 + c0) s) (a1 XOR rotl (b1 + c1) s) (a2 XOR rotl (b2 + c2) s) (a3 XOR rotl (b3 + c3) s)"
  by (simp add: ARX_def Let_def xor_rotl)

lemma salsa_columns_split: "salsa_columns =
    [(4, 0, 12, 7), (8, 4, 0, 9), (12, 8, 4, 13), (0, 12, 8, 18)] @ [(9, 5, 1, 7), (13, 9, 5, 9), (1, 13, 9, 13), (5, 1, 13, 18)]
    @ [(14, 10, 6, 7), (2, 14, 10, 9), (6, 2, 14, 13), (10, 6, 2, 18)] @ [(3, 15, 11, 7), (7, 3, 15, 9), (11, 7, 3, 13), (15, 11, 7, 18)]"
  by (simp add: salsa_columns_def)

lemma salsa_rows_split: "salsa_rows =
    [(1, 0, 3, 7), (2, 1, 0, 9), (3, 2, 1, 13), (0, 3, 2, 18)] @ [(6, 5, 4, 7), (7, 6, 5, 9), (4, 7, 6, 13), (5, 4, 7, 18)]
    @ [(11, 10, 9, 7), (8, 11, 10, 9), (9, 8, 11, 13), (10, 9, 8, 18)] @ [(12, 15, 14, 7), (13, 12, 15, 9), (14, 13, 12, 13), (15, 14, 13, 18)]"
  by (simp add: salsa_rows_def)

text \<open>The four ARX steps of a round are one quarter round in each lane.\<close>

fun lanes :: "salsa_regs \<Rightarrow> (u32 \<times> u32 \<times> u32 \<times> u32) list" where
  "lanes (Xmm a0 a1 a2 a3, Xmm b0 b1 b2 b3, Xmm c0 c1 c2 c3, Xmm d0 d1 d2 d3) =
    [(a0, b0, c0, d0), (a1, b1, c1, d1), (a2, b2, c2, d2), (a3, b3, c3, d3)]"

definition ARX4 :: "salsa_regs \<Rightarrow> salsa_regs" where
  "ARX4 = (\<lambda>(X0, X1, X2, X3).
    let X1 = ARX X1 X0 X3 7; X2 = ARX X2 X1 X0 9; X3 = ARX X3 X2 X1 13; X0 = ARX X0 X3 X2 18
    in (X0, X1, X2, X3))"

lemma ARX4_lanes: "lanes (ARX4 regs) = map salsa_quarter (lanes regs)"
  by (cases regs rule: lanes.cases) (simp add: ARX4_def ARX_lanes salsa_quarter_def Let_def)

definition swap13 :: "salsa_regs \<Rightarrow> salsa_regs" where
  "swap13 = (\<lambda>(X0, X1, X2, X3). (X0, X3, X2, X1))"

definition turn_columns :: "salsa_regs \<Rightarrow> salsa_regs" where
  "turn_columns = (\<lambda>(X0, X1, X2, X3). (X0, mm_shuffle_epi32 X1 0x93, mm_shuffle_epi32 X2 0x4E, mm_shuffle_epi32 X3 0x39))"

definition turn_rows :: "salsa_regs \<Rightarrow> salsa_regs" where
  "turn_rows = (\<lambda>(X0, X1, X2, X3). (X0, mm_shuffle_epi32 X1 0x39, mm_shuffle_epi32 X2 0x4E, mm_shuffle_epi32 X3 0x93))"

lemma SALSA20_2ROUNDS_eq:
  "SALSA20_2ROUNDS regs = turn_rows (swap13 (ARX4 (swap13 (turn_columns (ARX4 regs)))))"
  by (cases regs) (simp add: SALSA20_2ROUNDS_def turn_rows_def swap13_def ARX4_def turn_columns_def Let_def)

lemma salsa_columns_quarters:
  assumes "salsa_quarter (x0, x4, x8, x12) = (y0, y4, y8, y12)" "salsa_quarter (x5, x9, x13, x1) = (y5, y9, y13, y1)"
    "salsa_quarter (x10, x14, x2, x6) = (y10, y14, y2, y6)" "salsa_quarter (x15, x3, x7, x11) = (y15, y3, y7, y11)"
  shows "fold salsa_step salsa_columns [x0, x1, x2, x3, x4, x5, x6, x7, x8, x9, x10, x11, x12, x13, x14, x15]
    = [y0, y1, y2, y3, y4, y5, y6, y7, y8, y9, y10, y11, y12, y13, y14, y15]"
  by (simp only: salsa_columns_split fold_append comp_apply) (simp add: fold_quarter assms put4_def del: fold.simps)

lemma salsa_rows_quarters:
  assumes "salsa_quarter (x0, x1, x2, x3) = (y0, y1, y2, y3)" "salsa_quarter (x5, x6, x7, x4) = (y5, y6, y7, y4)"
    "salsa_quarter (x10, x11, x8, x9) = (y10, y11, y8, y9)" "salsa_quarter (x15, x12, x13, x14) = (y15, y12, y13, y14)"
  shows "fold salsa_step salsa_rows [x0, x1, x2, x3, x4, x5, x6, x7, x8, x9, x10, x11, x12, x13, x14, x15]
    = [y0, y1, y2, y3, y4, y5, y6, y7, y8, y9, y10, y11, y12, y13, y14, y15]"
  by (simp only: salsa_rows_split fold_append comp_apply) (simp add: fold_quarter assms put4_def del: fold.simps)

lemma shuffle_lanes:
  "mm_shuffle_epi32 (Xmm a b c d) 0x93 = Xmm d a b c" "mm_shuffle_epi32 (Xmm a b c d) 0x4E = Xmm c d a b"
  "mm_shuffle_epi32 (Xmm a b c d) 0x39 = Xmm b c d a"
  by (simp_all add: mm_shuffle_epi32_def)

lemma lanes_inj: "lanes r = lanes r' \<Longrightarrow> r = r'"
  by (cases r rule: lanes.cases; cases r' rule: lanes.cases) simp

lemma ARX4_quarters:
  assumes "salsa_quarter (a0, b0, c0, d0) = (a0', b0', c0', d0')" "salsa_quarter (a1, b1, c1, d1) = (a1', b1', c1', d1')"
    "salsa_quarter (a2, b2, c2, d2) = (a2', b2', c2', d2')" "salsa_quarter (a3, b3, c3, d3) = (a3', b3', c3', d3')"
  shows "ARX4 (Xmm a0 a1 a2 a3, Xmm b0 b1 b2 b3, Xmm c0 c1 c2 c3, Xmm d0 d1 d2 d3)
    = (Xmm a0' a1' a2' a3', Xmm b0' b1' b2' b3', Xmm c0' c1' c2' c3', Xmm d0' d1' d2' d3')"
  by (rule lanes_inj) (simp only: ARX4_lanes lanes.simps list.map assms)

lemma SALSA20_2ROUNDS_doubleround:
  assumes "length x = 16"
  shows "SALSA20_2ROUNDS (READ_X (salsa20_simd_shuffle x)) = READ_X (salsa20_simd_shuffle (salsa_doubleround x))
    \<and> length (salsa_doubleround x) = 16"
proof -
  obtain x0 x1 x2 x3 x4 x5 x6 x7 x8 x9 x10 x11 x12 x13 x14 x15
    where x: "x = [x0, x1, x2, x3, x4, x5, x6, x7, x8, x9, x10, x11, x12, x13, x14, x15]"
    by (rule list_of_16 [OF assms])
  obtain y0 y4 y8 y12 where q0: "salsa_quarter (x0, x4, x8, x12) = (y0, y4, y8, y12)" by (metis prod_cases4)
  obtain y5 y9 y13 y1 where q1: "salsa_quarter (x5, x9, x13, x1) = (y5, y9, y13, y1)" by (metis prod_cases4)
  obtain y10 y14 y2 y6 where q2: "salsa_quarter (x10, x14, x2, x6) = (y10, y14, y2, y6)" by (metis prod_cases4)
  obtain y15 y3 y7 y11 where q3: "salsa_quarter (x15, x3, x7, x11) = (y15, y3, y7, y11)" by (metis prod_cases4)
  obtain z0 z1 z2 z3 where r0: "salsa_quarter (y0, y1, y2, y3) = (z0, z1, z2, z3)" by (metis prod_cases4)
  obtain z5 z6 z7 z4 where r1: "salsa_quarter (y5, y6, y7, y4) = (z5, z6, z7, z4)" by (metis prod_cases4)
  obtain z10 z11 z8 z9 where r2: "salsa_quarter (y10, y11, y8, y9) = (z10, z11, z8, z9)" by (metis prod_cases4)
  obtain z15 z12 z13 z14 where r3: "salsa_quarter (y15, y12, y13, y14) = (z15, z12, z13, z14)" by (metis prod_cases4)
  have plain: "salsa_doubleround x = [z0, z1, z2, z3, z4, z5, z6, z7, z8, z9, z10, z11, z12, z13, z14, z15]"
    unfolding salsa_doubleround_def x salsa_columns_quarters [OF q0 q1 q2 q3] by (rule salsa_rows_quarters [OF r0 r1 r2 r3])
  have "SALSA20_2ROUNDS (READ_X (salsa20_simd_shuffle x))
      = READ_X (salsa20_simd_shuffle [z0, z1, z2, z3, z4, z5, z6, z7, z8, z9, z10, z11, z12, z13, z14, z15])"
    unfolding SALSA20_2ROUNDS_eq x
    by (simp add: salsa20_simd_shuffle_def combine_def READ_X_def mm_load_si128_def ARX4_quarters [OF q0 q1 q2 q3]
        turn_columns_def swap13_def turn_rows_def shuffle_lanes ARX4_quarters [OF r0 r1 r2 r3])
  then show ?thesis by (simp add: plain)
qed

lemma iterate_doubleround:
  "length x = 16 \<Longrightarrow>
    (SALSA20_2ROUNDS ^^ n) (READ_X (salsa20_simd_shuffle x)) = READ_X (salsa20_simd_shuffle ((salsa_doubleround ^^ n) x))
    \<and> length ((salsa_doubleround ^^ n) x) = 16"
  by (induction n) (simp_all add: SALSA20_2ROUNDS_doubleround)

definition add_regs :: "salsa_regs \<Rightarrow> salsa_regs \<Rightarrow> salsa_regs" where
  "add_regs = (\<lambda>(X0, X1, X2, X3) (Z0, Z1, Z2, Z3).
    (mm_add_epi32 X0 Z0, mm_add_epi32 X1 Z1, mm_add_epi32 X2 Z2, mm_add_epi32 X3 Z3))"

lemma SALSA20_wrapper_add: "SALSA20_wrapper n r = add_regs ((SALSA20_2ROUNDS ^^ n) r) r"
  by (cases r; cases "(SALSA20_2ROUNDS ^^ n) r") (simp add: SALSA20_wrapper_def add_regs_def)

lemma READ_X_add: "length a = 16 \<Longrightarrow> length b = 16 \<Longrightarrow> READ_X (map2 (+) a b) = add_regs (READ_X a) (READ_X b)"
  by (simp add: READ_X_def mm_load_si128_def add_regs_def)

lemma length_salsa20 [simp]: "length b = 16 \<Longrightarrow> length (salsa20 n b) = 16"
  by (simp add: salsa20_def Let_def)

lemma WRITE_READ_X [simp]: "length b = 16 \<Longrightarrow> WRITE_X (READ_X b) = b"
  by (elim list_of_16) (simp add: WRITE_X_def READ_X_def mm_load_si128_def)

lemma READ_WRITE_X [simp]: "READ_X (WRITE_X r) = r"
proof -
  obtain a b c d where "r = (a, b, c, d)" by (cases r)
  then show ?thesis
    by (cases a; cases b; cases c; cases d) (simp add: WRITE_X_def READ_X_def mm_load_si128_def)
qed

lemma length_WRITE_X [simp]: "length (WRITE_X r) = 16"
proof -
  obtain a b c d where "r = (a, b, c, d)" by (cases r)
  then show ?thesis by (cases a; cases b; cases c; cases d) (simp add: WRITE_X_def)
qed

lemma wrapper_READ_X:
  assumes "length b = 16"
  shows "SALSA20_wrapper n (READ_X b) = READ_X (salsa20 n b)"
proof -
  let ?x = "salsa20_simd_unshuffle b"
  have "(SALSA20_2ROUNDS ^^ n) (READ_X b) = READ_X (salsa20_simd_shuffle ((salsa_doubleround ^^ n) ?x))"
    using iterate_doubleround [of ?x n] assms by simp
  then show ?thesis
    unfolding SALSA20_wrapper_add salsa20_def Let_def using assms by (simp add: READ_X_add)
qed

text \<open>The vectorised Salsa20 core of the SSE2 build computes on shuffled registers what the
  plain C loop computes: for any number of double rounds, reading a block into the registers,
  running the core and writing them back is the plain function.\<close>

theorem salsa20_cores_agree: "SALSA20_wrapper n r = READ_X (salsa20 n (WRITE_X r))"
  using wrapper_READ_X [of "WRITE_X r" n] by (simp add: READ_WRITE_X)

end
