(* ===== verification/Soj_Pwx.thy ===== *)
theory Soj_Pwx
  imports Soj_Salsa Soj_Endian
begin

text \<open>The mixing layer of \<open>yespower-opt.c\<close>, compiled twice: pass 1 is yespower 0.5, pass 2 is
  yespower 1.0.  A block in memory is its four registers \<open>q[0] .. q[3]\<close>.  The S-boxes are the
  16-byte lanes of one region; \<open>S0\<close>, \<open>S1\<close>, \<open>S2\<close> and \<open>w\<close> are byte offsets into it.  Modelled are
  the PWXFORM step in each of its builds, the PWXFORM of both passes, and \<open>blockmix\<close>,
  \<open>blockmix_xor\<close> and \<open>blockmix_xor_save\<close> with their loops.  One chain of mixing steps describes
  all three.\<close>

datatype pass = Pass1 | Pass2

type_synonym blk = salsa_regs

section \<open>Constants\<close>

definition Swidth :: "pass \<Rightarrow> nat" where
  "Swidth p = (case p of Pass1 \<Rightarrow> 8 | Pass2 \<Rightarrow> 11)"

definition PWXsimple :: nat where "PWXsimple = 2"

definition Swidth_to_Sbytes1 :: "nat \<Rightarrow> nat" where
  "Swidth_to_Sbytes1 width = push_bit width 1 * PWXsimple * 8"

definition Swidth_to_Smask :: "nat \<Rightarrow> nat" where
  "Swidth_to_Smask width = (push_bit width 1 - 1) * PWXsimple * 8"

definition Smask_to_Smask2 :: "nat \<Rightarrow> u64" where
  "Smask_to_Smask2 Smask = push_bit 32 (of_nat Smask) OR of_nat Smask"

definition Smask2 :: "pass \<Rightarrow> u64" where
  "Smask2 p = Smask_to_Smask2 (Swidth_to_Smask (Swidth p))"

record pwxform_ctx =
  cSm :: "xmm list"
  cS0 :: nat
  cS1 :: nat
  cS2 :: nat
  cw :: nat
  cSbytes :: nat

section \<open>The 64-bit intrinsics\<close>

definition join64 :: "u32 \<Rightarrow> u32 \<Rightarrow> u64" where
  "join64 lo hi = ucast lo OR push_bit 32 (ucast hi)"

definition xmm_of64 :: "u64 \<Rightarrow> u64 \<Rightarrow> xmm" where
  "xmm_of64 lo hi = Xmm (ucast lo) (ucast (drop_bit 32 lo)) (ucast hi) (ucast (drop_bit 32 hi))"

fun q_lo :: "xmm \<Rightarrow> u64" where "q_lo (Xmm a b c d) = join64 a b"
fun q_hi :: "xmm \<Rightarrow> u64" where "q_hi (Xmm a b c d) = join64 c d"

fun mm_mul_epu32 :: "xmm \<Rightarrow> xmm \<Rightarrow> xmm" where
  "mm_mul_epu32 (Xmm a b c d) (Xmm a' b' c' d') = xmm_of64 (ucast a * ucast a') (ucast c * ucast c')"

definition mm_add_epi64 :: "xmm \<Rightarrow> xmm \<Rightarrow> xmm" where
  "mm_add_epi64 x y = xmm_of64 (q_lo x + q_lo y) (q_hi x + q_hi y)"

fun mm_and_si128 :: "xmm \<Rightarrow> xmm \<Rightarrow> xmm" where
  "mm_and_si128 (Xmm a b c d) (Xmm a' b' c' d') = Xmm (a AND a') (b AND b') (c AND c') (d AND d')"

definition mm_set1_epi64x :: "u64 \<Rightarrow> xmm" where
  "mm_set1_epi64x q = xmm_of64 q q"

fun mm_cvtsi128_si32 :: "xmm \<Rightarrow> u32" where
  "mm_cvtsi128_si32 (Xmm a b c d) = a"

definition mm_extract_epi32 :: "xmm \<Rightarrow> nat \<Rightarrow> u32" where
  "mm_extract_epi32 x i = xmm_list x ! i"

text \<open>The byte shift by four, and the 64-bit shift by thirty-two.\<close>

fun mm_srli_si128_4 :: "xmm \<Rightarrow> xmm" where
  "mm_srli_si128_4 (Xmm a b c d) = Xmm b c d 0"

definition mm_srli_epi64_32 :: "xmm \<Rightarrow> xmm" where
  "mm_srli_epi64_32 x = xmm_of64 (drop_bit 32 (q_lo x)) (drop_bit 32 (q_hi x))"

section \<open>One PWXFORM step, in every build\<close>

text \<open>\<open>HI32\<close>: AVX, the default, and the alternative with a 64-bit shift.\<close>

datatype hi32_build = Hi32_avx | Hi32_pshufd | Hi32_psrlq

fun HI32 :: "hi32_build \<Rightarrow> xmm \<Rightarrow> xmm" where
  "HI32 Hi32_avx X = mm_srli_si128_4 X"
| "HI32 Hi32_pshufd X = mm_shuffle_epi32 X 0xB1"
| "HI32 Hi32_psrlq X = mm_srli_epi64_32 X"

text \<open>\<open>EXTRACT64\<close> is \<open>_mm_cvtsi128_si64\<close> on 64-bit builds, and two 32-bit moves elsewhere.\<close>

definition EXTRACT64 :: "xmm \<Rightarrow> u64" where
  "EXTRACT64 X = q_lo X"

definition EXTRACT64_32bit :: "hi32_build \<Rightarrow> xmm \<Rightarrow> u64" where
  "EXTRACT64_32bit h X = ucast (mm_cvtsi128_si32 X) OR push_bit 32 (ucast (mm_cvtsi128_si32 (HI32 h X)))"

text \<open>\<open>*(__m128i *)(base + off)\<close>\<close>

definition ld128 :: "xmm list \<Rightarrow> nat \<Rightarrow> xmm" where
  "ld128 S a = S ! (a div 16)"

definition st128 :: "xmm list \<Rightarrow> nat \<Rightarrow> xmm \<Rightarrow> xmm list" where
  "st128 S a v = S[a div 16 := v]"

text \<open>64-bit with AVX.\<close>

definition PWXFORM_SIMD :: "u64 \<Rightarrow> xmm list \<Rightarrow> nat \<Rightarrow> nat \<Rightarrow> xmm \<Rightarrow> xmm" where
  "PWXFORM_SIMD msk S b0 b1 X =
    (let x = EXTRACT64 X AND msk;
         lo = unat (ucast x :: u32);
         hi = unat (ucast (drop_bit 32 x) :: u32);
         X = mm_mul_epu32 (HI32 Hi32_avx X) X;
         X = mm_add_epi64 X (ld128 S (b0 + lo))
     in mm_xor_si128 X (ld128 S (b1 + hi)))"

text \<open>64-bit without AVX: the inline assembly, register by register.\<close>

definition PWXFORM_SIMD_asm :: "u64 \<Rightarrow> xmm list \<Rightarrow> nat \<Rightarrow> nat \<Rightarrow> xmm \<Rightarrow> xmm" where
  "PWXFORM_SIMD_asm msk S b0 b1 X =
    (let rax = q_lo X;
         H = mm_shuffle_epi32 X 0xb1;
         rax = rax AND msk;
         X = mm_mul_epu32 X H;
         ecx = (ucast rax :: u32);
         rax = drop_bit 32 rax;
         X = mm_add_epi64 X (ld128 S (b0 + unat ecx))
     in mm_xor_si128 X (ld128 S (b1 + unat rax)))"

text \<open>32-bit with SSE4.1.\<close>

definition PWXFORM_SIMD_sse41 :: "hi32_build \<Rightarrow> u64 \<Rightarrow> xmm list \<Rightarrow> nat \<Rightarrow> nat \<Rightarrow> xmm \<Rightarrow> xmm" where
  "PWXFORM_SIMD_sse41 h msk S b0 b1 X =
    (let x = mm_and_si128 X (mm_set1_epi64x msk);
         l0 = ld128 S (b0 + unat (mm_cvtsi128_si32 x));
         l1 = ld128 S (b1 + unat (mm_extract_epi32 x 1));
         X = mm_mul_epu32 (HI32 h X) X;
         X = mm_add_epi64 X l0
     in mm_xor_si128 X l1)"

text \<open>32-bit without SSE4.1.\<close>

definition PWXFORM_SIMD_sse2 :: "hi32_build \<Rightarrow> u64 \<Rightarrow> xmm list \<Rightarrow> nat \<Rightarrow> nat \<Rightarrow> xmm \<Rightarrow> xmm" where
  "PWXFORM_SIMD_sse2 h msk S b0 b1 X =
    (let x = EXTRACT64_32bit h X AND msk;
         l0 = ld128 S (b0 + unat (ucast x :: u32));
         l1 = ld128 S (b1 + unat (drop_bit 32 x));
         X = mm_mul_epu32 (HI32 h X) X;
         X = mm_add_epi64 X l0
     in mm_xor_si128 X l1)"

text \<open>Without SSE2, on two 64-bit words; \<open>p0[0]\<close>, \<open>p0[1]\<close> are the halves of a lane.\<close>

definition PWXFORM_SIMD_plain :: "u64 \<Rightarrow> xmm list \<Rightarrow> nat \<Rightarrow> nat \<Rightarrow> u64 \<times> u64 \<Rightarrow> u64 \<times> u64" where
  "PWXFORM_SIMD_plain msk S b0 b1 X = (case X of (x0, x1) \<Rightarrow>
    (let x = x0 AND msk;
         p0 = ld128 S (b0 + unat (ucast x :: u32));
         p1 = ld128 S (b1 + unat (drop_bit 32 x));
         x0 = (drop_bit 32 x0 * ucast (ucast x0 :: u32) + q_lo p0) XOR q_lo p1;
         x1 = (drop_bit 32 x1 * ucast (ucast x1 :: u32) + q_hi p0) XOR q_hi p1
     in (x0, x1)))"

section \<open>PWXFORM\<close>

definition PWXFORM_SIMD_c :: "pass \<Rightarrow> pwxform_ctx \<Rightarrow> xmm \<Rightarrow> xmm" where
  "PWXFORM_SIMD_c p c X = PWXFORM_SIMD (Smask2 p) (cSm c) (cS0 c) (cS1 c) X"

definition PWXFORM_SIMD_WRITE :: "pass \<Rightarrow> (pwxform_ctx \<Rightarrow> nat) \<Rightarrow> xmm \<Rightarrow> pwxform_ctx \<Rightarrow> xmm \<times> pwxform_ctx" where
  "PWXFORM_SIMD_WRITE p Sw X c =
    (let X = PWXFORM_SIMD_c p c X
     in (X, c\<lparr>cSm := st128 (cSm c) (Sw c + cw c) X\<rparr>))"

definition w_add16 :: "pwxform_ctx \<Rightarrow> pwxform_ctx" where
  "w_add16 c = c\<lparr>cw := cw c + 16\<rparr>"

definition PWXFORM_ROUND :: "pass \<Rightarrow> blk \<times> pwxform_ctx \<Rightarrow> blk \<times> pwxform_ctx" where
  "PWXFORM_ROUND p st = (case st of ((X0, X1, X2, X3), c) \<Rightarrow>
    ((PWXFORM_SIMD_c p c X0, PWXFORM_SIMD_c p c X1, PWXFORM_SIMD_c p c X2, PWXFORM_SIMD_c p c X3), c))"

definition PWXFORM_ROUND_WRITE4 :: "pass \<Rightarrow> blk \<times> pwxform_ctx \<Rightarrow> blk \<times> pwxform_ctx" where
  "PWXFORM_ROUND_WRITE4 p st = (case st of ((X0, X1, X2, X3), c) \<Rightarrow>
    (let (X0, c) = PWXFORM_SIMD_WRITE p cS0 X0 c;
         (X1, c) = PWXFORM_SIMD_WRITE p cS1 X1 c;
         c = w_add16 c;
         (X2, c) = PWXFORM_SIMD_WRITE p cS0 X2 c;
         (X3, c) = PWXFORM_SIMD_WRITE p cS1 X3 c;
         c = w_add16 c
     in ((X0, X1, X2, X3), c)))"

definition PWXFORM_ROUND_WRITE2 :: "pass \<Rightarrow> blk \<times> pwxform_ctx \<Rightarrow> blk \<times> pwxform_ctx" where
  "PWXFORM_ROUND_WRITE2 p st = (case st of ((X0, X1, X2, X3), c) \<Rightarrow>
    (let (X0, c) = PWXFORM_SIMD_WRITE p cS0 X0 c;
         (X1, c) = PWXFORM_SIMD_WRITE p cS1 X1 c;
         c = w_add16 c;
         X2 = PWXFORM_SIMD_c p c X2;
         X3 = PWXFORM_SIMD_c p c X3
     in ((X0, X1, X2, X3), c)))"

definition rotate_S :: "pwxform_ctx \<Rightarrow> pwxform_ctx" where
  "rotate_S c =
    (let Stmp = cS2 c;
         c = c\<lparr>cS2 := cS1 c\<rparr>;
         c = c\<lparr>cS1 := cS0 c\<rparr>
     in c\<lparr>cS0 := Stmp\<rparr>)"

definition PWXFORM :: "pass \<Rightarrow> blk \<times> pwxform_ctx \<Rightarrow> blk \<times> pwxform_ctx" where
  "PWXFORM p st = (case p of
     Pass1 \<Rightarrow> (PWXFORM_ROUND p ^^ 6) st
   | Pass2 \<Rightarrow>
      (let st = PWXFORM_ROUND_WRITE4 p st;
           st = PWXFORM_ROUND_WRITE2 p st;
           (X, c) = PWXFORM_ROUND_WRITE2 p st;
           c = c\<lparr>cw := cw c AND unat (Smask2 p)\<rparr>
       in (X, rotate_S c)))"

section \<open>Block operations\<close>

definition XOR_X :: "blk \<Rightarrow> blk \<Rightarrow> blk" where
  "XOR_X X b = (case X of (X0, X1, X2, X3) \<Rightarrow> case b of (q0, q1, q2, q3) \<Rightarrow>
    (mm_xor_si128 X0 q0, mm_xor_si128 X1 q1, mm_xor_si128 X2 q2, mm_xor_si128 X3 q3))"

text \<open>\<open>SALSA20_8\<close> in pass 1, \<open>SALSA20_2\<close> in pass 2.\<close>

definition SALSA20 :: "pass \<Rightarrow> blk \<Rightarrow> blk" where
  "SALSA20 p X = SALSA20_wrapper (case p of Pass1 \<Rightarrow> 4 | Pass2 \<Rightarrow> 1) X"

definition INTEGERIFY :: "blk \<Rightarrow> nat" where
  "INTEGERIFY X = unat (mm_cvtsi128_si32 (fst X))"

definition integerify :: "blk list \<Rightarrow> nat \<Rightarrow> nat" where
  "integerify B r = unat (ucast (q_lo (fst (B ! (2 * r - 1)))) :: u32)"

definition blockmix_salsa :: "pass \<Rightarrow> blk list \<Rightarrow> blk list \<Rightarrow> blk list" where
  "blockmix_salsa p Bin Bout =
    (let X = Bin ! 1;
         X = SALSA20 p (XOR_X X (Bin ! 0));
         Bout = Bout[0 := X];
         X = SALSA20 p (XOR_X X (Bin ! 1))
     in Bout[1 := X])"

definition blockmix_salsa_xor :: "pass \<Rightarrow> blk list \<Rightarrow> blk list \<Rightarrow> blk list \<Rightarrow> blk list \<times> nat" where
  "blockmix_salsa_xor p Bin1 Bin2 Bout =
    (let X = XOR_X (Bin1 ! 1) (Bin2 ! 1);
         X = XOR_X X (Bin1 ! 0);
         X = SALSA20 p (XOR_X X (Bin2 ! 0));
         Bout = Bout[0 := X];
         X = XOR_X X (Bin1 ! 1);
         X = SALSA20 p (XOR_X X (Bin2 ! 1));
         Bout = Bout[1 := X]
     in (Bout, INTEGERIFY X))"

section \<open>blockmix and its two variants\<close>

text \<open>The loop of \<open>blockmix\<close>, leaving with \<open>i = r\<close> and the last block still in \<open>X\<close>.\<close>

function blockmix_loop :: "pass \<Rightarrow> blk list \<Rightarrow> nat \<Rightarrow> nat \<Rightarrow> blk \<Rightarrow> pwxform_ctx \<Rightarrow> blk list \<Rightarrow>
    nat \<times> blk \<times> pwxform_ctx \<times> blk list" where
  "blockmix_loop p Bin r i X c Bout =
    (let X = XOR_X X (Bin ! i);
         (X, c) = PWXFORM p (X, c)
     in if i \<ge> r then (i, X, c, Bout)
        else blockmix_loop p Bin r (i + 1) X c (Bout[i := X]))"
  by pat_completeness auto
termination by (relation "measure (\<lambda>(p, Bin, r, i, X, c, Bout). r - i)") auto

declare blockmix_loop.simps [simp del]

definition blockmix :: "pass \<Rightarrow> blk list \<Rightarrow> blk list \<Rightarrow> nat \<Rightarrow> pwxform_ctx option \<Rightarrow> blk list \<times> pwxform_ctx option" where
  "blockmix p Bin Bout r ctx = (case ctx of
     None \<Rightarrow> (blockmix_salsa p Bin Bout, None)
   | Some c \<Rightarrow>
      (let r = r * 2 - 1;
           (i, X, c, Bout) = blockmix_loop p Bin r 0 (Bin ! r) c Bout;
           X = SALSA20 p X
       in (Bout[i := X], Some c)))"

text \<open>\<open>blockmix_xor\<close> takes two blocks a turn; \<open>r\<close> is already the index of the last but one.\<close>

function blockmix_xor_loop :: "pass \<Rightarrow> blk list \<Rightarrow> blk list \<Rightarrow> nat \<Rightarrow> nat \<Rightarrow> blk \<Rightarrow> pwxform_ctx \<Rightarrow> blk list \<Rightarrow>
    nat \<times> blk \<times> pwxform_ctx \<times> blk list" where
  "blockmix_xor_loop p Bin1 Bin2 r i X c Bout =
    (let X = XOR_X X (Bin1 ! i);
         X = XOR_X X (Bin2 ! i);
         (X, c) = PWXFORM p (X, c);
         Bout = Bout[i := X];
         X = XOR_X X (Bin1 ! (i + 1));
         X = XOR_X X (Bin2 ! (i + 1));
         (X, c) = PWXFORM p (X, c)
     in if i \<ge> r then (i, X, c, Bout)
        else blockmix_xor_loop p Bin1 Bin2 r (i + 2) X c (Bout[i + 1 := X]))"
  by pat_completeness auto
termination by (relation "measure (\<lambda>(p, Bin1, Bin2, r, i, X, c, Bout). r - i)") auto

declare blockmix_xor_loop.simps [simp del]

definition blockmix_xor :: "pass \<Rightarrow> blk list \<Rightarrow> blk list \<Rightarrow> blk list \<Rightarrow> nat \<Rightarrow> pwxform_ctx option \<Rightarrow>
    blk list \<times> pwxform_ctx option \<times> nat" where
  "blockmix_xor p Bin1 Bin2 Bout r ctx = (case ctx of
     None \<Rightarrow> (case blockmix_salsa_xor p Bin1 Bin2 Bout of (Bout, j) \<Rightarrow> (Bout, None, j))
   | Some c \<Rightarrow>
      (let r = r * 2 - 1;
           X = XOR_X (Bin1 ! r) (Bin2 ! r);
           (i, X, c, Bout) = blockmix_xor_loop p Bin1 Bin2 (r - 1) 0 X c Bout;
           i = i + 1;
           X = SALSA20 p X
       in (Bout[i := X], Some c, INTEGERIFY X)))"

text \<open>\<open>blockmix_xor_save\<close> works in place: the XOR of both inputs goes back to \<open>Bin2\<close>, the
  output to \<open>Bin1out\<close>.\<close>

function blockmix_xor_save_loop :: "pass \<Rightarrow> blk list \<Rightarrow> blk list \<Rightarrow> nat \<Rightarrow> nat \<Rightarrow> blk \<Rightarrow> pwxform_ctx \<Rightarrow>
    nat \<times> blk \<times> pwxform_ctx \<times> blk list \<times> blk list" where
  "blockmix_xor_save_loop p Bin1out Bin2 r i X c =
    (let Y = XOR_X (Bin2 ! i) (Bin1out ! i);
         Bin2 = Bin2[i := Y];
         X = XOR_X X Y;
         (X, c) = PWXFORM p (X, c);
         Bin1out = Bin1out[i := X];
         Y = XOR_X (Bin2 ! (i + 1)) (Bin1out ! (i + 1));
         Bin2 = Bin2[i + 1 := Y];
         X = XOR_X X Y;
         (X, c) = PWXFORM p (X, c)
     in if i \<ge> r then (i, X, c, Bin1out, Bin2)
        else blockmix_xor_save_loop p (Bin1out[i + 1 := X]) Bin2 r (i + 2) X c)"
  by pat_completeness auto
termination by (relation "measure (\<lambda>(p, Bin1out, Bin2, r, i, X, c). r - i)") auto

declare blockmix_xor_save_loop.simps [simp del]

definition blockmix_xor_save :: "pass \<Rightarrow> blk list \<Rightarrow> blk list \<Rightarrow> nat \<Rightarrow> pwxform_ctx \<Rightarrow>
    blk list \<times> blk list \<times> pwxform_ctx \<times> nat" where
  "blockmix_xor_save p Bin1out Bin2 r c =
    (let r = r * 2 - 1;
         X = XOR_X (Bin1out ! r) (Bin2 ! r);
         (i, X, c, Bin1out, Bin2) = blockmix_xor_save_loop p Bin1out Bin2 (r - 1) 0 X c;
         i = i + 1;
         X = SALSA20 p X
     in (Bin1out[i := X], Bin2, c, INTEGERIFY X))"

section \<open>The builds agree\<close>

lemma ucast_up_down [simp]: "(ucast (ucast (x :: u32) :: u64) :: u32) = x"
  by (rule bit_word_eqI) (simp add: bit_simps)

lemma ucast_join64 [simp]: "(ucast (join64 a b) :: u32) = a"
  unfolding join64_def by (rule bit_word_eqI) (auto simp: bit_simps dest: bit_imp_le_length)

lemma drop_join64 [simp]: "drop_bit 32 (join64 a b) = ucast b"
  unfolding join64_def by (rule bit_word_eqI) (auto simp: bit_simps dest: bit_imp_le_length)

lemma join64_parts [simp]: "join64 (ucast x) (ucast (drop_bit 32 x)) = x"
  unfolding join64_def by (rule bit_word_eqI) (auto simp: bit_simps not_less)

lemma q_of64 [simp]: "q_lo (xmm_of64 a b) = a" "q_hi (xmm_of64 a b) = b"
  by (simp_all add: xmm_of64_def)

lemma of64_q [simp]: "xmm_of64 (q_lo x) (q_hi x) = x"
  by (cases x) (simp add: xmm_of64_def ucast_up_down)

lemma join64_xor: "join64 a b XOR join64 c d = join64 (a XOR c) (b XOR d)"
  unfolding join64_def by (rule bit_word_eqI) (auto simp: bit_simps dest: bit_imp_le_length)

lemma join64_and: "join64 a b AND m = join64 (a AND ucast m) (b AND ucast (drop_bit 32 m))"
  unfolding join64_def by (rule bit_word_eqI) (auto simp: bit_simps dest: bit_imp_le_length)

lemma q_xor [simp]:
  "q_lo (mm_xor_si128 x y) = q_lo x XOR q_lo y" "q_hi (mm_xor_si128 x y) = q_hi x XOR q_hi y"
  by (cases x; cases y; simp add: join64_xor)+

lemma q_add [simp]:
  "q_lo (mm_add_epi64 x y) = q_lo x + q_lo y" "q_hi (mm_add_epi64 x y) = q_hi x + q_hi y"
  by (simp_all add: mm_add_epi64_def)

text \<open>Every \<open>HI32\<close> moves the high half of each 64-bit word to its low half, which is all the
  multiplication reads: the product is one per 64-bit word, of its own two halves.\<close>

lemma mul_HI32: "mm_mul_epu32 (HI32 h (Xmm a b c d)) (Xmm a b c d) = xmm_of64 (ucast b * ucast a) (ucast d * ucast c)"
  by (cases h) (simp_all add: mm_shuffle_epi32_def mm_srli_epi64_32_def xmm_of64_def ucast_up_down)

lemma mul_HI32_commuted:
  "mm_mul_epu32 (Xmm a b c d) (HI32 h (Xmm a b c d)) = mm_mul_epu32 (HI32 h (Xmm a b c d)) (Xmm a b c d)"
  by (cases h) (simp_all add: mm_shuffle_epi32_def mm_srli_epi64_32_def xmm_of64_def ucast_up_down mult.commute)

lemma HI32_low: "mm_cvtsi128_si32 (HI32 h (Xmm a b c d)) = b"
  by (cases h) (simp_all add: mm_shuffle_epi32_def mm_srli_epi64_32_def xmm_of64_def)

lemma EXTRACT64_32bit_eq: "EXTRACT64_32bit h X = EXTRACT64 X"
  by (cases X) (simp add: EXTRACT64_32bit_def EXTRACT64_def join64_def HI32_low)

lemma unat_hi: "unat (ucast (drop_bit 32 (x :: u64)) :: u32) = unat (drop_bit 32 x)"
proof -
  have "take_bit 32 (drop_bit 32 x) = drop_bit 32 x"
    by (rule bit_word_eqI) (auto simp: bit_simps dest: bit_imp_le_length)
  then have "take_bit 32 (unat (drop_bit 32 x)) = unat (drop_bit 32 x)"
    by (simp flip: unsigned_take_bit_eq)
  then show ?thesis by (simp add: unsigned_ucast_eq)
qed

lemma PWXFORM_SIMD_asm_eq: "PWXFORM_SIMD_asm msk S b0 b1 X = PWXFORM_SIMD msk S b0 b1 X"
  by (cases X) (simp add: PWXFORM_SIMD_asm_def PWXFORM_SIMD_def Let_def EXTRACT64_def unat_hi
      mul_HI32 mul_HI32_commuted [where h = Hi32_pshufd, simplified] mul_HI32 [where h = Hi32_pshufd, simplified]
      mul_HI32 [where h = Hi32_avx, simplified])

lemma PWXFORM_SIMD_sse2_eq: "PWXFORM_SIMD_sse2 h msk S b0 b1 X = PWXFORM_SIMD msk S b0 b1 X"
  by (cases X) (simp only: PWXFORM_SIMD_sse2_def PWXFORM_SIMD_def Let_def EXTRACT64_32bit_eq unat_hi mul_HI32)

lemma PWXFORM_SIMD_sse41_eq: "PWXFORM_SIMD_sse41 h msk S b0 b1 X = PWXFORM_SIMD msk S b0 b1 X"
  by (cases X) (simp add: PWXFORM_SIMD_sse41_def PWXFORM_SIMD_def Let_def EXTRACT64_def mul_HI32
      mm_set1_epi64x_def xmm_of64_def mm_extract_epi32_def join64_and ucast_up_down del: HI32.simps)

lemma PWXFORM_SIMD_plain_eq:
  "PWXFORM_SIMD_plain msk S b0 b1 (q_lo X, q_hi X)
    = (q_lo (PWXFORM_SIMD msk S b0 b1 X), q_hi (PWXFORM_SIMD msk S b0 b1 X))"
  by (cases X) (simp add: PWXFORM_SIMD_plain_def PWXFORM_SIMD_def Let_def EXTRACT64_def mul_HI32 unat_hi del: HI32.simps)

text \<open>On every supported build - 64-bit with AVX, the inline assembly of 64-bit builds without
  it, 32-bit with and without SSE4.1, and plain C without SSE2 - a PWXFORM step gives the same
  result, whatever the mask and the S-boxes, and whichever \<open>HI32\<close> the build picks.\<close>

theorem pwxform_builds_agree:
  "PWXFORM_SIMD_asm msk S b0 b1 X = PWXFORM_SIMD msk S b0 b1 X
   \<and> PWXFORM_SIMD_sse41 h msk S b0 b1 X = PWXFORM_SIMD msk S b0 b1 X
   \<and> PWXFORM_SIMD_sse2 h msk S b0 b1 X = PWXFORM_SIMD msk S b0 b1 X
   \<and> PWXFORM_SIMD_plain msk S b0 b1 (q_lo X, q_hi X)
      = (q_lo (PWXFORM_SIMD msk S b0 b1 X), q_hi (PWXFORM_SIMD msk S b0 b1 X))"
  by (simp only: PWXFORM_SIMD_asm_eq PWXFORM_SIMD_sse41_eq PWXFORM_SIMD_sse2_eq PWXFORM_SIMD_plain_eq)

end
