(* ===== verification/Soj_Blockmix.thy ===== *)
theory Soj_Blockmix
  imports Soj_Pwx
begin

text \<open>What the three block mixers compute.  The specification is one chain of PWXFORM steps over
  the input blocks; \<open>blockmix_xor\<close> runs it on the XOR of its inputs, \<open>blockmix_xor_save\<close> too,
  storing the XOR.  The invariant of the S-box context bounds every access of PWXFORM.\<close>

section \<open>The specification\<close>

fun mix_chain :: "pass \<Rightarrow> blk \<Rightarrow> blk list \<Rightarrow> pwxform_ctx \<Rightarrow> blk list \<times> pwxform_ctx" where
  "mix_chain p X [] c = ([], c)"
| "mix_chain p X (b # bs) c =
    (let (X, c) = PWXFORM p (XOR_X X b, c);
         (ys, c) = mix_chain p X bs c
     in (X # ys, c))"

fun salsa_chain :: "pass \<Rightarrow> blk \<Rightarrow> blk list \<Rightarrow> blk list" where
  "salsa_chain p X [] = []"
| "salsa_chain p X (b # bs) = (let X = SALSA20 p (XOR_X X b) in X # salsa_chain p X bs)"

definition mix :: "pass \<Rightarrow> blk list \<Rightarrow> pwxform_ctx option \<Rightarrow> blk list \<times> pwxform_ctx option" where
  "mix p bs ctx = (case ctx of
     None \<Rightarrow> (salsa_chain p (last bs) bs, None)
   | Some c \<Rightarrow> (case mix_chain p (last bs) bs c of (ys, c) \<Rightarrow> (butlast ys @ [SALSA20 p (last ys)], Some c)))"

definition xor_blocks :: "blk list \<Rightarrow> blk list \<Rightarrow> blk list" where
  "xor_blocks as bs = map2 XOR_X as bs"

text \<open>\<open>integerify\<close> of the last block.\<close>

definition last_word :: "blk list \<Rightarrow> nat" where
  "last_word bs = INTEGERIFY (last bs)"

section \<open>XOR\<close>

lemma mm_xor_assoc: "mm_xor_si128 (mm_xor_si128 x y) z = mm_xor_si128 x (mm_xor_si128 y z)"
  by (cases x; cases y; cases z) (simp add: xor.assoc)

lemma mm_xor_commute: "mm_xor_si128 x y = mm_xor_si128 y x"
  by (cases x; cases y) (simp add: xor.commute)

lemma XOR_X_assoc: "XOR_X (XOR_X X a) b = XOR_X X (XOR_X a b)"
  by (cases X; cases a; cases b) (simp add: XOR_X_def mm_xor_assoc)

lemma XOR_X_commute: "XOR_X a b = XOR_X b a"
  by (cases a; cases b) (simp add: XOR_X_def mm_xor_commute)

lemma length_xor_blocks [simp]: "length (xor_blocks as bs) = min (length as) (length bs)"
  by (simp add: xor_blocks_def)

lemma nth_xor_blocks [simp]: "i < length as \<Longrightarrow> i < length bs \<Longrightarrow> xor_blocks as bs ! i = XOR_X (as ! i) (bs ! i)"
  by (simp add: xor_blocks_def)

lemma drop_xor_blocks: "drop n (xor_blocks as bs) = xor_blocks (drop n as) (drop n bs)"
  by (rule nth_equalityI) (auto simp: less_diff_conv)

lemma xor_blocks_commute: "length as = length bs \<Longrightarrow> xor_blocks as bs = xor_blocks bs as"
  by (rule nth_equalityI) (simp_all add: XOR_X_commute)

section \<open>Lengths of the chains\<close>

lemma length_mix_chain: "mix_chain p X bs c = (ys, c') \<Longrightarrow> length ys = length bs"
  by (induction bs arbitrary: X c ys) (auto simp: Let_def split: prod.splits)

lemma length_salsa_chain [simp]: "length (salsa_chain p X bs) = length bs"
  by (induction bs arbitrary: X) (auto simp: Let_def)

lemma length_mix: "bs \<noteq> [] \<Longrightarrow> length (fst (mix p bs ctx)) = length bs"
  by (auto simp: mix_def Suc_leI split: option.splits prod.splits dest!: length_mix_chain)

lemma mix_ctx_none: "snd (mix p bs ctx) = None \<longleftrightarrow> ctx = None"
  by (auto simp: mix_def split: option.splits prod.splits)

section \<open>The loops are the chain\<close>

lemma drop_Cons_nth: "i < length xs \<Longrightarrow> drop i xs = xs ! i # drop (i + 1) xs"
  by (simp add: Cons_nth_drop_Suc)

lemma put_at_Cons: "i < length xs \<Longrightarrow> put_at (Suc i) ys (xs[i := y]) = put_at i (y # ys) xs"
  by (simp add: put_at_def take_update_swap upd_conv_take_nth_drop take_Suc_conv_app_nth add.commute)

lemma blockmix_loop_chain:
  assumes "i \<le> r" "length Bin = Suc r" "r < length Bout"
    and "mix_chain p X (drop i Bin) c = (ys, c')"
  shows "blockmix_loop p Bin r i X c Bout = (r, last ys, c', put_at i (butlast ys) Bout)"
  using assms
proof (induction p Bin r i X c Bout arbitrary: ys rule: blockmix_loop.induct)
  case (1 p Bin r i X c Bout)
  obtain X' c1 where pf: "PWXFORM p (XOR_X X (Bin ! i), c) = (X', c1)" by fastforce
  obtain zs c2 where ch: "mix_chain p X' (drop (i + 1) Bin) c1 = (zs, c2)" by fastforce
  have ys: "ys = X' # zs" "c' = c2"
    using 1(5) pf ch drop_Cons_nth [of i Bin] 1(2,3) by auto
  show ?case
  proof (cases "i = r")
    case True
    then have "zs = []" "c2 = c1" using ch 1(3) by auto
    then show ?thesis using True pf ys by (simp add: blockmix_loop.simps)
  next
    case False
    then have "zs \<noteq> []" using length_mix_chain [OF ch] 1(2,3) by auto
    then show ?thesis
      using False pf ch ys 1(2,3,4) 1(1) [OF refl pf [symmetric] refl]
      by (subst blockmix_loop.simps) (simp add: put_at_Cons)
  qed
qed

lemma drop_two: "Suc i < length xs \<Longrightarrow> drop i xs = xs ! i # xs ! Suc i # drop (i + 2) xs"
  by (simp add: Cons_nth_drop_Suc)

lemma put_at_two: "Suc i < length xs \<Longrightarrow> put_at (Suc (Suc i)) zs (xs[i := y, Suc i := y']) = put_at i (y # y' # zs) xs"
  by (subst put_at_Cons [where i = "Suc i"]) (simp_all add: put_at_Cons)

lemma put_at_one: "i < length xs \<Longrightarrow> put_at i [y] xs = xs[i := y]"
  by (simp add: put_at_def upd_conv_take_nth_drop)

lemma blockmix_xor_loop_chain:
  assumes "i \<le> r" "even (r - i)" "length Bin1 = r + 2" "length Bin2 = r + 2" "Suc r < length Bout"
    and "mix_chain p X (drop i (xor_blocks Bin1 Bin2)) c = (ys, c')"
  shows "blockmix_xor_loop p Bin1 Bin2 r i X c Bout = (r, last ys, c', put_at i (butlast ys) Bout)"
  using assms
proof (induction p Bin1 Bin2 r i X c Bout arbitrary: ys rule: blockmix_xor_loop.induct)
  case (1 p Bin1 Bin2 r i X c Bout)
  obtain X' c1 where pf: "PWXFORM p (XOR_X (XOR_X X (Bin1 ! i)) (Bin2 ! i), c) = (X', c1)" by fastforce
  obtain X'' c2 where pf': "PWXFORM p (XOR_X (XOR_X X' (Bin1 ! (i + 1))) (Bin2 ! (i + 1)), c1) = (X'', c2)" by fastforce
  obtain zs c3 where ch: "mix_chain p X'' (drop (i + 2) (xor_blocks Bin1 Bin2)) c2 = (zs, c3)" by fastforce
  have ys: "ys = X' # X'' # zs" "c' = c3"
    using 1(7) pf pf' ch drop_two [of i "xor_blocks Bin1 Bin2"] 1(2,4,5) by (auto simp: XOR_X_assoc)
  show ?case
  proof (cases "i = r")
    case True
    then have "zs = []" "c3 = c2" using ch 1(4,5) by auto
    then show ?thesis using True pf pf' ys 1(6) by (simp add: blockmix_xor_loop.simps put_at_one)
  next
    case False
    then have "i + 2 \<le> r" "even (r - (i + 2))" using 1(2,3) by presburger+
    moreover have "zs \<noteq> []" using length_mix_chain [OF ch] calculation 1(4,5) by auto
    ultimately show ?thesis
      using False pf pf' ch ys 1(4-6) 1(1) [OF refl refl pf [symmetric] refl refl refl refl pf' [symmetric] refl]
      by (subst blockmix_xor_loop.simps) (simp add: put_at_two)
  qed
qed

text \<open>In place: the inputs not yet read are unchanged, so the chain is that of the original XOR.\<close>

lemma blockmix_xor_save_loop_chain:
  assumes "i \<le> r" "even (r - i)" "length A = r + 2" "length B = r + 2"
    and "mix_chain p X (drop i (xor_blocks A B)) c = (ys, c')"
  shows "blockmix_xor_save_loop p A B r i X c
    = (r, last ys, c', put_at i (butlast ys) A, put_at i (drop i (xor_blocks A B)) B)"
  using assms
proof (induction "r - i" arbitrary: A B i X c ys rule: less_induct)
  case less
  note prems = less.prems
  obtain X' c1 where pf: "PWXFORM p (XOR_X X (XOR_X (B ! i) (A ! i)), c) = (X', c1)" by fastforce
  obtain X'' c2 where pf': "PWXFORM p (XOR_X X' (XOR_X (B ! (i + 1)) (A ! (i + 1))), c1) = (X'', c2)" by fastforce
  let ?A = "A[i := X', i + 1 := X'']"
  let ?B = "B[i := XOR_X (B ! i) (A ! i), i + 1 := XOR_X (B ! (i + 1)) (A ! (i + 1))]"
  have same: "drop (i + 2) (xor_blocks ?A ?B) = drop (i + 2) (xor_blocks A B)"
    by (simp add: drop_xor_blocks)
  obtain zs c3 where ch: "mix_chain p X'' (drop (i + 2) (xor_blocks A B)) c2 = (zs, c3)" by fastforce
  have two: "drop i (xor_blocks A B)
      = XOR_X (B ! i) (A ! i) # XOR_X (B ! (i + 1)) (A ! (i + 1)) # drop (i + 2) (xor_blocks A B)"
    using drop_two [of i "xor_blocks A B"] prems(1,3,4) by (simp add: XOR_X_commute)
  have ys: "ys = X' # X'' # zs" "c' = c3"
    using prems(5) pf pf' ch unfolding two by auto
  show ?case
  proof (cases "i = r")
    case True
    then have "zs = []" "c3 = c2" "drop (i + 2) (xor_blocks A B) = []" using ch prems(3,4) by auto
    then show ?thesis
      using True pf pf' ys prems(3,4) unfolding two
      by (subst blockmix_xor_save_loop.simps) (simp add: put_at_one put_at_two [where zs = "[]", simplified, symmetric])
  next
    case False
    then have "i + 2 \<le> r" "even (r - (i + 2))" using prems(1,2) by presburger+
    moreover have "zs \<noteq> []" using length_mix_chain [OF ch] calculation prems(3,4) by auto
    ultimately show ?thesis
      using False pf pf' ch ys prems(3,4) same unfolding two
      using less.hyps [of "i + 2" ?A ?B X'' c2 zs]
      by (subst blockmix_xor_save_loop.simps) (simp add: put_at_two)
  qed
qed

section \<open>The three mixers\<close>

lemma list_two: "length bs = 2 \<Longrightarrow> bs = [bs ! 0, bs ! 1]"
  by (auto simp: numeral_2_eq_2 length_Suc_conv)

lemma put_at_full: "length bs = length B \<Longrightarrow> put_at 0 bs B = bs"
  by (simp add: put_at_def)

lemma last_2r: "length bs = 2 * r \<Longrightarrow> 0 < r \<Longrightarrow> bs ! (r * 2 - 1) = last bs"
  by (subst last_conv_nth) (auto simp: mult.commute)

lemma put_butlast_update:
  assumes "length ys = length B" "ys \<noteq> []" "i = length ys - 1"
  shows "(put_at 0 (butlast ys) B)[i := y] = butlast ys @ [y]"
proof -
  have "drop (length ys - 1) B = [B ! (length ys - 1)]"
    using assms by (subst drop_Cons_nth) (auto simp flip: length_greater_0_conv)
  then show ?thesis
    using assms by (simp add: put_at_def list_update_append)
qed

lemma blockmix_eq_mix:
  assumes "0 < r" "length Bin = 2 * r" "length Bout = 2 * r" "ctx = None \<longrightarrow> r = 1"
  shows "blockmix p Bin Bout r ctx = mix p Bin ctx"
proof (cases ctx)
  case None
  then obtain a b u v where "Bin = [a, b]" "Bout = [u, v]"
    using assms list_two [of Bin] list_two [of Bout] by fastforce
  then show ?thesis using None by (simp add: blockmix_def blockmix_salsa_def mix_def Let_def)
next
  case (Some c)
  obtain ys c' where ch: "mix_chain p (last Bin) Bin c = (ys, c')" by fastforce
  have len: "length ys = 2 * r" using length_mix_chain [OF ch] assms by simp
  have "blockmix_loop p Bin (r * 2 - 1) 0 (Bin ! (r * 2 - 1)) c Bout
      = (r * 2 - 1, last ys, c', put_at 0 (butlast ys) Bout)"
    using assms ch last_2r [of Bin r] by (intro blockmix_loop_chain) auto
  moreover have "(put_at 0 (butlast ys) Bout)[r * 2 - Suc 0 := SALSA20 p (last ys)] = butlast ys @ [SALSA20 p (last ys)]"
    using len assms by (intro put_butlast_update) auto
  ultimately show ?thesis
    using Some ch by (auto simp: blockmix_def mix_def Let_def)
qed

lemma last_word_append [simp]: "last_word (bs @ [X]) = INTEGERIFY X"
  by (simp add: last_word_def)

lemma last_xor_blocks:
  "length as = length bs \<Longrightarrow> as \<noteq> [] \<Longrightarrow> last (xor_blocks as bs) = XOR_X (last as) (last bs)"
  by (simp add: last_conv_nth flip: length_greater_0_conv)

lemma blockmix_xor_eq_mix:
  assumes "0 < r" "length Bin1 = 2 * r" "length Bin2 = 2 * r" "length Bout = 2 * r" "ctx = None \<longrightarrow> r = 1"
    and "mix p (xor_blocks Bin1 Bin2) ctx = (out, ctx')"
  shows "blockmix_xor p Bin1 Bin2 Bout r ctx = (out, ctx', last_word out)"
proof (cases ctx)
  case None
  then obtain a b a' b' u v where "Bin1 = [a, b]" "Bin2 = [a', b']" "Bout = [u, v]"
    using assms list_two [of Bin1] list_two [of Bin2] list_two [of Bout] by fastforce
  then show ?thesis
    using None assms(6)
    by (auto simp: blockmix_xor_def blockmix_salsa_xor_def mix_def xor_blocks_def Let_def XOR_X_assoc last_word_def)
next
  case (Some c)
  let ?xs = "xor_blocks Bin1 Bin2"
  obtain ys c' where ch: "mix_chain p (last ?xs) ?xs c = (ys, c')" by fastforce
  have len: "length ys = 2 * r" using length_mix_chain [OF ch] assms by simp
  have "last ?xs = XOR_X (Bin1 ! (r * 2 - 1)) (Bin2 ! (r * 2 - 1))"
    using assms last_2r [of Bin1 r] last_2r [of Bin2 r] by (subst last_xor_blocks) auto
  then have "blockmix_xor_loop p Bin1 Bin2 (r * 2 - 1 - 1) 0 (XOR_X (Bin1 ! (r * 2 - 1)) (Bin2 ! (r * 2 - 1))) c Bout
      = (r * 2 - 1 - 1, last ys, c', put_at 0 (butlast ys) Bout)"
    using assms ch by (intro blockmix_xor_loop_chain) auto
  moreover have "(put_at 0 (butlast ys) Bout)[Suc (r * 2 - Suc (Suc 0)) := SALSA20 p (last ys)] = butlast ys @ [SALSA20 p (last ys)]"
    using len assms by (intro put_butlast_update) auto
  moreover have "out = butlast ys @ [SALSA20 p (last ys)]" "ctx' = Some c'"
    using assms(6) Some ch by (simp_all add: mix_def)
  ultimately show ?thesis
    using Some by (simp add: blockmix_xor_def Let_def)
qed

lemma blockmix_xor_save_eq_mix:
  assumes "0 < r" "length A = 2 * r" "length B = 2 * r"
    and "mix p (xor_blocks A B) (Some c) = (out, Some c')"
  shows "blockmix_xor_save p A B r c = (out, xor_blocks A B, c', last_word out)"
proof -
  let ?xs = "xor_blocks A B"
  obtain ys c'' where ch: "mix_chain p (last ?xs) ?xs c = (ys, c'')" by fastforce
  have len: "length ys = 2 * r" using length_mix_chain [OF ch] assms by simp
  have "last ?xs = XOR_X (A ! (r * 2 - 1)) (B ! (r * 2 - 1))"
    using assms last_2r [of A r] last_2r [of B r] by (subst last_xor_blocks) auto
  then have "blockmix_xor_save_loop p A B (r * 2 - 1 - 1) 0 (XOR_X (A ! (r * 2 - 1)) (B ! (r * 2 - 1))) c
      = (r * 2 - 1 - 1, last ys, c'', put_at 0 (butlast ys) A, put_at 0 (drop 0 ?xs) B)"
    using assms ch by (intro blockmix_xor_save_loop_chain) auto
  moreover have "(put_at 0 (butlast ys) A)[Suc (r * 2 - Suc (Suc 0)) := SALSA20 p (last ys)] = butlast ys @ [SALSA20 p (last ys)]"
    using len assms by (intro put_butlast_update) auto
  moreover have "put_at 0 ?xs B = ?xs" using assms by (simp add: put_at_full)
  moreover have "out = butlast ys @ [SALSA20 p (last ys)]" "c' = c''"
    using assms(4) ch by (simp_all add: mix_def)
  ultimately show ?thesis
    by (simp add: blockmix_xor_save_def Let_def)
qed

lemma integerify_last: "length B = 2 * r \<Longrightarrow> 0 < r \<Longrightarrow> integerify B r = last_word B"
proof -
  assume "length B = 2 * r" "0 < r"
  then have "last B = B ! (2 * r - 1)" using last_2r [of B r] by (simp add: mult.commute)
  moreover have "(ucast (q_lo x) :: u32) = mm_cvtsi128_si32 x" for x by (cases x) simp
  ultimately show ?thesis by (simp add: integerify_def last_word_def INTEGERIFY_def)
qed

section \<open>The S-box context\<close>

definition Sb :: "pass \<Rightarrow> nat" where
  "Sb p = Swidth_to_Sbytes1 (Swidth p)"

text \<open>The tables tile the region; in pass 2 they are any arrangement of its thirds, and \<open>w\<close> is the
  next write position, a whole number of PWXFORM calls into a table.\<close>

definition ctx_ok :: "pass \<Rightarrow> pwxform_ctx \<Rightarrow> bool" where
  "ctx_ok p c \<longleftrightarrow> 16 * length (cSm c) = cSbytes c \<and> (case p of
     Pass1 \<Rightarrow> cSbytes c = 2 * Sb p \<and> cS0 c = 0 \<and> cS1 c = Sb p
   | Pass2 \<Rightarrow> cSbytes c = 3 * Sb p \<and> {cS0 c, cS1 c, cS2 c} = {0, Sb p, 2 * Sb p}
       \<and> cw c < Sb p \<and> 64 dvd cw c)"

lemma Sb_values: "Sb Pass1 = 4096" "Sb Pass2 = 32768"
  by (simp_all add: Sb_def Swidth_to_Sbytes1_def Swidth_def PWXsimple_def)

lemma Smask_values: "Swidth_to_Smask (Swidth Pass1) = 0xFF0" "Swidth_to_Smask (Swidth Pass2) = 0x7FF0"
  by (simp_all add: Swidth_to_Smask_def Swidth_def PWXsimple_def)

lemma Smask2_values: "Smask2 Pass1 = 0xFF000000FF0" "Smask2 Pass2 = 0x7FF000007FF0"
  by (simp_all add: Smask2_def Smask_to_Smask2_def Smask_values)

lemma and_mask_bounds:
  fixes x m :: nat assumes "m = 16 * mask k"
  shows "x AND m \<le> m \<and> 16 dvd x AND m"
proof
  show "x AND m \<le> m" using AND_upper2 [of "int m" "int x"] by (simp add: and_nat_def nat_le_iff)
next
  have "take_bit 4 m = 0" using assms by (simp add: take_bit_eq_mod)
  then have "take_bit 4 (x AND m) = 0" by (simp add: take_bit_and)
  then show "16 dvd x AND m" by (simp add: take_bit_eq_mod mod_eq_0_iff_dvd)
qed

lemma ucast_and_word: "(ucast (a AND b) :: u32) = ucast a AND ucast b" for a b :: u64
  by (rule bit_word_eqI) (simp add: bit_simps)

lemma table_offset:
  "unat (ucast (x AND Smask2 p) :: u32) \<le> Swidth_to_Smask (Swidth p)
   \<and> 16 dvd unat (ucast (x AND Smask2 p) :: u32)
   \<and> unat (ucast (drop_bit 32 (x AND Smask2 p)) :: u32) \<le> Swidth_to_Smask (Swidth p)
   \<and> 16 dvd unat (ucast (drop_bit 32 (x AND Smask2 p)) :: u32)"
proof -
  let ?M = "Swidth_to_Smask (Swidth p)"
  have m: "?M = 16 * mask (Swidth p)"
    by (simp add: Swidth_to_Smask_def PWXsimple_def mask_eq_exp_minus_1)
  have parts: "(ucast (Smask2 p) :: u32) = of_nat ?M" "(ucast (drop_bit 32 (Smask2 p)) :: u32) = of_nat ?M"
    by (cases p; simp add: Smask2_values Smask_values)+
  have lo: "(ucast (x AND Smask2 p) :: u32) = ucast x AND of_nat ?M"
    by (simp add: ucast_and_word parts)
  have hi: "(ucast (drop_bit 32 (x AND Smask2 p)) :: u32) = ucast (drop_bit 32 x) AND of_nat ?M"
    by (simp add: ucast_and_word drop_bit_and parts)
  have "unat (of_nat ?M :: u32) = ?M" by (cases p) (simp_all add: Smask_values)
  then show ?thesis
    using and_mask_bounds [OF m, of "unat (ucast x :: u32)"] and_mask_bounds [OF m, of "unat (ucast (drop_bit 32 x) :: u32)"]
    unfolding lo hi by (simp only: unsigned_and_eq)
qed

lemma SIMD_c_cong: "cSm c' = cSm c \<Longrightarrow> cS0 c' = cS0 c \<Longrightarrow> cS1 c' = cS1 c \<Longrightarrow> PWXFORM_SIMD_c p c' = PWXFORM_SIMD_c p c"
  by (simp add: PWXFORM_SIMD_c_def fun_eq_iff)

lemma length_st128 [simp]: "length (st128 S a v) = length S"
  by (simp add: st128_def)

text \<open>What a call of PWXFORM leaves in the context.\<close>

lemma PWXFORM1_ctx: "snd (PWXFORM Pass1 (X, c)) = c"
proof -
  have "snd ((PWXFORM_ROUND Pass1 ^^ n) (X, c)) = c" for n
    by (induction n) (auto simp: PWXFORM_ROUND_def split: prod.splits)
  then show ?thesis by (simp add: PWXFORM_def)
qed

definition advances :: "nat \<Rightarrow> pwxform_ctx \<Rightarrow> pwxform_ctx \<Rightarrow> bool" where
  "advances k c c' \<longleftrightarrow> (\<exists>S. length S = length (cSm c) \<and> c' = c\<lparr>cSm := S, cw := cw c + k\<rparr>)"

lemma advances_write: "advances 0 c (snd (PWXFORM_SIMD_WRITE p Sw X c))"
  unfolding advances_def PWXFORM_SIMD_WRITE_def
  by (rule exI [of _ "st128 (cSm c) (Sw c + cw c) (PWXFORM_SIMD_c p c X)"]) (simp add: Let_def)

lemma advances_w: "advances 16 c (w_add16 c)"
  unfolding advances_def w_add16_def by (rule exI [of _ "cSm c"]) simp

lemma advances_trans: "advances k c c' \<Longrightarrow> advances l c' c'' \<Longrightarrow> advances (k + l) c c''"
  by (auto simp: advances_def ac_simps)

lemmas advances_write' = advances_write [THEN advances_trans, simplified]

lemma advances_write4: "advances 32 c (snd (PWXFORM_ROUND_WRITE4 p (X, c)))"
proof -
  obtain X0 X1 X2 X3 where X: "X = (X0, X1, X2, X3)" by (cases X)
  obtain Y0 c1 where 1: "PWXFORM_SIMD_WRITE p cS0 X0 c = (Y0, c1)" by fastforce
  obtain Y1 c2 where 2: "PWXFORM_SIMD_WRITE p cS1 X1 c1 = (Y1, c2)" by fastforce
  obtain Y2 c3 where 3: "PWXFORM_SIMD_WRITE p cS0 X2 (w_add16 c2) = (Y2, c3)" by fastforce
  obtain Y3 c4 where 4: "PWXFORM_SIMD_WRITE p cS1 X3 c3 = (Y3, c4)" by fastforce
  have "advances (0 + (0 + (16 + (0 + (0 + 16))))) c (w_add16 c4)"
    using advances_write [of c p cS0 X0] advances_write [of c1 p cS1 X1] advances_write [of "w_add16 c2" p cS0 X2]
      advances_write [of c3 p cS1 X3]
    by (intro advances_trans [OF _ advances_trans [OF _ advances_trans [OF advances_w advances_trans [OF _ advances_trans [OF _ advances_w]]]]])
      (simp_all add: 1 2 3 4)
  then show ?thesis by (simp add: PWXFORM_ROUND_WRITE4_def X 1 2 3 4 Let_def)
qed

lemma advances_write2: "advances 16 c (snd (PWXFORM_ROUND_WRITE2 p (X, c)))"
proof -
  obtain X0 X1 X2 X3 where X: "X = (X0, X1, X2, X3)" by (cases X)
  obtain Y0 c1 where 1: "PWXFORM_SIMD_WRITE p cS0 X0 c = (Y0, c1)" by fastforce
  obtain Y1 c2 where 2: "PWXFORM_SIMD_WRITE p cS1 X1 c1 = (Y1, c2)" by fastforce
  have "advances (0 + (0 + 16)) c (w_add16 c2)"
    using advances_write [of c p cS0 X0] advances_write [of c1 p cS1 X1]
    by (intro advances_trans [OF _ advances_trans [OF _ advances_w]]) (simp_all add: 1 2)
  then show ?thesis by (simp add: PWXFORM_ROUND_WRITE2_def X 1 2 Let_def)
qed

lemma PWXFORM2_ctx:
  "\<exists>S. length S = length (cSm c) \<and> snd (PWXFORM Pass2 (X, c))
    = c\<lparr>cSm := S, cS0 := cS2 c, cS1 := cS0 c, cS2 := cS1 c, cw := (cw c + 64) AND unat (Smask2 Pass2)\<rparr>"
proof -
  obtain X1 c1 where 1: "PWXFORM_ROUND_WRITE4 Pass2 (X, c) = (X1, c1)" by fastforce
  obtain X2 c2 where 2: "PWXFORM_ROUND_WRITE2 Pass2 (X1, c1) = (X2, c2)" by fastforce
  obtain X3 c3 where 3: "PWXFORM_ROUND_WRITE2 Pass2 (X2, c2) = (X3, c3)" by fastforce
  have "advances (32 + (16 + 16)) c c3"
    using advances_write4 [of c Pass2 X] advances_write2 [of c1 Pass2 X1] advances_write2 [of c2 Pass2 X2]
    by (intro advances_trans [OF _ advances_trans]) (simp_all add: 1 2 3)
  then show ?thesis
    by (auto simp: advances_def PWXFORM_def 1 2 3 rotate_S_def Let_def)
qed

lemma w_wrap:
  assumes "w < Sb Pass2" "64 dvd w"
  shows "(w + 64) AND unat (Smask2 Pass2) = (w + 64) mod Sb Pass2"
proof -
  obtain k where k: "w + 64 = push_bit 4 k" "w + 64 < 2 ^ 16"
    using assms by (auto simp: Sb_values push_bit_eq_mult dvd_def intro: that [of "(w + 64) div 16"])
  have M: "take_bit 16 (unat (Smask2 Pass2)) = push_bit 4 (mask 11)"
    by (simp add: Smask2_values take_bit_eq_mod push_bit_eq_mult mask_eq_exp_minus_1)
  have "(w + 64) AND unat (Smask2 Pass2) = take_bit 16 ((w + 64) AND unat (Smask2 Pass2))"
    using k(2) by (metis take_bit_and take_bit_nat_eq_self take_bit_take_bit and.assoc and.commute take_bit_eq_mask)
  also have "\<dots> = push_bit 4 k AND push_bit 4 (mask 11)"
    using k by (simp add: take_bit_and M take_bit_nat_eq_self)
  also have "\<dots> = take_bit 15 (push_bit 4 k)"
    by (rule bit_eqI) (auto simp: bit_simps)
  finally show ?thesis
    unfolding k(1) by (simp add: take_bit_eq_mod Sb_values)
qed

lemma PWXFORM_ctx_ok:
  assumes "ctx_ok p c"
  shows "ctx_ok p (snd (PWXFORM p (X, c)))"
proof (cases p)
  case Pass1
  then show ?thesis using assms PWXFORM1_ctx [of X c] by simp
next
  case Pass2
  obtain S where S: "length S = length (cSm c)" "snd (PWXFORM Pass2 (X, c))
      = c\<lparr>cSm := S, cS0 := cS2 c, cS1 := cS0 c, cS2 := cS1 c, cw := (cw c + 64) AND unat (Smask2 Pass2)\<rparr>"
    using PWXFORM2_ctx by blast
  have "cw c < Sb Pass2" "64 dvd cw c" using assms Pass2 by (auto simp: ctx_ok_def)
  then show ?thesis
    unfolding Pass2 S(2) using assms Pass2 S(1) by (simp add: ctx_ok_def w_wrap insert_commute) (simp add: Sb_values dvd_mod)
qed

lemma table_position:
  assumes "ctx_ok p c" "t \<in> {cS0 c, cS1 c}"
  shows "16 dvd t \<and> t + Sb p \<le> 16 * length (cSm c)"
proof (cases p)
  case Pass1
  then show ?thesis using assms by (auto simp: ctx_ok_def Sb_values)
next
  case Pass2
  have "t \<in> {cS0 c, cS1 c, cS2 c}" using assms(2) by blast
  then have "t \<in> {0, Sb p, 2 * Sb p}" using assms(1) Pass2 by (simp only: ctx_ok_def pass.case)
  then show ?thesis using assms(1) Pass2 by (auto simp: ctx_ok_def Sb_values)
qed

lemma mix_chain_ctx_ok: "ctx_ok p c \<Longrightarrow> ctx_ok p (snd (mix_chain p X bs c))"
proof (induction bs arbitrary: X c)
  case (Cons b bs)
  then show ?case using PWXFORM_ctx_ok [OF Cons.prems, of "XOR_X X b"] by (auto simp: Let_def split: prod.splits) (metis snd_conv)
qed simp

lemma mix_ctx_ok: "mix p bs (Some c) = (out, Some c') \<Longrightarrow> ctx_ok p c \<Longrightarrow> ctx_ok p c'"
  using mix_chain_ctx_ok [of p c "last bs" bs] by (auto simp: mix_def split: prod.splits)



end
