(* ===== verification/Soj_Smix.thy ===== *)
theory Soj_Smix
  imports Soj_Blockmix
begin

text \<open>\<open>smix1\<close>, \<open>smix2\<close> and \<open>smix\<close> of \<open>yespower-opt.c\<close> on their working memory: \<open>B\<close> the bytes,
  \<open>V\<close> the table of \<open>N\<close> states, \<open>XY\<close> the scratch state; a pointer into \<open>V\<close> is a block index.
  \<open>Soj_SmixSpec\<close> proves that they compute SMix.\<close>

section \<open>Bytes to blocks and back\<close>

text \<open>\<open>tmp->w[k] = le32dec (&src->w[k])\<close> for the block at byte \<open>64 * i\<close> of \<open>B\<close>.\<close>

definition load_words :: "bytes \<Rightarrow> nat \<Rightarrow> u32 list" where
  "load_words B i = map (\<lambda>k. le32dec (seg (64 * i + 4 * k) 4 B)) [0..<16]"

text \<open>One turn of the loading loop: \<open>tmp\<close> is block \<open>t\<close> of the array, \<open>dst\<close> its block \<open>i\<close>.\<close>

definition load_step :: "bytes \<Rightarrow> nat \<Rightarrow> nat \<Rightarrow> blk list \<Rightarrow> blk list" where
  "load_step B t i arr =
    (let arr = arr[t := READ_X (load_words B i)]
     in arr[i := READ_X (salsa20_simd_shuffle (WRITE_X (arr ! t)))])"

text \<open>One turn of the storing loop.  A word lies in memory as its little-endian bytes, so \<open>le32enc\<close>
  into \<open>tmp->w[k]\<close> is read back through \<open>le32dec\<close>.\<close>

definition store_step :: "nat \<Rightarrow> nat \<Rightarrow> blk list \<times> bytes \<Rightarrow> blk list \<times> bytes" where
  "store_step t i st = (case st of (XY, B) \<Rightarrow>
    (let tmp = map (\<lambda>w. le32dec (le32enc w)) (WRITE_X (XY ! i));
         XY = XY[t := READ_X tmp];
         dst = salsa20_simd_unshuffle (WRITE_X (XY ! t))
     in (XY, put_at (64 * i) (concat (map le32enc dst)) B)))"

section \<open>Mixing inside V\<close>

definition V_blockmix :: "pass \<Rightarrow> nat \<Rightarrow> nat \<Rightarrow> nat \<Rightarrow> blk list \<times> pwxform_ctx option \<Rightarrow>
    blk list \<times> pwxform_ctx option" where
  "V_blockmix p r src dst st = (case st of (V, ctx) \<Rightarrow>
    (case blockmix p (seg src (2 * r) V) (seg dst (2 * r) V) r ctx of (out, ctx) \<Rightarrow> (put_at dst out V, ctx)))"

definition V_blockmix_xor :: "pass \<Rightarrow> nat \<Rightarrow> nat \<Rightarrow> nat \<Rightarrow> nat \<Rightarrow> blk list \<times> pwxform_ctx option \<Rightarrow>
    nat \<times> blk list \<times> pwxform_ctx option" where
  "V_blockmix_xor p r src vj dst st = (case st of (V, ctx) \<Rightarrow>
    (case blockmix_xor p (seg src (2 * r) V) (seg vj (2 * r) V) (seg dst (2 * r) V) r ctx of
       (out, ctx, j) \<Rightarrow> (j, put_at dst out V, ctx)))"

section \<open>smix1\<close>

type_synonym fill_state = "nat \<times> nat \<times> blk list \<times> pwxform_ctx option"

text \<open>The body of the inner loop: from \<open>X\<close> at \<open>x\<close> to the state two further on.\<close>

definition smix1_body :: "pass \<Rightarrow> nat \<Rightarrow> nat \<Rightarrow> nat \<Rightarrow> fill_state \<Rightarrow> fill_state" where
  "smix1_body p r n i st = (case st of (x, j, V, ctx) \<Rightarrow>
    (let s = 2 * r;
         y = x + s;
         j = j AND (n - 1);
         j = j + (i - 1);
         (j, V, ctx) = V_blockmix_xor p r x (j * s) y (V, ctx);
         j = j AND (n - 1);
         j = j + i;
         x = y + s;
         (j, V, ctx) = V_blockmix_xor p r y (j * s) x (V, ctx)
     in (x, j, V, ctx)))"

function smix1_inner :: "pass \<Rightarrow> nat \<Rightarrow> nat \<Rightarrow> nat \<Rightarrow> nat \<Rightarrow> fill_state \<Rightarrow> fill_state" where
  "smix1_inner p r n m i st =
    (if i < m then smix1_inner p r n m (i + 2) (smix1_body p r n i st) else st)"
  by pat_completeness auto
termination by (relation "measure (\<lambda>(p, r, n, m, i, st). m - i)") auto

declare smix1_inner.simps [simp del]

text \<open>\<open>n\<close> starts at 2; the condition \<open>0 < n\<close> makes the recursion well-founded and never decides.\<close>

function smix1_outer :: "pass \<Rightarrow> nat \<Rightarrow> nat \<Rightarrow> nat \<Rightarrow> fill_state \<Rightarrow> nat \<times> fill_state" where
  "smix1_outer p r N n st =
    (if n < N \<and> 0 < n then
       (let m = (if n < N div 2 then n else N - 1 - n)
        in smix1_outer p r N (push_bit 1 n) (smix1_inner p r n m 1 st))
     else (n, st))"
  by pat_completeness auto
termination by (relation "measure (\<lambda>(p, r, N, n, st). N - n)") (auto simp: push_bit_eq_mult)

declare smix1_outer.simps [simp del]

definition smix1 :: "pass \<Rightarrow> bytes \<Rightarrow> nat \<Rightarrow> nat \<Rightarrow> blk list \<Rightarrow> blk list \<Rightarrow> pwxform_ctx option \<Rightarrow>
    bytes \<times> blk list \<times> blk list \<times> pwxform_ctx option" where
  "smix1 p B r N V XY ctx =
    (let s = 2 * r;
         V = fold (load_step B s) [0..<(case p of Pass1 \<Rightarrow> 2 * r | Pass2 \<Rightarrow> 2)] V;
         (V, ctx) = (case p of Pass1 \<Rightarrow> (V, ctx)
           | Pass2 \<Rightarrow> fold (\<lambda>i. V_blockmix p 1 ((i - 1) * 2) (i * 2)) [1..<r] (V, ctx));
         (V, ctx) = V_blockmix p r 0 s (V, ctx);
         x = s + s;
         (V, ctx) = V_blockmix p r s x (V, ctx);
         j = integerify (seg x s V) r;
         (n, x, j, V, ctx) = smix1_outer p r N 2 (x, j, V, ctx);
         n = drop_bit 1 n;
         j = j AND (n - 1);
         j = j + (N - 2 - n);
         y = x + s;
         (j, V, ctx) = V_blockmix_xor p r x (j * s) y (V, ctx);
         j = j AND (n - 1);
         j = j + (N - 1 - n);
         (out, ctx, _) = blockmix_xor p (seg y s V) (seg (j * s) s V) (seg 0 s XY) r ctx;
         XY = put_at 0 out XY;
         (XY, B) = fold (store_step s) [0..<2 * r] (XY, B)
     in (B, V, XY, ctx))"

section \<open>smix2\<close>

type_synonym walk_state = "nat \<times> blk list \<times> blk list \<times> pwxform_ctx"

text \<open>One call of \<open>blockmix_xor_save (X, &V[j * s], r, ctx) & (N - 1)\<close>; \<open>X\<close> is the start of \<open>XY\<close>.\<close>

definition smix2_step :: "pass \<Rightarrow> nat \<Rightarrow> nat \<Rightarrow> walk_state \<Rightarrow> walk_state" where
  "smix2_step p r N st = (case st of (j, V, XY, ctx) \<Rightarrow>
    (let s = 2 * r in
     case blockmix_xor_save p (seg 0 s XY) (seg (j * s) s V) r ctx of
       (X, Vj, ctx, j') \<Rightarrow> (j' AND (N - 1), put_at (j * s) Vj V, put_at 0 X XY, ctx)))"

text \<open>\<open>do \<dots> while (Nloop -= 2)\<close>; \<open>Nloop\<close> is even and positive.\<close>

function smix2_loop :: "pass \<Rightarrow> nat \<Rightarrow> nat \<Rightarrow> nat \<Rightarrow> walk_state \<Rightarrow> walk_state" where
  "smix2_loop p r N Nloop st =
    (let st = smix2_step p r N (smix2_step p r N st);
         Nloop = Nloop - 2
     in if Nloop \<noteq> 0 then smix2_loop p r N Nloop st else st)"
  by pat_completeness auto
termination by (relation "measure (\<lambda>(p, r, N, Nloop, st). Nloop)") auto

declare smix2_loop.simps [simp del]

definition smix2_loaded :: "pass \<Rightarrow> nat \<Rightarrow> nat \<Rightarrow> nat \<Rightarrow> walk_state \<Rightarrow> walk_state" where
  "smix2_loaded p r N Nloop st =
    (if p = Pass2 \<or> Nloop > 2 then smix2_loop p r N Nloop st
     else (case st of (j, V, XY, ctx) \<Rightarrow>
       (let s = 2 * r;
            (Y, ctx', j) = blockmix_xor p (seg 0 s XY) (seg (j * s) s V) (seg s s XY) r (Some ctx);
            XY = put_at s Y XY;
            j = j AND (N - 1);
            (X, ctx', j) = blockmix_xor p (seg s s XY) (seg (j * s) s V) (seg 0 s XY) r ctx';
            XY = put_at 0 X XY
        in (j, V, XY, the ctx'))))"

definition smix2 :: "pass \<Rightarrow> bytes \<Rightarrow> nat \<Rightarrow> nat \<Rightarrow> nat \<Rightarrow> blk list \<Rightarrow> blk list \<Rightarrow> pwxform_ctx \<Rightarrow>
    bytes \<times> blk list \<times> blk list \<times> pwxform_ctx" where
  "smix2 p B r N Nloop V XY ctx =
    (let s = 2 * r;
         XY = fold (load_step B s) [0..<2 * r] XY;
         j = integerify (seg 0 s XY) r AND (N - 1);
         (j, V, XY, ctx) = smix2_loaded p r N Nloop (j, V, XY, ctx);
         (XY, B) = fold (store_step s) [0..<2 * r] (XY, B)
     in (B, V, XY, ctx))"

section \<open>smix\<close>

text \<open>The S-box region as an array of blocks, for the first call of \<open>smix1\<close>.\<close>

definition blocks_of_lanes :: "xmm list \<Rightarrow> blk list" where
  "blocks_of_lanes S = map (\<lambda>i. (S ! (4 * i), S ! (4 * i + 1), S ! (4 * i + 2), S ! (4 * i + 3))) [0..<length S div 4]"

definition lanes_of_blocks :: "blk list \<Rightarrow> xmm list" where
  "lanes_of_blocks bs = concat (map (\<lambda>(q0, q1, q2, q3). [q0, q1, q2, q3]) bs)"

text \<open>\<open>& ~(uint32_t)1\<close> clears the lowest bit.\<close>

definition clear_bit0 :: "nat \<Rightarrow> nat" where
  "clear_bit0 n = push_bit 1 (drop_bit 1 n)"

definition Nloop_rw :: "pass \<Rightarrow> nat \<Rightarrow> nat" where
  "Nloop_rw p N = (case p of
     Pass1 \<Rightarrow> clear_bit0 ((N + 2) div 3)
   | Pass2 \<Rightarrow> clear_bit0 ((N + 2) div 3 + 1))"

definition Nloop_all :: "nat \<Rightarrow> nat" where
  "Nloop_all N = clear_bit0 ((N + 2) div 3 + 1)"

definition smix :: "pass \<Rightarrow> bytes \<Rightarrow> nat \<Rightarrow> nat \<Rightarrow> blk list \<Rightarrow> blk list \<Rightarrow> pwxform_ctx \<Rightarrow>
    bytes \<times> blk list \<times> blk list \<times> pwxform_ctx" where
  "smix p B r N V XY ctx =
    (let (B, S, XY, _) = smix1 p B 1 (cSbytes ctx div 128) (blocks_of_lanes (cSm ctx)) XY None;
         ctx = ctx\<lparr>cSm := lanes_of_blocks S\<rparr>;
         (B, V, XY, ctx') = smix1 p B r N V XY (Some ctx);
         (B, V, XY, ctx) = smix2 p B r N (Nloop_rw p N) V XY (the ctx')
     in if p = Pass1 \<and> Nloop_all N > Nloop_rw p N then smix2 p B r N 2 V XY ctx
        else (B, V, XY, ctx))"

end
