(* ===== verification/Soj_SmixSpec.thy ===== *)
theory Soj_SmixSpec
  imports Soj_Smix
begin

text \<open>SMix as its authors state it, one state at a time over a table kept as a list, and the proof
  that the loops of \<open>smix1\<close> and \<open>smix2\<close> on the working memory compute it.\<close>

section \<open>The specification\<close>

fun p2floor :: "nat \<Rightarrow> nat" where
  "p2floor i = (if i \<le> 1 then 1 else 2 * p2floor (i div 2))"

declare p2floor.simps [simp del]

text \<open>\<open>Wrap (x, i) = (x mod p2floor (i)) + (i - p2floor (i))\<close>\<close>

definition wrap :: "nat \<Rightarrow> nat \<Rightarrow> nat" where
  "wrap x i = x mod p2floor i + (i - p2floor i)"

text \<open>The first loop, one state at a time: keep the state as \<open>V\<^sub>i\<close>, XOR it with an earlier one
  from \<open>i = 2\<close> on, mix.\<close>

type_synonym fill = "blk list list \<times> blk list \<times> pwxform_ctx option"

definition fill_step :: "pass \<Rightarrow> fill \<Rightarrow> fill" where
  "fill_step p st = (case st of (Vs, X, ctx) \<Rightarrow>
    (let i = length Vs;
         Y = (if 1 < i then xor_blocks X (Vs ! wrap (last_word X) i) else X);
         (Z, ctx) = mix p Y ctx
     in (Vs @ [X], Z, ctx)))"

definition fill_states :: "pass \<Rightarrow> blk list \<Rightarrow> pwxform_ctx option \<Rightarrow> nat \<Rightarrow> fill" where
  "fill_states p X ctx k = (fill_step p ^^ k) ([], X, ctx)"

text \<open>The second loop: XOR the state with \<open>V\<^sub>j\<close>, keep the result as \<open>V\<^sub>j\<close> when writing, mix.\<close>

type_synonym walk = "blk list list \<times> blk list \<times> pwxform_ctx option"

definition walk_step :: "pass \<Rightarrow> bool \<Rightarrow> nat \<Rightarrow> walk \<Rightarrow> walk" where
  "walk_step p rw N st = (case st of (Vs, X, ctx) \<Rightarrow>
    (let j = last_word X mod N;
         Y = xor_blocks X (Vs ! j);
         Vs = (if rw then Vs[j := Y] else Vs);
         (Z, ctx) = mix p Y ctx
     in (Vs, Z, ctx)))"

text \<open>Blocks as read from and written to the byte string.\<close>

definition block_at :: "bytes \<Rightarrow> nat \<Rightarrow> blk" where
  "block_at B i = READ_X (salsa20_simd_shuffle (load_words B i))"

definition block_bytes :: "blk \<Rightarrow> bytes" where
  "block_bytes X = concat (map le32enc (salsa20_simd_unshuffle (WRITE_X X)))"

text \<open>yespower 1.0 reads two blocks only and expands them by mixing.\<close>

definition expand_step :: "pass \<Rightarrow> blk list \<times> pwxform_ctx option \<Rightarrow> blk list \<times> pwxform_ctx option" where
  "expand_step p st = (case st of (X, ctx) \<Rightarrow>
    (case mix p (drop (length X - 2) X) ctx of (Y, ctx) \<Rightarrow> (X @ Y, ctx)))"

definition start_state :: "pass \<Rightarrow> bytes \<Rightarrow> nat \<Rightarrow> pwxform_ctx option \<Rightarrow> blk list \<times> pwxform_ctx option" where
  "start_state p B r ctx = (case p of
     Pass1 \<Rightarrow> (map (block_at B) [0..<2 * r], ctx)
   | Pass2 \<Rightarrow> (expand_step p ^^ (r - 1)) (map (block_at B) [0..<2], ctx))"

definition smix1_spec :: "pass \<Rightarrow> bytes \<Rightarrow> nat \<Rightarrow> nat \<Rightarrow> pwxform_ctx option \<Rightarrow> fill" where
  "smix1_spec p B r N ctx = (case start_state p B r ctx of (X, ctx) \<Rightarrow> fill_states p X ctx N)"

definition bytes_of :: "blk list \<Rightarrow> bytes" where
  "bytes_of X = concat (map block_bytes X)"

section \<open>Loading and storing\<close>

lemma length_load_words [simp]: "length (load_words B i) = 16"
  by (simp add: load_words_def)

lemma load_step_eq: "t < length arr \<Longrightarrow> load_step B t i arr = arr[t := READ_X (load_words B i), i := block_at B i]"
  by (simp add: load_step_def Let_def block_at_def)

lemma load_blocks:
  assumes "n \<le> t" "t < length arr"
  shows "length (fold (load_step B t) [0..<n] arr) = length arr
    \<and> take n (fold (load_step B t) [0..<n] arr) = map (block_at B) [0..<n]"
  using assms(1)
proof (induction n)
  case (Suc n)
  let ?a = "fold (load_step B t) [0..<n] arr"
  have IH: "length ?a = length arr" "take n ?a = map (block_at B) [0..<n]" using Suc by simp_all
  have "fold (load_step B t) [0..<Suc n] arr = ?a[t := READ_X (load_words B n), n := block_at B n]"
    using IH(1) assms(2) by (simp add: load_step_eq)
  then show ?case
    using IH Suc.prems assms(2) by (simp add: take_Suc_conv_app_nth)
qed simp

lemma length_concat_le32enc [simp]: "length (concat (map le32enc ws)) = 4 * length ws"
  by (induction ws) (simp_all add: le32.length_enc)

lemma length_block_bytes [simp]: "length (block_bytes X) = 64"
  by (simp add: block_bytes_def)

lemma length_bytes_of [simp]: "length (bytes_of X) = 64 * length X"
  by (induction X) (simp_all add: bytes_of_def)

lemma bytes_of_snoc: "bytes_of (X @ [b]) = bytes_of X @ block_bytes b"
  by (simp add: bytes_of_def)

lemma store_step_eq:
  "t < length XY \<Longrightarrow> store_step t i (XY, B) = (XY[t := XY ! i], put_at (64 * i) (block_bytes (XY ! i)) B)"
  by (simp add: store_step_def Let_def block_bytes_def le32dec_enc)

lemma store_blocks:
  assumes "n \<le> t" "t < length XY" "64 * n \<le> length B"
  shows "\<exists>XY'. fold (store_step t) [0..<n] (XY, B) = (XY', put_at 0 (bytes_of (take n XY)) B)
    \<and> length XY' = length XY \<and> take t XY' = take t XY"
  using assms(1,3)
proof (induction n)
  case (Suc n)
  let ?B = "put_at 0 (bytes_of (take n XY)) B"
  obtain XY' where IH: "fold (store_step t) [0..<n] (XY, B) = (XY', ?B)" "length XY' = length XY" "take t XY' = take t XY"
    using Suc by auto
  have nth: "XY' ! n = XY ! n" using IH(3) Suc.prems(1) by (metis Suc_le_lessD nth_take)
  have "put_at (64 * n) (block_bytes (XY ! n)) ?B = put_at 0 (bytes_of (take (Suc n) XY)) B"
    using Suc.prems assms(1,2) put_at_put_at_adjacent [of 0 "bytes_of (take n XY)" "block_bytes (XY ! n)" B]
    by (simp add: take_Suc_conv_app_nth bytes_of_snoc)
  then show ?case
    using IH assms(2) nth Suc.prems(1) by (simp add: store_step_eq)
qed (use assms in \<open>simp add: bytes_of_def\<close>)

section \<open>Powers of two\<close>

lemma p2floor_eq: "2 ^ e \<le> i \<Longrightarrow> i < 2 * 2 ^ e \<Longrightarrow> p2floor i = 2 ^ e"
proof (induction e arbitrary: i)
  case (Suc e)
  then have "p2floor (i div 2) = 2 ^ e" by simp
  moreover have "(0 :: nat) < 2 ^ e" by simp
  then have "\<not> i \<le> 1" using Suc.prems(1) by (simp only: power_Suc)
  ultimately show ?case by (subst p2floor.simps) simp
qed (simp add: p2floor.simps)

lemma p2floor_bounds: "0 < i \<Longrightarrow> 0 < p2floor i \<and> p2floor i \<le> i"
proof (induction i rule: p2floor.induct)
  case (1 i)
  then show ?case by (subst (1 2) p2floor.simps) auto
qed

lemma wrap_less: "0 < i \<Longrightarrow> wrap x i < i"
  using p2floor_bounds [of i] mod_less_divisor [of "p2floor i" x] unfolding wrap_def by linarith

text \<open>The code's two lines \<open>j &= n - 1; j += i - n\<close>, at state \<open>i\<close> of the doubling phase \<open>n\<close>.\<close>

lemma and_wrap:
  assumes "n = 2 ^ e" "n \<le> i" "i < 2 * n"
  shows "(j AND (n - 1)) + (i - n) = wrap j i"
proof -
  have "j AND (n - 1) = j mod n"
    unfolding assms(1) by (simp only: mask_eq_exp_minus_1 [symmetric] take_bit_eq_mask [symmetric] take_bit_eq_mod)
  then show ?thesis
    using assms p2floor_eq [of e i] by (simp add: wrap_def)
qed

section \<open>The first loop computes the specification\<close>

lemma fill_states_0: "fill_states p X c 0 = ([], X, c)"
  by (simp add: fill_states_def)

lemma fill_states_Suc: "fill_states p X c (Suc k) = fill_step p (fill_states p X c k)"
  by (simp add: fill_states_def)

lemma xor_blocks_nonempty: "length a = length b \<Longrightarrow> a \<noteq> [] \<Longrightarrow> xor_blocks a b \<noteq> []"
  by (simp flip: length_greater_0_conv)

lemma fill_lengths:
  assumes len: "length X = s" "0 < s" and "fill_states p X c k = (Vs, Y, c')"
  shows "length Vs = k \<and> (\<forall>v \<in> set Vs. length v = s) \<and> length Y = s \<and> (c' = None \<longleftrightarrow> c = None)"
  using assms(3)
proof (induction k arbitrary: Vs Y c')
  case 0
  then show ?case using len by (simp add: fill_states_0)
next
  case (Suc k)
  obtain Us Z d where k: "fill_states p X c k = (Us, Z, d)" by (cases "fill_states p X c k")
  note IH = Suc.IH [OF k]
  let ?W = "if 1 < length Us then xor_blocks Z (Us ! wrap (last_word Z) (length Us)) else Z"
  have W: "length ?W = s" "?W \<noteq> []"
    using IH wrap_less [of k "last_word Z"] len(2) by (auto simp flip: length_greater_0_conv)
  have st: "Vs = Us @ [Z]" "Y = fst (mix p ?W d)" "c' = snd (mix p ?W d)"
    using Suc.prems k by (auto simp: fill_states_Suc fill_step_def Let_def split: prod.splits)
  show ?case
    using IH length_mix [OF W(2), of p d] W(1) mix_ctx_none [of p ?W d] st by auto
qed

lemma seg_of_take: "off + n \<le> m \<Longrightarrow> seg off n (take m V) = seg off n V"
  by (simp add: seg_def drop_take min_def)

lemma seg_concat:
  "\<forall>v \<in> set vs. length v = s \<Longrightarrow> j < length vs \<Longrightarrow> seg (j * s) s (concat vs @ ys) = vs ! j"
proof (induction vs arbitrary: j)
  case (Cons v vs)
  then show ?case by (cases j) (auto simp: seg_def)
qed simp

lemma length_concat_same: "\<forall>v \<in> set vs. length v = s \<Longrightarrow> length (concat vs) = length vs * s"
  by (induction vs) simp_all

lemma take_put_at: "off + length out \<le> length V \<Longrightarrow> take (off + length out) (put_at off out V) = take off V @ out"
  by (simp add: put_at_def)

text \<open>The memory at state \<open>k\<close>: the pointer, the last word, the table so far and the context.\<close>

definition filled :: "pass \<Rightarrow> nat \<Rightarrow> blk list \<Rightarrow> pwxform_ctx option \<Rightarrow> nat \<Rightarrow> nat \<Rightarrow> fill_state \<Rightarrow> bool" where
  "filled p r X0 c0 N k st = (case st of (x, j, V, ctx) \<Rightarrow> case fill_states p X0 c0 k of (Vs, X, c) \<Rightarrow>
     x = k * (2 * r) \<and> j = last_word X \<and> ctx = c \<and> length V = N * (2 * r) \<and> k < N
     \<and> take ((k + 1) * (2 * r)) V = concat Vs @ X)"

lemma filled_segs:
  assumes "filled p r X0 c0 N k (x, j, V, ctx)" "length X0 = 2 * r" "0 < r" "fill_states p X0 c0 k = (Vs, X, c)"
  shows "seg x (2 * r) V = X" "i < k \<Longrightarrow> seg (i * (2 * r)) (2 * r) V = Vs ! i"
    "i < N \<Longrightarrow> length (seg (i * (2 * r)) (2 * r) V) = 2 * r"
proof -
  let ?s = "2 * r"
  have F: "x = k * ?s" "take ((k + 1) * ?s) V = concat Vs @ X" "length V = N * ?s"
    using assms(1,4) by (auto simp: filled_def)
  have len: "length Vs = k" "\<forall>v \<in> set Vs. length v = ?s" "length X = ?s"
    using fill_lengths [OF assms(2) _ assms(4)] assms(3) by auto
  have "seg x ?s V = seg (length (concat Vs)) ?s (concat Vs @ X)"
    using F len length_concat_same [OF len(2)] seg_of_take [of "k * ?s" ?s "(k + 1) * ?s" V] by simp
  then show "seg x ?s V = X" using len(3) by (simp add: seg_append_eq)
  show "seg (i * ?s) ?s V = Vs ! i" if "i < k"
  proof -
    have "(i + 1) * ?s \<le> (k + 1) * ?s" using that by (intro mult_le_mono1) simp
    then have "seg (i * ?s) ?s V = seg (i * ?s) ?s (concat Vs @ X)"
      using seg_of_take [of "i * ?s" ?s "(k + 1) * ?s" V] F(2) by simp
    then show ?thesis using seg_concat [OF len(2)] that len(1) by simp
  qed
  show "length (seg (i * ?s) ?s V) = ?s" if "i < N"
  proof -
    have "(i + 1) * ?s \<le> N * ?s" using that by (intro mult_le_mono1) simp
    then show ?thesis using F(3) by (simp add: length_seg)
  qed
qed

lemma filled_step:
  assumes F: "filled p r X0 c0 N k (x, j, V, ctx)" and len: "length X0 = 2 * r" "0 < r" "c0 = None \<longrightarrow> r = 1"
    and k: "2 \<le> k" "Suc k < N" and y: "y = x + 2 * r"
    and V': "V_blockmix_xor p r x (wrap j k * (2 * r)) y (V, ctx) = (j', V', ctx')"
  shows "filled p r X0 c0 N (Suc k) (y, j', V', ctx')"
proof -
  let ?s = "2 * r"
  obtain Vs X c where fs: "fill_states p X0 c0 k = (Vs, X, c)" by (cases "fill_states p X0 c0 k")
  have D: "x = k * ?s" "j = last_word X" "ctx = c" "length V = N * ?s" "take ((k + 1) * ?s) V = concat Vs @ X"
    using F fs by (auto simp: filled_def)
  have L: "length Vs = k" "length X = ?s" "c = None \<longleftrightarrow> c0 = None"
    using fill_lengths [OF len(1) _ fs] len(2) by auto
  note S = filled_segs [OF F len(1,2) fs]
  have w: "wrap j k < k" using k wrap_less by simp
  obtain out d where mx: "mix p (xor_blocks X (Vs ! wrap j k)) c = (out, d)" by fastforce
  have lv: "length (Vs ! wrap j k) = ?s" using S(2) [OF w] S(3) [of "wrap j k"] w k by simp
  have lo: "length out = ?s"
    using length_mix [of "xor_blocks X (Vs ! wrap j k)" p c] mx L lv len(2) xor_blocks_nonempty [of X "Vs ! wrap j k"]
    by (auto simp flip: length_greater_0_conv)
  have "blockmix_xor p X (Vs ! wrap j k) (seg y ?s V) r ctx = (out, d, last_word out)"
    using mx D L lv len S(3) [of "Suc k"] k y by (intro blockmix_xor_eq_mix) (simp_all add: algebra_simps)
  then have R: "j' = last_word out" "V' = put_at y out V" "ctx' = d"
    using V' S(1) S(2) [OF w] by (auto simp: V_blockmix_xor_def)
  have next_k: "fill_states p X0 c0 (Suc k) = (Vs @ [X], out, d)"
    using fs L k mx D by (simp add: fill_states_Suc fill_step_def Let_def)
  have "y + ?s \<le> length V" using D y k mult_le_mono1 [of "k + 2" N ?s] by (simp add: algebra_simps)
  then have "take (y + ?s) V' = concat Vs @ X @ out"
    using take_put_at [of y out V] lo R(2) D y by (simp add: algebra_simps)
  then show ?thesis
    using next_k R D y k \<open>y + ?s \<le> length V\<close> lo by (simp add: filled_def length_put_at algebra_simps)
qed

text \<open>The loops, in steps of two states.\<close>

lemma body_filled:
  assumes F: "filled p r X0 c0 N k st" and len: "length X0 = 2 * r" "0 < r" "c0 = None \<longrightarrow> r = 1"
    and n: "n = 2 ^ e" "2 \<le> n" "k + 1 = n + i" "1 \<le> i" "i < n" "k + 2 < N"
  shows "filled p r X0 c0 N (k + 2) (smix1_body p r n i st)"
proof -
  obtain x j V ctx where st: "st = (x, j, V, ctx)" by (cases st)
  obtain j1 V1 c1 where 1: "V_blockmix_xor p r x (wrap j k * (2 * r)) (x + 2 * r) (V, ctx) = (j1, V1, c1)"
    by (metis prod_cases3)
  obtain j2 V2 c2 where 2: "V_blockmix_xor p r (x + 2 * r) (wrap j1 (Suc k) * (2 * r)) (x + 2 * r + 2 * r) (V1, c1) = (j2, V2, c2)"
    by (metis prod_cases3)
  have "filled p r X0 c0 N (Suc k) (x + 2 * r, j1, V1, c1)"
    using filled_step [OF F [unfolded st] len _ _ refl 1] n by simp
  from filled_step [OF this len _ _ refl 2]
  have R: "filled p r X0 c0 N (Suc (Suc k)) (x + 2 * r + 2 * r, j2, V2, c2)" using n by simp
  have "(j AND (n - 1)) + (i - 1) = wrap j k" "(j1 AND (n - 1)) + i = wrap j1 (Suc k)"
    using and_wrap [OF n(1), of k j] and_wrap [OF n(1), of "Suc k" j1] n by auto
  then have "smix1_body p r n i st = (x + 2 * r + 2 * r, j2, V2, c2)"
    using 1 2 by (simp add: smix1_body_def st Let_def del: One_nat_def)
  then show ?thesis using R by simp
qed

text \<open>The doubling loops in general: steps of two states up to \<open>N - 2\<close>.\<close>

lemma doubling_inner:
  fixes n m N iend :: nat
  assumes rec: "\<And>i st. inner i st = (if i < m then inner (i + 2) (body i st) else st)"
    and step: "\<And>k i st. P k st \<Longrightarrow> k + 1 = n + i \<Longrightarrow> 1 \<le> i \<Longrightarrow> i < n \<Longrightarrow> k + 2 < N \<Longrightarrow> P (k + 2) (body i st)"
    and start: "P (n + i - 1) st" "odd i" "i \<le> iend"
    and n: "m \<le> n" "iend = (if even m then m + 1 else m)" "n + iend \<le> N"
  shows "P (n + iend - 1) (inner i st)"
  using start
proof (induction "m - i" arbitrary: i st rule: less_induct)
  case less
  show ?case
  proof (cases "i < m")
    case True
    then have i2: "odd (i + 2)" "i + 2 \<le> iend" using less.prems(2) n(2) by presburger+
    have "1 \<le> i" using less.prems(2) by presburger
    then have "P (n + i - 1 + 2) (body i st)"
      using less.prems(1) n i2 True by (intro step) auto
    moreover have "n + i - 1 + 2 = n + (i + 2) - 1" using \<open>1 \<le> i\<close> by simp
    ultimately show ?thesis
      using less.hyps [of "i + 2" "body i st"] True i2 by (subst rec) simp
  next
    case False
    then have "i = iend" using less.prems(2,3) n(2) by presburger
    then show ?thesis using less.prems(1) False by (subst rec) simp
  qed
qed

lemma doubling_outer:
  fixes n N :: nat
  assumes inner: "\<And>n m i st. inner n m i st = (if i < m then inner n m (i + 2) (body n i st) else st)"
    and outer: "\<And>n st. outer n st = (if n < N \<and> 0 < n then
        outer (push_bit 1 n) (inner n (if n < N div 2 then n else N - 1 - n) 1 st) else (n, st))"
    and step: "\<And>n e k i st. P k st \<Longrightarrow> n = 2 ^ e \<Longrightarrow> 2 \<le> n \<Longrightarrow> k + 1 = n + i \<Longrightarrow> 1 \<le> i \<Longrightarrow> i < n \<Longrightarrow> k + 2 < N \<Longrightarrow>
        P (k + 2) (body n i st)"
    and start: "P n st" "n = 2 ^ e" "2 \<le> n" "n < N" and N: "even N"
  shows "\<exists>st' e'. outer n st = (2 * 2 ^ e', st') \<and> P (N - 2) st' \<and> (2 :: nat) ^ e' \<le> N - 2 \<and> N \<le> 2 * 2 ^ e'"
  using start
proof (induction "N - n" arbitrary: n e st rule: less_induct)
  case less
  have ev: "even n" using less.prems(2,3) by (cases e) auto
  have run: "P (n + iend - 1) (inner n m 1 st)" if "m \<le> n" "iend = (if even m then m + 1 else m)" "n + iend \<le> N" "1 \<le> iend" for m iend
  proof (rule doubling_inner [where body = "body n" and P = P and i = 1, OF inner _ _ _ that(4,1-3)])
    show "P (k + 2) (body n i st)" if "P k st" "k + 1 = n + i" "1 \<le> i" "i < n" "k + 2 < N" for k i st
      using step [OF that(1) less.prems(2,3) that(2-5)] .
  qed (use less.prems(1) in simp_all)
  show ?case
  proof (cases "n < N div 2")
    case True
    then have big: "2 * n < N" by simp
    have "P (2 * n) (inner n n 1 st)" using run [of n "n + 1"] ev big by (simp add: mult_2)
    moreover have "outer n st = outer (2 * n) (inner n n 1 st)"
      using True less.prems by (subst outer) (simp add: push_bit_eq_mult mult.commute)
    ultimately show ?thesis
      using less.hyps [of "2 * n" "inner n n 1 st" "Suc e"] less.prems big by simp
  next
    case False
    let ?m = "N - 1 - n"
    have m: "odd ?m" "?m \<le> n" "n + ?m \<le> N" "n + ?m - 1 = N - 2" "1 \<le> ?m" "n \<le> N - 2" "N \<le> 2 * n"
    proof -
      obtain a b where ab: "n = 2 * a" "N = 2 * b" using ev N by (auto elim!: evenE)
      then have "b \<le> n" "a < b" "1 \<le> a" using False less.prems(3,4) by auto
      then show "odd ?m" "?m \<le> n" "n + ?m \<le> N" "n + ?m - 1 = N - 2" "1 \<le> ?m" "n \<le> N - 2" "N \<le> 2 * n" using ab by auto
    qed
    have F: "P (N - 2) (inner n ?m 1 st)" using run [of ?m ?m] m by simp
    have "outer n st = outer (2 * n) (inner n ?m 1 st)"
      using False less.prems by (subst outer) (simp add: push_bit_eq_mult mult.commute)
    moreover have "outer (2 * n) st1 = (2 * n, st1)" for st1
      using m(6,7) by (subst outer) simp
    ultimately have "outer n st = (2 * n, inner n ?m 1 st)" by simp
    then show ?thesis using F less.prems(2) m(6,7) by blast
  qed
qed

lemma outer_filled:
  assumes "filled p r X0 c0 N n st" and len: "length X0 = 2 * r" "0 < r" "c0 = None \<longrightarrow> r = 1"
    and "n = 2 ^ e" "2 \<le> n" "n < N" "even N"
  shows "\<exists>st' e'. smix1_outer p r N n st = (2 * 2 ^ e', st') \<and> filled p r X0 c0 N (N - 2) st'
    \<and> (2 :: nat) ^ e' \<le> N - 2 \<and> N \<le> 2 * 2 ^ e'"
proof (rule doubling_outer [where inner = "smix1_inner p r" and body = "smix1_body p r" and P = "filled p r X0 c0 N", OF _ _ _ assms(1,5-8)])
  show "smix1_inner p r n m i st = (if i < m then smix1_inner p r n m (i + 2) (smix1_body p r n i st) else st)" for n m i st
    by (rule smix1_inner.simps)
  show "smix1_outer p r N n st = (if n < N \<and> 0 < n then
      smix1_outer p r N (push_bit 1 n) (smix1_inner p r n (if n < N div 2 then n else N - 1 - n) 1 st) else (n, st))" for n st
    by (subst smix1_outer.simps) (simp add: Let_def)
  show "filled p r X0 c0 N (k + 2) (smix1_body p r n i st)" if "filled p r X0 c0 N k st" "n = 2 ^ e" "2 \<le> n" "k + 1 = n + i"
    "1 \<le> i" "i < n" "k + 2 < N" for n e k i st
    using that(1) len that(2-) by (rule body_filled)
qed

lemma chunks_concat: "0 < n \<Longrightarrow> \<forall>v \<in> set vs. length v = n \<Longrightarrow> chunks n (concat vs) = vs"
  by (induction vs) (auto simp: chunks_append_block)

text \<open>The start: loading, and the expansion of yespower 1.0.\<close>

lemma expand_fold:
  assumes "length X = 2" "1 \<le> m" "2 * m \<le> length V" "take 2 V = X" "ctx = None \<longrightarrow> m = 1"
  shows "\<exists>V' Y c. fold (\<lambda>i. V_blockmix p 1 ((i - 1) * 2) (i * 2)) [1..<m] (V, ctx) = (V', c)
    \<and> (expand_step p ^^ (m - 1)) (X, ctx) = (Y, c) \<and> length V' = length V \<and> length Y = 2 * m
    \<and> take (2 * m) V' = Y \<and> (c = None \<longleftrightarrow> ctx = None)"
  using assms(2,3,5)
proof (induction m)
  case (Suc m)
  show ?case
  proof (cases "m = 0")
    case True
    then show ?thesis using assms by simp
  next
    case False
    have pre: "1 \<le> m" "2 * m \<le> length V" "ctx = None \<longrightarrow> m = 1" using Suc.prems False by auto
    obtain V' Y c where IH: "fold (\<lambda>i. V_blockmix p 1 ((i - 1) * 2) (i * 2)) [1..<m] (V, ctx) = (V', c)"
      "(expand_step p ^^ (m - 1)) (X, ctx) = (Y, c)" "length V' = length V" "length Y = 2 * m" "take (2 * m) V' = Y"
      "c = None \<longleftrightarrow> ctx = None"
      using Suc.IH [OF pre] by blast
    have src: "seg ((m - 1) * 2) 2 V' = drop (length Y - 2) Y"
      using IH(4,5) False by (cases m) (auto simp: seg_def drop_take mult.commute)
    obtain out d where mx: "mix p (drop (length Y - 2) Y) c = (out, d)" by fastforce
    have ne: "drop (length Y - 2) Y \<noteq> []" using IH(4) False by auto
    have lo: "length out = 2" using length_mix [OF ne, of p c] mx IH(4) False by simp
    have ls: "length (seg (m * 2) 2 V') = 2" using IH(3) Suc.prems(2) by (simp add: length_seg)
    have "blockmix p (drop (length Y - 2) Y) (seg (m * 2) 2 V') 1 c = mix p (drop (length Y - 2) Y) c"
      using IH(4) False ls by (intro blockmix_eq_mix) auto
    then have step: "V_blockmix p 1 ((m - 1) * 2) (m * 2) (V', c) = (put_at (m * 2) out V', d)"
      using mx src by (simp add: V_blockmix_def del: One_nat_def)
    have "(expand_step p ^^ m) (X, ctx) = (Y @ out, d)"
      using IH(2) mx False by (cases m) (auto simp: expand_step_def)
    moreover have "take (m * 2 + 2) (put_at (m * 2) out V') = take (m * 2) V' @ out"
      using take_put_at [of "m * 2" out V'] lo IH(3) Suc.prems(2) by simp
    moreover have "d = None \<longleftrightarrow> c = None" using mix_ctx_none [of p "drop (length Y - 2) Y" c] mx by simp
    ultimately show ?thesis
      using IH step False lo Suc.prems(2) by (simp add: length_put_at mult.commute)
  qed
qed simp

definition smix1_start :: "pass \<Rightarrow> bytes \<Rightarrow> nat \<Rightarrow> blk list \<Rightarrow> pwxform_ctx option \<Rightarrow> blk list \<times> pwxform_ctx option" where
  "smix1_start p B r V ctx =
    (let s = 2 * r;
         V = fold (load_step B s) [0..<(case p of Pass1 \<Rightarrow> 2 * r | Pass2 \<Rightarrow> 2)] V
     in case p of Pass1 \<Rightarrow> (V, ctx)
       | Pass2 \<Rightarrow> fold (\<lambda>i. V_blockmix p 1 ((i - 1) * 2) (i * 2)) [1..<r] (V, ctx))"

lemma start_filled:
  assumes "0 < r" "length V = N * (2 * r)" "2 \<le> N" "ctx = None \<longrightarrow> r = 1"
    and "start_state p B r ctx = (X, c)"
  shows "\<exists>V'. smix1_start p B r V ctx = (V', c) \<and> length X = 2 * r \<and> (c = None \<longleftrightarrow> ctx = None)
    \<and> filled p r X c N 0 (0, last_word X, V', c)"
proof -
  have big: "2 * r < length V" "2 * r \<le> length V"
    using assms(1-3) mult_le_mono1 [of 2 N "2 * r"] by simp_all
  show ?thesis
  proof (cases p)
    case Pass1
    then show ?thesis
      using load_blocks [of "2 * r" "2 * r" V B] assms big
      by (auto simp: smix1_start_def start_state_def filled_def fill_states_0)
  next
    case Pass2
    let ?V = "fold (load_step B (2 * r)) [0..<2] V"
    have L: "length ?V = length V" "take 2 ?V = map (block_at B) [0..<2]"
      using load_blocks [of 2 "2 * r" V B] assms(1) big by simp_all
    have pre: "length (map (block_at B) [0..<2]) = 2" "1 \<le> r" "2 * r \<le> length ?V"
      "take 2 ?V = map (block_at B) [0..<2]" "ctx = None \<longrightarrow> r = 1"
      using L big assms(1,4) by simp_all
    obtain V' Y c' where E: "fold (\<lambda>i. V_blockmix p 1 ((i - 1) * 2) (i * 2)) [1..<r] (?V, ctx) = (V', c')"
      "(expand_step p ^^ (r - 1)) (map (block_at B) [0..<2], ctx) = (Y, c')" "length V' = length ?V" "length Y = 2 * r"
      "take (2 * r) V' = Y" "c' = None \<longleftrightarrow> ctx = None"
      using expand_fold [OF pre] by blast
    then have "Y = X" "c' = c" using assms(5) Pass2 by (auto simp: start_state_def)
    then show ?thesis
      using E Pass2 assms L(1) by (auto simp: smix1_start_def filled_def fill_states_0)
  qed
qed

text \<open>The first two states are mixed without an XOR.\<close>

lemma filled_mix:
  assumes F: "filled p r X0 c0 N k (x, j, V, ctx)" and len: "length X0 = 2 * r" "0 < r" "c0 = None \<longrightarrow> r = 1"
    and k: "k < 2" "Suc k < N" and V': "V_blockmix p r x (x + 2 * r) (V, ctx) = (V', ctx')"
  shows "filled p r X0 c0 N (Suc k) (x + 2 * r, integerify (seg (x + 2 * r) (2 * r) V') r, V', ctx')"
proof -
  let ?s = "2 * r"
  obtain Vs X c where fs: "fill_states p X0 c0 k = (Vs, X, c)" by (cases "fill_states p X0 c0 k")
  have D: "x = k * ?s" "ctx = c" "length V = N * ?s" "take ((k + 1) * ?s) V = concat Vs @ X"
    using F fs by (auto simp: filled_def)
  have L: "length Vs = k" "length X = ?s" "c = None \<longleftrightarrow> c0 = None"
    using fill_lengths [OF len(1) _ fs] len(2) by auto
  note S = filled_segs [OF F len(1,2) fs]
  obtain out d where mx: "mix p X c = (out, d)" by fastforce
  have "X \<noteq> []" using L(2) len(2) by auto
  then have lo: "length out = ?s" using length_mix [of X p c] mx L(2) by simp
  have "length (seg (x + ?s) ?s V) = ?s" using S(3) [of "Suc k"] D(1) k(2) by (simp add: algebra_simps)
  then have "blockmix p X (seg (x + ?s) ?s V) r ctx = (out, d)"
    using mx D L len by (subst blockmix_eq_mix) auto
  then have R: "V' = put_at (x + ?s) out V" "ctx' = d" using V' S(1) by (auto simp: V_blockmix_def)
  have nx: "fill_states p X0 c0 (Suc k) = (Vs @ [X], out, d)"
    using fs L k mx D by (simp add: fill_states_Suc fill_step_def Let_def)
  have fit: "x + ?s + ?s \<le> length V" using D k mult_le_mono1 [of "k + 2" N ?s] by (simp add: algebra_simps)
  then have "take (x + ?s + ?s) V' = concat Vs @ X @ out"
    using take_put_at [of "x + ?s" out V] lo R(1) D by (simp add: algebra_simps)
  moreover have "seg (x + ?s) ?s V' = out" using R(1) lo fit seg_put_at_same [of "x + ?s" out V] by simp
  then have "integerify (seg (x + ?s) ?s V') r = last_word out" using integerify_last lo len(2) by simp
  ultimately show ?thesis
    using nx R D k fit lo by (simp add: filled_def length_put_at algebra_simps)
qed

text \<open>The last state leaves \<open>V\<close> for \<open>XY\<close>.\<close>

lemma filled_last:
  assumes F: "filled p r X0 c0 N k (x, j, V, ctx)" and len: "length X0 = 2 * r" "0 < r" "c0 = None \<longrightarrow> r = 1"
    and k: "2 \<le> k" "N = Suc k" and Bout: "length Bout = 2 * r"
  shows "\<exists>out d. blockmix_xor p (seg x (2 * r) V) (seg (wrap j k * (2 * r)) (2 * r) V) Bout r ctx = (out, d, last_word out)
    \<and> fill_states p X0 c0 N = (chunks (2 * r) V, out, d) \<and> length out = 2 * r"
proof -
  let ?s = "2 * r"
  obtain Vs X c where fs: "fill_states p X0 c0 k = (Vs, X, c)" by (cases "fill_states p X0 c0 k")
  have D: "x = k * ?s" "j = last_word X" "ctx = c" "length V = N * ?s" "take ((k + 1) * ?s) V = concat Vs @ X"
    using F fs by (auto simp: filled_def)
  have L: "length Vs = k" "length X = ?s" "c = None \<longleftrightarrow> c0 = None" "\<forall>v \<in> set Vs. length v = ?s"
    using fill_lengths [OF len(1) _ fs] len(2) by auto
  note S = filled_segs [OF F len(1,2) fs]
  have w: "wrap j k < k" using k wrap_less by simp
  obtain out d where mx: "mix p (xor_blocks X (Vs ! wrap j k)) c = (out, d)" by fastforce
  have lv: "length (Vs ! wrap j k) = ?s" using S(2) [OF w] S(3) [of "wrap j k"] w k by simp
  have lo: "length out = ?s"
    using length_mix [of "xor_blocks X (Vs ! wrap j k)" p c] mx L lv len(2) xor_blocks_nonempty [of X "Vs ! wrap j k"]
    by (auto simp flip: length_greater_0_conv)
  have "blockmix_xor p X (Vs ! wrap j k) Bout r ctx = (out, d, last_word out)"
    using mx D L lv len Bout by (intro blockmix_xor_eq_mix) simp_all
  moreover have "fill_states p X0 c0 N = (Vs @ [X], out, d)"
    using fs L k mx D by (simp add: fill_states_Suc fill_step_def Let_def)
  moreover have "V = concat (Vs @ [X])" using D k by simp
  then have "chunks ?s V = Vs @ [X]"
    using chunks_concat [of ?s "Vs @ [X]"] L len(2) by simp
  ultimately show ?thesis using S(1) S(2) [OF w] lo by auto
qed

lemma take_put_at_0: "length out \<le> length V \<Longrightarrow> take (length out) (put_at 0 out V) = out"
  by (simp add: put_at_def)

lemma smix1_unfold:
  "smix1 p B r N V XY ctx =
    (let s = 2 * r;
         (V, ctx) = smix1_start p B r V ctx;
         (V, ctx) = V_blockmix p r 0 s (V, ctx);
         x = s + s;
         (V, ctx) = V_blockmix p r s x (V, ctx);
         j = integerify (seg x s V) r;
         (n, x, j, V, ctx) = smix1_outer p r N 2 (x, j, V, ctx);
         n = drop_bit 1 n;
         j = j AND (n - 1);
         j = j + (N - 2 - n);
         y = x + s;
         (j, V, ctx) = V_blockmix_xor p r x (j * s) y (V, ctx);
         j = j AND (n - 1);
         j = j + (N - 1 - n);
         (out, ctx, _) = blockmix_xor p (seg y s V) (seg (j * s) s V) (seg 0 s XY) r ctx;
         XY = put_at 0 out XY;
         (XY, B) = fold (store_step s) [0..<2 * r] (XY, B)
     in (B, V, XY, ctx))"
  unfolding smix1_def smix1_start_def Let_def by (rule refl)

text \<open>\<open>smix1\<close> leaves the table in \<open>V\<close>, the state in \<open>B\<close> and the context as the specification has
  them, whatever \<open>V\<close> and \<open>XY\<close> held before.\<close>

lemma smix1_eq:
  assumes r: "0 < r" and lens: "length V = N * (2 * r)" "2 * r < length XY" "128 * r \<le> length B"
    and N: "even N" "4 \<le> N" and ctx: "ctx = None \<longrightarrow> r = 1"
    and spec: "smix1_spec p B r N ctx = (Vs, X, c)"
  shows "\<exists>V' XY'. smix1 p B r N V XY ctx = (put_at 0 (bytes_of X) B, V', XY', c)
    \<and> chunks (2 * r) V' = Vs \<and> length V' = length V \<and> length XY' = length XY"
proof -
  let ?s = "2 * r"
  obtain X0 c0 where X0: "start_state p B r ctx = (X0, c0)" by fastforce
  have fillN: "fill_states p X0 c0 N = (Vs, X, c)" using spec X0 by (simp add: smix1_spec_def)
  obtain V0 where 0: "smix1_start p B r V ctx = (V0, c0)" "length X0 = ?s" "c0 = None \<longleftrightarrow> ctx = None"
    "filled p r X0 c0 N 0 (0, last_word X0, V0, c0)"
    using start_filled [OF r lens(1) _ ctx X0] N(2) by auto
  have len: "length X0 = ?s" "0 < r" "c0 = None \<longrightarrow> r = 1" using 0 r ctx by auto
  obtain V1 c1 where 1: "V_blockmix p r 0 ?s (V0, c0) = (V1, c1)" by fastforce
  have F1: "filled p r X0 c0 N 1 (?s, integerify (seg ?s ?s V1) r, V1, c1)"
    using filled_mix [OF 0(4) len] 1 N(2) by simp
  obtain V2 c2 where 2: "V_blockmix p r ?s (?s + ?s) (V1, c1) = (V2, c2)" by fastforce
  let ?j2 = "integerify (seg (?s + ?s) ?s V2) r"
  have F2: "filled p r X0 c0 N 2 (?s + ?s, ?j2, V2, c2)"
    using filled_mix [OF F1 len, of V2 c2] 2 N(2) by (simp add: numeral_2_eq_2)
  obtain st3 e where 3: "smix1_outer p r N 2 (?s + ?s, ?j2, V2, c2) = (2 * 2 ^ e, st3)"
    "filled p r X0 c0 N (N - 2) st3" "(2 :: nat) ^ e \<le> N - 2" "N \<le> 2 * 2 ^ e"
    using outer_filled [OF F2 len, of 1] N by auto
  obtain x3 j3 V3 c3 where st3: "st3 = (x3, j3, V3, c3)" by (cases st3)
  have half: "drop_bit 1 (2 * 2 ^ e :: nat) = 2 ^ e" by (simp add: drop_bit_eq_div)
  have w3: "(j3 AND (2 ^ e - 1)) + (N - 2 - 2 ^ e) = wrap j3 (N - 2)"
    using and_wrap [of "2 ^ e" e "N - 2" j3] 3(3,4) N(2) by simp
  obtain j4 V4 c4 where 4: "V_blockmix_xor p r x3 (wrap j3 (N - 2) * ?s) (x3 + ?s) (V3, c3) = (j4, V4, c4)"
    by (metis prod_cases3)
  have "Suc (N - 2) = N - 1" using N(2) by simp
  then have F4: "filled p r X0 c0 N (N - 1) (x3 + ?s, j4, V4, c4)"
    using filled_step [OF 3(2) [unfolded st3] len _ _ refl 4] N(2) by simp
  have w4: "(j4 AND (2 ^ e - 1)) + (N - 1 - 2 ^ e) = wrap j4 (N - 1)"
    using and_wrap [of "2 ^ e" e "N - 1" j4] 3(3,4) N(2) by simp
  have k5: "2 \<le> N - 1" "N = Suc (N - 1)" "length (seg 0 ?s XY) = ?s" using lens(2) N(2) by (simp_all add: length_seg)
  obtain out d where 5: "blockmix_xor p (seg (x3 + ?s) ?s V4) (seg (wrap j4 (N - 1) * ?s) ?s V4) (seg 0 ?s XY) r c4
      = (out, d, last_word out)" "fill_states p X0 c0 N = (chunks ?s V4, out, d)" "length out = ?s"
    using filled_last [OF F4 len k5] by blast
  have out: "out = X" "d = c" "chunks ?s V4 = Vs" using 5(2) fillN by auto
  let ?XY = "put_at 0 out XY"
  have lXY: "length ?XY = length XY" using 5(3) lens(2) by (simp add: length_put_at)
  then obtain XY' where 6: "fold (store_step ?s) [0..<2 * r] (?XY, B) = (XY', put_at 0 (bytes_of (take ?s ?XY)) B)"
    "length XY' = length XY"
    using store_blocks [of ?s ?s ?XY B] lens(2,3) by auto
  have "take ?s ?XY = out" using take_put_at_0 [of out XY] 5(3) lens(2) by simp
  moreover have "length V4 = length V" using F4 lens(1) by (auto simp: filled_def split: prod.splits)
  moreover have "smix1 p B r N V XY ctx = (put_at 0 (bytes_of (take ?s ?XY)) B, V4, XY', d)"
    unfolding smix1_unfold Let_def 0(1) prod.case 1 2 3(1) st3 half w3 4 w4 5(1) 6(1) by (rule refl)
  ultimately show ?thesis using 6(2) out by auto
qed

section \<open>The second loop computes the specification\<close>

lemma put_at_concat:
  "\<forall>v \<in> set vs. length v = s \<Longrightarrow> j < length vs \<Longrightarrow> length y = s \<Longrightarrow> put_at (j * s) y (concat vs) = concat (vs[j := y])"
proof (induction vs arbitrary: j)
  case (Cons v vs)
  then show ?case by (cases j) (auto simp: put_at_def add.commute)
qed simp

lemma seg_concat': "\<forall>v \<in> set vs. length v = s \<Longrightarrow> j < length vs \<Longrightarrow> seg (j * s) s (concat vs) = vs ! j"
  using seg_concat [of vs s j "[]"] by simp

definition walked :: "nat \<Rightarrow> nat \<Rightarrow> nat \<Rightarrow> walk_state \<Rightarrow> walk \<Rightarrow> bool" where
  "walked r N L st sp = (case st of (j, V, XY, ctx) \<Rightarrow> case sp of (Vs, X, c) \<Rightarrow>
     c = Some ctx \<and> V = concat Vs \<and> length Vs = N \<and> (\<forall>v \<in> set Vs. length v = 2 * r) \<and> length X = 2 * r
     \<and> length XY = L \<and> 2 * r \<le> L \<and> take (2 * r) XY = X \<and> j = last_word X mod N)"

lemma and_pow2: "N = 2 ^ e \<Longrightarrow> (j :: nat) AND (N - 1) = j mod N"
  by (simp only: mask_eq_exp_minus_1 [symmetric] take_bit_eq_mask [symmetric] take_bit_eq_mod)

lemma walk_mix:
  assumes "length X = 2 * r" "length W = 2 * r" "0 < r"
  obtains out d where "mix p (xor_blocks X W) (Some c) = (out, Some d)" "length out = 2 * r"
proof -
  obtain out d where mx: "mix p (xor_blocks X W) (Some c) = (out, d)" by fastforce
  moreover obtain d' where "d = Some d'" using mix_ctx_none [of p "xor_blocks X W" "Some c"] mx by auto
  moreover have "length out = 2 * r"
    using length_mix [of "xor_blocks X W" p "Some c"] xor_blocks_nonempty [of X W] mx assms by (auto simp flip: length_greater_0_conv)
  ultimately show thesis using that by blast
qed

lemma smix2_step_walked:
  assumes "walked r N L st sp" "0 < r" "N = 2 ^ e"
  shows "walked r N L (smix2_step p r N st) (walk_step p True N sp)"
proof -
  let ?s = "2 * r"
  obtain j V XY ctx where st: "st = (j, V, XY, ctx)" by (cases st)
  obtain Vs X c where sp: "sp = (Vs, X, c)" by (cases sp)
  have W: "c = Some ctx" "V = concat Vs" "length Vs = N" "\<forall>v \<in> set Vs. length v = ?s" "length X = ?s" "length XY = L"
    "?s \<le> L" "take ?s XY = X" "j = last_word X mod N"
    using assms(1) by (auto simp: walked_def st sp)
  have j: "j < length Vs" using W(3,9) assms(3) by simp
  have lv: "length (Vs ! j) = ?s" using W(4) j by simp
  obtain out d where mx: "mix p (xor_blocks X (Vs ! j)) (Some ctx) = (out, Some d)" "length out = ?s"
    using walk_mix [OF W(5) lv assms(2)] .
  have X: "seg 0 ?s XY = X" using W(8) by (simp add: seg_def)
  have "blockmix_xor_save p X (Vs ! j) r ctx = (out, xor_blocks X (Vs ! j), d, last_word out)"
    using blockmix_xor_save_eq_mix [OF assms(2) W(5) lv mx(1)] .
  then have "smix2_step p r N st
      = (last_word out mod N, concat (Vs[j := xor_blocks X (Vs ! j)]), put_at 0 out XY, d)"
    using X seg_concat' [OF W(4) j] put_at_concat [OF W(4) j] W lv and_pow2 [OF assms(3)]
    by (simp add: smix2_step_def st)
  moreover have "walk_step p True N sp = (Vs[j := xor_blocks X (Vs ! j)], out, Some d)"
    using mx W by (simp add: walk_step_def sp Let_def)
  moreover have "\<forall>v \<in> set (Vs[j := xor_blocks X (Vs ! j)]). length v = ?s"
    using W lv by (auto dest!: subsetD [OF set_update_subset_insert])
  ultimately show ?thesis
    using W mx(2) take_put_at_0 [of out XY] by (simp add: walked_def length_put_at)
qed

lemma smix2_loop_walked:
  assumes "walked r N L st sp" "0 < r" "N = 2 ^ e" "even Nloop" "0 < Nloop"
  shows "walked r N L (smix2_loop p r N Nloop st) ((walk_step p True N ^^ Nloop) sp)"
  using assms(1,4,5)
proof (induction Nloop arbitrary: st sp rule: less_induct)
  case (less Nloop)
  obtain k where k: "Nloop = Suc (Suc k)" "even k" using less.prems(2,3) by (metis even_Suc gr0_conv_Suc odd_Suc_minus_one odd_pos)
  have two: "walked r N L (smix2_step p r N (smix2_step p r N st)) (walk_step p True N (walk_step p True N sp))"
    using less.prems(1) assms(2,3) by (intro smix2_step_walked)
  show ?case
  proof (cases "k = 0")
    case True
    then show ?thesis using two k by (subst smix2_loop.simps) (simp add: Let_def)
  next
    case False
    have "smix2_loop p r N Nloop st = smix2_loop p r N k (smix2_step p r N (smix2_step p r N st))"
      using False k by (subst smix2_loop.simps) (simp add: Let_def)
    moreover have "(walk_step p True N ^^ Nloop) sp = (walk_step p True N ^^ k) (walk_step p True N (walk_step p True N sp))"
      by (simp only: k funpow_Suc_right comp_apply)
    ultimately show ?thesis using less.IH [of k, OF _ two k(2)] False k(1) by simp
  qed
qed

text \<open>The last two rounds of yespower 0.5 read \<open>V\<close> only and alternate between \<open>X\<close> and \<open>Y\<close>.\<close>

lemma smix2_final_walked:
  assumes "walked r N L (j, V, XY, ctx) sp" "0 < r" "N = 2 ^ e" "4 * r \<le> L"
  shows "\<exists>j'. walked r N L (j', snd (smix2_loaded Pass1 r N 2 (j, V, XY, ctx))) ((walk_step Pass1 False N ^^ 2) sp)"
proof -
  let ?s = "2 * r"
  obtain Vs X c where sp: "sp = (Vs, X, c)" by (cases sp)
  have W: "c = Some ctx" "V = concat Vs" "length Vs = N" "\<forall>v \<in> set Vs. length v = ?s" "length X = ?s" "length XY = L"
    "take ?s XY = X" "j = last_word X mod N"
    using assms(1) by (auto simp: walked_def sp)
  have j: "j < length Vs" using W(3,8) assms(3) by simp
  have lv: "length (Vs ! j) = ?s" using W(4) j by simp
  obtain Y d where mx: "mix Pass1 (xor_blocks X (Vs ! j)) (Some ctx) = (Y, Some d)" "length Y = ?s"
    using walk_mix [OF W(5) lv assms(2)] .
  let ?j = "last_word Y mod N" and ?XY = "put_at ?s Y XY"
  have j': "?j < length Vs" using W(3) assms(3) by simp
  have lv': "length (Vs ! ?j) = ?s" using W(4) j' by simp
  obtain Z d' where mx': "mix Pass1 (xor_blocks Y (Vs ! ?j)) (Some d) = (Z, Some d')" "length Z = ?s"
    using walk_mix [OF mx(2) lv' assms(2)] .
  have X: "seg 0 ?s XY = X" using W(7) by (simp add: seg_def)
  have l1: "length (seg ?s ?s XY) = ?s" using W(6) assms(4) by (simp add: length_seg)
  have fit: "?s + length Y \<le> length XY" using mx(2) W(6) assms(4) by simp
  have XY: "length ?XY = L" "seg ?s ?s ?XY = Y" "length (seg 0 ?s ?XY) = ?s"
    using fit mx(2) W(6) seg_put_at_same [OF fit] by (simp_all add: length_put_at length_seg)
  have 1: "blockmix_xor Pass1 X (Vs ! j) (seg ?s ?s XY) r (Some ctx) = (Y, Some d, last_word Y)"
    using mx W lv l1 assms(2) by (intro blockmix_xor_eq_mix) simp_all
  have 2: "blockmix_xor Pass1 Y (Vs ! ?j) (seg 0 ?s ?XY) r (Some d) = (Z, Some d', last_word Z)"
    using mx' mx(2) lv' XY(3) assms(2) by (intro blockmix_xor_eq_mix) simp_all
  have "snd (smix2_loaded Pass1 r N 2 (j, V, XY, ctx)) = (V, put_at 0 Z ?XY, d')"
    unfolding smix2_loaded_def using X seg_concat' [OF W(4) j] seg_concat' [OF W(4) j'] 1 2 XY(2) W(2) and_pow2 [OF assms(3)]
    by (simp add: Let_def)
  moreover have "(walk_step Pass1 False N ^^ 2) sp = (Vs, Z, Some d')"
    using mx(1) mx'(1) W by (simp add: numeral_2_eq_2 walk_step_def sp Let_def)
  ultimately show ?thesis
    using W mx'(2) XY(1) take_put_at_0 [of Z ?XY] fit by (auto simp: walked_def length_put_at)
qed

definition writes :: "pass \<Rightarrow> nat \<Rightarrow> bool" where
  "writes p Nloop \<longleftrightarrow> p = Pass2 \<or> 2 < Nloop"

definition smix2_spec :: "pass \<Rightarrow> bytes \<Rightarrow> nat \<Rightarrow> nat \<Rightarrow> nat \<Rightarrow> blk list list \<Rightarrow> pwxform_ctx \<Rightarrow> walk" where
  "smix2_spec p B r N Nloop Vs c =
    (walk_step p (writes p Nloop) N ^^ Nloop) (Vs, map (block_at B) [0..<2 * r], Some c)"

lemma smix2_eq:
  assumes r: "0 < r" and Vs: "length Vs = N" "\<forall>v \<in> set Vs. length v = 2 * r" and N: "N = 2 ^ e"
    and XY: "2 * r < length XY" "p = Pass1 \<longrightarrow> 4 * r \<le> length XY" and B: "128 * r \<le> length B"
    and Nloop: "even Nloop" "0 < Nloop"
    and spec: "smix2_spec p B r N Nloop Vs ctx = (Vs', X', c')"
  shows "\<exists>XY' d. smix2 p B r N Nloop (concat Vs) XY ctx = (put_at 0 (bytes_of X') B, concat Vs', XY', d)
    \<and> c' = Some d \<and> length Vs' = N \<and> (\<forall>v \<in> set Vs'. length v = 2 * r) \<and> length XY' = length XY \<and> length X' = 2 * r"
proof -
  let ?s = "2 * r"
  let ?X = "map (block_at B) [0..<?s]" and ?XY = "fold (load_step B ?s) [0..<?s] XY"
  have L: "length ?XY = length XY" "take ?s ?XY = ?X" using load_blocks [of ?s ?s XY B] XY(1) by auto
  have "seg 0 ?s ?XY = ?X" using L(2) by (simp add: seg_def)
  then have j: "integerify (seg 0 ?s ?XY) r AND (N - 1) = last_word ?X mod N"
    using integerify_last [of ?X r] r and_pow2 [OF N] by simp
  have start: "walked r N (length XY) (last_word ?X mod N, concat Vs, ?XY, ctx) (Vs, ?X, Some ctx)"
    using Vs L XY(1) by (simp add: walked_def)
  have "\<exists>j'. walked r N (length XY) (j', snd (smix2_loaded p r N Nloop (last_word ?X mod N, concat Vs, ?XY, ctx))) (Vs', X', c')"
  proof (cases "writes p Nloop")
    case True
    then have "walked r N (length XY) (smix2_loop p r N Nloop (last_word ?X mod N, concat Vs, ?XY, ctx)) (Vs', X', c')"
      using smix2_loop_walked [OF start r N Nloop, of p] spec by (simp add: smix2_spec_def)
    moreover have "smix2_loaded p r N Nloop st = smix2_loop p r N Nloop st" for st
      using True by (auto simp: smix2_loaded_def writes_def)
    ultimately show ?thesis by (metis prod.collapse)
  next
    case False
    then have "p = Pass1" "Nloop = 2" using Nloop by (cases p; auto simp: writes_def)+
    then show ?thesis
      using smix2_final_walked [OF start r N] XY(2) spec by (simp add: smix2_spec_def writes_def)
  qed
  then obtain j' V1 XY1 d where W: "smix2_loaded p r N Nloop (last_word ?X mod N, concat Vs, ?XY, ctx) = (j', V1, XY1, d)"
    "V1 = concat Vs'" "c' = Some d" "length Vs' = N" "\<forall>v \<in> set Vs'. length v = ?s" "length X' = ?s" "length XY1 = length XY"
    "take ?s XY1 = X'"
    by (cases "smix2_loaded p r N Nloop (last_word ?X mod N, concat Vs, ?XY, ctx)") (auto simp: walked_def)
  obtain XY' where S: "fold (store_step ?s) [0..<?s] (XY1, B) = (XY', put_at 0 (bytes_of X') B)" "length XY' = length XY"
    using store_blocks [of ?s ?s XY1 B] W(7,8) XY(1) B by auto
  have "smix2 p B r N Nloop (concat Vs) XY ctx = (put_at 0 (bytes_of X') B, concat Vs', XY', d)"
    unfolding smix2_def Let_def j W(1) prod.case S(1) W(2) by (rule refl)
  then show ?thesis using W S(2) by blast
qed

section \<open>smix computes SMix\<close>

text \<open>yespower's SMix on a byte string: fill the S-boxes, fill the table, walk it; yespower 0.5
  walks two rounds more, read-only, when rounding left some.\<close>

definition smix2_bytes :: "pass \<Rightarrow> nat \<Rightarrow> nat \<Rightarrow> nat \<Rightarrow> bytes \<times> blk list list \<times> pwxform_ctx \<Rightarrow> bytes \<times> blk list list \<times> pwxform_ctx" where
  "smix2_bytes p r N Nloop st = (case st of (B, Vs, ctx) \<Rightarrow>
    (case smix2_spec p B r N Nloop Vs ctx of (Vs, X, c) \<Rightarrow> (put_at 0 (bytes_of X) B, Vs, the c)))"

definition smix_spec :: "pass \<Rightarrow> bytes \<Rightarrow> nat \<Rightarrow> nat \<Rightarrow> pwxform_ctx \<Rightarrow> bytes \<times> blk list list \<times> pwxform_ctx" where
  "smix_spec p B r N ctx =
    (let (S, X, _) = smix1_spec p B 1 (cSbytes ctx div 128) None;
         B = put_at 0 (bytes_of X) B;
         ctx = ctx\<lparr>cSm := lanes_of_blocks (concat S)\<rparr>;
         (Vs, X, c) = smix1_spec p B r N (Some ctx);
         B = put_at 0 (bytes_of X) B;
         st = smix2_bytes p r N (Nloop_rw p N) (B, Vs, the c)
     in if p = Pass1 \<and> Nloop_all N > Nloop_rw p N then smix2_bytes p r N 2 st else st)"

lemma length_put_at_0: "length bs \<le> length B \<Longrightarrow> length (put_at 0 bs B) = length B"
  by (simp add: length_put_at)

lemma smix1_spec_lengths:
  assumes "0 < r" "ctx = None \<longrightarrow> r = 1" "smix1_spec p B r N ctx = (Vs, X, c)" "2 \<le> N"
  shows "length Vs = N \<and> (\<forall>v \<in> set Vs. length v = 2 * r) \<and> length X = 2 * r \<and> (c = None \<longleftrightarrow> ctx = None)"
proof -
  obtain X0 c0 where X0: "start_state p B r ctx = (X0, c0)" by fastforce
  then have "length X0 = 2 * r" "c0 = None \<longleftrightarrow> ctx = None"
    using start_filled [of r "replicate (N * (2 * r)) undefined" N ctx p B X0 c0] assms by auto
  then show ?thesis
    using fill_lengths [of X0 "2 * r" p c0 N Vs X c] assms(1,3) X0 by (auto simp: smix1_spec_def)
qed

lemma length_blocks_of_lanes [simp]: "length (blocks_of_lanes S) = length S div 4"
  by (simp add: blocks_of_lanes_def)

lemma Nloop_rw_even: "even (Nloop_rw p N)" "8 \<le> N \<Longrightarrow> 0 < Nloop_rw p N"
proof -
  show "even (Nloop_rw p N)"
    by (cases p) (simp_all add: Nloop_rw_def clear_bit0_def push_bit_eq_mult)
  assume "8 \<le> N"
  then have "2 \<le> (N + 2) div 3" by simp
  then show "0 < Nloop_rw p N"
    by (cases p) (simp_all add: Nloop_rw_def clear_bit0_def push_bit_eq_mult drop_bit_eq_div)
qed

text \<open>A call of \<open>smix2\<close> on a table of \<open>N\<close> states.\<close>

lemma smix2_on_table:
  assumes "0 < r" "N = 2 ^ e" "length Vs = N" "\<forall>v \<in> set Vs. length v = 2 * r" "128 * r \<le> length B"
    and "2 * r < length XY" "p = Pass1 \<longrightarrow> 4 * r \<le> length XY" "even Nl" "0 < Nl"
  shows "\<exists>B' V' XY' d. smix2 p B r N Nl (concat Vs) XY c = (B', V', XY', d)
    \<and> smix2_bytes p r N Nl (B, Vs, c) = (B', chunks (2 * r) V', d) \<and> V' = concat (chunks (2 * r) V')
    \<and> length (chunks (2 * r) V') = N \<and> (\<forall>v \<in> set (chunks (2 * r) V'). length v = 2 * r)
    \<and> length XY' = length XY \<and> length B' = length B"
proof -
  obtain V2 X2 c2 where sp: "smix2_spec p B r N Nl Vs c = (V2, X2, c2)" by (metis prod_cases3)
  from smix2_eq [OF assms(1,3,4,2,6,7,5,8,9) sp]
  obtain XY' d where R: "smix2 p B r N Nl (concat Vs) XY c = (put_at 0 (bytes_of X2) B, concat V2, XY', d)"
    "c2 = Some d" "length V2 = N" "\<forall>v \<in> set V2. length v = 2 * r" "length XY' = length XY" "length X2 = 2 * r"
    by blast
  have "chunks (2 * r) (concat V2) = V2" using chunks_concat [OF _ R(4)] assms(1) by simp
  moreover have "length (put_at 0 (bytes_of X2) B) = length B" using R(6) assms(5) by (subst length_put_at_0) simp_all
  ultimately show ?thesis using R sp by (simp add: smix2_bytes_def)
qed

lemma smix_computes:
  assumes "0 < r" "length V = N * (2 * r)" "N = 2 ^ e" "8 \<le> N" "128 * r \<le> length B"
    and "2 * r < length XY" "p = Pass1 \<longrightarrow> 4 * r \<le> length XY"
    and "16 * length (cSm ctx) = cSbytes ctx" "cSbytes ctx = (case p of Pass1 \<Rightarrow> 2 | Pass2 \<Rightarrow> 3) * Sb p"
  shows "case smix p B r N V XY ctx of (B', V', XY', ctx') \<Rightarrow>
    (B', chunks (2 * r) V', ctx') = smix_spec p B r N ctx \<and> length B' = length B \<and> length V' = length V
    \<and> length XY' = length XY"
proof -
  let ?s = "2 * r" and ?NS = "cSbytes ctx div 128"
  have NS: "even ?NS" "4 \<le> ?NS" "length (blocks_of_lanes (cSm ctx)) = ?NS * (2 * 1)"
    using assms(8,9) by (cases p; simp add: Sb_values)+
  have N: "even N" "4 \<le> N" using assms(3,4) by (cases e; simp)+
  obtain S X c where 0: "smix1_spec p B 1 ?NS None = (S, X, c)" by (metis prod_cases3)
  have l0: "length S = ?NS" "\<forall>v \<in> set S. length v = 2" "length X = 2"
    using smix1_spec_lengths [OF _ _ 0] NS(2) by auto
  have XY1: "2 * 1 < length XY" "128 * 1 \<le> length B" using assms(1,5,6) by auto
  obtain S' XYa where a: "smix1 p B 1 ?NS (blocks_of_lanes (cSm ctx)) XY None = (put_at 0 (bytes_of X) B, S', XYa, c)"
    "chunks (2 * 1) S' = S" "length XYa = length XY"
    using smix1_eq [OF _ NS(3) XY1 NS(1,2) _ 0] by auto
  have S': "S' = concat S" using a(2) concat_chunks [of 2 S'] by simp
  let ?Ba = "put_at 0 (bytes_of X) B" and ?ca = "ctx\<lparr>cSm := lanes_of_blocks (concat S)\<rparr>"
  have lBa: "length ?Ba = length B" using l0(3) XY1 by (intro length_put_at_0) simp
  obtain Vs Y c1 where 1: "smix1_spec p ?Ba r N (Some ?ca) = (Vs, Y, c1)" by (metis prod_cases3)
  have l1: "length Vs = N" "\<forall>v \<in> set Vs. length v = ?s" "length Y = ?s" "c1 \<noteq> None"
    using smix1_spec_lengths [OF assms(1) _ 1] N(2) by auto
  then obtain d1 where d1: "c1 = Some d1" by auto
  have pre1: "2 * r < length XYa" "128 * r \<le> length ?Ba" using a(3) assms(5,6) lBa by simp_all
  obtain Vb XYb where b: "smix1 p ?Ba r N V XYa (Some ?ca) = (put_at 0 (bytes_of Y) ?Ba, Vb, XYb, c1)"
    "chunks ?s Vb = Vs" "length Vb = length V" "length XYb = length XY"
    using smix1_eq [OF assms(1,2) pre1 N _ 1] a(3) by auto
  have Vb: "Vb = concat Vs" using b(2) concat_chunks [of ?s Vb] assms(1) by simp
  let ?Bb = "put_at 0 (bytes_of Y) ?Ba"
  have lBb: "length ?Bb = length B" using length_put_at_0 [of "bytes_of Y" ?Ba] l1(3) assms(5) lBa by simp
  have preb: "128 * r \<le> length ?Bb" "2 * r < length XYb" "p = Pass1 \<longrightarrow> 4 * r \<le> length XYb"
    using lBb b(4) assms(5-7) by simp_all
  obtain XYc Bc Vc dc where c: "smix2 p ?Bb r N (Nloop_rw p N) (concat Vs) XYb d1 = (Bc, Vc, XYc, dc)"
    "smix2_bytes p r N (Nloop_rw p N) (?Bb, Vs, d1) = (Bc, chunks ?s Vc, dc)" "Vc = concat (chunks ?s Vc)"
    "length (chunks ?s Vc) = N" "\<forall>v \<in> set (chunks ?s Vc). length v = ?s" "length XYc = length XYb" "length Bc = length ?Bb"
    using smix2_on_table [OF assms(1,3) l1(1,2) preb Nloop_rw_even(1) Nloop_rw_even(2) [OF assms(4)], of p d1] by (elim exE conjE) (rule that)
  have lens: "length Vc = length V" if "Vc = concat (chunks ?s Vc)" "length (chunks ?s Vc) = N" "\<forall>v \<in> set (chunks ?s Vc). length v = ?s" for Vc :: "blk list"
    by (subst that(1)) (simp only: length_concat_same [OF that(3)] that(2) assms(2))
  show ?thesis
  proof (cases "p = Pass1 \<and> Nloop_all N > Nloop_rw p N")
    case False
    have "smix p B r N V XY ctx = (Bc, Vc, XYc, dc)"
      unfolding smix_def Let_def a(1) prod.case S' b(1) [unfolded d1] option.sel Vb c(1) using False by (simp only: if_False)
    moreover have "smix_spec p B r N ctx = (Bc, chunks ?s Vc, dc)"
      unfolding smix_spec_def Let_def 0 prod.case 1 [unfolded d1] option.sel c(2) using False by (simp only: if_False)
    ultimately show ?thesis using c(6,7) lBb b(4) lens [OF c(3-5)] by simp
  next
    case True
    then have T: "(p = Pass1 \<and> Nloop_all N > Nloop_rw p N) = True" by (rule eqTrueI)
    have prec: "128 * r \<le> length Bc" "2 * r < length XYc" "p = Pass1 \<longrightarrow> 4 * r \<le> length XYc"
      using c(6,7) lBb b(4) assms(5-7) by simp_all
    have two: "even (2 :: nat)" "0 < (2 :: nat)" by simp_all
    obtain XYe Be Ve de where e: "smix2 p Bc r N 2 (concat (chunks ?s Vc)) XYc dc = (Be, Ve, XYe, de)"
      "smix2_bytes p r N 2 (Bc, chunks ?s Vc, dc) = (Be, chunks ?s Ve, de)" "Ve = concat (chunks ?s Ve)"
      "length (chunks ?s Ve) = N" "\<forall>v \<in> set (chunks ?s Ve). length v = ?s" "length XYe = length XYc" "length Be = length Bc"
      using smix2_on_table [OF assms(1,3) c(4,5) prec two, of dc] by (elim exE conjE) (rule that)
    have "smix2 p Bc r N 2 Vc XYc dc = (Be, Ve, XYe, de)" using e(1) c(3) by simp
    then have "smix p B r N V XY ctx = (Be, Ve, XYe, de)"
      unfolding smix_def Let_def a(1) prod.case S' b(1) [unfolded d1] option.sel Vb c(1) T if_True .
    moreover have "smix_spec p B r N ctx = (Be, chunks ?s Ve, de)"
      unfolding smix_spec_def Let_def 0 prod.case 1 [unfolded d1] option.sel c(2) T if_True by (rule e(2))
    ultimately show ?thesis using e(6,7) c(6,7) lBb b(4) lens [OF e(3-5)] by simp
  qed
qed

text \<open>C5: \<open>smix\<close>, with its doubling loops, pairs of half-rounds and in-place table, computes SMix
  as it is specified one state at a time: the final bytes do not depend on what \<open>V\<close>, \<open>XY\<close> or the
  S-box region held before, and the buffers keep their sizes.\<close>

theorem smix_correct:
  assumes "0 < r" "length V = N * (2 * r)" "N = 2 ^ e" "8 \<le> N" "128 * r \<le> length B"
    and "2 * r < length XY" "p = Pass1 \<longrightarrow> 4 * r \<le> length XY"
    and "16 * length (cSm ctx) = cSbytes ctx" "cSbytes ctx = (case p of Pass1 \<Rightarrow> 2 | Pass2 \<Rightarrow> 3) * Sb p"
  shows "case smix p B r N V XY ctx of (B', V', XY', ctx') \<Rightarrow>
    (B', chunks (2 * r) V', ctx') = smix_spec p B r N ctx \<and> length B' = length B \<and> length V' = length V
    \<and> length XY' = length XY"
  using assms by (rule smix_computes)

lemma fst_of_result: "(case t of (B, V, XY, c) \<Rightarrow> (B, f V, c) = sp \<and> P B V XY c) \<Longrightarrow> fst t = fst sp"
  by (auto split: prod.splits)

definition zero_blk :: blk where
  "zero_blk = (Xmm 0 0 0 0, Xmm 0 0 0 0, Xmm 0 0 0 0, Xmm 0 0 0 0)"

definition fresh_ctx :: "pass \<Rightarrow> xmm list \<Rightarrow> pwxform_ctx" where
  "fresh_ctx p S = \<lparr>cSm = S, cS0 = 0, cS1 = Sb p, cS2 = 2 * Sb p, cw = 0, cSbytes = 16 * length S\<rparr>"

theorem smix_correct_witness:
  "fst (smix Pass2 (replicate 128 7) 1 16 (replicate 32 zero_blk) (replicate 3 zero_blk) (fresh_ctx Pass2 (replicate 6144 (Xmm 0 0 0 0))))
    = fst (smix_spec Pass2 (replicate 128 7) 1 16 (fresh_ctx Pass2 (replicate 6144 (Xmm 0 0 0 0))))"
proof -
  let ?c = "fresh_ctx Pass2 (replicate 6144 (Xmm 0 0 0 0))"
  have c: "16 * length (cSm ?c) = cSbytes ?c" "cSbytes ?c = (case Pass2 of Pass1 \<Rightarrow> 2 | Pass2 \<Rightarrow> 3) * Sb Pass2"
    by (simp_all add: fresh_ctx_def Sb_values)
  have "case smix Pass2 (replicate 128 7) 1 16 (replicate 32 zero_blk) (replicate 3 zero_blk) ?c of (B', V', XY', ctx') \<Rightarrow>
      (B', chunks (2 * 1) V', ctx') = smix_spec Pass2 (replicate 128 7) 1 16 ?c
      \<and> length B' = length (replicate 128 (7 :: u8)) \<and> length V' = length (replicate 32 zero_blk) \<and> length XY' = length (replicate 3 zero_blk)"
    by (rule smix_correct [where e = 4, OF _ _ _ _ _ _ _ c]) simp_all
  then show ?thesis by (rule fst_of_result)
qed

end
