(* ===== verification/Soj_Region.thy ===== *)
theory Soj_Region
  imports Soj_Prelude
begin

text \<open>The memory regions of \<open>yespower-platform.c\<close> on 64-bit Linux: \<open>alloc_region\<close>, \<open>init_region\<close> and
  \<open>free_region\<close>.  \<open>mmap\<close> and \<open>munmap\<close> are the kernel's: the mapping a request gives is an argument,
  a function of the size and of \<open>MAP_HUGETLB\<close>.  Addresses and sizes are 64-bit words, address 0
  is \<open>NULL\<close>.\<close>

record civic_yespower_region =
  base :: u64
  aligned :: u64
  base_size :: u64
  aligned_size :: u64

text \<open>\<open>mmap (NULL, size, \<dots>, flags, -1, 0)\<close>; \<open>None\<close> is \<open>MAP_FAILED\<close>.\<close>

type_synonym mmap_fn = "u64 \<Rightarrow> bool \<Rightarrow> u64 option"

definition HUGEPAGE_SIZE :: u64 where "HUGEPAGE_SIZE = 2 * 1024 * 1024"
definition HUGEPAGE_THRESHOLD :: u64 where "HUGEPAGE_THRESHOLD = 2 * 1024 * 1024"

definition hugepage_mask :: u64 where "hugepage_mask = HUGEPAGE_SIZE - 1"

definition init_region :: civic_yespower_region where
  "init_region = \<lparr>base = 0, aligned = 0, base_size = 0, aligned_size = 0\<rparr>"

text \<open>The request \<open>alloc_region\<close> makes first: its size and whether it asks for huge pages.\<close>

definition first_request :: "u64 \<Rightarrow> u64 \<times> bool" where
  "first_request sz =
    (if sz \<ge> HUGEPAGE_THRESHOLD \<and> sz + hugepage_mask \<ge> sz
     then ((sz + hugepage_mask) AND NOT hugepage_mask, True)
     else if sz \<ge> HUGEPAGE_SIZE then (sz + HUGEPAGE_SIZE, False)
     else (sz, False))"

text \<open>The base address and the sz it is mapped with.\<close>

definition map_region :: "mmap_fn \<Rightarrow> u64 \<Rightarrow> (u64 \<times> u64) option" where
  "map_region mmap sz =
    (let (new_size, hugetlb) = first_request sz in
     case mmap new_size hugetlb of
       Some b \<Rightarrow> Some (b, new_size)
     | None \<Rightarrow>
         if hugetlb then
           (let new_size = sz + HUGEPAGE_SIZE in
            case mmap new_size False of
              Some b \<Rightarrow> Some (b, new_size)
            | None \<Rightarrow> None)
         else None)"

text \<open>The region written, and the pointer returned, which is \<open>NULL\<close> on failure.\<close>

definition alloc_region :: "mmap_fn \<Rightarrow> u64 \<Rightarrow> civic_yespower_region \<times> u64" where
  "alloc_region mmap sz =
    (case map_region mmap sz of
       None \<Rightarrow> (\<lparr>base = 0, aligned = 0, base_size = 0, aligned_size = 0\<rparr>, 0)
     | Some (b, bsize) \<Rightarrow>
         (let al = (if b \<noteq> 0 \<and> sz \<ge> HUGEPAGE_SIZE
                    then (b + HUGEPAGE_SIZE - 1) AND NOT (HUGEPAGE_SIZE - 1) else b)
          in (\<lparr>base = b, aligned = al, base_size = (if b \<noteq> 0 then bsize else 0),
                aligned_size = (if b \<noteq> 0 then sz else 0)\<rparr>, al)))"

text \<open>\<open>munmap (base, size)\<close> tells whether it failed; the region is then kept and -1 returned.\<close>

definition free_region :: "(u64 \<Rightarrow> u64 \<Rightarrow> bool) \<Rightarrow> civic_yespower_region \<Rightarrow> civic_yespower_region \<times> int" where
  "free_region munmap_fails region =
    (if base region \<noteq> 0 \<and> munmap_fails (base region) (base_size region) then (region, -1)
     else (init_region, 0))"

definition civic_yespower_init_local :: "civic_yespower_region \<times> int" where
  "civic_yespower_init_local = (init_region, 0)"

definition civic_yespower_free_local :: "(u64 \<Rightarrow> u64 \<Rightarrow> bool) \<Rightarrow> civic_yespower_region \<Rightarrow> civic_yespower_region \<times> int" where
  "civic_yespower_free_local munmap_fails local_region = free_region munmap_fails local_region"

section \<open>The usable part lies inside the mapping\<close>

text \<open>What the kernel promises of a mapping: it is not at address 0, does not wrap around, and a
  huge-page mapping starts on a huge page.\<close>

definition mmap_ok :: "mmap_fn \<Rightarrow> bool" where
  "mmap_ok mmap \<longleftrightarrow> (\<forall>n h b. mmap n h = Some b \<longrightarrow>
     b \<noteq> 0 \<and> unat b + unat n < 2 ^ 64 \<and> (h \<longrightarrow> 2 ^ 21 dvd unat b))"

lemma huge_mask: "HUGEPAGE_SIZE - 1 = (mask 21 :: u64)" "hugepage_mask = mask 21" "HUGEPAGE_SIZE = 2 ^ 21"
  by (simp_all add: HUGEPAGE_SIZE_def hugepage_mask_def mask_eq_exp_minus_1)

lemma unat_and_not_mask: "unat (x AND NOT (mask n) :: u64) = unat x - unat x mod 2 ^ n"
proof -
  have "x AND NOT (mask n) = push_bit n (drop_bit n x)"
    by (rule bit_word_eqI) (auto simp: bit_simps)
  moreover have "unat x div 2 ^ n * 2 ^ n < 2 ^ 64"
    using unsigned_less [of x] by (intro le_less_trans [OF div_times_less_eq_dividend]) simp
  moreover have "take_bit 64 (unat x) = unat x"
    by (rule take_bit_nat_eq_self) (use unsigned_less [of x, where ?'a = nat] in simp)
  ultimately have "unat (x AND NOT (mask n)) = unat x div 2 ^ n * 2 ^ n"
    by (simp only: unsigned_push_bit_eq unsigned_drop_bit_eq) (simp add: drop_bit_eq_div push_bit_eq_mult take_bit_nat_eq_self)
  then show ?thesis by (simp add: minus_mod_eq_div_mult)
qed

lemma round_up:
  assumes "unat x + (2 ^ 21 - 1) < 2 ^ 64"
  shows "unat x \<le> unat ((x + (2 ^ 21 - 1)) AND NOT (mask 21) :: u64)
    \<and> unat ((x + (2 ^ 21 - 1)) AND NOT (mask 21)) \<le> unat x + (2 ^ 21 - 1)
    \<and> 2 ^ 21 dvd unat ((x + (2 ^ 21 - 1)) AND NOT (mask 21))"
proof -
  have "unat (x + (2 ^ 21 - 1)) = unat x + (2 ^ 21 - 1)"
    using assms by (subst unat_add_lem [THEN iffD1]) simp_all
  then have "unat ((x + (2 ^ 21 - 1)) AND NOT (mask 21)) = (unat x + (2 ^ 21 - 1)) div 2 ^ 21 * 2 ^ 21"
    by (simp only: unat_and_not_mask minus_mod_eq_div_mult)
  moreover have "n \<le> (n + (m - 1)) div m * m" if "0 < m" for n m :: nat
    using dividend_less_div_times [OF that, of "n + (m - 1)"] that by simp
  ultimately show ?thesis by simp
qed

lemma map_region_fits:
  assumes "mmap_ok mmap" "unat sz + 2 ^ 22 < 2 ^ 64" "map_region mmap sz = Some (b, bsize)"
  shows "\<exists>h. mmap bsize h = Some b \<and> (if HUGEPAGE_SIZE \<le> sz
      then 2 ^ 21 dvd unat b \<and> unat sz \<le> unat bsize \<or> unat sz + 2 ^ 21 \<le> unat bsize else bsize = sz)"
proof -
  have up: "unat (sz + hugepage_mask) = unat sz + (2 ^ 21 - 1)"
    using assms(2) by (subst unat_add_lem [THEN iffD1]) (simp_all add: hugepage_mask_def HUGEPAGE_SIZE_def)
  have slack: "unat (sz + HUGEPAGE_SIZE) = unat sz + 2 ^ 21"
    using assms(2) by (subst unat_add_lem [THEN iffD1]) (simp_all add: HUGEPAGE_SIZE_def)
  have no_wrap: "sz \<le> sz + hugepage_mask" using up by (simp add: word_le_nat_alt)
  show ?thesis
  proof (cases "HUGEPAGE_SIZE \<le> sz")
    case False
    then show ?thesis
      using assms(3) by (auto simp: map_region_def first_request_def HUGEPAGE_THRESHOLD_def HUGEPAGE_SIZE_def split: option.splits)
  next
    case True
    let ?n = "(sz + hugepage_mask) AND NOT hugepage_mask"
    have fr: "first_request sz = (?n, True)"
      using True no_wrap by (simp add: first_request_def HUGEPAGE_THRESHOLD_def HUGEPAGE_SIZE_def)
    have rnd: "unat sz \<le> unat ?n"
      using round_up [of sz] assms(2) by (simp add: hugepage_mask_def HUGEPAGE_SIZE_def mask_eq_exp_minus_1)
    show ?thesis
    proof (cases "mmap ?n True")
      case (Some b')
      then have "b = b'" "bsize = ?n" using assms(3) fr by (auto simp: map_region_def)
      then show ?thesis using Some True rnd assms(1) by (auto simp: mmap_ok_def)
    next
      case None
      then have "mmap (sz + HUGEPAGE_SIZE) False = Some b" "bsize = sz + HUGEPAGE_SIZE"
        using assms(3) fr by (auto simp: map_region_def Let_def split: option.splits)
      then show ?thesis using True slack by auto
    qed
  qed
qed

lemma alloc_region_inside:
  assumes "mmap_ok mmap" "unat sz + 2 ^ 22 < 2 ^ 64" "alloc_region mmap sz = (reg, p)"
  shows "if p = 0 then reg = init_region
    else aligned reg = p \<and> aligned_size reg = sz
      \<and> unat (base reg) \<le> unat p \<and> unat p + unat sz \<le> unat (base reg) + unat (base_size reg)
      \<and> (HUGEPAGE_SIZE \<le> sz \<longrightarrow> 2 ^ 21 dvd unat p)
      \<and> (\<exists>h. mmap (base_size reg) h = Some (base reg))"
proof (cases "map_region mmap sz")
  case None
  then show ?thesis using assms(3) by (auto simp: alloc_region_def init_region_def)
next
  case (Some q)
  obtain b bsize where m: "map_region mmap sz = Some (b, bsize)" using Some by (cases q) simp
  obtain h where h: "mmap bsize h = Some b" "if HUGEPAGE_SIZE \<le> sz
      then 2 ^ 21 dvd unat b \<and> unat sz \<le> unat bsize \<or> unat sz + 2 ^ 21 \<le> unat bsize else bsize = sz"
    using map_region_fits [OF assms(1,2) m] by blast
  have b: "b \<noteq> 0" "unat b + unat bsize < 2 ^ 64" using h(1) assms(1) by (auto simp: mmap_ok_def)
  show ?thesis
  proof (cases "HUGEPAGE_SIZE \<le> sz")
    case False
    then have "reg = \<lparr>base = b, aligned = b, base_size = bsize, aligned_size = sz\<rparr>" "p = b"
      using assms(3) m b(1) by (auto simp: alloc_region_def)
    then show ?thesis using False h b by auto
  next
    case True
    let ?al = "(b + (2 ^ 21 - 1)) AND NOT (mask 21)"
    have reg: "reg = \<lparr>base = b, aligned = ?al, base_size = bsize, aligned_size = sz\<rparr>" "p = ?al"
      using assms(3) m b(1) True by (auto simp: alloc_region_def huge_mask HUGEPAGE_SIZE_def mask_eq_exp_minus_1 algebra_simps Let_def)
    have room: "unat sz \<le> unat bsize" "2 ^ 21 \<le> unat sz" using h(2) True by (auto simp: HUGEPAGE_SIZE_def word_le_nat_alt split: if_splits)
    have up: "unat b \<le> unat ?al" "unat ?al \<le> unat b + (2 ^ 21 - 1)" "2 ^ 21 dvd unat ?al"
      using round_up [of b] b(2) room by linarith+
    have same: "unat ?al = unat b" if d: "2 ^ 21 dvd unat b"
    proof -
      obtain k where "unat b = 2 ^ 21 * k" using d unfolding dvd_def by blast
      moreover obtain l where "unat ?al = 2 ^ 21 * l" using up(3) unfolding dvd_def by blast
      ultimately show ?thesis using up(1,2) by simp
    qed
    have "unat ?al + unat sz \<le> unat b + unat bsize"
      using h(2) True up(2) same by (auto split: if_splits)
    moreover have "?al \<noteq> 0" using up(1) b(1) by (metis le_zero_eq unat_0 unat_eq_zero)
    ultimately show ?thesis using reg up h(1) by auto
  qed
qed

text \<open>C32: a successful allocation returns a pointer from which the requested size lies inside the
  mapping the kernel gave, aligned to a huge page from 2 MB on - whether huge pages were granted
  or not - and \<open>base\<close> and \<open>base_size\<close> are the mapping that was made, so \<open>munmap\<close> releases all of
  it.  A failed one leaves an empty region.  The size bound excludes wrap-around of the rounding.\<close>

theorem alloc_region_fits:
  assumes "mmap_ok mmap" "unat sz + 2 ^ 22 < 2 ^ 64" "alloc_region mmap sz = (reg, p)"
  shows "if p = 0 then reg = init_region
    else aligned reg = p \<and> aligned_size reg = sz
      \<and> unat (base reg) \<le> unat p \<and> unat p + unat sz \<le> unat (base reg) + unat (base_size reg)
      \<and> (HUGEPAGE_SIZE \<le> sz \<longrightarrow> 2 ^ 21 dvd unat p)
      \<and> (\<exists>h. mmap (base_size reg) h = Some (base reg))"
  using assms by (rule alloc_region_inside)

theorem alloc_region_fits_witness:
  "alloc_region (\<lambda>n h. if n \<noteq> 0x500000 \<or> h then None else Some 0x7f0000001000) 0x300000
    = (\<lparr>base = 0x7f0000001000, aligned = 0x7f0000200000, base_size = 0x500000, aligned_size = 0x300000\<rparr>, 0x7f0000200000)
   \<and> 2 ^ 21 dvd unat (0x7f0000200000 :: u64)"
proof -
  let ?mmap = "\<lambda>n h. if n \<noteq> 0x500000 \<or> h then None else Some 0x7f0000001000"
  have ok: "mmap_ok ?mmap" by (auto simp: mmap_ok_def split: if_splits)
  have r: "alloc_region ?mmap 0x300000
      = (\<lparr>base = 0x7f0000001000, aligned = 0x7f0000200000, base_size = 0x500000, aligned_size = 0x300000\<rparr>, 0x7f0000200000)"
    by (simp add: alloc_region_def map_region_def first_request_def HUGEPAGE_THRESHOLD_def HUGEPAGE_SIZE_def hugepage_mask_def Let_def)
  from alloc_region_fits [OF ok _ r] have "HUGEPAGE_SIZE \<le> 0x300000 \<longrightarrow> 2 ^ 21 dvd unat (0x7f0000200000 :: u64)"
    by simp
  then show ?thesis using r by (simp add: HUGEPAGE_SIZE_def)
qed

end
