(* ===== verification/Soj_Pbkdf2.thy ===== *)
theory Soj_Pbkdf2
  imports Soj_Sha256
begin

text \<open>HMAC-SHA256 and PBKDF2 of \<open>yespower_sha256.c\<close>.  \<open>YP_PBKDF2_SHA256\<close> has a
  fast path for one iteration and whole blocks: it pads the two contexts once, without running
  the compression function (\<open>SHA256_Pad_Almost\<close>), and then overwrites the block number and
  the inner digest inside the padded buffers.  The theorem of the end shows both paths compute
  PBKDF2 of RFC 2898.\<close>

record HMAC_SHA256_CTX =
  ictx :: SHA256_CTX
  octx :: SHA256_CTX

definition xor_pad :: "u8 \<Rightarrow> bytes \<Rightarrow> bytes" where
  "xor_pad c K = fold (\<lambda>i pad. pad[i := pad ! i XOR K ! i]) [0..<length K] (replicate 64 c)"

definition HMAC_SHA256_Init :: "HMAC_SHA256_CTX \<Rightarrow> bytes \<Rightarrow> HMAC_SHA256_CTX" where
  "HMAC_SHA256_Init ctx K =
    (let (K, ctx) = (if length K > 64
           then let (khash, ic) = YP_SHA256_Final (YP_SHA256_Update (YP_SHA256_Init (ictx ctx)) K)
             in (khash, ctx\<lparr>ictx := ic\<rparr>)
           else (K, ctx));
         ctx = ctx\<lparr>ictx := YP_SHA256_Update (YP_SHA256_Init (ictx ctx)) (xor_pad 0x36 K)\<rparr>
     in ctx\<lparr>octx := YP_SHA256_Update (YP_SHA256_Init (octx ctx)) (xor_pad 0x5c K)\<rparr>)"

definition HMAC_SHA256_Update :: "HMAC_SHA256_CTX \<Rightarrow> bytes \<Rightarrow> HMAC_SHA256_CTX" where
  "HMAC_SHA256_Update ctx src = ctx\<lparr>ictx := YP_SHA256_Update (ictx ctx) src\<rparr>"

definition HMAC_SHA256_Final :: "HMAC_SHA256_CTX \<Rightarrow> bytes \<times> HMAC_SHA256_CTX" where
  "HMAC_SHA256_Final ctx =
    (let (ihash, ic) = YP_SHA256_Final (ictx ctx);
         oc = YP_SHA256_Update (octx ctx) ihash;
         (digest, oc) = YP_SHA256_Final oc
     in (digest, \<lparr>ictx = ic, octx = oc\<rparr>))"

definition YP_HMAC_SHA256_Buf :: "HMAC_SHA256_CTX \<Rightarrow> bytes \<Rightarrow> bytes \<Rightarrow> bytes" where
  "YP_HMAC_SHA256_Buf ctx K src =
    fst (HMAC_SHA256_Final (HMAC_SHA256_Update (HMAC_SHA256_Init ctx K) src))"

section \<open>PBKDF2\<close>

definition SHA256_Pad_Almost :: "SHA256_CTX \<Rightarrow> int \<times> SHA256_CTX" where
  "SHA256_Pad_Almost ctx =
    (let r = buffered ctx in
     if r \<ge> 56 then (-1, ctx)
     else
       let len = be64enc (count ctx);
           ctx = YP_SHA256_Update ctx (take (56 - r) PAD);
           ctx = ctx\<lparr>buf := (buf ctx)[63 := len ! 7]\<rparr>;
           ctx = YP_SHA256_Update ctx (take 7 len)
       in (0, ctx))"

text \<open>The loop of the fast path; \<open>off\<close> is \<open>ivecp - hctx.ictx.buf\<close>.\<close>

function pbkdf2_fast_loop :: "nat \<Rightarrow> nat \<Rightarrow> nat \<Rightarrow> HMAC_SHA256_CTX \<Rightarrow> bytes" where
  "pbkdf2_fast_loop off dkLen i hctx =
    (if i * 32 < dkLen then
       let ic = ictx hctx; oc = octx hctx;
           ib = put_at off (be32enc (of_nat (i + 1))) (buf ic);
           u = SHA256_Transform (state ic) ib;
           ob = put_at 0 (be32enc_vect u 4) (buf oc);
           v = SHA256_Transform (state oc) ob
       in be32enc_vect v 4 @
          pbkdf2_fast_loop off dkLen (i + 1) \<lparr>ictx = ic\<lparr>buf := ib\<rparr>, octx = oc\<lparr>buf := ob\<rparr>\<rparr>
     else [])"
  by auto
termination by (relation "measure (\<lambda>(off, dkLen, i, hctx). dkLen - i * 32)") auto

declare pbkdf2_fast_loop.simps [simp del]

definition pbkdf2_chain :: "HMAC_SHA256_CTX \<Rightarrow> nat \<Rightarrow> bytes \<Rightarrow> bytes" where
  "pbkdf2_chain Phctx c T0 =
    (if c > 1 then
       snd (fold (\<lambda>j (U, T).
           let U = fst (HMAC_SHA256_Final (HMAC_SHA256_Update Phctx U))
           in (U, map2 (XOR) T U)) [2..<c + 1] (T0, T0))
     else T0)"

function pbkdf2_generic_loop ::
  "HMAC_SHA256_CTX \<Rightarrow> HMAC_SHA256_CTX \<Rightarrow> nat \<Rightarrow> nat \<Rightarrow> nat \<Rightarrow> bytes" where
  "pbkdf2_generic_loop Phctx PShctx c dkLen i =
    (if i * 32 < dkLen then
       let hctx = HMAC_SHA256_Update PShctx (be32enc (of_nat (i + 1)));
           T = pbkdf2_chain Phctx c (fst (HMAC_SHA256_Final hctx));
           clen = min 32 (dkLen - i * 32)
       in take clen T @ pbkdf2_generic_loop Phctx PShctx c dkLen (i + 1)
     else [])"
  by auto
termination by (relation "measure (\<lambda>(p, ps, c, dkLen, i). dkLen - i * 32)") auto

declare pbkdf2_generic_loop.simps [simp del]

definition pbkdf2_generic :: "HMAC_SHA256_CTX \<Rightarrow> bytes \<Rightarrow> bytes \<Rightarrow> nat \<Rightarrow> nat \<Rightarrow> bytes" where
  "pbkdf2_generic ctx passwd salt c dkLen =
    (let Phctx = HMAC_SHA256_Init ctx passwd;
         PShctx = HMAC_SHA256_Update Phctx salt
     in pbkdf2_generic_loop Phctx PShctx c dkLen 0)"

text \<open>\<open>hctx.ictx.count & (0x3f << 3)\<close>, kept in a \<open>uint32_t\<close>.\<close>

definition bit_position :: "HMAC_SHA256_CTX \<Rightarrow> nat" where
  "bit_position hctx = unat (count (ictx hctx) AND push_bit 3 0x3f)"

definition YP_PBKDF2_SHA256 :: "HMAC_SHA256_CTX \<Rightarrow> bytes \<Rightarrow> bytes \<Rightarrow> nat \<Rightarrow> nat \<Rightarrow> bytes" where
  "YP_PBKDF2_SHA256 ctx passwd salt c dkLen =
    (if c = 1 \<and> dkLen mod 32 = 0 \<and> length salt mod 64 \<le> 51 then
       let hctx = HMAC_SHA256_Update (HMAC_SHA256_Init ctx passwd) salt;
           oldcount = bit_position hctx;
           hctx = HMAC_SHA256_Update hctx [0, 0, 0, 0];
           (rc, ic) = SHA256_Pad_Almost (ictx hctx)
       in if bit_position hctx < oldcount \<or> rc \<noteq> 0
          then pbkdf2_generic ctx passwd salt c dkLen
          else
            let oc = octx hctx;
                oc = oc\<lparr>count := count oc + push_bit 3 32\<rparr>;
                oc = snd (SHA256_Pad_Almost oc)
            in pbkdf2_fast_loop (oldcount div 8) dkLen 0 \<lparr>ictx = ic, octx = oc\<rparr>
     else pbkdf2_generic ctx passwd salt c dkLen)"

section \<open>RFC 2104 and RFC 2898\<close>

definition hmac_key :: "bytes \<Rightarrow> bytes" where
  "hmac_key K = (let K = (if length K > 64 then fips_sha256 K else K) in K @ replicate (64 - length K) 0)"

definition hmac_sha256 :: "bytes \<Rightarrow> bytes \<Rightarrow> bytes" where
  "hmac_sha256 K m =
    fips_sha256 (map (\<lambda>b. 0x5c XOR b) (hmac_key K) @
      fips_sha256 (map (\<lambda>b. 0x36 XOR b) (hmac_key K) @ m))"

text \<open>\<open>T_i = U_1 xor ... xor U_c\<close>.\<close>

definition pbkdf2_block :: "bytes \<Rightarrow> bytes \<Rightarrow> nat \<Rightarrow> nat \<Rightarrow> bytes" where
  "pbkdf2_block P S c i =
    (let U = (\<lambda>j. (hmac_sha256 P ^^ j) (hmac_sha256 P (S @ be32enc (of_nat i))))
     in fold (\<lambda>j T. map2 (XOR) T (U j)) [1..<c] (U 0))"

definition pbkdf2 :: "bytes \<Rightarrow> bytes \<Rightarrow> nat \<Rightarrow> nat \<Rightarrow> bytes" where
  "pbkdf2 P S c dkLen =
    take dkLen (concat (map (\<lambda>i. pbkdf2_block P S c (i + 1)) [0..<(dkLen + 31) div 32]))"

section \<open>HMAC\<close>

lemma xor_pad_eq:
  assumes "length K \<le> 64"
  shows "xor_pad c K = map (\<lambda>b. c XOR b) (K @ replicate (64 - length K) 0)"
proof -
  have "fold (\<lambda>i pad. pad[i := pad ! i XOR K ! i]) [0..<n] (replicate 64 c)
      = map (\<lambda>b. c XOR b) (take n K) @ replicate (64 - n) c" if "n \<le> length K" for n
    using that
  proof (induction n)
    case (Suc n)
    then have "replicate (64 - n) c = c # replicate (64 - Suc n) c"
      using assms by (simp flip: replicate_Suc add: Suc_diff_Suc)
    then show ?case
      using Suc by (simp add: list_update_append nth_append take_Suc_conv_app_nth min_absorb2)
  qed simp
  from this[of "length K"] show ?thesis
    by (simp add: xor_pad_def)
qed

definition ipad :: "bytes \<Rightarrow> bytes" where "ipad K = map (\<lambda>b. 0x36 XOR b) (hmac_key K)"
definition opad :: "bytes \<Rightarrow> bytes" where "opad K = map (\<lambda>b. 0x5c XOR b) (hmac_key K)"

lemma length_hmac_key [simp]: "length (hmac_key K) = 64"
  by (simp add: hmac_key_def Let_def)

lemma length_pads [simp]: "length (ipad K) = 64" "length (opad K) = 64"
  by (simp_all add: ipad_def opad_def)

definition hmac_absorbs :: "HMAC_SHA256_CTX \<Rightarrow> bytes \<Rightarrow> bytes \<Rightarrow> bool" where
  "hmac_absorbs ctx K m \<longleftrightarrow> absorbs (ictx ctx) (ipad K @ m) \<and> absorbs (octx ctx) (opad K)"

definition hmac_usable :: "HMAC_SHA256_CTX \<Rightarrow> bool" where
  "hmac_usable ctx \<longleftrightarrow> length (buf (ictx ctx)) = 64 \<and> length (buf (octx ctx)) = 64"

lemma HMAC_Init_absorbs:
  assumes "hmac_usable ctx"
  shows "hmac_absorbs (HMAC_SHA256_Init ctx K) K []"
proof -
  define K' where "K' = (if length K > 64 then fips_sha256 K else K)"
  define ic where "ic = (if length K > 64
    then snd (YP_SHA256_Final (YP_SHA256_Update (YP_SHA256_Init (ictx ctx)) K)) else ictx ctx)"
  have usable: "length (buf (ictx ctx)) = 64" "length (buf (octx ctx)) = 64"
    using assms by (auto simp: hmac_usable_def)
  have dig: "fst (YP_SHA256_Final (YP_SHA256_Update (YP_SHA256_Init (ictx ctx)) K)) = fips_sha256 K"
    using usable(1) by (rule yp.one_shot)
  have "length (buf (YP_SHA256_Update (YP_SHA256_Init (ictx ctx)) K)) = 64"
    using yp.update_absorbs[OF yp.init_absorbs[of "ictx ctx"]] usable by (simp add: absorbs_def)
  then have ic: "length (buf ic) = 64"
    using usable by (auto simp: ic_def YP_SHA256_Final_def Let_def SHA256_Pad_buf buffered_less)
  have len: "length K' \<le> 64" by (simp add: K'_def)
  have init: "HMAC_SHA256_Init ctx K =
      \<lparr>ictx = YP_SHA256_Update (YP_SHA256_Init ic) (xor_pad 0x36 K'),
       octx = YP_SHA256_Update (YP_SHA256_Init (octx ctx)) (xor_pad 0x5c K')\<rparr>"
    using dig
    by (cases "YP_SHA256_Final (YP_SHA256_Update (YP_SHA256_Init (ictx ctx)) K)"; cases ctx)
      (auto simp: HMAC_SHA256_Init_def K'_def ic_def Let_def)
  have "xor_pad 0x36 K' = ipad K" "xor_pad 0x5c K' = opad K"
    using len by (simp_all add: xor_pad_eq ipad_def opad_def hmac_key_def K'_def Let_def)
  then show ?thesis
    using yp.update_absorbs[OF yp.init_absorbs[OF ic], of "ipad K"]
      yp.update_absorbs[OF yp.init_absorbs[OF usable(2)], of "opad K"]
    by (simp add: hmac_absorbs_def init)
qed

lemma HMAC_Update_absorbs:
  "hmac_absorbs ctx K m \<Longrightarrow> hmac_absorbs (HMAC_SHA256_Update ctx x) K (m @ x)"
  using yp.update_absorbs[of "ictx ctx" "ipad K @ m" x]
  by (simp add: hmac_absorbs_def HMAC_SHA256_Update_def)

lemma HMAC_Final_hash:
  assumes "hmac_absorbs ctx K m"
  shows "fst (HMAC_SHA256_Final ctx) = hmac_sha256 K m"
proof -
  have "fst (YP_SHA256_Final (ictx ctx)) = fips_sha256 (ipad K @ m)"
    using assms by (intro yp.final_hash) (simp add: hmac_absorbs_def)
  moreover have "fst (YP_SHA256_Final (YP_SHA256_Update (octx ctx) h)) = fips_sha256 (opad K @ h)" for h
    using assms by (intro yp.final_hash yp.update_absorbs) (simp add: hmac_absorbs_def)
  ultimately show ?thesis
    by (simp add: HMAC_SHA256_Final_def hmac_sha256_def ipad_def opad_def split: prod.splits)
       (metis fst_conv)
qed

interpretation hmac: incremental_hash "\<lambda>c m. hmac_absorbs c K m" "\<lambda>c. HMAC_SHA256_Init c K"
  HMAC_SHA256_Update "\<lambda>c. fst (HMAC_SHA256_Final c)" hmac_usable "hmac_sha256 K" for K
  by unfold_locales (rule HMAC_Init_absorbs HMAC_Update_absorbs HMAC_Final_hash, assumption)+

section \<open>The generic path\<close>

lemma hmac_sha256_length [simp]: "length (hmac_sha256 K m) = 32"
  by (simp add: hmac_sha256_def)

lemma pbkdf2_chain_eq:
  assumes "hmac_absorbs Phctx P []"
  shows "pbkdf2_chain Phctx c T0 =
    fold (\<lambda>j T. map2 (XOR) T ((hmac_sha256 P ^^ j) T0)) [1..<c] T0"
proof -
  have step: "fst (HMAC_SHA256_Final (HMAC_SHA256_Update Phctx U)) = hmac_sha256 P U" for U
    using hmac.final_hash[OF hmac.update_absorbs[OF assms, of U]] by simp
  have "fold (\<lambda>j (U, T). let U = fst (HMAC_SHA256_Final (HMAC_SHA256_Update Phctx U))
        in (U, map2 (XOR) T U)) [2..<n + 2] (T0, T0)
      = ((hmac_sha256 P ^^ n) T0, fold (\<lambda>j T. map2 (XOR) T ((hmac_sha256 P ^^ j) T0)) [1..<n + 1] T0)" for n
  proof (induction n)
    case (Suc n)
    then show ?case by (simp add: step Let_def)
  qed simp
  from this[of "c - 1"] show ?thesis
    by (cases "c > 1") (auto simp: pbkdf2_chain_def)
qed

lemma pbkdf2_block_length [simp]: "length (pbkdf2_block P S c i) = 32"
proof -
  have "length (fold (\<lambda>j T. map2 (XOR) T (U j)) js T) = 32"
    if "length T = 32" "\<And>j. length (U j) = 32" for U :: "nat \<Rightarrow> bytes" and js T
    using that by (induction js arbitrary: T) auto
  moreover have "length ((hmac_sha256 P ^^ j) (hmac_sha256 P m)) = 32" for j m
    by (cases j) auto
  ultimately show ?thesis by (simp add: pbkdf2_block_def Let_def)
qed

lemma blocks_step:
  assumes "i * 32 < dkLen" "\<And>i. length (f i) = 32"
  shows "take (dkLen - i * 32) (concat (map f [i..<(dkLen + 31) div 32])) =
    take (min 32 (dkLen - i * 32)) (f i) @
    take (dkLen - (i + 1) * 32) (concat (map f [i + 1..<(dkLen + 31) div 32]))"
proof -
  have "i < (dkLen + 31) div 32"
    using assms(1) by simp
  then have "[i..<(dkLen + 31) div 32] = i # [i + 1..<(dkLen + 31) div 32]"
    by (simp add: upt_conv_Cons)
  moreover have "take n (f i @ xs) = take (min 32 n) (f i) @ take (n - 32) xs" for n xs
    using assms(2)[of i] by (simp add: min_def)
  moreover have "dkLen - i * 32 - 32 = dkLen - (i + 1) * 32"
    by simp
  ultimately show ?thesis
    by (simp only: list.map concat.simps)
qed

lemma pbkdf2_generic_loop_eq:
  assumes "hmac_absorbs Phctx P []" "hmac_absorbs PShctx P S"
  shows "pbkdf2_generic_loop Phctx PShctx c dkLen i =
    take (dkLen - i * 32) (concat (map (\<lambda>i. pbkdf2_block P S c (i + 1)) [i..<(dkLen + 31) div 32]))"
proof (induction "dkLen - i * 32" arbitrary: i rule: less_induct)
  case less
  show ?case
  proof (cases "i * 32 < dkLen")
    case True
    have "pbkdf2_chain Phctx c (fst (HMAC_SHA256_Final (HMAC_SHA256_Update PShctx (be32enc (of_nat (i + 1))))))
        = pbkdf2_block P S c (i + 1)"
      using hmac.final_hash[OF hmac.update_absorbs[OF assms(2)]] pbkdf2_chain_eq[OF assms(1)]
      by (simp add: pbkdf2_block_def Let_def)
    then show ?thesis
      using True less.hyps[of "i + 1"] blocks_step[OF True, of "\<lambda>i. pbkdf2_block P S c (i + 1)"]
      by (subst pbkdf2_generic_loop.simps) (simp add: Let_def)
  qed (subst pbkdf2_generic_loop.simps, simp)
qed

lemma pbkdf2_generic_eq:
  "hmac_usable ctx \<Longrightarrow> pbkdf2_generic ctx P S c dkLen = pbkdf2 P S c dkLen"
  using pbkdf2_generic_loop_eq[OF HMAC_Init_absorbs[of ctx P] HMAC_Update_absorbs[OF HMAC_Init_absorbs[of ctx P], of S], of c dkLen 0]
  by (simp add: pbkdf2_generic_def pbkdf2_def Let_def)

section \<open>The fast path\<close>

lemma nth_63: "length b = 64 \<Longrightarrow> b = take 63 b @ [b ! 63]"
  using take_Suc_conv_app_nth[of 63 b] by simp

lemma list_update_63: "length b = 64 \<Longrightarrow> b[63 := x] = take 63 b @ [x]"
  by (simp add: list_update_append upd_conv_take_nth_drop)

lemma update_short:
  "x \<noteq> [] \<Longrightarrow> length x < 64 - buffered ctx \<Longrightarrow>
     buf (YP_SHA256_Update ctx x) = put_at (buffered ctx) x (buf ctx)
     \<and> state (YP_SHA256_Update ctx x) = state ctx"
  by (simp add: YP_SHA256_Update_def Let_def)

lemma SHA256_Pad_Almost_padded:
  assumes a: "absorbs ctx m" and r: "length m mod 64 < 56"
  shows "fst (SHA256_Pad_Almost ctx) = 0
    \<and> buf (snd (SHA256_Pad_Almost ctx)) = md_rest m @ fips_pad (length m)
    \<and> state (snd (SHA256_Pad_Almost ctx)) = md_state m"
proof -
  let ?r = "length m mod 64" and ?len = "be64enc (of_nat (8 * length m))"
  let ?x = "take (56 - ?r) PAD"
  have x: "?x = 0x80 # replicate (55 - ?r) 0"
    using r by (subst take_PAD) auto
  note rb = buffered_absorbs[OF a]
  have cnt: "count ctx = of_nat (8 * length m)"
    using a by (simp add: absorbs_def)
  let ?c1 = "YP_SHA256_Update ctx ?x"
  have a1: "absorbs ?c1 (m @ ?x)"
    by (rule yp.update_absorbs[OF a])
  have short: "length (md_rest m @ ?x) < 64" and l56: "length (md_rest m @ ?x) = 56"
    using r x by (simp_all add: length_md_rest)
  note ms = md_short[OF short]
  have mod56: "length (m @ ?x) mod 64 = 56"
    using length_md_rest[of "m @ ?x"] ms(2) l56 by simp
  let ?c2 = "?c1\<lparr>buf := (buf ?c1)[63 := ?len ! 7]\<rparr>"
  have b1: "length (buf ?c1) = 64" "take 56 (buf ?c1) = md_rest m @ ?x" "state ?c1 = md_state m"
    using a1 mod56 ms unfolding absorbs_def by auto
  have a2: "absorbs ?c2 (m @ ?x)"
    using a1 b1 mod56 by (simp add: absorbs_def)
  have rb2: "buffered ?c2 = 56"
    using buffered_absorbs[OF a2] mod56 by simp
  let ?c3 = "YP_SHA256_Update ?c2 (take 7 ?len)"
  have "buf ?c3 = put_at 56 (take 7 ?len) (buf ?c2)" "state ?c3 = state ?c2"
  proof -
    have l7: "length (take 7 ?len) = 7" by simp
    then have "take 7 ?len \<noteq> []" by (metis list.size(3) zero_neq_numeral)
    from update_short[of "take 7 ?len" ?c2, unfolded rb2 l7, OF this]
    show "buf ?c3 = put_at 56 (take 7 ?len) (buf ?c2)" "state ?c3 = state ?c2" by simp_all
  qed
  moreover have "put_at 56 (take 7 ?len) (buf ?c2) = take 56 (buf ?c1) @ ?len"
  proof -
    have "drop 63 ((buf ?c1)[63 := ?len ! 7]) = [?len ! 7]"
      using b1(1) by (simp add: list_update_63)
    moreover have "take 7 ?len @ [?len ! 7] = ?len"
      by (simp add: be64enc_def)
    ultimately show ?thesis
      by (simp add: put_at_def)
  qed
  moreover have "md_rest m @ fips_pad (length m) = (md_rest m @ ?x) @ ?len"
    unfolding x using r by (simp add: fips_pad_def pad_short)
  ultimately have "buf ?c3 = md_rest m @ fips_pad (length m)" "state ?c3 = md_state m"
    using b1 by simp_all
  moreover have "SHA256_Pad_Almost ctx = (0, ?c3)"
    using r by (simp add: SHA256_Pad_Almost_def Let_def rb cnt)
  ultimately show ?thesis by simp
qed

text \<open>A padded block with any bytes in the place of the message's tail gives the digest of the
  message that ends in those bytes.\<close>

lemma padded_block_digest:
  assumes "length (m @ v) mod 64 < 56" "length (md_rest m @ v) < 64"
  shows "be32enc_vect (SHA256_Transform (md_state m) (md_rest m @ v @ fips_pad (length (m @ v)))) 4
    = fips_sha256 (m @ v)"
proof -
  note ms = md_short[OF assms(2)]
  have len: "length (md_rest (m @ v) @ fips_pad (length (m @ v))) = 64"
    using assms(1) unfolding length_append[of "md_rest _"] length_md_rest fips_pad_def
    by (simp add: pad_short)
  have "SHA256_Transform (md_state m) (md_rest m @ v @ fips_pad (length (m @ v)))
      = md_state ((m @ v) @ fips_pad (length (m @ v)))"
    using md_state_block(1)[OF len] len ms by (simp add: SHA256_Transform_fips)
  then show ?thesis
    by (simp add: fips_sha256_md be32enc_vect_concat)
qed

lemma be32enc_length [simp]: "length (be32enc w) = 4"
  by (simp add: be32enc_def)

lemma put_at_middle: "length bs = length v \<Longrightarrow> length p = off \<Longrightarrow> put_at off bs (p @ v @ q) = p @ bs @ q"
  by (simp add: put_at_def)

lemma pbkdf2_fast_loop_eq:
  assumes m: "length (md_rest m) \<le> 51"
    and ic: "state (ictx hctx) = md_state m" "buf (ictx hctx) = md_rest m @ v @ fips_pad (length m + 4)" "length v = 4"
    and oc: "state (octx hctx) = md_state ok" "md_rest ok = []" "buf (octx hctx) = g @ fips_pad (length ok + 32)" "length g = 32"
    and k: "m = ipad P @ S" "ok = opad P"
    and dk: "dkLen mod 32 = 0"
  shows "pbkdf2_fast_loop (length (md_rest m)) dkLen i hctx =
    take (dkLen - i * 32) (concat (map (\<lambda>i. pbkdf2_block P S 1 (i + 1)) [i..<(dkLen + 31) div 32]))"
  using ic oc
proof (induction "dkLen - i * 32" arbitrary: i hctx v g rule: less_induct)
  case less
  show ?case
  proof (cases "i * 32 < dkLen")
    case True
    let ?iv = "be32enc (of_nat (i + 1))"
    have mod60: "length (m @ w) mod 64 < 56" if "length w = 4" for w
    proof -
      have "length (md_rest (m @ w)) = length (md_rest m) + 4"
        using md_short(2)[of m w] m that by simp
      then show ?thesis using m length_md_rest[of "m @ w"] by simp
    qed
    have inner: "be32enc_vect (SHA256_Transform (md_state m) (md_rest m @ ?iv @ fips_pad (length m + 4))) 4
        = fips_sha256 (m @ ?iv)"
      using padded_block_digest[of m ?iv] mod60[of ?iv] m by simp
    have okm: "length ok mod 64 = 0"
      using oc(2) length_md_rest[of ok] by simp
    have outer: "be32enc_vect (SHA256_Transform (md_state ok) (h @ fips_pad (length ok + 32))) 4
        = fips_sha256 (ok @ h)" if "length h = 32" for h
      using padded_block_digest[of ok h] that okm oc(2) by (simp add: mod_add_left_eq[symmetric])
    let ?h = "fips_sha256 (m @ ?iv)"
    let ?hctx = "\<lparr>ictx = ictx hctx\<lparr>buf := md_rest m @ ?iv @ fips_pad (length m + 4)\<rparr>,
      octx = octx hctx\<lparr>buf := ?h @ fips_pad (length ok + 32)\<rparr>\<rparr>"
    have IH: "pbkdf2_fast_loop (length (md_rest m)) dkLen (i + 1) ?hctx =
        take (dkLen - (i + 1) * 32) (concat (map (\<lambda>i. pbkdf2_block P S 1 (i + 1)) [i + 1..<(dkLen + 31) div 32]))"
      using True less.prems by (intro less.hyps[of "i + 1" _ ?iv ?h]) auto
    have blk: "pbkdf2_block P S 1 (i + 1) = fips_sha256 (ok @ ?h)"
      using k by (simp add: pbkdf2_block_def hmac_sha256_def ipad_def opad_def)
    have "32 \<le> dkLen - i * 32"
      using True dk by presburger
    then have "min 32 (dkLen - i * 32) = 32" by simp
    have "pbkdf2_fast_loop (length (md_rest m)) dkLen i hctx =
        fips_sha256 (ok @ ?h) @ pbkdf2_fast_loop (length (md_rest m)) dkLen (i + 1) ?hctx"
      using True less.prems inner outer[of ?h]
      by (subst pbkdf2_fast_loop.simps) (simp add: Let_def put_at_middle put_at_middle[of _ _ "[]", simplified])
    also have "\<dots> = take (dkLen - i * 32) (concat (map (\<lambda>i. pbkdf2_block P S 1 (i + 1)) [i..<(dkLen + 31) div 32]))"
      using blocks_step[OF True, of "\<lambda>i. pbkdf2_block P S 1 (i + 1)"] \<open>min 32 _ = 32\<close> IH blk
      by simp
    finally show ?thesis .
  qed (subst pbkdf2_fast_loop.simps, simp)
qed

section \<open>The theorem\<close>

lemma bit_position_absorbs:
  assumes "hmac_absorbs hctx K m"
  shows "bit_position hctx = 8 * (length m mod 64)"
proof -
  let ?c = "count (ictx hctx)"
  have a: "absorbs (ictx hctx) (ipad K @ m)"
    using assms by (simp add: hmac_absorbs_def)
  have "?c AND push_bit 3 0x3f = push_bit 3 (drop_bit 3 ?c AND 0x3f)"
  proof -
    have m: "(0x3f :: u64) = mask 6" by (simp add: mask_eq_exp_minus_1)
    show ?thesis unfolding m by (rule bit_word_eqI) (auto simp: bit_simps)
  qed
  moreover have "unat (push_bit 3 (drop_bit 3 ?c AND 0x3f)) = 8 * buffered (ictx hctx)"
    using buffered_less[of "ictx hctx"]
    by (simp add: buffered_def push_bit_eq_mult unat_word_ariths)
  ultimately show ?thesis
    using buffered_absorbs[OF a] by (simp add: bit_position_def)
qed

theorem pbkdf2_correct:
  assumes usable: "hmac_usable ctx"
  shows "YP_PBKDF2_SHA256 ctx P S c dkLen = pbkdf2 P S c dkLen"
proof (cases "c = 1 \<and> dkLen mod 32 = 0 \<and> length S mod 64 \<le> 51")
  case False
  then show ?thesis
    using pbkdf2_generic_eq[OF usable] by (auto simp: YP_PBKDF2_SHA256_def)
next
  case True
  define h1 where "h1 = HMAC_SHA256_Update (HMAC_SHA256_Init ctx P) S"
  define h2 where "h2 = HMAC_SHA256_Update h1 [0, 0, 0, 0]"
  let ?m = "ipad P @ S"
  have a1: "hmac_absorbs h1 P S"
    using HMAC_Update_absorbs[OF HMAC_Init_absorbs[OF usable], of P S] by (simp add: h1_def)
  have a2: "hmac_absorbs h2 P (S @ [0, 0, 0, 0])"
    unfolding h2_def by (rule HMAC_Update_absorbs[OF a1])
  have m4: "(length S + 4) mod 64 = length S mod 64 + 4"
  proof -
    have "(length S + 4) mod 64 = (length S mod 64 + 4) mod 64"
      by (rule mod_add_left_eq[symmetric])
    then show ?thesis using True by simp
  qed
  have pos: "bit_position h1 = 8 * (length S mod 64)" "bit_position h2 = 8 * (length S mod 64 + 4)"
    using bit_position_absorbs[OF a1] bit_position_absorbs[OF a2] m4 by (simp_all add: add.commute)
  have i2: "absorbs (ictx h2) (?m @ [0, 0, 0, 0])"
    using a2 by (simp add: hmac_absorbs_def)
  have lr: "length (md_rest ?m) = length S mod 64"
    by (simp add: length_md_rest)
  have "length (?m @ [0, 0, 0, 0]) = (length S + 4) + 64" by simp
  then have l60: "length (?m @ [0, 0, 0, 0]) mod 64 < 56"
    using True m4 by (simp only: mod_add_self2) simp
  note almost_i = SHA256_Pad_Almost_padded[OF i2 l60]
  have ms: "md_state (?m @ [0, 0, 0, 0]) = md_state ?m" "md_rest (?m @ [0, 0, 0, 0]) = md_rest ?m @ [0, 0, 0, 0]"
    using md_short[of ?m "[0, 0, 0, 0]"] lr True by simp_all
  let ?o = "octx h2" and ?ok = "opad P"
  let ?g = "take 32 (buf ?o)"
  have o2: "absorbs ?o ?ok"
    using a2 by (simp add: hmac_absorbs_def)
  then have lo: "length (buf ?o) = 64" and "md_rest ?ok = []" and og: "state ?o = md_state ?ok" "count ?o = 512"
    by (simp_all add: absorbs_def md_rest_def)
  have oms: "md_state (?ok @ ?g) = md_state ?ok" "md_rest (?ok @ ?g) = ?g"
    using md_short[of ?ok ?g] \<open>md_rest ?ok = []\<close> lo by simp_all
  let ?o2 = "?o\<lparr>count := count ?o + push_bit 3 32\<rparr>"
  have o3: "absorbs ?o2 (?ok @ ?g)"
    using oms lo og by (simp add: absorbs_def)
  have l96: "length (?ok @ ?g) mod 64 < 56"
    using lo by simp
  note almost_o = SHA256_Pad_Almost_padded[OF o3 l96]
  let ?hctx = "\<lparr>ictx = snd (SHA256_Pad_Almost (ictx h2)), octx = snd (SHA256_Pad_Almost ?o2)\<rparr>"
  obtain ic where ic: "SHA256_Pad_Almost (ictx h2) = (0, ic)"
    using almost_i by (metis prod.collapse)
  have "YP_PBKDF2_SHA256 ctx P S c dkLen = pbkdf2_fast_loop (length (md_rest ?m)) dkLen 0 ?hctx"
    using True ic pos lr
    by (simp add: YP_PBKDF2_SHA256_def Let_def h1_def[symmetric] h2_def[symmetric])
  also have "\<dots> = pbkdf2 P S 1 dkLen"
    using pbkdf2_fast_loop_eq[of ?m ?hctx "[0, 0, 0, 0]" ?ok ?g P S dkLen 0]
      True lr almost_i almost_o ms oms lo \<open>md_rest ?ok = []\<close>
    by (simp add: pbkdf2_def)
  finally show ?thesis using True by simp
qed



text \<open>\<open>YP_HMAC_SHA256_Buf\<close> is HMAC-SHA256 of RFC 2104, for keys of any length, and
  feeding the message in pieces gives the same code.\<close>

theorem YP_HMAC_SHA256_correct:
  assumes "length (buf (ictx ctx)) = 64" "length (buf (octx ctx)) = 64"
  shows "YP_HMAC_SHA256_Buf ctx K (concat xs) = hmac_sha256 K (concat xs)
    \<and> fst (HMAC_SHA256_Final (foldl HMAC_SHA256_Update (HMAC_SHA256_Init ctx K) xs))
        = hmac_sha256 K (concat xs)"
  using hmac.piecewise[of ctx K xs] hmac.one_shot[of ctx K "concat xs"] assms
  by (simp add: YP_HMAC_SHA256_Buf_def hmac_usable_def)

theorem YP_HMAC_SHA256_correct_witness:
  "let c0 = \<lparr>state = [], count = 0, buf = replicate 64 1\<rparr>
   in YP_HMAC_SHA256_Buf \<lparr>ictx = c0, octx = c0\<rparr> (replicate 65 3) [1, 2] = hmac_sha256 (replicate 65 3) [1, 2]"
  using YP_HMAC_SHA256_correct[of "let c0 = \<lparr>state = [], count = 0, buf = replicate 64 1\<rparr>
      in \<lparr>ictx = c0, octx = c0\<rparr>" "replicate 65 3" "[[1, 2]]"] by (simp add: Let_def)

end
