(* ===== verification/Soj_Yespower.thy ===== *)
theory Soj_Yespower
  imports Soj_SmixSpec Soj_Region Soj_Pbkdf2
begin

text \<open>\<open>civic_yespower\<close> of \<open>yespower-opt.c\<close>: the parameter checks, the thread-local region it reuses
  or reallocates, the carving of that region and both versions of the hash, and
  \<open>civic_yespower_tls\<close>.  What the region held before a call is an argument; the hash is proved
  not to depend on it.  The operating system's mapping calls are arguments too.\<close>

record civic_yespower_params =
  version :: nat
  pN :: u32
  pr :: u32
  pers :: "bytes option"
  perslen :: nat

definition YESPOWER_0_5 :: nat where "YESPOWER_0_5 = 5"
definition YESPOWER_1_0 :: nat where "YESPOWER_1_0 = 10"

definition params_invalid :: "civic_yespower_params \<Rightarrow> bool" where
  "params_invalid ps \<longleftrightarrow>
    (version ps \<noteq> YESPOWER_0_5 \<and> version ps \<noteq> YESPOWER_1_0) \<or> pN ps < 1024 \<or> pN ps > 512 * 1024
    \<or> pr ps < 8 \<or> pr ps > 32 \<or> (pN ps AND (pN ps - 1)) \<noteq> 0 \<or> (pers ps = None \<and> perslen ps \<noteq> 0)"

definition pass_of :: "civic_yespower_params \<Rightarrow> pass" where
  "pass_of ps = (if version ps = YESPOWER_0_5 then Pass1 else Pass2)"

section \<open>Sizes\<close>

definition B_size :: "nat \<Rightarrow> nat" where
  "B_size r = 128 * r"

definition V_size :: "nat \<Rightarrow> nat \<Rightarrow> nat" where
  "V_size r N = B_size r * N"

definition XY_size :: "pass \<Rightarrow> nat \<Rightarrow> nat" where
  "XY_size p r = (case p of Pass1 \<Rightarrow> B_size r * 2 | Pass2 \<Rightarrow> B_size r + 64)"

definition S_size :: "pass \<Rightarrow> nat" where
  "S_size p = (case p of Pass1 \<Rightarrow> 2 | Pass2 \<Rightarrow> 3) * Swidth_to_Sbytes1 (Swidth p)"

definition region_need :: "pass \<Rightarrow> nat \<Rightarrow> nat \<Rightarrow> nat" where
  "region_need p r N = B_size r + V_size r N + XY_size p r + S_size p"

text \<open>What the four parts of the region hold: \<open>V\<close> and \<open>XY\<close> as blocks, \<open>S\<close> as lanes.\<close>

record yp_mem =
  mB :: bytes
  mV :: "blk list"
  mXY :: "blk list"
  mS :: "xmm list"

definition mem_fits :: "pass \<Rightarrow> nat \<Rightarrow> nat \<Rightarrow> yp_mem \<Rightarrow> bool" where
  "mem_fits p r N m \<longleftrightarrow> length (mB m) = B_size r \<and> 64 * length (mV m) = V_size r N
     \<and> 64 * length (mXY m) = XY_size p r \<and> 16 * length (mS m) = S_size p"

text \<open>The context at the start.  \<open>S2\<close> and \<open>w\<close> are set, and read, by yespower 1.0 only.\<close>

definition init_ctx :: "pass \<Rightarrow> xmm list \<Rightarrow> pwxform_ctx" where
  "init_ctx p S = \<lparr>cSm = S, cS0 = 0, cS1 = Swidth_to_Sbytes1 (Swidth p),
     cS2 = 2 * Swidth_to_Sbytes1 (Swidth p), cw = 0, cSbytes = S_size p\<rparr>"

section \<open>The two versions\<close>

text \<open>\<open>hc\<close> is the stack memory the SHA-256 and HMAC contexts start from.\<close>

definition yespower_0_5 :: "HMAC_SHA256_CTX \<Rightarrow> yp_mem \<Rightarrow> bytes \<Rightarrow> civic_yespower_params \<Rightarrow> bytes" where
  "yespower_0_5 hc m src ps =
    (let r = unat (pr ps); N = unat (pN ps);
         sha256 = YP_SHA256_Buf (ictx hc) src;
         B = put_at 0 (YP_PBKDF2_SHA256 hc sha256 src 1 (B_size r)) (mB m);
         sha256 = take 32 B;
         (B, _, _, _) = smix Pass1 B r N (mV m) (mXY m) (init_ctx Pass1 (mS m));
         dst = YP_PBKDF2_SHA256 hc sha256 B 1 32
     in case pers ps of
          None \<Rightarrow> dst
        | Some pb \<Rightarrow>
            (let sha256 = YP_HMAC_SHA256_Buf hc dst (take (perslen ps) pb)
             in YP_SHA256_Buf (ictx hc) sha256))"

definition yespower_1_0 :: "HMAC_SHA256_CTX \<Rightarrow> yp_mem \<Rightarrow> bytes \<Rightarrow> civic_yespower_params \<Rightarrow> bytes" where
  "yespower_1_0 hc m src ps =
    (let r = unat (pr ps); N = unat (pN ps);
         sha256 = YP_SHA256_Buf (ictx hc) src;
         src = (case pers ps of Some pb \<Rightarrow> take (perslen ps) pb | None \<Rightarrow> []);
         B = put_at 0 (YP_PBKDF2_SHA256 hc sha256 src 1 128) (mB m);
         sha256 = take 32 B;
         (B, _, _, _) = smix Pass2 B r N (mV m) (mXY m) (init_ctx Pass2 (mS m))
     in YP_HMAC_SHA256_Buf hc (seg (B_size r - 64) 64 B) sha256)"

section \<open>civic_yespower\<close>

record os =
  os_mmap :: mmap_fn
  os_munmap_fails :: "u64 \<Rightarrow> u64 \<Rightarrow> bool"

text \<open>Reuse the region when it is large enough, else free it and allocate anew.\<close>

definition ensure_region :: "os \<Rightarrow> nat \<Rightarrow> civic_yespower_region \<Rightarrow> civic_yespower_region \<times> bool" where
  "ensure_region os need rg =
    (if unat (aligned_size rg) < need then
       (let (rg, rc) = free_region (os_munmap_fails os) rg in
        if rc \<noteq> 0 then (rg, False)
        else (let (rg, p) = alloc_region (os_mmap os) (of_nat need) in (rg, p \<noteq> 0)))
     else (rg, True))"

text \<open>The content of the carved region, as found: a function of the region and the sizes.\<close>

type_synonym contents = "civic_yespower_region \<Rightarrow> pass \<Rightarrow> nat \<Rightarrow> nat \<Rightarrow> yp_mem"

datatype yp_errno = Errno_kept | EINVAL

definition fail_hash :: bytes where
  "fail_hash = replicate 32 0xff"

definition civic_yespower :: "os \<Rightarrow> HMAC_SHA256_CTX \<Rightarrow> contents \<Rightarrow> civic_yespower_region \<Rightarrow> bytes \<Rightarrow> civic_yespower_params \<Rightarrow>
    civic_yespower_region \<times> yp_errno \<times> int \<times> bytes" where
  "civic_yespower os hc found rg src ps =
    (if params_invalid ps then (rg, EINVAL, -1, fail_hash)
     else
       (let r = unat (pr ps); N = unat (pN ps); p = pass_of ps;
            (rg, ok) = ensure_region os (region_need p r N) rg
        in if \<not> ok then (rg, Errno_kept, -1, fail_hash)
           else
             (let m = found rg p r N;
                  dst = (case p of Pass1 \<Rightarrow> yespower_0_5 hc m src ps | Pass2 \<Rightarrow> yespower_1_0 hc m src ps)
              in (rg, Errno_kept, 0, dst))))"

text \<open>\<open>civic_yespower_tls\<close> without \<open>CIVIC_ONEWAY\<close>: the thread's own region, set up on first use.\<close>

type_synonym tls = "bool \<times> civic_yespower_region"

definition civic_yespower_tls :: "os \<Rightarrow> HMAC_SHA256_CTX \<Rightarrow> contents \<Rightarrow> tls \<Rightarrow> bytes \<Rightarrow> civic_yespower_params \<Rightarrow>
    tls \<times> int \<times> bytes" where
  "civic_yespower_tls os hc found st src ps =
    (let (initialized, rg) = st;
         rg = (if \<not> initialized then init_region else rg);
         (rg, _, rc, dst) = civic_yespower os hc found rg src ps
     in ((True, rg), rc, dst))"

section \<open>The specification\<close>

definition yespower_hash :: "civic_yespower_params \<Rightarrow> bytes \<Rightarrow> bytes" where
  "yespower_hash ps src =
    (let r = unat (pr ps); N = unat (pN ps); sha = fips_sha256 src in
     case pass_of ps of
       Pass1 \<Rightarrow>
         (let B = pbkdf2 sha src 1 (128 * r);
              (B', _, _) = smix_spec Pass1 B r N (init_ctx Pass1 (replicate 512 (Xmm 0 0 0 0)));
              dst = pbkdf2 (take 32 B) B' 1 32
          in case pers ps of None \<Rightarrow> dst
             | Some pb \<Rightarrow> fips_sha256 (hmac_sha256 dst (take (perslen ps) pb)))
     | Pass2 \<Rightarrow>
         (let B = pbkdf2 sha (case pers ps of Some pb \<Rightarrow> take (perslen ps) pb | None \<Rightarrow> []) 1 128;
              (B', _, _) = smix_spec Pass2 (B @ replicate (128 * r - 128) 0) r N (init_ctx Pass2 (replicate 6144 (Xmm 0 0 0 0)))
          in hmac_sha256 (drop (128 * r - 64) B') (take 32 B)))"

section \<open>Valid parameters\<close>

lemma power_of_two_test:
  fixes n :: nat
  assumes "n AND (n - 1) = 0" "0 < n"
  shows "\<exists>e. n = 2 ^ e"
  using assms
proof (induction n rule: less_induct)
  case (less n)
  show ?case
  proof (cases "even n")
    case True
    then obtain m where m: "n = 2 * m" by blast
    then have "0 < m" "m < n" using less.prems(2) by auto
    have "n AND (n - 1) = 2 * (m AND (m - 1))"
      using \<open>0 < m\<close> unfolding m by (cases m, simp, subst and_rec) simp
    then have "m AND (m - 1) = 0" using less.prems(1) by simp
    then obtain e where "m = 2 ^ e" using less.IH [OF \<open>m < n\<close>] \<open>0 < m\<close> by blast
    then have "n = 2 ^ Suc e" using m by simp
    then show ?thesis ..
  next
    case False
    then obtain m where m: "n = Suc (2 * m)" by (metis oddE Suc_eq_plus1)
    have "n AND (n - 1) = 2 * m" unfolding m by (subst and_rec) simp
    then have "n = 2 ^ 0" using less.prems(1) m by simp
    then show ?thesis ..
  qed
qed

lemma valid_params:
  assumes "\<not> params_invalid ps"
  shows "\<exists>e. unat (pN ps) = 2 ^ e" "1024 \<le> unat (pN ps)" "unat (pN ps) \<le> 2 ^ 19" "8 \<le> unat (pr ps)" "unat (pr ps) \<le> 32"
    "version ps = 5 \<or> version ps = 10"
proof -
  have P: "1024 \<le> pN ps" "pN ps \<le> 512 * 1024" "8 \<le> pr ps" "pr ps \<le> 32" "pN ps AND (pN ps - 1) = 0" "version ps = 5 \<or> version ps = 10"
    using assms by (auto simp: params_invalid_def YESPOWER_0_5_def YESPOWER_1_0_def not_less)
  have nz: "pN ps \<noteq> 0" using P(1) by auto
  have "unat (pN ps) AND (unat (pN ps) - 1) = 0"
    using P(5) unat_minus_one [OF nz] by (metis unsigned_and_eq unsigned_0)
  moreover have "0 < unat (pN ps)" using nz by (simp add: unat_gt_0)
  ultimately show "\<exists>e. unat (pN ps) = 2 ^ e" by (rule power_of_two_test)
  show "1024 \<le> unat (pN ps)" "unat (pN ps) \<le> 2 ^ 19" "8 \<le> unat (pr ps)" "unat (pr ps) \<le> 32"
    using P(1-4) by (simp_all add: word_le_nat_alt)
  show "version ps = 5 \<or> version ps = 10" by (rule P(6))
qed

section \<open>What SMix reads\<close>

lemma block_at_take:
  assumes "take (64 * n) B = take (64 * n) B'" "i < n"
  shows "block_at B i = block_at B' i"
proof -
  have "seg (64 * i + 4 * k) 4 B = seg (64 * i + 4 * k) 4 B'" if "k < 16" for k
  proof -
    have "64 * i + 4 * k + 4 \<le> 64 * n" using that assms(2) by simp
    then show ?thesis using seg_of_take [of _ 4 "64 * n" B] seg_of_take [of _ 4 "64 * n" B'] assms(1) by metis
  qed
  then have "load_words B i = load_words B' i" by (simp add: load_words_def)
  then show ?thesis by (simp add: block_at_def)
qed

lemma smix1_spec_take:
  assumes "take 128 B = take 128 B'"
  shows "smix1_spec Pass2 B r N c = smix1_spec Pass2 B' r N c"
proof -
  have "map (block_at B) [0..<2] = map (block_at B') [0..<2]"
    using block_at_take [of 2 B B'] assms by simp
  then show ?thesis by (simp only: smix1_spec_def start_state_def pass.case)
qed

lemma put_at_all: "length bs = length B \<Longrightarrow> put_at 0 bs B = bs"
  by (simp add: put_at_def)

text \<open>yespower 1.0 starts from 128 bytes; the rest of \<open>B\<close> is written before it is read.\<close>

lemma smix_spec_take:
  assumes "take 128 B = take 128 B'" "length B = 128 * r" "length B' = 128 * r" "0 < r" "2 \<le> N" "2 \<le> cSbytes c div 128"
    and "c' = c\<lparr>cSm := S'\<rparr>"
  shows "smix_spec Pass2 B r N c = smix_spec Pass2 B' r N c'"
proof -
  obtain S X d where 0: "smix1_spec Pass2 B 1 (cSbytes c div 128) None = (S, X, d)" by (metis prod_cases3)
  have fill': "smix1_spec Pass2 B' 1 (cSbytes c' div 128) None = (S, X, d)"
    using 0 smix1_spec_take [OF assms(1)] assms(7) by simp
  have lX: "length X = 2"
    using smix1_spec_lengths [OF _ _ 0] assms(6) by simp
  let ?B = "put_at 0 (bytes_of X) B" and ?B' = "put_at 0 (bytes_of X) B'"
  have "take 128 ?B = take 128 ?B'" using take_put_at_0 [of "bytes_of X" B] take_put_at_0 [of "bytes_of X" B'] lX assms(2-4) by simp
  then have 1: "smix1_spec Pass2 ?B r N c1 = smix1_spec Pass2 ?B' r N c1" for c1 by (rule smix1_spec_take)
  obtain Vs Y d1 where 2: "smix1_spec Pass2 ?B r N (Some (c\<lparr>cSm := lanes_of_blocks (concat S)\<rparr>)) = (Vs, Y, d1)" by (metis prod_cases3)
  have lY: "length Y = 2 * r" using smix1_spec_lengths [OF assms(4) _ 2 assms(5)] by simp
  have "put_at 0 (bytes_of Y) ?B = bytes_of Y" "put_at 0 (bytes_of Y) ?B' = bytes_of Y"
    using lY lX assms(2-4) by (auto intro!: put_at_all simp: length_put_at)
  then show ?thesis
    unfolding smix_spec_def Let_def 0 fill' prod.case using 2 1 assms(7) by simp
qed

lemma smix1_spec_ctx_none: "0 < r \<Longrightarrow> 2 \<le> N \<Longrightarrow> smix1_spec p B r N (Some c) = (Vs, X, d) \<Longrightarrow> d \<noteq> None"
  using smix1_spec_lengths [of r "Some c" p B N Vs X d] by simp

lemma smix_spec_S:
  "smix_spec p B r N (c\<lparr>cSm := S'\<rparr>) = smix_spec p B r N c"
  unfolding smix_spec_def by simp

section \<open>The hash is the specified one\<close>

lemma init_ctx_S: "init_ctx p S = (init_ctx p S')\<lparr>cSm := S\<rparr>"
  by (simp add: init_ctx_def)

lemma smix_bytes:
  assumes "mem_fits p r N m" "0 < r" "N = 2 ^ e" "8 \<le> N" "length B = 128 * r"
  shows "\<exists>V XY c. smix p B r N (mV m) (mXY m) (init_ctx p (mS m)) = (fst (smix_spec p B r N (init_ctx p T0)), V, XY, c)
    \<and> length (fst (smix_spec p B r N (init_ctx p T0))) = 128 * r"
proof -
  have M: "length (mV m) = N * (2 * r)" "2 * r < length (mXY m)" "p = Pass1 \<longrightarrow> 4 * r \<le> length (mXY m)"
    "16 * length (mS m) = S_size p"
    using assms(1,2) by (auto simp: mem_fits_def V_size_def B_size_def XY_size_def split: pass.splits)
  have c: "16 * length (cSm (init_ctx p (mS m))) = cSbytes (init_ctx p (mS m))"
    "cSbytes (init_ctx p (mS m)) = (case p of Pass1 \<Rightarrow> 2 | Pass2 \<Rightarrow> 3) * Sb p"
    using M(4) by (auto simp: init_ctx_def S_size_def Sb_def split: pass.splits)
  have B: "128 * r \<le> length B" using assms(5) by simp
  obtain B' V' XY' d where s: "smix p B r N (mV m) (mXY m) (init_ctx p (mS m)) = (B', V', XY', d)" by (metis prod_cases4)
  have "(B', chunks (2 * r) V', d) = smix_spec p B r N (init_ctx p (mS m))" "length B' = length B"
    using smix_computes [OF assms(2) M(1) assms(3,4) B M(2,3) c] s by simp_all
  then have "B' = fst (smix_spec p B r N (init_ctx p T0))"
    using smix_spec_S [of p B r N "mS m" "init_ctx p T0"] init_ctx_S [of p "mS m" T0] by (metis fst_conv)
  then show ?thesis using s \<open>length B' = length B\<close> assms(5) by simp
qed

lemma length_pbkdf2: "32 dvd n \<Longrightarrow> length (pbkdf2 P S c n) = n"
proof -
  assume "32 dvd n"
  then obtain k where n: "n = 32 * k" by blast
  have "length (concat (map (\<lambda>i. pbkdf2_block P S c (i + 1)) [0..<k])) = 32 * k"
    by (induction k) simp_all
  then show ?thesis by (simp add: pbkdf2_def n)
qed

lemma yespower_0_5_correct:
  assumes "mem_fits Pass1 (unat (pr ps)) (unat (pN ps)) m" "0 < pr ps" "unat (pN ps) = 2 ^ e" "8 \<le> unat (pN ps)"
    and hc: "hmac_usable hc" and p: "pass_of ps = Pass1"
  shows "yespower_0_5 hc m src ps = yespower_hash ps src"
proof -
  let ?r = "unat (pr ps)" and ?N = "unat (pN ps)" and ?sha = "fips_sha256 src"
  let ?B = "pbkdf2 ?sha src 1 (128 * ?r)"
  have sha: "YP_SHA256_Buf (ictx hc) x = fips_sha256 x" for x
    using hc yp.one_shot [of "ictx hc" x] by (simp add: YP_SHA256_Buf_def hmac_usable_def)
  have hm: "YP_HMAC_SHA256_Buf hc K x = hmac_sha256 K x" for K x
    using hmac.one_shot [of hc K x] hc by (simp add: YP_HMAC_SHA256_Buf_def)
  note pb = pbkdf2_correct [OF hc]
  have lB: "length ?B = 128 * ?r" by (rule length_pbkdf2) simp
  have B: "put_at 0 ?B (mB m) = ?B"
    using assms(1) lB by (intro put_at_all) (simp add: mem_fits_def B_size_def)
  have r: "0 < ?r" using assms(2) by (simp add: word_less_nat_alt)
  obtain V XY c where s: "smix Pass1 ?B ?r ?N (mV m) (mXY m) (init_ctx Pass1 (mS m))
      = (fst (smix_spec Pass1 ?B ?r ?N (init_ctx Pass1 (replicate 512 (Xmm 0 0 0 0)))), V, XY, c)"
    using smix_bytes [OF assms(1) r assms(3,4) lB, of "replicate 512 (Xmm 0 0 0 0)"] by blast
  show ?thesis
    unfolding yespower_0_5_def yespower_hash_def Let_def sha pb B_size_def B s p pass.case prod.case hm
    by (auto split: prod.splits option.splits)
qed

lemma yespower_1_0_correct:
  assumes "mem_fits Pass2 (unat (pr ps)) (unat (pN ps)) m" "0 < pr ps" "unat (pN ps) = 2 ^ e" "8 \<le> unat (pN ps)"
    and hc: "hmac_usable hc" and p: "pass_of ps = Pass2"
  shows "yespower_1_0 hc m src ps = yespower_hash ps src"
proof -
  let ?r = "unat (pr ps)" and ?N = "unat (pN ps)" and ?sha = "fips_sha256 src"
  let ?salt = "case pers ps of Some pb \<Rightarrow> take (perslen ps) pb | None \<Rightarrow> []"
  let ?P = "pbkdf2 ?sha ?salt 1 128" and ?T0 = "replicate 6144 (Xmm 0 0 0 0)"
  let ?B = "put_at 0 ?P (mB m)" and ?Z = "?P @ replicate (128 * ?r - 128) 0"
  have sha: "YP_SHA256_Buf (ictx hc) x = fips_sha256 x" for x
    using hc yp.one_shot [of "ictx hc" x] by (simp add: YP_SHA256_Buf_def hmac_usable_def)
  have hm: "YP_HMAC_SHA256_Buf hc K x = hmac_sha256 K x" for K x
    using hmac.one_shot [of hc K x] hc by (simp add: YP_HMAC_SHA256_Buf_def)
  note pb = pbkdf2_correct [OF hc]
  have lP: "length ?P = 128" by (rule length_pbkdf2) simp
  have r: "0 < ?r" using assms(2) by (simp add: word_less_nat_alt)
  have lm: "length (mB m) = 128 * ?r" using assms(1) by (simp add: mem_fits_def B_size_def)
  have lB: "length ?B = 128 * ?r" using lP lm r by (simp add: length_put_at)
  have lZ: "length ?Z = 128 * ?r" using lP r by simp
  have tB: "take 128 ?B = ?P" using take_put_at_0 [of ?P "mB m"] lP lm r by simp
  have "take 128 ?Z = ?P" using lP by simp
  then have same: "smix_spec Pass2 ?B ?r ?N (init_ctx Pass2 ?T0) = smix_spec Pass2 ?Z ?r ?N (init_ctx Pass2 ?T0)"
    using tB lB lZ r assms(4) by (intro smix_spec_take) (simp_all add: init_ctx_def S_size_def Swidth_to_Sbytes1_def Swidth_def PWXsimple_def)
  obtain V XY c where s: "smix Pass2 ?B ?r ?N (mV m) (mXY m) (init_ctx Pass2 (mS m))
      = (fst (smix_spec Pass2 ?Z ?r ?N (init_ctx Pass2 ?T0)), V, XY, c)"
    and lX: "length (fst (smix_spec Pass2 ?Z ?r ?N (init_ctx Pass2 ?T0))) = 128 * ?r"
    using smix_bytes [OF assms(1) r assms(3,4) lB, of ?T0] unfolding same by blast
  have key: "seg (128 * ?r - 64) 64 x = drop (128 * ?r - 64) x" if "length x = 128 * ?r" for x :: bytes
    using that r by (simp add: seg_def)
  have t32: "take 32 ?B = take 32 ?P" using arg_cong [OF tB, of "take 32"] by simp
  show ?thesis
    unfolding yespower_1_0_def yespower_hash_def Let_def sha pb B_size_def s p pass.case prod.case hm key [OF lX] t32
    by (simp split: prod.splits)
qed

section \<open>The region across calls\<close>

text \<open>Empty, or the usable part inside the mapping.\<close>

definition region_ok :: "civic_yespower_region \<Rightarrow> bool" where
  "region_ok rg \<longleftrightarrow> rg = init_region \<or>
    (base rg \<noteq> 0 \<and> unat (base rg) \<le> unat (aligned rg)
     \<and> unat (aligned rg) + unat (aligned_size rg) \<le> unat (base rg) + unat (base_size rg))"

lemma ensure_region_ok:
  assumes "mmap_ok (os_mmap os)" "need + 2 ^ 22 < 2 ^ 64" "region_ok rg" "ensure_region os need rg = (rg', ok)"
  shows "region_ok rg' \<and> (ok \<longrightarrow> need \<le> unat (aligned_size rg'))"
proof (cases "unat (aligned_size rg) < need")
  case False
  then show ?thesis using assms(3,4) by (auto simp: ensure_region_def)
next
  case True
  obtain rg1 rc where f: "free_region (os_munmap_fails os) rg = (rg1, rc)" by fastforce
  show ?thesis
  proof (cases "rc = 0")
    case False
    then have "rg' = rg" "\<not> ok" using True f assms(4) by (auto simp: ensure_region_def free_region_def split: if_splits)
    then show ?thesis using assms(3) by simp
  next
    case ok0: True
    obtain rg2 p where a: "alloc_region (os_mmap os) (of_nat need) = (rg2, p)" by fastforce
    have n: "unat (of_nat need :: u64) = need" using assms(2) by (simp add: unat_of_nat take_bit_nat_eq_self)
    have R: "rg' = rg2" "ok \<longleftrightarrow> p \<noteq> 0" using True f ok0 a assms(4) by (auto simp: ensure_region_def)
    have "if p = 0 then rg2 = init_region
      else aligned rg2 = p \<and> aligned_size rg2 = of_nat need
        \<and> unat (base rg2) \<le> unat p \<and> unat p + unat (of_nat need :: u64) \<le> unat (base rg2) + unat (base_size rg2)
        \<and> (HUGEPAGE_SIZE \<le> of_nat need \<longrightarrow> 2 ^ 21 dvd unat p)
        \<and> (\<exists>h. os_mmap os (base_size rg2) h = Some (base rg2))"
      using alloc_region_inside [OF assms(1) _ a] assms(2) n by simp
    moreover have "os_mmap os n h = Some 0 \<Longrightarrow> False" for n h using assms(1) by (auto simp: mmap_ok_def)
    ultimately show ?thesis using R n by (auto simp: region_ok_def split: if_splits)
  qed
qed

lemma region_need_small: "8 \<le> r \<Longrightarrow> r \<le> 32 \<Longrightarrow> N \<le> 2 ^ 19 \<Longrightarrow> region_need p r N + 2 ^ 22 < 2 ^ 33"
proof -
  assume a: "8 \<le> r" "r \<le> 32" "N \<le> 2 ^ 19"
  have "r * N \<le> 32 * 2 ^ 19" using a by (intro mult_le_mono)
  then have "V_size r N \<le> 2 ^ 31" by (simp add: V_size_def B_size_def mult.commute)
  moreover have "S_size p \<le> 98304" by (cases p) (simp_all add: S_size_def Swidth_to_Sbytes1_def Swidth_def PWXsimple_def)
  moreover have "B_size r + XY_size p r \<le> 20000" using a(2) by (cases p) (simp_all add: B_size_def XY_size_def)
  ultimately show ?thesis by (simp add: region_need_def)
qed

lemma ensure_region_kept: "need \<le> unat (aligned_size rg) \<Longrightarrow> ensure_region os need rg = (rg, True)"
  by (simp add: ensure_region_def)

lemma civic_yespower_result:
  assumes "hmac_usable hc" "\<And>rg p r N. mem_fits p r N (found rg p r N)"
  shows "civic_yespower os hc found rg src ps =
    (if params_invalid ps then (rg, EINVAL, -1, fail_hash)
     else case ensure_region os (region_need (pass_of ps) (unat (pr ps)) (unat (pN ps))) rg of (rg', ok) \<Rightarrow>
       if ok then (rg', Errno_kept, 0, yespower_hash ps src) else (rg', Errno_kept, -1, fail_hash))"
proof (cases "params_invalid ps")
  case True
  then show ?thesis by (simp add: civic_yespower_def)
next
  case False
  note v = valid_params [OF False]
  obtain e where e: "unat (pN ps) = 2 ^ e" using v(1) by blast
  have r: "0 < pr ps" using v(4) by (simp add: word_less_nat_alt)
  have N: "8 \<le> unat (pN ps)" using v(2) by simp
  have "yespower_0_5 hc (found rg' Pass1 (unat (pr ps)) (unat (pN ps))) src ps = yespower_hash ps src" if "pass_of ps = Pass1" for rg'
    using assms(2) r e N assms(1) that by (rule yespower_0_5_correct)
  moreover have "yespower_1_0 hc (found rg' Pass2 (unat (pr ps)) (unat (pN ps))) src ps = yespower_hash ps src" if "pass_of ps = Pass2" for rg'
    using assms(2) r e N assms(1) that by (rule yespower_1_0_correct)
  ultimately show ?thesis
    using False by (cases "pass_of ps") (simp_all add: civic_yespower_def Let_def split: prod.splits)
qed

text \<open>The system unmaps, and maps ordinary pages up to 8 GB, more than any parameters ask for.\<close>

definition memory_given :: "os \<Rightarrow> bool" where
  "memory_given os \<longleftrightarrow> (\<forall>b n. \<not> os_munmap_fails os b n) \<and> (\<forall>n. unat n < 2 ^ 33 \<longrightarrow> os_mmap os n False \<noteq> None)"

lemma ensure_region_succeeds:
  assumes "mmap_ok (os_mmap os)" "need + 2 ^ 22 < 2 ^ 33" "memory_given os"
  shows "snd (ensure_region os need rg)"
proof (cases "need \<le> unat (aligned_size rg)")
  case True
  then show ?thesis by (simp add: ensure_region_kept)
next
  case False
  have os: "\<And>b n. \<not> os_munmap_fails os b n" "\<And>n. unat n < 2 ^ 33 \<Longrightarrow> os_mmap os n False \<noteq> None"
    using assms(3) by (auto simp: memory_given_def)
  let ?n = "of_nat need :: u64"
  have n: "unat ?n = need" using assms(2) by (simp add: unat_of_nat take_bit_nat_eq_self)
  then have n2: "unat (?n + HUGEPAGE_SIZE) = need + 2 ^ 21"
    using assms(2) by (subst unat_add_lem [THEN iffD1]) (simp_all add: HUGEPAGE_SIZE_def)
  have given: "os_mmap os ?n False \<noteq> None" "os_mmap os (?n + HUGEPAGE_SIZE) False \<noteq> None"
    using os(2) [of ?n] os(2) [of "?n + HUGEPAGE_SIZE"] n n2 assms(2) by simp_all
  have "map_region (os_mmap os) ?n \<noteq> None"
    using given by (auto simp: map_region_def first_request_def Let_def split: option.splits)
  then obtain b m where m: "map_region (os_mmap os) ?n = Some (b, m)" by auto
  obtain rg2 p where a: "alloc_region (os_mmap os) ?n = (rg2, p)" by fastforce
  have "\<exists>h. os_mmap os m h = Some b" using map_region_fits [OF assms(1) _ m] assms(2) n by auto
  then have b: "b \<noteq> 0" using assms(1) by (auto simp: mmap_ok_def)
  have "base rg2 = b" using a m by (auto simp: alloc_region_def Let_def)
  moreover have "if p = 0 then rg2 = init_region else True"
    using alloc_region_inside [OF assms(1) _ a] assms(2) n by (simp split: if_splits)
  ultimately have "p \<noteq> 0" using b by (auto simp: init_region_def)
  then show ?thesis using False os(1) a by (simp add: ensure_region_def free_region_def)
qed

text \<open>C4: \<open>civic_yespower\<close> refuses invalid parameters with \<open>EINVAL\<close> and leaves the region alone;
  otherwise it gives the specified hash of the message and the parameters - whatever the reused
  region, the scratch arrays or the stack contexts held before - or, when memory cannot be had,
  -1 with an all-ones hash.  It succeeds whenever the system unmaps and maps
  ordinary pages of up to 8 GB.  The region stays within its mapping, and after a success a further call with
  the same parameters needs no system call and cannot fail.\<close>

theorem civic_yespower_correct:
  assumes "hmac_usable hc" "hmac_usable hc'" "\<And>rg p r N. mem_fits p r N (found rg p r N)"
    and "\<And>rg p r N. mem_fits p r N (found' rg p r N)" "mmap_ok (os_mmap os)" "region_ok rg"
    and "civic_yespower os hc found rg src ps = (rg', err, rc, dst)"
  shows "region_ok rg'
    \<and> (params_invalid ps \<longrightarrow> rg' = rg \<and> err = EINVAL \<and> rc = -1 \<and> dst = replicate 32 0xff)
    \<and> (\<not> params_invalid ps \<longrightarrow> rc = 0 \<and> dst = yespower_hash ps src \<or> rc = -1 \<and> dst = replicate 32 0xff)
    \<and> (\<not> params_invalid ps \<longrightarrow> memory_given os \<longrightarrow> rc = 0)
    \<and> (rc = 0 \<longrightarrow> civic_yespower os' hc' found' rg' src' ps = (rg', Errno_kept, 0, yespower_hash ps src'))"
proof (cases "params_invalid ps")
  case True
  then show ?thesis using assms(6,7) by (auto simp: civic_yespower_def fail_hash_def)
next
  case False
  note v = valid_params [OF False]
  let ?need = "region_need (pass_of ps) (unat (pr ps)) (unat (pN ps))"
  obtain rg1 ok where en: "ensure_region os ?need rg = (rg1, ok)" by fastforce
  have R: "rg' = rg1" "(rc, dst) = (if ok then (0, yespower_hash ps src) else (-1, fail_hash))"
    using assms(7) False en by (auto simp: civic_yespower_result [OF assms(1,3)] split: if_splits)
  have "region_ok rg1 \<and> (ok \<longrightarrow> ?need \<le> unat (aligned_size rg1))"
    using ensure_region_ok [OF assms(5) _ assms(6) en] region_need_small [OF v(4,5,3), of "pass_of ps"] by simp
  moreover from this have "ok \<longrightarrow> civic_yespower os' hc' found' rg1 src' ps = (rg1, Errno_kept, 0, yespower_hash ps src')"
    using False by (simp add: civic_yespower_result [OF assms(2,4)] ensure_region_kept)
  moreover have "memory_given os \<longrightarrow> ok"
    using ensure_region_succeeds [OF assms(5) region_need_small [OF v(4,5,3)], where rg = rg] en by (metis snd_conv)
  ultimately show ?thesis using R False by (auto simp: fail_hash_def split: if_splits)
qed

text \<open>A large region, as left by an earlier call, and memory full of zeros.\<close>

definition zero_found :: contents where
  "zero_found rg p r N = \<lparr>mB = replicate (B_size r) 0, mV = replicate (2 * r * N) zero_blk,
     mXY = replicate (XY_size p r div 64) zero_blk, mS = replicate (S_size p div 16) (Xmm 0 0 0 0)\<rparr>"

definition civic_params :: civic_yespower_params where
  "civic_params = \<lparr>version = 10, pN = 2048, pr = 8, pers = None, perslen = 0\<rparr>"

lemma zero_found_fits: "mem_fits p r N (zero_found rg p r N)"
  by (cases p) (simp_all add: mem_fits_def zero_found_def V_size_def B_size_def XY_size_def S_size_def
      Swidth_to_Sbytes1_def Swidth_def PWXsimple_def)

lemma civic_params_valid: "\<not> params_invalid civic_params"
  by (simp add: params_invalid_def civic_params_def YESPOWER_0_5_def YESPOWER_1_0_def)

theorem civic_yespower_correct_witness:
  "let hc = \<lparr>ictx = \<lparr>state = [], count = 0, buf = replicate 64 1\<rparr>, octx = \<lparr>state = [], count = 0, buf = replicate 64 2\<rparr>\<rparr>;
       rg = \<lparr>base = 0x10000000, aligned = 0x10000000, base_size = 0x1000000, aligned_size = 0x1000000\<rparr>;
       os = \<lparr>os_mmap = \<lambda>n h. None, os_munmap_fails = \<lambda>a n. True\<rparr>
   in civic_yespower os hc zero_found rg (cstr ''block'') civic_params
      = (rg, Errno_kept, 0, yespower_hash civic_params (cstr ''block''))"
proof -
  let ?hc = "\<lparr>ictx = \<lparr>state = [], count = 0, buf = replicate 64 1\<rparr>, octx = \<lparr>state = [], count = 0, buf = replicate 64 2\<rparr>\<rparr>"
  let ?rg = "\<lparr>base = 0x10000000, aligned = 0x10000000, base_size = 0x1000000, aligned_size = 0x1000000\<rparr>"
  let ?os = "\<lparr>os_mmap = \<lambda>n h. None, os_munmap_fails = \<lambda>a n. True\<rparr>"
  have hc: "hmac_usable ?hc" by (simp add: hmac_usable_def)
  have "region_need (pass_of civic_params) (unat (pr civic_params)) (unat (pN civic_params)) \<le> unat (aligned_size ?rg)"
    by (simp add: civic_params_def pass_of_def YESPOWER_0_5_def region_need_def B_size_def V_size_def XY_size_def S_size_def
        Swidth_to_Sbytes1_def Swidth_def PWXsimple_def)
  then have "civic_yespower ?os ?hc zero_found ?rg [] civic_params = (?rg, Errno_kept, 0, yespower_hash civic_params [])"
    using civic_params_valid by (simp add: civic_yespower_result [OF hc zero_found_fits] ensure_region_kept)
  from civic_yespower_correct [OF hc hc zero_found_fits zero_found_fits _ _ this]
  show ?thesis by (simp add: Let_def mmap_ok_def region_ok_def)
qed

end
