(* ===== verification/Soj_Lane.thy ===== *)
theory Soj_Lane
  imports Soj_Blockmix
begin

text \<open>One lane of the kernels of \<open>yespower-opt.c\<close> that are written for several hashes: its registers
  and its part of the S-boxes, the steps on them, and the loop that all those kernels share.  \<open>lane_loop\<close>
  says when a loop, whatever else it does, makes one of its lanes compute the chain of the
  one-lane mixers.  The kernels of the build with \<open>CIVIC_ONEWAY\<close> are the first use.\<close>

section \<open>The state of a lane\<close>

record civic_yp2_state =
  yx :: "xmm list"
  ySm :: "xmm list"
  yS0 :: nat
  yS1 :: nat
  yS2 :: nat
  yw :: nat

definition blk_regs :: "blk \<Rightarrow> xmm list" where
  "blk_regs b = (case b of (q0, q1, q2, q3) \<Rightarrow> [q0, q1, q2, q3])"

definition regs_blk :: "xmm list \<Rightarrow> blk" where
  "regs_blk x = (x ! 0, x ! 1, x ! 2, x ! 3)"

definition civic_yp2_read :: "civic_yp2_state \<Rightarrow> blk \<Rightarrow> civic_yp2_state" where
  "civic_yp2_read st b = st\<lparr>yx := blk_regs b\<rparr>"

definition civic_yp2_xor :: "civic_yp2_state \<Rightarrow> blk \<Rightarrow> civic_yp2_state" where
  "civic_yp2_xor st b = st\<lparr>yx := map2 mm_xor_si128 (yx st) (blk_regs b)\<rparr>"

definition civic_yp2_write :: "nat \<Rightarrow> civic_yp2_state \<Rightarrow> blk list \<Rightarrow> blk list" where
  "civic_yp2_write i st out = out[i := regs_blk (yx st)]"

definition civic_yp2_finish_salsa :: "nat \<Rightarrow> civic_yp2_state \<Rightarrow> blk list \<Rightarrow> blk list" where
  "civic_yp2_finish_salsa i st out = out[i := SALSA20 Pass2 (regs_blk (yx st))]"

definition civic_yp2_ctx_load :: "civic_yp2_state \<Rightarrow> pwxform_ctx \<Rightarrow> civic_yp2_state" where
  "civic_yp2_ctx_load st c = st\<lparr>ySm := cSm c, yS0 := cS0 c, yS1 := cS1 c, yS2 := cS2 c, yw := cw c\<rparr>"

definition civic_yp2_ctx_store :: "pwxform_ctx \<Rightarrow> civic_yp2_state \<Rightarrow> pwxform_ctx" where
  "civic_yp2_ctx_store c st = c\<lparr>cSm := ySm st, cS0 := yS0 st, cS1 := yS1 st, cS2 := yS2 st, cw := yw st\<rparr>"

text \<open>The low and the high index as byte offsets.\<close>

definition idx_lo :: "u64 \<Rightarrow> nat" where "idx_lo x = unat (ucast x :: u32)"

definition idx_hi :: "u64 \<Rightarrow> nat" where "idx_hi x = unat (ucast (drop_bit 32 x) :: u32)"

text \<open>\<open>*(__m128i *)(a->MEMBER + a->w) = a->x[I]\<close>\<close>

definition yp2_store :: "nat \<Rightarrow> (civic_yp2_state \<Rightarrow> nat) \<Rightarrow> civic_yp2_state \<Rightarrow> civic_yp2_state" where
  "yp2_store I member a = a\<lparr>ySm := st128 (ySm a) (member a + yw a) (yx a ! I)\<rparr>"

text \<open>\<open>w &= Smask2\<close> and the rotation of the tables.\<close>

definition yp2_turn :: "civic_yp2_state \<Rightarrow> civic_yp2_state" where
  "yp2_turn a =
    (let a = a\<lparr>yw := yw a AND unat (Smask2 Pass2)\<rparr>;
         tmp = yS2 a;
         a = a\<lparr>yS2 := yS1 a\<rparr>;
         a = a\<lparr>yS1 := yS0 a\<rparr>
     in a\<lparr>yS0 := tmp\<rparr>)"

text \<open>The states \<open>a\<close> and \<open>b\<close> are uninitialised until they are read and loaded.\<close>

definition yp2_uninit :: civic_yp2_state where
  "yp2_uninit = \<lparr>yx = [], ySm = [], yS0 = 0, yS1 = 0, yS2 = 0, yw = 0\<rparr>"

text \<open>\<open>result[0]\<close> and \<open>result[1]\<close> are \<open>(uint32_t)Bout[last].d[0]\<close> of each lane.\<close>

definition yp2_result :: "blk list \<Rightarrow> nat \<Rightarrow> nat" where
  "yp2_result out i = unat (ucast (q_lo (fst (out ! i))) :: u32)"

section \<open>The steps of a lane\<close>

definition lane_step :: "nat \<Rightarrow> civic_yp2_state \<Rightarrow> civic_yp2_state" where
  "lane_step I a = a\<lparr>yx := (yx a)[I := PWXFORM_SIMD (Smask2 Pass2) (ySm a) (yS0 a) (yS1 a) (yx a ! I)]\<rparr>"

definition lane_write :: "nat \<Rightarrow> (civic_yp2_state \<Rightarrow> nat) \<Rightarrow> civic_yp2_state \<Rightarrow> civic_yp2_state" where
  "lane_write I member a = yp2_store I member (lane_step I a)"

definition lane_bump :: "civic_yp2_state \<Rightarrow> civic_yp2_state" where
  "lane_bump a = a\<lparr>yw := yw a + 16\<rparr>"

definition lane_pwxform :: "civic_yp2_state \<Rightarrow> civic_yp2_state" where
  "lane_pwxform a =
    (let a = lane_bump (lane_write 1 yS1 (lane_write 0 yS0 a));
         a = lane_bump (lane_write 3 yS1 (lane_write 2 yS0 a));
         a = lane_step 3 (lane_step 2 (lane_bump (lane_write 1 yS1 (lane_write 0 yS0 a))));
         a = lane_step 3 (lane_step 2 (lane_bump (lane_write 1 yS1 (lane_write 0 yS0 a))))
     in yp2_turn a)"

text \<open>A lane holding a block and a context.\<close>

definition lane_of :: "blk \<Rightarrow> pwxform_ctx \<Rightarrow> civic_yp2_state" where
  "lane_of X c = \<lparr>yx = blk_regs X, ySm = cSm c, yS0 = cS0 c, yS1 = cS1 c, yS2 = cS2 c, yw = cw c\<rparr>"

lemma lane_step_of:
  "lane_step 2 (lane_of (X0, X1, X2, X3) c) = lane_of (X0, X1, PWXFORM_SIMD_c Pass2 c X2, X3) c"
  "lane_step 3 (lane_of (X0, X1, X2, X3) c) = lane_of (X0, X1, X2, PWXFORM_SIMD_c Pass2 c X3) c"
  by (simp_all add: lane_step_def lane_of_def blk_regs_def PWXFORM_SIMD_c_def)

lemma lane_write_of:
  "PWXFORM_SIMD_WRITE Pass2 cS0 X0 c = (Y, d) \<Longrightarrow> lane_write 0 yS0 (lane_of (X0, X1, X2, X3) c) = lane_of (Y, X1, X2, X3) d"
  "PWXFORM_SIMD_WRITE Pass2 cS1 X1 c = (Y, d) \<Longrightarrow> lane_write 1 yS1 (lane_of (X0, X1, X2, X3) c) = lane_of (X0, Y, X2, X3) d"
  "PWXFORM_SIMD_WRITE Pass2 cS0 X2 c = (Y, d) \<Longrightarrow> lane_write 2 yS0 (lane_of (X0, X1, X2, X3) c) = lane_of (X0, X1, Y, X3) d"
  "PWXFORM_SIMD_WRITE Pass2 cS1 X3 c = (Y, d) \<Longrightarrow> lane_write 3 yS1 (lane_of (X0, X1, X2, X3) c) = lane_of (X0, X1, X2, Y) d"
  by (auto simp: lane_write_def lane_step_def yp2_store_def lane_of_def blk_regs_def PWXFORM_SIMD_c_def
      PWXFORM_SIMD_WRITE_def Let_def)

lemma lane_bump_of: "lane_bump (lane_of X c) = lane_of X (w_add16 c)"
  by (simp add: lane_bump_def lane_of_def w_add16_def)

lemma lane_turn_of: "yp2_turn (lane_of X c) = lane_of X (rotate_S (c\<lparr>cw := cw c AND unat (Smask2 Pass2)\<rparr>))"
  by (simp add: yp2_turn_def lane_of_def rotate_S_def Let_def)

lemma lane_round_write4:
  assumes "PWXFORM_ROUND_WRITE4 Pass2 (X, c) = (Y, d)"
  shows "lane_bump (lane_write 3 yS1 (lane_write 2 yS0 (lane_bump (lane_write 1 yS1 (lane_write 0 yS0 (lane_of X c)))))) = lane_of Y d"
proof -
  obtain X0 X1 X2 X3 where X: "X = (X0, X1, X2, X3)" by (cases X)
  obtain Y0 c1 where 1: "PWXFORM_SIMD_WRITE Pass2 cS0 X0 c = (Y0, c1)" by fastforce
  obtain Y1 c2 where 2: "PWXFORM_SIMD_WRITE Pass2 cS1 X1 c1 = (Y1, c2)" by fastforce
  obtain Y2 c3 where 3: "PWXFORM_SIMD_WRITE Pass2 cS0 X2 (w_add16 c2) = (Y2, c3)" by fastforce
  obtain Y3 c4 where 4: "PWXFORM_SIMD_WRITE Pass2 cS1 X3 c3 = (Y3, c4)" by fastforce
  have "Y = (Y0, Y1, Y2, Y3)" "d = w_add16 c4"
    using assms by (auto simp: PWXFORM_ROUND_WRITE4_def X 1 2 3 4 Let_def)
  then show ?thesis
    by (simp only: X lane_write_of(1) [OF 1] lane_write_of(2) [OF 2] lane_bump_of lane_write_of(3) [OF 3] lane_write_of(4) [OF 4])
qed

lemma lane_round_write2:
  assumes "PWXFORM_ROUND_WRITE2 Pass2 (X, c) = (Y, d)"
  shows "lane_step 3 (lane_step 2 (lane_bump (lane_write 1 yS1 (lane_write 0 yS0 (lane_of X c))))) = lane_of Y d"
proof -
  obtain X0 X1 X2 X3 where X: "X = (X0, X1, X2, X3)" by (cases X)
  obtain Y0 c1 where 1: "PWXFORM_SIMD_WRITE Pass2 cS0 X0 c = (Y0, c1)" by fastforce
  obtain Y1 c2 where 2: "PWXFORM_SIMD_WRITE Pass2 cS1 X1 c1 = (Y1, c2)" by fastforce
  have "Y = (Y0, Y1, PWXFORM_SIMD_c Pass2 (w_add16 c2) X2, PWXFORM_SIMD_c Pass2 (w_add16 c2) X3)" "d = w_add16 c2"
    using assms by (auto simp: PWXFORM_ROUND_WRITE2_def X 1 2 Let_def)
  then show ?thesis
    by (simp only: X lane_write_of(1) [OF 1] lane_write_of(2) [OF 2] lane_bump_of lane_step_of)
qed

lemma lane_pwxform_of:
  assumes "PWXFORM Pass2 (X, c) = (Y, d)"
  shows "lane_pwxform (lane_of X c) = lane_of Y d"
proof -
  obtain X1 c1 where 1: "PWXFORM_ROUND_WRITE4 Pass2 (X, c) = (X1, c1)" by fastforce
  obtain X2 c2 where 2: "PWXFORM_ROUND_WRITE2 Pass2 (X1, c1) = (X2, c2)" by fastforce
  obtain X3 c3 where 3: "PWXFORM_ROUND_WRITE2 Pass2 (X2, c2) = (X3, c3)" by fastforce
  have "Y = X3" "d = rotate_S (c3\<lparr>cw := cw c3 AND unat (Smask2 Pass2)\<rparr>)"
    using assms by (auto simp: PWXFORM_def 1 2 3 Let_def)
  then show ?thesis
    by (simp only: lane_pwxform_def Let_def lane_round_write4 [OF 1] lane_round_write2 [OF 2] lane_round_write2 [OF 3] lane_turn_of)
qed

section \<open>Each lane computes the one-lane mixer\<close>

lemma mix_chain_snoc:
  "mix_chain p X (bs @ [b]) c = (case mix_chain p X bs c of (ys, c1) \<Rightarrow>
     case PWXFORM p (XOR_X (last (X # ys)) b, c1) of (Y, c2) \<Rightarrow> (ys @ [Y], c2))"
  by (induction bs arbitrary: X c) (auto simp: Let_def split: prod.splits)

lemma yp2_xor_of: "civic_yp2_xor (lane_of X c) b = lane_of (XOR_X X b) c"
  by (cases X; cases b) (simp add: civic_yp2_xor_def lane_of_def blk_regs_def XOR_X_def)

lemma yp2_start_of: "civic_yp2_ctx_load (civic_yp2_read a b) c = lane_of b c"
  "civic_yp2_ctx_load (civic_yp2_xor (civic_yp2_read a b) d) c = lane_of (XOR_X b d) c"
  by (cases b; cases d; simp add: civic_yp2_ctx_load_def civic_yp2_read_def civic_yp2_xor_def lane_of_def blk_regs_def XOR_X_def)+

lemma regs_blk_of: "regs_blk (yx (lane_of X c)) = X"
  by (cases X) (simp add: lane_of_def regs_blk_def blk_regs_def)

text \<open>The part of a context that a lane does not carry is the size.\<close>

lemma ctx_store_of: "civic_yp2_ctx_store c (lane_of X d) = d\<lparr>cSbytes := cSbytes c\<rparr>"
  by (simp add: civic_yp2_ctx_store_def lane_of_def)

lemma PWXFORM_Sbytes: "cSbytes (snd (PWXFORM p (X, c))) = cSbytes c"
  using PWXFORM1_ctx [of X c] PWXFORM2_ctx [of c X] by (cases p) auto

lemma mix_chain_Sbytes: "cSbytes (snd (mix_chain p X bs c)) = cSbytes c"
proof (induction bs arbitrary: X c)
  case (Cons b bs)
  obtain Y d where "PWXFORM p (XOR_X X b, c) = (Y, d)" by fastforce
  then show ?case
    using PWXFORM_Sbytes [of p "XOR_X X b" c] Cons.IH [of Y d] by (auto simp: Let_def split: prod.splits)
qed simp

text \<open>A lane after \<open>i\<close> turns: the chain over the first \<open>i\<close> inputs, all but the last output written.\<close>

definition lane_at :: "blk \<Rightarrow> blk list \<Rightarrow> pwxform_ctx \<Rightarrow> blk list \<Rightarrow> nat \<Rightarrow> nat \<Rightarrow> civic_yp2_state \<Rightarrow> blk list \<Rightarrow> bool" where
  "lane_at X0 xs c0 out0 last_i i a out \<longleftrightarrow> (case mix_chain Pass2 X0 (take i xs) c0 of (ys, c) \<Rightarrow>
     a = lane_of (last (X0 # ys)) c \<and> out = put_at 0 (take last_i ys) out0)"

lemma lane_at_0: "lane_at X0 xs c0 out0 last_i 0 (lane_of X0 c0) out0"
  by (simp add: lane_at_def)

definition lane_turn :: "blk \<Rightarrow> nat \<Rightarrow> nat \<Rightarrow> civic_yp2_state \<Rightarrow> blk list \<Rightarrow> civic_yp2_state \<times> blk list" where
  "lane_turn x last_i i a out =
    (let a = lane_pwxform (civic_yp2_xor a x) in (a, if i \<noteq> last_i then civic_yp2_write i a out else out))"

lemma lane_at_Suc:
  assumes "lane_at X0 xs c0 out0 last_i i a out" "i \<le> last_i" "length xs = Suc last_i" "last_i < length out0"
  shows "case lane_turn (xs ! i) last_i i a out of (a', out') \<Rightarrow> lane_at X0 xs c0 out0 last_i (Suc i) a' out'"
proof -
  obtain ys c where ch: "mix_chain Pass2 X0 (take i xs) c0 = (ys, c)" by fastforce
  have ly: "length ys = i" using length_mix_chain [OF ch] assms(2,3) by simp
  obtain Y d where pf: "PWXFORM Pass2 (XOR_X (last (X0 # ys)) (xs ! i), c) = (Y, d)" by fastforce
  have ch': "mix_chain Pass2 X0 (take (Suc i) xs) c0 = (ys @ [Y], d)"
    using ch pf assms(2,3) by (simp add: take_Suc_conv_app_nth mix_chain_snoc)
  have a: "lane_pwxform (civic_yp2_xor a (xs ! i)) = lane_of Y d"
    using assms(1) ch lane_pwxform_of [OF pf] by (simp add: lane_at_def yp2_xor_of)
  have out: "out = put_at 0 ys out0" using assms(1,2) ch ly by (simp add: lane_at_def)
  have "(put_at 0 ys out0)[i := Y] = put_at 0 (ys @ [Y]) out0" if "i \<noteq> last_i"
  proof -
    have "put_at 0 (ys @ [Y]) out0 = put_at (0 + length ys) [Y] (put_at 0 ys out0)"
      using ly assms(2,4) that by (subst put_at_put_at_adjacent) simp_all
    also have "\<dots> = (put_at 0 ys out0)[i := Y]"
      using ly assms(2,4) by (simp add: put_at_one length_put_at)
    finally show ?thesis by simp
  qed
  then show ?thesis
    using ch' a out ly assms(2) by (auto simp: lane_at_def lane_turn_def Let_def civic_yp2_write_def regs_blk_of)
qed

text \<open>At the end: the context stored and Salsa20/2 on the last block.\<close>

lemma lane_finish:
  assumes "lane_at (last xs) xs c out0 last_i (Suc last_i) a out" "length xs = Suc last_i" "length out0 = Suc last_i"
    and "mix Pass2 xs (Some c) = (res, Some c')"
  shows "civic_yp2_finish_salsa last_i a out = res" "civic_yp2_ctx_store c a = c'"
proof -
  obtain ys d where ch: "mix_chain Pass2 (last xs) xs c = (ys, d)" by fastforce
  have ly: "length ys = Suc last_i" using length_mix_chain [OF ch] assms(2) by simp
  have A: "a = lane_of (last ys) d" "out = put_at 0 (butlast ys) out0"
    using assms(1,2) ch ly by (auto simp: lane_at_def butlast_conv_take)
  have R: "res = butlast ys @ [SALSA20 Pass2 (last ys)]" "c' = d" using assms(4) ch by (auto simp: mix_def)
  show "civic_yp2_finish_salsa last_i a out = res"
    unfolding civic_yp2_finish_salsa_def A R(1) regs_blk_of using ly assms(3) by (intro put_butlast_update) auto
  have "cSbytes d = cSbytes c" using mix_chain_Sbytes [of Pass2 "last xs" xs c] ch by simp
  then show "civic_yp2_ctx_store c a = c'" using A(1) R(2) by (simp add: ctx_store_of)
qed

lemma yp2_result_last: "length out = Suc i \<Longrightarrow> yp2_result out i = last_word out"
proof -
  assume l: "length out = Suc i"
  have "(ucast (q_lo x) :: u32) = mm_cvtsi128_si32 x" for x by (cases x) simp
  moreover have "last out = out ! i" using l by (subst last_conv_nth) auto
  ultimately show ?thesis by (simp add: yp2_result_def last_word_def INTEGERIFY_def)
qed

lemma lane_at_state: "lane_at X0 xs c0 out0 l i a out \<Longrightarrow> \<exists>X c. a = lane_of X c"
  unfolding lane_at_def by (cases "mix_chain Pass2 X0 (take i xs) c0") blast

lemma lane_xor_twice: "lane_at X0 xs c0 out0 l i a out \<Longrightarrow> civic_yp2_xor (civic_yp2_xor a u) v = civic_yp2_xor a (XOR_X u v)"
  by (auto dest!: lane_at_state simp: yp2_xor_of XOR_X_assoc)

lemma last_xor_2r:
  "length as = 2 * r \<Longrightarrow> length bs = 2 * r \<Longrightarrow> 0 < r \<Longrightarrow> XOR_X (as ! (r * 2 - 1)) (bs ! (r * 2 - 1)) = last (xor_blocks as bs)"
  by (simp only: last_2r) (subst last_xor_blocks, auto)

lemma lane_at_old:
  assumes "lane_at X0 xs c0 out0 last_i i a out" "i \<le> last_i" "length xs = Suc last_i" "length out0 = Suc last_i"
  shows "out ! i = out0 ! i"
proof -
  obtain ys c where ch: "mix_chain Pass2 X0 (take i xs) c0 = (ys, c)" by fastforce
  have "length ys = i" using length_mix_chain [OF ch] assms(2,3) by simp
  then show ?thesis using assms ch by (simp add: lane_at_def nth_put_at)
qed

lemma put_at_take_Suc:
  assumes "i < length xs" "length xs = length B"
  shows "(put_at 0 (take i xs) B)[i := xs ! i] = put_at 0 (take (Suc i) xs) B"
proof -
  have "put_at 0 (take (Suc i) xs) B = put_at (0 + length (take i xs)) [xs ! i] (put_at 0 (take i xs) B)"
    using assms by (subst put_at_put_at_adjacent) (simp_all add: take_Suc_conv_app_nth)
  also have "\<dots> = (put_at 0 (take i xs) B)[i := xs ! i]"
    using assms by (simp add: put_at_one length_put_at)
  finally show ?thesis by simp
qed

text \<open>The one-lane mixers with a context that is there.\<close>

definition lane_blockmix :: "blk list \<Rightarrow> blk list \<Rightarrow> pwxform_ctx \<Rightarrow> nat \<Rightarrow> blk list \<times> pwxform_ctx" where
  "lane_blockmix A out c r = (case blockmix Pass2 A out r (Some c) of (res, d) \<Rightarrow> (res, the d))"

definition lane_blockmix_xor :: "blk list \<Rightarrow> blk list \<Rightarrow> blk list \<Rightarrow> pwxform_ctx \<Rightarrow> nat \<Rightarrow> blk list \<times> pwxform_ctx \<times> nat" where
  "lane_blockmix_xor A B out c r = (case blockmix_xor Pass2 A B out r (Some c) of (res, d, j) \<Rightarrow> (res, the d, j))"

lemma mix_Some: "\<exists>res d. mix p xs (Some c) = (res, Some d)"
  by (cases "mix_chain p (last xs) xs c") (simp add: mix_def)

section \<open>A loop whose lane takes its turns\<close>

text \<open>\<open>P\<close> reads a lane, its registers and its output, from the state of a loop.  If, while \<open>Q\<close> holds, every
  turn of the loop is a turn of the lane on the next input, the loop takes the lane through the chain.\<close>

lemma lane_loop:
  fixes body :: "nat \<Rightarrow> 's \<Rightarrow> 's" and P :: "'s \<Rightarrow> civic_yp2_state \<times> blk list"
  assumes len: "length xs = Suc l" "length out0 = Suc l"
    and start: "P st = (lane_of (last xs) c, out0)" "Q 0 st"
    and turn: "\<And>i st a out. i \<le> l \<Longrightarrow> lane_at (last xs) xs c out0 l i a out \<Longrightarrow> P st = (a, out) \<Longrightarrow> Q i st \<Longrightarrow>
      P (body i st) = lane_turn (xs ! i) l i a out \<and> Q (Suc i) (body i st)"
  obtains a out where "P (fold body [0..<l + 1] st) = (a, out)" "lane_at (last xs) xs c out0 l (Suc l) a out"
    "Q (Suc l) (fold body [0..<l + 1] st)"
proof -
  have run: "\<exists>a out. P (fold body [0..<i] st) = (a, out) \<and> lane_at (last xs) xs c out0 l i a out \<and> Q i (fold body [0..<i] st)"
    if "i \<le> Suc l" for i
    using that
  proof (induction i)
    case 0
    then show ?case using start by (simp add: lane_at_0)
  next
    case (Suc i)
    then obtain a out where IH: "P (fold body [0..<i] st) = (a, out)" "lane_at (last xs) xs c out0 l i a out" "Q i (fold body [0..<i] st)"
      by auto
    obtain a' out' where t: "lane_turn (xs ! i) l i a out = (a', out')" by fastforce
    then show ?case
      using turn [OF _ IH(2,1,3)] lane_at_Suc [OF IH(2) _ len(1)] Suc.prems len(2) by simp
  qed
  from run [of "l + 1"] show ?thesis using that by auto
qed

text \<open>The same for a lane that finishes: the results of the kernel.\<close>

lemma lane_kernel:
  fixes body :: "nat \<Rightarrow> 's \<Rightarrow> 's" and P :: "'s \<Rightarrow> civic_yp2_state \<times> blk list"
  assumes len: "length xs = Suc l" "length out0 = Suc l"
    and m: "mix Pass2 xs (Some c) = (res, Some d)"
    and start: "P st = (lane_of (last xs) c, out0)" "Q 0 st"
    and turn: "\<And>i st a out. i \<le> l \<Longrightarrow> lane_at (last xs) xs c out0 l i a out \<Longrightarrow> P st = (a, out) \<Longrightarrow> Q i st \<Longrightarrow>
      P (body i st) = lane_turn (xs ! i) l i a out \<and> Q (Suc i) (body i st)"
    and F: "fold body [0..<l + 1] st = F" "P F = (a, out)"
  shows "civic_yp2_finish_salsa l a out = res \<and> civic_yp2_ctx_store c a = d \<and> yp2_result res l = last_word res \<and> Q (Suc l) F"
proof -
  obtain a' out' where A: "P (fold body [0..<l + 1] st) = (a', out')" "lane_at (last xs) xs c out0 l (Suc l) a' out'"
    "Q (Suc l) (fold body [0..<l + 1] st)"
    by (rule lane_loop [OF len start turn])
  then have eq: "a' = a" "out' = out" using F by simp_all
  have "length res = Suc l"
    using length_mix [of xs Pass2 "Some c"] len(1) m by (auto simp flip: length_greater_0_conv)
  then show ?thesis
    using lane_finish [OF A(2) len m] A(3) F(1) yp2_result_last [of res l] eq by simp
qed

section \<open>One lane alone\<close>

text \<open>\<open>civic_pwxform_1way\<close> and the kernels of \<open>CIVIC_ONEWAY\<close>.\<close>

definition CIVIC_Y1_STEP :: "nat \<Rightarrow> civic_yp2_state \<Rightarrow> civic_yp2_state" where
  "CIVIC_Y1_STEP I a =
    (let xa = EXTRACT64 (yx a ! I) AND Smask2 Pass2;
         H = mm_srli_si128_4 (yx a ! I);
         X = mm_mul_epu32 H (yx a ! I);
         X = mm_add_epi64 X (ld128 (ySm a) (yS0 a + idx_lo xa))
     in a\<lparr>yx := (yx a)[I := mm_xor_si128 X (ld128 (ySm a) (yS1 a + idx_hi xa))]\<rparr>)"

definition CIVIC_Y1_STEP_WRITE :: "nat \<Rightarrow> (civic_yp2_state \<Rightarrow> nat) \<Rightarrow> civic_yp2_state \<Rightarrow> civic_yp2_state" where
  "CIVIC_Y1_STEP_WRITE I member a =
    (let xa = EXTRACT64 (yx a ! I) AND Smask2 Pass2;
         H = mm_srli_si128_4 (yx a ! I);
         X = mm_mul_epu32 H (yx a ! I);
         X = mm_add_epi64 X (ld128 (ySm a) (yS0 a + idx_lo xa));
         a = a\<lparr>yx := (yx a)[I := mm_xor_si128 X (ld128 (ySm a) (yS1 a + idx_hi xa))]\<rparr>
     in yp2_store I member a)"

definition civic_pwxform_1way :: "civic_yp2_state \<Rightarrow> civic_yp2_state" where
  "civic_pwxform_1way a =
    (let a = CIVIC_Y1_STEP_WRITE 0 yS0 a;
         a = CIVIC_Y1_STEP_WRITE 1 yS1 a;
         a = a\<lparr>yw := yw a + 16\<rparr>;
         a = CIVIC_Y1_STEP_WRITE 2 yS0 a;
         a = CIVIC_Y1_STEP_WRITE 3 yS1 a;
         a = a\<lparr>yw := yw a + 16\<rparr>;
         a = CIVIC_Y1_STEP_WRITE 0 yS0 a;
         a = CIVIC_Y1_STEP_WRITE 1 yS1 a;
         a = a\<lparr>yw := yw a + 16\<rparr>;
         a = CIVIC_Y1_STEP 2 a;
         a = CIVIC_Y1_STEP 3 a;
         a = CIVIC_Y1_STEP_WRITE 0 yS0 a;
         a = CIVIC_Y1_STEP_WRITE 1 yS1 a;
         a = a\<lparr>yw := yw a + 16\<rparr>;
         a = CIVIC_Y1_STEP 2 a;
         a = CIVIC_Y1_STEP 3 a
     in yp2_turn a)"

lemma Y1_STEP: "CIVIC_Y1_STEP I a = lane_step I a"
  by (simp add: CIVIC_Y1_STEP_def lane_step_def PWXFORM_SIMD_def Let_def idx_lo_def idx_hi_def)

lemma Y1_STEP_WRITE: "CIVIC_Y1_STEP_WRITE I m a = lane_write I m a"
  by (simp add: CIVIC_Y1_STEP_WRITE_def lane_write_def lane_step_def PWXFORM_SIMD_def Let_def idx_lo_def idx_hi_def)

lemma pwxform_1way: "civic_pwxform_1way a = lane_pwxform a"
  by (simp only: civic_pwxform_1way_def lane_pwxform_def Y1_STEP Y1_STEP_WRITE Let_def flip: lane_bump_def)

definition blockmix_1way_body :: "blk list \<Rightarrow> nat \<Rightarrow> nat \<Rightarrow> civic_yp2_state \<times> blk list \<Rightarrow> civic_yp2_state \<times> blk list" where
  "blockmix_1way_body Bin last_i i st = (case st of (a, Bout) \<Rightarrow>
    (let a = civic_yp2_xor a (Bin ! i);
         a = civic_pwxform_1way a;
         Bout = (if i \<noteq> last_i then civic_yp2_write i a Bout else Bout)
     in (a, Bout)))"

definition civic_blockmix_1way :: "blk list \<Rightarrow> blk list \<Rightarrow> pwxform_ctx \<Rightarrow> nat \<Rightarrow> blk list \<times> pwxform_ctx" where
  "civic_blockmix_1way Bin Bout ctx r =
    (let last_i = r * 2 - 1;
         a = civic_yp2_read yp2_uninit (Bin ! last_i);
         a = civic_yp2_ctx_load a ctx;
         (a, Bout) = fold (blockmix_1way_body Bin last_i) [0..<last_i + 1] (a, Bout);
         ctx = civic_yp2_ctx_store ctx a;
         Bout = civic_yp2_finish_salsa last_i a Bout
     in (Bout, ctx))"

text \<open>The pipelined kernels: \<open>v\<close> is the block of \<open>Bin2\<close> to be used, \<open>nv\<close> the one loaded ahead.  The
  four lanes \<open>q\<close> of a block are independent, so a loop over them is one block operation.\<close>

definition blockmix_xor_1way_pipe_body :: "blk list \<Rightarrow> blk list \<Rightarrow> nat \<Rightarrow> nat \<Rightarrow>
    (civic_yp2_state \<times> blk \<times> blk) \<times> blk list \<Rightarrow> (civic_yp2_state \<times> blk \<times> blk) \<times> blk list" where
  "blockmix_xor_1way_pipe_body Bin1 Bin2 last_i i st = (case st of ((a, v, nv), Bout) \<Rightarrow>
    (let nv = (if i \<noteq> last_i then Bin2 ! (i + 1) else nv);
         ya = XOR_X v (Bin1 ! i);
         a = civic_yp2_xor a ya;
         a = civic_pwxform_1way a;
         Bout = (if i \<noteq> last_i then civic_yp2_write i a Bout else Bout);
         v = nv
     in ((a, v, nv), Bout)))"

definition civic_blockmix_xor_1way_pipe :: "blk list \<Rightarrow> blk list \<Rightarrow> blk list \<Rightarrow> pwxform_ctx \<Rightarrow> nat \<Rightarrow>
    blk list \<times> pwxform_ctx \<times> nat" where
  "civic_blockmix_xor_1way_pipe Bin1 Bin2 Bout ctx r =
    (let last_i = r * 2 - 1;
         a = civic_yp2_xor (civic_yp2_read yp2_uninit (Bin1 ! last_i)) (Bin2 ! last_i);
         a = civic_yp2_ctx_load a ctx;
         v = Bin2 ! 0;
         ((a, _, _), Bout) = fold (blockmix_xor_1way_pipe_body Bin1 Bin2 last_i) [0..<last_i + 1] ((a, v, v), Bout);
         ctx = civic_yp2_ctx_store ctx a;
         Bout = civic_yp2_finish_salsa last_i a Bout
     in (Bout, ctx, yp2_result Bout last_i))"

definition blockmix_xor_save_1way_pipe_body :: "nat \<Rightarrow> nat \<Rightarrow>
    (civic_yp2_state \<times> blk \<times> blk) \<times> blk list \<times> blk list \<Rightarrow> (civic_yp2_state \<times> blk \<times> blk) \<times> blk list \<times> blk list" where
  "blockmix_xor_save_1way_pipe_body last_i i st = (case st of ((a, v, nv), Bin1out, Bin2) \<Rightarrow>
    (let nv = (if i \<noteq> last_i then Bin2 ! (i + 1) else nv);
         ya = XOR_X v (Bin1out ! i);
         Bin2 = Bin2[i := ya];
         a = civic_yp2_xor a ya;
         a = civic_pwxform_1way a;
         Bin1out = (if i \<noteq> last_i then civic_yp2_write i a Bin1out else Bin1out);
         v = nv
     in ((a, v, nv), Bin1out, Bin2)))"

definition civic_blockmix_xor_save_1way_pipe :: "blk list \<Rightarrow> blk list \<Rightarrow> pwxform_ctx \<Rightarrow> nat \<Rightarrow>
    blk list \<times> blk list \<times> pwxform_ctx \<times> nat" where
  "civic_blockmix_xor_save_1way_pipe Bin1out Bin2 ctx r =
    (let last_i = r * 2 - 1;
         a = civic_yp2_xor (civic_yp2_read yp2_uninit (Bin1out ! last_i)) (Bin2 ! last_i);
         a = civic_yp2_ctx_load a ctx;
         v = Bin2 ! 0;
         ((a, _, _), Bin1out, Bin2) = fold (blockmix_xor_save_1way_pipe_body last_i) [0..<last_i + 1] ((a, v, v), Bin1out, Bin2);
         ctx = civic_yp2_ctx_store ctx a;
         Bin1out = civic_yp2_finish_salsa last_i a Bin1out
     in (Bin1out, Bin2, ctx, yp2_result Bin1out last_i))"

text \<open>What a lane has read and saved: while the loop runs, the table row holds the sums below \<open>i\<close>.\<close>

lemma saved_Suc:
  assumes "B = put_at 0 (take i xs) B0" "i < length xs" "length xs = length B0"
  shows "B[i := xs ! i] = put_at 0 (take (Suc i) xs) B0"
  using put_at_take_Suc [OF assms(2,3)] assms(1) by simp

lemma saved_ahead:
  assumes "B = put_at 0 (take i xs) B0" "i \<le> j" "j < length B0"
  shows "B ! j = B0 ! j"
  using assms by (simp add: nth_put_at)

lemma saved_all: "B = put_at 0 (take (length xs) xs) B0 \<Longrightarrow> length xs = length B0 \<Longrightarrow> B = xs"
  by (simp add: put_at_full)

lemma blockmix_1way_eq:
  assumes "0 < r" "length A = 2 * r" "length out0 = 2 * r"
  shows "civic_blockmix_1way A out0 c r = lane_blockmix A out0 c r"
proof -
  let ?l = "r * 2 - 1"
  have len: "length A = Suc ?l" "length out0 = Suc ?l" using assms by simp_all
  obtain res d where m: "mix Pass2 A (Some c) = (res, Some d)" using mix_Some by blast
  obtain a b where F: "fold (blockmix_1way_body A ?l) [0..<?l + 1] (lane_of (last A) c, out0) = (a, b)" by fastforce
  have turn: "blockmix_1way_body A ?l i st = lane_turn (A ! i) ?l i e out" if "st = (e, out)" for i st e out
    using that by (simp add: blockmix_1way_body_def lane_turn_def pwxform_1way Let_def)
  have K: "civic_yp2_finish_salsa ?l a b = res" "civic_yp2_ctx_store c a = d"
    using lane_kernel [OF len m, of "\<lambda>s. s" "(lane_of (last A) c, out0)" "\<lambda>_ _. True", OF _ _ _ F] turn by simp_all
  show ?thesis
    unfolding civic_blockmix_1way_def Let_def yp2_start_of last_2r [OF assms(2,1)] F prod.case K
    by (simp add: lane_blockmix_def blockmix_eq_mix [OF assms, of "Some c"] m)
qed

lemma blockmix_xor_1way_eq:
  assumes "0 < r" "length A = 2 * r" "length B = 2 * r" "length out0 = 2 * r"
  shows "civic_blockmix_xor_1way_pipe A B out0 c r = lane_blockmix_xor A B out0 c r"
proof -
  let ?l = "r * 2 - 1" and ?x = "xor_blocks A B"
  let ?body = "blockmix_xor_1way_pipe_body A B ?l" and ?st = "((lane_of (last ?x) c, B ! 0, B ! 0), out0)"
  have len: "length ?x = Suc ?l" "length out0 = Suc ?l" using assms by simp_all
  obtain res d where m: "mix Pass2 ?x (Some c) = (res, Some d)" using mix_Some by blast
  obtain a v nv b where F: "fold ?body [0..<?l + 1] ?st = ((a, v, nv), b)" by (metis prod.exhaust)
  let ?P = "\<lambda>st. (fst (fst st), snd st)" and ?Q = "\<lambda>i st. i \<le> ?l \<longrightarrow> fst (snd (fst st)) = B ! i"
  have turn: "?P (?body i st) = lane_turn (?x ! i) ?l i e out \<and> ?Q (Suc i) (?body i st)"
    if "i \<le> ?l" "?P st = (e, out)" "?Q i st" for i st e out
    using that assms by (cases st) (auto simp: blockmix_xor_1way_pipe_body_def lane_turn_def pwxform_1way Let_def XOR_X_commute)
  have "civic_yp2_finish_salsa ?l a b = res \<and> civic_yp2_ctx_store c a = d \<and> yp2_result res ?l = last_word res \<and> ?Q (Suc ?l) ((a, v, nv), b)"
    by (rule lane_kernel [OF len m, of ?P ?st ?Q ?body]) (simp, simp, rule turn, assumption+, rule F, simp)
  then have k: "civic_yp2_finish_salsa ?l a b = res" "civic_yp2_ctx_store c a = d" "yp2_result res ?l = last_word res"
    by blast+
  show ?thesis
    unfolding civic_blockmix_xor_1way_pipe_def Let_def yp2_start_of last_xor_2r [OF assms(2,3,1)] F prod.case k
    by (simp add: lane_blockmix_xor_def blockmix_xor_eq_mix [OF assms _ m])
qed

lemma blockmix_xor_save_1way_eq:
  assumes "0 < r" "length A = 2 * r" "length B = 2 * r"
  shows "civic_blockmix_xor_save_1way_pipe A B c r = blockmix_xor_save Pass2 A B r c"
proof -
  let ?l = "r * 2 - 1" and ?x = "xor_blocks A B"
  let ?body = "blockmix_xor_save_1way_pipe_body ?l" and ?st = "((lane_of (last ?x) c, B ! 0, B ! 0), A, B)"
  have len: "length ?x = Suc ?l" "length A = Suc ?l" "length B = Suc ?l" using assms by simp_all
  obtain res d where m: "mix Pass2 ?x (Some c) = (res, Some d)" using mix_Some by blast
  obtain a v nv b s where F: "fold ?body [0..<?l + 1] ?st = ((a, v, nv), b, s)" by (metis prod.exhaust)
  let ?P = "\<lambda>st. (fst (fst st), fst (snd st))"
  let ?Q = "\<lambda>i st. (i \<le> ?l \<longrightarrow> fst (snd (fst st)) = B ! i) \<and> snd (snd st) = put_at 0 (take i ?x) B"
  have turn: "?P (?body i st) = lane_turn (?x ! i) ?l i e out \<and> ?Q (Suc i) (?body i st)"
    if i: "i \<le> ?l" and at: "lane_at (last ?x) ?x c A ?l i e out" and P: "?P st = (e, out)" and Q: "?Q i st" for i st e out
  proof -
    obtain v nv s where st: "st = ((e, v, nv), out, s)" using P by (cases st) auto
    have v: "v = B ! i" and s: "s = put_at 0 (take i ?x) B" using Q i st by simp_all
    have x: "?x ! i = XOR_X v (out ! i)" using i len lane_at_old [OF at i len(1,2)] v by (simp add: XOR_X_commute)
    have "s[i := ?x ! i] = put_at 0 (take (Suc i) ?x) B" using saved_Suc [OF s] i len by simp
    moreover have "i \<noteq> ?l \<Longrightarrow> s ! Suc i = B ! Suc i" using saved_ahead [OF s] i len by simp
    ultimately show ?thesis
      by (simp add: st blockmix_xor_save_1way_pipe_body_def lane_turn_def pwxform_1way Let_def flip: x)
  qed
  have K: "civic_yp2_finish_salsa ?l a b = res \<and> civic_yp2_ctx_store c a = d \<and> yp2_result res ?l = last_word res
      \<and> ?Q (Suc ?l) ((a, v, nv), b, s)"
    by (rule lane_kernel [OF len(1,2) m, of ?P ?st ?Q ?body]) (simp, simp, rule turn, assumption+, rule F, simp)
  have k: "civic_yp2_finish_salsa ?l a b = res" "civic_yp2_ctx_store c a = d" "yp2_result res ?l = last_word res" "s = ?x"
    using K saved_all [of s ?x B] len by simp_all
  show ?thesis
    unfolding civic_blockmix_xor_save_1way_pipe_def Let_def yp2_start_of last_xor_2r [OF assms(2,3,1)] F prod.case k
      blockmix_xor_save_eq_mix [OF assms m] by (rule refl)
qed

text \<open>The one-lane kernels without the pipeline, to which the unpipelined kernels for several lanes reduce.\<close>

definition lane_xor_body :: "blk list \<Rightarrow> blk list \<Rightarrow> nat \<Rightarrow> nat \<Rightarrow> civic_yp2_state \<times> blk list \<Rightarrow> civic_yp2_state \<times> blk list" where
  "lane_xor_body Bin1 Bin2 last_i i st = (case st of (a, Bout) \<Rightarrow> lane_turn (XOR_X (Bin2 ! i) (Bin1 ! i)) last_i i a Bout)"

definition lane_save_body :: "nat \<Rightarrow> nat \<Rightarrow> civic_yp2_state \<times> blk list \<times> blk list \<Rightarrow> civic_yp2_state \<times> blk list \<times> blk list" where
  "lane_save_body last_i i st = (case st of (a, Bin1out, Bin2) \<Rightarrow>
    (let ya = XOR_X (Bin2 ! i) (Bin1out ! i);
         (a, Bin1out) = lane_turn ya last_i i a Bin1out
     in (a, Bin1out, Bin2[i := ya])))"

lemma lane_xor_kernel:
  assumes "0 < r" "length A = 2 * r" "length B = 2 * r" "length out0 = 2 * r"
    and "fold (lane_xor_body A B (r * 2 - 1)) [0..<r * 2 - 1 + 1] (lane_of (last (xor_blocks A B)) c, out0) = (a, out)"
  shows "(civic_yp2_finish_salsa (r * 2 - 1) a out, civic_yp2_ctx_store c a, yp2_result (civic_yp2_finish_salsa (r * 2 - 1) a out) (r * 2 - 1))
    = lane_blockmix_xor A B out0 c r"
proof -
  let ?l = "r * 2 - 1" and ?x = "xor_blocks A B"
  have len: "length ?x = Suc ?l" "length out0 = Suc ?l" using assms by simp_all
  obtain res d where m: "mix Pass2 ?x (Some c) = (res, Some d)" using mix_Some by blast
  have turn: "lane_xor_body A B ?l i st = lane_turn (?x ! i) ?l i e out'" if "st = (e, out')" "i \<le> ?l" for i st e out'
    using that assms by (simp add: lane_xor_body_def XOR_X_commute)
  have "civic_yp2_finish_salsa ?l a out = res" "civic_yp2_ctx_store c a = d" "yp2_result res ?l = last_word res"
    using lane_kernel [OF len m, of "\<lambda>s. s" "(lane_of (last ?x) c, out0)" "\<lambda>_ _. True", OF _ _ _ assms(5)] turn by simp_all
  then show ?thesis by (simp add: lane_blockmix_xor_def blockmix_xor_eq_mix [OF assms(1-4) _ m])
qed

lemma lane_save_kernel:
  assumes "0 < r" "length A = 2 * r" "length B = 2 * r"
    and F: "fold (lane_save_body (r * 2 - 1)) [0..<r * 2 - 1 + 1] (lane_of (last (xor_blocks A B)) c, A, B) = (a, out, s)"
  shows "(civic_yp2_finish_salsa (r * 2 - 1) a out, s, civic_yp2_ctx_store c a, yp2_result (civic_yp2_finish_salsa (r * 2 - 1) a out) (r * 2 - 1))
    = blockmix_xor_save Pass2 A B r c"
proof -
  let ?l = "r * 2 - 1" and ?x = "xor_blocks A B"
  have len: "length ?x = Suc ?l" "length A = Suc ?l" "length B = Suc ?l" using assms by simp_all
  obtain res d where m: "mix Pass2 ?x (Some c) = (res, Some d)" using mix_Some by blast
  let ?P = "\<lambda>st. (fst st, fst (snd st))" and ?Q = "\<lambda>i st. snd (snd st) = put_at 0 (take i ?x) B"
  have turn: "?P (lane_save_body ?l i st) = lane_turn (?x ! i) ?l i e out \<and> ?Q (Suc i) (lane_save_body ?l i st)"
    if i: "i \<le> ?l" and at: "lane_at (last ?x) ?x c A ?l i e out" and P: "?P st = (e, out)" and Q: "?Q i st" for i st e out
  proof -
    obtain s where st: "st = (e, out, s)" using P by (cases st) auto
    have s: "s = put_at 0 (take i ?x) B" using Q st by simp
    have x: "?x ! i = XOR_X (s ! i) (out ! i)"
      using i len lane_at_old [OF at i len(1,2)] saved_ahead [OF s] by (simp add: XOR_X_commute)
    have "s[i := ?x ! i] = put_at 0 (take (Suc i) ?x) B" using saved_Suc [OF s] i len by simp
    then show ?thesis by (simp add: st lane_save_body_def Let_def split: prod.split flip: x)
  qed
  have K: "civic_yp2_finish_salsa ?l a out = res \<and> civic_yp2_ctx_store c a = d \<and> yp2_result res ?l = last_word res \<and> ?Q (Suc ?l) (a, out, s)"
    by (rule lane_kernel [OF len(1,2) m, of ?P "(lane_of (last ?x) c, A, B)" ?Q "lane_save_body ?l"])
      (simp, simp, rule turn, assumption+, rule F, simp)
  then have "s = ?x" using saved_all [of s ?x B] len by simp
  with K show ?thesis by (simp add: blockmix_xor_save_eq_mix [OF assms(1-3) m])
qed

text \<open>A loop on several lanes that do not touch each other is the tuple of their loops.\<close>

lemma fold_join2:
  assumes "\<And>i x y. i \<in> set is \<Longrightarrow> f i (J x y) = J (g i x) (h i y)"
  shows "fold f is (J x y) = J (fold g is x) (fold h is y)"
  using assms by (induction "is" arbitrary: x y) simp_all

end
