(* ===== verification/Soj_Yp2Kernels.thy ===== *)
theory Soj_Yp2Kernels
  imports Soj_Lane
begin

text \<open>The two-lane kernels of \<open>yespower-opt.c\<close>: two hashes are mixed at once so that one lane computes
  while the other waits for memory.  A lane's S-box region is part of its state; the lanes
  share nothing.  Modelled are the PWXFORM step per lane and packed in 256 bits, the PWXFORM in its
  two orders, and the production kernels with their software pipelines.  Each lane is proved
  to compute what the one-lane mixers compute.\<close>

section \<open>256-bit registers\<close>

type_synonym ymm = "xmm \<times> xmm"

definition mm256_set_m128i :: "xmm \<Rightarrow> xmm \<Rightarrow> ymm" where
  "mm256_set_m128i hi lo = (lo, hi)"

definition ymm_map :: "(xmm \<Rightarrow> xmm) \<Rightarrow> ymm \<Rightarrow> ymm" where
  "ymm_map f x = (f (fst x), f (snd x))"

definition ymm_map2 :: "(xmm \<Rightarrow> xmm \<Rightarrow> xmm) \<Rightarrow> ymm \<Rightarrow> ymm \<Rightarrow> ymm" where
  "ymm_map2 f x y = (f (fst x) (fst y), f (snd x) (snd y))"

section \<open>The PWXFORM step of both lanes\<close>

definition civic_pwx_1_0_2way :: "xmm \<Rightarrow> xmm \<Rightarrow> xmm list \<Rightarrow> nat \<Rightarrow> nat \<Rightarrow> xmm list \<Rightarrow> nat \<Rightarrow> nat \<Rightarrow> xmm \<times> xmm" where
  "civic_pwx_1_0_2way Xa Xb Ma S0a S1a Mb S0b S1b =
    (let xa = EXTRACT64 Xa AND Smask2 Pass2;
         xb = EXTRACT64 Xb AND Smask2 Pass2;
         H = mm_srli_si128_4 Xa;
         X = mm_mul_epu32 H Xa;
         X = mm_add_epi64 X (ld128 Ma (S0a + idx_lo xa));
         Xa = mm_xor_si128 X (ld128 Ma (S1a + idx_hi xa));
         H = mm_srli_si128_4 Xb;
         X = mm_mul_epu32 H Xb;
         X = mm_add_epi64 X (ld128 Mb (S0b + idx_lo xb));
         Xb = mm_xor_si128 X (ld128 Mb (S1b + idx_hi xb))
     in (Xa, Xb))"

text \<open>The build with \<open>CIVIC_PWX_PACKED\<close>.\<close>

definition civic_pwx_idx :: "xmm \<Rightarrow> u64" where
  "civic_pwx_idx X = EXTRACT64 X AND Smask2 Pass2"

definition civic_pwx_sload :: "xmm list \<Rightarrow> nat \<Rightarrow> nat \<Rightarrow> xmm list \<Rightarrow> nat \<Rightarrow> nat \<Rightarrow> u64 \<Rightarrow> u64 \<Rightarrow> ymm \<times> ymm" where
  "civic_pwx_sload Ma S0a S1a Mb S0b S1b xa xb =
    (mm256_set_m128i (ld128 Mb (S0b + idx_lo xb)) (ld128 Ma (S0a + idx_lo xa)),
     mm256_set_m128i (ld128 Mb (S1b + idx_hi xb)) (ld128 Ma (S1a + idx_hi xa)))"

definition civic_pwx_alu :: "ymm \<Rightarrow> ymm \<Rightarrow> ymm \<Rightarrow> xmm \<times> xmm" where
  "civic_pwx_alu X add xorv =
    (let H = ymm_map mm_srli_si128_4 X;
         X = ymm_map2 mm_mul_epu32 H X;
         X = ymm_map2 mm_add_epi64 X add;
         X = ymm_map2 mm_xor_si128 X xorv
     in (fst X, snd X))"

definition civic_pwx_1_0_2way_packed :: "xmm \<Rightarrow> xmm \<Rightarrow> xmm list \<Rightarrow> nat \<Rightarrow> nat \<Rightarrow> xmm list \<Rightarrow> nat \<Rightarrow> nat \<Rightarrow> xmm \<times> xmm" where
  "civic_pwx_1_0_2way_packed Xa Xb Ma S0a S1a Mb S0b S1b =
    (let xa = civic_pwx_idx Xa;
         xb = civic_pwx_idx Xb;
         X = mm256_set_m128i Xb Xa;
         (add, xorv) = civic_pwx_sload Ma S0a S1a Mb S0b S1b xa xb
     in civic_pwx_alu X add xorv)"

type_synonym yp2_pair = "civic_yp2_state \<times> civic_yp2_state"

definition CIVIC_YP2_STEP :: "nat \<Rightarrow> yp2_pair \<Rightarrow> yp2_pair" where
  "CIVIC_YP2_STEP I ab = (case ab of (a, b) \<Rightarrow>
    (let (Xa, Xb) = civic_pwx_1_0_2way (yx a ! I) (yx b ! I) (ySm a) (yS0 a) (yS1 a) (ySm b) (yS0 b) (yS1 b)
     in (a\<lparr>yx := (yx a)[I := Xa]\<rparr>, b\<lparr>yx := (yx b)[I := Xb]\<rparr>)))"

definition CIVIC_YP2_STEP_WRITE :: "nat \<Rightarrow> (civic_yp2_state \<Rightarrow> nat) \<Rightarrow> yp2_pair \<Rightarrow> yp2_pair" where
  "CIVIC_YP2_STEP_WRITE I member ab = (case CIVIC_YP2_STEP I ab of (a, b) \<Rightarrow>
    (yp2_store I member a, yp2_store I member b))"

text \<open>The interleaved step: both lanes' loads come before both lanes' arithmetic.\<close>

definition CIVIC_ILV_STEP :: "nat \<Rightarrow> (civic_yp2_state \<Rightarrow> nat) \<Rightarrow> yp2_pair \<Rightarrow> yp2_pair" where
  "CIVIC_ILV_STEP I member ab = (case ab of (a, b) \<Rightarrow>
    (let xa = EXTRACT64 (yx a ! I) AND Smask2 Pass2;
         xb = EXTRACT64 (yx b ! I) AND Smask2 Pass2;
         adda = ld128 (ySm a) (yS0 a + idx_lo xa);
         addb = ld128 (ySm b) (yS0 b + idx_lo xb);
         xora = ld128 (ySm a) (yS1 a + idx_hi xa);
         xorb = ld128 (ySm b) (yS1 b + idx_hi xb);
         Ya = mm_mul_epu32 (mm_srli_si128_4 (yx a ! I)) (yx a ! I);
         Yb = mm_mul_epu32 (mm_srli_si128_4 (yx b ! I)) (yx b ! I);
         a = a\<lparr>yx := (yx a)[I := mm_xor_si128 (mm_add_epi64 Ya adda) xora]\<rparr>;
         b = b\<lparr>yx := (yx b)[I := mm_xor_si128 (mm_add_epi64 Yb addb) xorb]\<rparr>
     in (yp2_store I member a, yp2_store I member b)))"

definition yp2_bump :: "yp2_pair \<Rightarrow> yp2_pair" where
  "yp2_bump ab = (case ab of (a, b) \<Rightarrow> (a\<lparr>yw := yw a + 16\<rparr>, b\<lparr>yw := yw b + 16\<rparr>))"

definition civic_pwxform_2way :: "yp2_pair \<Rightarrow> yp2_pair" where
  "civic_pwxform_2way ab =
    (let ab = CIVIC_YP2_STEP_WRITE 0 yS0 ab;
         ab = CIVIC_YP2_STEP_WRITE 1 yS1 ab;
         ab = yp2_bump ab;
         ab = CIVIC_YP2_STEP_WRITE 2 yS0 ab;
         ab = CIVIC_YP2_STEP_WRITE 3 yS1 ab;
         ab = yp2_bump ab;
         ab = CIVIC_YP2_STEP_WRITE 0 yS0 ab;
         ab = CIVIC_YP2_STEP_WRITE 1 yS1 ab;
         ab = yp2_bump ab;
         ab = CIVIC_YP2_STEP 2 ab;
         ab = CIVIC_YP2_STEP 3 ab;
         ab = CIVIC_YP2_STEP_WRITE 0 yS0 ab;
         ab = CIVIC_YP2_STEP_WRITE 1 yS1 ab;
         ab = yp2_bump ab;
         ab = CIVIC_YP2_STEP 2 ab;
         ab = CIVIC_YP2_STEP 3 ab
     in (case ab of (a, b) \<Rightarrow> (yp2_turn a, yp2_turn b)))"

definition civic_pwxform_2way_ilv :: "yp2_pair \<Rightarrow> yp2_pair" where
  "civic_pwxform_2way_ilv ab =
    (let ab = CIVIC_ILV_STEP 0 yS0 ab;
         ab = CIVIC_ILV_STEP 1 yS1 ab;
         ab = yp2_bump ab;
         ab = CIVIC_ILV_STEP 2 yS0 ab;
         ab = CIVIC_ILV_STEP 3 yS1 ab;
         ab = yp2_bump ab;
         ab = CIVIC_ILV_STEP 0 yS0 ab;
         ab = CIVIC_ILV_STEP 1 yS1 ab;
         ab = yp2_bump ab;
         ab = CIVIC_YP2_STEP 2 ab;
         ab = CIVIC_YP2_STEP 3 ab;
         ab = CIVIC_ILV_STEP 0 yS0 ab;
         ab = CIVIC_ILV_STEP 1 yS1 ab;
         ab = yp2_bump ab;
         ab = CIVIC_YP2_STEP 2 ab;
         ab = CIVIC_YP2_STEP 3 ab
     in (case ab of (a, b) \<Rightarrow> (yp2_turn a, yp2_turn b)))"

section \<open>The two-lane kernels\<close>

text \<open>\<open>for (i = 0; i <= last; ++i)\<close>\<close>

definition blockmix_2way_body :: "blk list \<Rightarrow> blk list \<Rightarrow> nat \<Rightarrow> nat \<Rightarrow>
    yp2_pair \<times> blk list \<times> blk list \<Rightarrow> yp2_pair \<times> blk list \<times> blk list" where
  "blockmix_2way_body Bin0 Bin1 last_i i st = (case st of ((a, b), Bout0, Bout1) \<Rightarrow>
    (let a = civic_yp2_xor a (Bin0 ! i);
         b = civic_yp2_xor b (Bin1 ! i);
         (a, b) = civic_pwxform_2way_ilv (a, b);
         (Bout0, Bout1) = (if i \<noteq> last_i then (civic_yp2_write i a Bout0, civic_yp2_write i b Bout1) else (Bout0, Bout1))
     in ((a, b), Bout0, Bout1)))"

definition civic_blockmix_2way :: "blk list \<Rightarrow> blk list \<Rightarrow> pwxform_ctx \<Rightarrow> blk list \<Rightarrow> blk list \<Rightarrow> pwxform_ctx \<Rightarrow> nat \<Rightarrow>
    (blk list \<times> pwxform_ctx) \<times> (blk list \<times> pwxform_ctx)" where
  "civic_blockmix_2way Bin0 Bout0 ctx0 Bin1 Bout1 ctx1 r =
    (let last_i = r * 2 - 1;
         a = civic_yp2_read yp2_uninit (Bin0 ! last_i);
         b = civic_yp2_read yp2_uninit (Bin1 ! last_i);
         a = civic_yp2_ctx_load a ctx0;
         b = civic_yp2_ctx_load b ctx1;
         ((a, b), Bout0, Bout1) = fold (blockmix_2way_body Bin0 Bin1 last_i) [0..<last_i + 1] ((a, b), Bout0, Bout1);
         ctx0 = civic_yp2_ctx_store ctx0 a;
         ctx1 = civic_yp2_ctx_store ctx1 b;
         Bout0 = civic_yp2_finish_salsa last_i a Bout0;
         Bout1 = civic_yp2_finish_salsa last_i b Bout1
     in ((Bout0, ctx0), (Bout1, ctx1)))"

definition blockmix_xor_2way_body :: "blk list \<Rightarrow> blk list \<Rightarrow> blk list \<Rightarrow> blk list \<Rightarrow> nat \<Rightarrow> nat \<Rightarrow>
    yp2_pair \<times> blk list \<times> blk list \<Rightarrow> yp2_pair \<times> blk list \<times> blk list" where
  "blockmix_xor_2way_body Bin10 Bin20 Bin11 Bin21 last_i i st = (case st of ((a, b), Bout0, Bout1) \<Rightarrow>
    (let a = civic_yp2_xor a (Bin10 ! i);
         a = civic_yp2_xor a (Bin20 ! i);
         b = civic_yp2_xor b (Bin11 ! i);
         b = civic_yp2_xor b (Bin21 ! i);
         (a, b) = civic_pwxform_2way_ilv (a, b);
         (Bout0, Bout1) = (if i \<noteq> last_i then (civic_yp2_write i a Bout0, civic_yp2_write i b Bout1) else (Bout0, Bout1))
     in ((a, b), Bout0, Bout1)))"

definition civic_blockmix_xor_2way :: "blk list \<Rightarrow> blk list \<Rightarrow> blk list \<Rightarrow> pwxform_ctx \<Rightarrow>
    blk list \<Rightarrow> blk list \<Rightarrow> blk list \<Rightarrow> pwxform_ctx \<Rightarrow> nat \<Rightarrow>
    (blk list \<times> pwxform_ctx \<times> nat) \<times> (blk list \<times> pwxform_ctx \<times> nat)" where
  "civic_blockmix_xor_2way Bin10 Bin20 Bout0 ctx0 Bin11 Bin21 Bout1 ctx1 r =
    (let last_i = r * 2 - 1;
         a = civic_yp2_xor (civic_yp2_read yp2_uninit (Bin10 ! last_i)) (Bin20 ! last_i);
         b = civic_yp2_xor (civic_yp2_read yp2_uninit (Bin11 ! last_i)) (Bin21 ! last_i);
         a = civic_yp2_ctx_load a ctx0;
         b = civic_yp2_ctx_load b ctx1;
         ((a, b), Bout0, Bout1) = fold (blockmix_xor_2way_body Bin10 Bin20 Bin11 Bin21 last_i) [0..<last_i + 1] ((a, b), Bout0, Bout1);
         ctx0 = civic_yp2_ctx_store ctx0 a;
         ctx1 = civic_yp2_ctx_store ctx1 b;
         Bout0 = civic_yp2_finish_salsa last_i a Bout0;
         Bout1 = civic_yp2_finish_salsa last_i b Bout1
     in ((Bout0, ctx0, yp2_result Bout0 last_i), (Bout1, ctx1, yp2_result Bout1 last_i)))"

text \<open>The pipelined kernels: \<open>v\<close> is the block of \<open>Bin2\<close> to be used, \<open>nv\<close> the one loaded ahead.
  The four lanes \<open>q\<close> of a block are independent, so a loop over them is one block operation.\<close>

type_synonym yp2_pipe = "yp2_pair \<times> (blk \<times> blk) \<times> (blk \<times> blk)"

definition blockmix_xor_2way_pipe_body :: "blk list \<Rightarrow> blk list \<Rightarrow> blk list \<Rightarrow> blk list \<Rightarrow> nat \<Rightarrow> nat \<Rightarrow>
    yp2_pipe \<times> blk list \<times> blk list \<Rightarrow> yp2_pipe \<times> blk list \<times> blk list" where
  "blockmix_xor_2way_pipe_body Bin10 Bin20 Bin11 Bin21 last_i i st =
    (case st of (((a, b), (v0, v1), (nv0, nv1)), Bout0, Bout1) \<Rightarrow>
    (let (nv0, nv1) = (if i \<noteq> last_i then (Bin20 ! (i + 1), Bin21 ! (i + 1)) else (nv0, nv1));
         ya = XOR_X v0 (Bin10 ! i);
         yb = XOR_X v1 (Bin11 ! i);
         a = civic_yp2_xor a ya;
         b = civic_yp2_xor b yb;
         (a, b) = civic_pwxform_2way_ilv (a, b);
         (Bout0, Bout1) = (if i \<noteq> last_i then (civic_yp2_write i a Bout0, civic_yp2_write i b Bout1) else (Bout0, Bout1));
         (v0, v1) = (nv0, nv1)
     in (((a, b), (v0, v1), (nv0, nv1)), Bout0, Bout1)))"

definition civic_blockmix_xor_2way_pipe :: "blk list \<Rightarrow> blk list \<Rightarrow> blk list \<Rightarrow> pwxform_ctx \<Rightarrow>
    blk list \<Rightarrow> blk list \<Rightarrow> blk list \<Rightarrow> pwxform_ctx \<Rightarrow> nat \<Rightarrow>
    (blk list \<times> pwxform_ctx \<times> nat) \<times> (blk list \<times> pwxform_ctx \<times> nat)" where
  "civic_blockmix_xor_2way_pipe Bin10 Bin20 Bout0 ctx0 Bin11 Bin21 Bout1 ctx1 r =
    (let last_i = r * 2 - 1;
         a = civic_yp2_xor (civic_yp2_read yp2_uninit (Bin10 ! last_i)) (Bin20 ! last_i);
         b = civic_yp2_xor (civic_yp2_read yp2_uninit (Bin11 ! last_i)) (Bin21 ! last_i);
         a = civic_yp2_ctx_load a ctx0;
         b = civic_yp2_ctx_load b ctx1;
         v = (Bin20 ! 0, Bin21 ! 0);
         (((a, b), _, _), Bout0, Bout1) = fold (blockmix_xor_2way_pipe_body Bin10 Bin20 Bin11 Bin21 last_i) [0..<last_i + 1]
            (((a, b), v, v), Bout0, Bout1);
         ctx0 = civic_yp2_ctx_store ctx0 a;
         ctx1 = civic_yp2_ctx_store ctx1 b;
         Bout0 = civic_yp2_finish_salsa last_i a Bout0;
         Bout1 = civic_yp2_finish_salsa last_i b Bout1
     in ((Bout0, ctx0, yp2_result Bout0 last_i), (Bout1, ctx1, yp2_result Bout1 last_i)))"

text \<open>The saving kernel of the walk.  The loop for \<open>r == 8\<close> is the same loop, unrolled by the
  compiler; \<open>Bin1out\<close> and \<open>Bin2\<close> are both written.\<close>

definition blockmix_xor_save_2way_pipe_body :: "nat \<Rightarrow> nat \<Rightarrow>
    yp2_pipe \<times> (blk list \<times> blk list) \<times> (blk list \<times> blk list) \<Rightarrow>
    yp2_pipe \<times> (blk list \<times> blk list) \<times> (blk list \<times> blk list)" where
  "blockmix_xor_save_2way_pipe_body last_i i st =
    (case st of (((a, b), (v0, v1), (nv0, nv1)), (Bin1out0, Bin20), (Bin1out1, Bin21)) \<Rightarrow>
    (let (nv0, nv1) = (if i \<noteq> last_i then (Bin20 ! (i + 1), Bin21 ! (i + 1)) else (nv0, nv1));
         ya = XOR_X v0 (Bin1out0 ! i);
         yb = XOR_X v1 (Bin1out1 ! i);
         Bin20 = Bin20[i := ya];
         Bin21 = Bin21[i := yb];
         a = civic_yp2_xor a ya;
         b = civic_yp2_xor b yb;
         (a, b) = civic_pwxform_2way_ilv (a, b);
         (Bin1out0, Bin1out1) = (if i \<noteq> last_i then (civic_yp2_write i a Bin1out0, civic_yp2_write i b Bin1out1)
            else (Bin1out0, Bin1out1));
         (v0, v1) = (nv0, nv1)
     in (((a, b), (v0, v1), (nv0, nv1)), (Bin1out0, Bin20), (Bin1out1, Bin21))))"

definition civic_blockmix_xor_save_2way_pipe :: "blk list \<Rightarrow> blk list \<Rightarrow> pwxform_ctx \<Rightarrow>
    blk list \<Rightarrow> blk list \<Rightarrow> pwxform_ctx \<Rightarrow> nat \<Rightarrow>
    (blk list \<times> blk list \<times> pwxform_ctx \<times> nat) \<times> (blk list \<times> blk list \<times> pwxform_ctx \<times> nat)" where
  "civic_blockmix_xor_save_2way_pipe Bin1out0 Bin20 ctx0 Bin1out1 Bin21 ctx1 r =
    (let last_i = r * 2 - 1;
         a = civic_yp2_xor (civic_yp2_read yp2_uninit (Bin1out0 ! last_i)) (Bin20 ! last_i);
         b = civic_yp2_xor (civic_yp2_read yp2_uninit (Bin1out1 ! last_i)) (Bin21 ! last_i);
         a = civic_yp2_ctx_load a ctx0;
         b = civic_yp2_ctx_load b ctx1;
         v = (Bin20 ! 0, Bin21 ! 0);
         (((a, b), _, _), (Bin1out0, Bin20), (Bin1out1, Bin21)) = fold (blockmix_xor_save_2way_pipe_body last_i) [0..<last_i + 1]
            (((a, b), v, v), (Bin1out0, Bin20), (Bin1out1, Bin21));
         ctx0 = civic_yp2_ctx_store ctx0 a;
         ctx1 = civic_yp2_ctx_store ctx1 b;
         Bin1out0 = civic_yp2_finish_salsa last_i a Bin1out0;
         Bin1out1 = civic_yp2_finish_salsa last_i b Bin1out1
     in ((Bin1out0, Bin20, ctx0, yp2_result Bin1out0 last_i), (Bin1out1, Bin21, ctx1, yp2_result Bin1out1 last_i)))"

section \<open>Each lane alone\<close>

lemma packed_pwx: "civic_pwx_1_0_2way_packed Xa Xb Ma S0a S1a Mb S0b S1b = civic_pwx_1_0_2way Xa Xb Ma S0a S1a Mb S0b S1b"
  by (simp add: civic_pwx_1_0_2way_packed_def civic_pwx_1_0_2way_def civic_pwx_idx_def civic_pwx_sload_def
      civic_pwx_alu_def ymm_map_def ymm_map2_def mm256_set_m128i_def Let_def)

lemma pwx_2way_lanes:
  "civic_pwx_1_0_2way Xa Xb Ma S0a S1a Mb S0b S1b
    = (PWXFORM_SIMD (Smask2 Pass2) Ma S0a S1a Xa, PWXFORM_SIMD (Smask2 Pass2) Mb S0b S1b Xb)"
  by (simp add: civic_pwx_1_0_2way_def PWXFORM_SIMD_def Let_def idx_lo_def idx_hi_def)

lemma STEP_lanes: "CIVIC_YP2_STEP I (a, b) = (lane_step I a, lane_step I b)"
  by (simp add: CIVIC_YP2_STEP_def pwx_2way_lanes lane_step_def)

lemma STEP_WRITE_lanes: "CIVIC_YP2_STEP_WRITE I m (a, b) = (lane_write I m a, lane_write I m b)"
  by (simp add: CIVIC_YP2_STEP_WRITE_def STEP_lanes lane_write_def)

lemma ILV_STEP_lanes: "CIVIC_ILV_STEP I m (a, b) = (lane_write I m a, lane_write I m b)"
  by (simp add: CIVIC_ILV_STEP_def lane_write_def lane_step_def PWXFORM_SIMD_def Let_def idx_lo_def idx_hi_def)

lemma bump_lanes: "yp2_bump (a, b) = (lane_bump a, lane_bump b)"
  by (simp add: yp2_bump_def lane_bump_def)

lemma pwxform_2way_lanes: "civic_pwxform_2way (a, b) = (lane_pwxform a, lane_pwxform b)"
  by (simp only: civic_pwxform_2way_def STEP_lanes STEP_WRITE_lanes bump_lanes lane_pwxform_def Let_def prod.case)

lemma pwxform_2way_ilv_lanes: "civic_pwxform_2way_ilv (a, b) = (lane_pwxform a, lane_pwxform b)"
  by (simp only: civic_pwxform_2way_ilv_def STEP_lanes ILV_STEP_lanes bump_lanes lane_pwxform_def Let_def prod.case)

section \<open>Two lanes are two one-lane loops\<close>

lemma pipe_exhaust:
  obtains a v nv m where "x = ((a :: 'a, v :: blk, nv :: blk), m :: 'm)"
  by (metis prod.exhaust)

text \<open>The states of two one-lane loops, joined into the state of a loop on both.\<close>

definition join2 :: "civic_yp2_state \<times> blk list \<Rightarrow> civic_yp2_state \<times> blk list \<Rightarrow> yp2_pair \<times> blk list \<times> blk list" where
  "join2 x y = (case (x, y) of ((a, o0), (b, o1)) \<Rightarrow> ((a, b), o0, o1))"

definition join2_pipe :: "(civic_yp2_state \<times> blk \<times> blk) \<times> 'o \<Rightarrow> (civic_yp2_state \<times> blk \<times> blk) \<times> 'o \<Rightarrow> yp2_pipe \<times> 'o \<times> 'o" where
  "join2_pipe x y = (case (x, y) of (((a, v0, nv0), o0), ((b, v1, nv1), o1)) \<Rightarrow> (((a, b), (v0, v1), (nv0, nv1)), o0, o1))"

lemma blockmix_2way_body_join:
  "blockmix_2way_body Bin0 Bin1 l i (join2 x y) = join2 (blockmix_1way_body Bin0 l i x) (blockmix_1way_body Bin1 l i y)"
  by (cases x; cases y)
    (simp add: join2_def blockmix_2way_body_def blockmix_1way_body_def pwxform_2way_ilv_lanes pwxform_1way Let_def)

lemma blockmix_xor_2way_pipe_body_join:
  "blockmix_xor_2way_pipe_body Bin10 Bin20 Bin11 Bin21 l i (join2_pipe x y)
    = join2_pipe (blockmix_xor_1way_pipe_body Bin10 Bin20 l i x) (blockmix_xor_1way_pipe_body Bin11 Bin21 l i y)"
  by (cases x rule: pipe_exhaust; cases y rule: pipe_exhaust)
    (simp add: join2_pipe_def blockmix_xor_2way_pipe_body_def blockmix_xor_1way_pipe_body_def pwxform_2way_ilv_lanes pwxform_1way Let_def)

lemma blockmix_xor_save_2way_pipe_body_join:
  "blockmix_xor_save_2way_pipe_body l i (join2_pipe x y)
    = join2_pipe (blockmix_xor_save_1way_pipe_body l i x) (blockmix_xor_save_1way_pipe_body l i y)"
  by (cases x rule: pipe_exhaust; cases y rule: pipe_exhaust; cases "snd x"; cases "snd y")
    (simp add: join2_pipe_def blockmix_xor_save_2way_pipe_body_def blockmix_xor_save_1way_pipe_body_def pwxform_2way_ilv_lanes pwxform_1way Let_def)

text \<open>So a two-lane kernel is the pair of the one-lane kernels of \<open>CIVIC_ONEWAY\<close>, whatever the data.\<close>

lemma blockmix_2way_1way:
  "civic_blockmix_2way A0 O0 c0 A1 O1 c1 r = (civic_blockmix_1way A0 O0 c0 r, civic_blockmix_1way A1 O1 c1 r)"
proof -
  let ?l = "r * 2 - 1"
  let ?s0 = "(civic_yp2_ctx_load (civic_yp2_read yp2_uninit (A0 ! ?l)) c0, O0)"
  let ?s1 = "(civic_yp2_ctx_load (civic_yp2_read yp2_uninit (A1 ! ?l)) c1, O1)"
  obtain a o0 b o1 where F: "fold (blockmix_1way_body A0 ?l) [0..<?l + 1] ?s0 = (a, o0)" "fold (blockmix_1way_body A1 ?l) [0..<?l + 1] ?s1 = (b, o1)"
    by fastforce
  have "fold (blockmix_2way_body A0 A1 ?l) [0..<?l + 1] (join2 ?s0 ?s1) = join2 (a, o0) (b, o1)"
    unfolding F [symmetric] by (rule fold_join2, rule blockmix_2way_body_join)
  then have G: "fold (blockmix_2way_body A0 A1 ?l) [0..<?l + 1] ((fst ?s0, fst ?s1), O0, O1) = ((a, b), o0, o1)"
    unfolding join2_def prod.case by simp
  show ?thesis
    unfolding civic_blockmix_2way_def civic_blockmix_1way_def Let_def G [unfolded fst_conv] F prod.case by (rule refl)
qed

lemma blockmix_xor_2way_pipe_1way:
  "civic_blockmix_xor_2way_pipe A0 B0 O0 c0 A1 B1 O1 c1 r
    = (civic_blockmix_xor_1way_pipe A0 B0 O0 c0 r, civic_blockmix_xor_1way_pipe A1 B1 O1 c1 r)"
proof -
  let ?l = "r * 2 - 1"
  let ?a = "civic_yp2_ctx_load (civic_yp2_xor (civic_yp2_read yp2_uninit (A0 ! ?l)) (B0 ! ?l)) c0"
  let ?b = "civic_yp2_ctx_load (civic_yp2_xor (civic_yp2_read yp2_uninit (A1 ! ?l)) (B1 ! ?l)) c1"
  let ?s0 = "((?a, B0 ! 0, B0 ! 0), O0)" and ?s1 = "((?b, B1 ! 0, B1 ! 0), O1)"
  obtain a v0 nv0 o0 where F0: "fold (blockmix_xor_1way_pipe_body A0 B0 ?l) [0..<?l + 1] ?s0 = ((a, v0, nv0), o0)" by (rule pipe_exhaust)
  obtain b v1 nv1 o1 where F1: "fold (blockmix_xor_1way_pipe_body A1 B1 ?l) [0..<?l + 1] ?s1 = ((b, v1, nv1), o1)" by (rule pipe_exhaust)
  have "fold (blockmix_xor_2way_pipe_body A0 B0 A1 B1 ?l) [0..<?l + 1] (join2_pipe ?s0 ?s1) = join2_pipe ((a, v0, nv0), o0) ((b, v1, nv1), o1)"
    unfolding F0 [symmetric] F1 [symmetric] by (rule fold_join2, rule blockmix_xor_2way_pipe_body_join)
  then have G: "fold (blockmix_xor_2way_pipe_body A0 B0 A1 B1 ?l) [0..<?l + 1] (((?a, ?b), (B0 ! 0, B1 ! 0), (B0 ! 0, B1 ! 0)), O0, O1)
      = (((a, b), (v0, v1), (nv0, nv1)), o0, o1)"
    unfolding join2_pipe_def prod.case .
  show ?thesis
    unfolding civic_blockmix_xor_2way_pipe_def civic_blockmix_xor_1way_pipe_def Let_def G F0 F1 prod.case by (rule refl)
qed

lemma blockmix_xor_save_2way_pipe_1way:
  "civic_blockmix_xor_save_2way_pipe A0 B0 c0 A1 B1 c1 r
    = (civic_blockmix_xor_save_1way_pipe A0 B0 c0 r, civic_blockmix_xor_save_1way_pipe A1 B1 c1 r)"
proof -
  let ?l = "r * 2 - 1"
  let ?a = "civic_yp2_ctx_load (civic_yp2_xor (civic_yp2_read yp2_uninit (A0 ! ?l)) (B0 ! ?l)) c0"
  let ?b = "civic_yp2_ctx_load (civic_yp2_xor (civic_yp2_read yp2_uninit (A1 ! ?l)) (B1 ! ?l)) c1"
  let ?s0 = "((?a, B0 ! 0, B0 ! 0), A0, B0)" and ?s1 = "((?b, B1 ! 0, B1 ! 0), A1, B1)"
  obtain a v0 nv0 m0 where F0: "fold (blockmix_xor_save_1way_pipe_body ?l) [0..<?l + 1] ?s0 = ((a, v0, nv0), m0)" by (rule pipe_exhaust)
  obtain b v1 nv1 m1 where F1: "fold (blockmix_xor_save_1way_pipe_body ?l) [0..<?l + 1] ?s1 = ((b, v1, nv1), m1)" by (rule pipe_exhaust)
  obtain o0 r0 o1 r1 where m: "m0 = (o0, r0)" "m1 = (o1, r1)" by fastforce
  have "fold (blockmix_xor_save_2way_pipe_body ?l) [0..<?l + 1] (join2_pipe ?s0 ?s1) = join2_pipe ((a, v0, nv0), m0) ((b, v1, nv1), m1)"
    unfolding F0 [symmetric] F1 [symmetric] by (rule fold_join2, rule blockmix_xor_save_2way_pipe_body_join)
  then have G: "fold (blockmix_xor_save_2way_pipe_body ?l) [0..<?l + 1] (((?a, ?b), (B0 ! 0, B1 ! 0), (B0 ! 0, B1 ! 0)), (A0, B0), (A1, B1))
      = (((a, b), (v0, v1), (nv0, nv1)), m0, m1)"
    unfolding join2_pipe_def prod.case .
  show ?thesis
    unfolding civic_blockmix_xor_save_2way_pipe_def civic_blockmix_xor_save_1way_pipe_def Let_def G F0 F1 prod.case m by (rule refl)
qed

text \<open>The unpipelined kernel XORs its two inputs one after the other.\<close>

lemma blockmix_xor_2way_eq:
  assumes "0 < r" "length A0 = 2 * r" "length B0 = 2 * r" "length O0 = 2 * r" "length A1 = 2 * r" "length B1 = 2 * r" "length O1 = 2 * r"
  shows "civic_blockmix_xor_2way A0 B0 O0 c0 A1 B1 O1 c1 r = (lane_blockmix_xor A0 B0 O0 c0 r, lane_blockmix_xor A1 B1 O1 c1 r)"
proof -
  let ?l = "r * 2 - 1" and ?x0 = "xor_blocks A0 B0" and ?x1 = "xor_blocks A1 B1"
  let ?body = "blockmix_xor_2way_body A0 B0 A1 B1 ?l" and ?st = "((lane_of (last ?x0) c0, lane_of (last ?x1) c1), O0, O1)"
  have len: "length ?x0 = Suc ?l" "length O0 = Suc ?l" "length ?x1 = Suc ?l" "length O1 = Suc ?l" using assms by simp_all
  obtain p0 d0 p1 d1 where m: "mix Pass2 ?x0 (Some c0) = (p0, Some d0)" "mix Pass2 ?x1 (Some c1) = (p1, Some d1)"
    using mix_Some by blast
  obtain a b o0 o1 where F: "fold ?body [0..<?l + 1] ?st = ((a, b), o0, o1)" by (metis prod.exhaust)
  let ?P0 = "\<lambda>st. (fst (fst st), fst (snd st))" and ?P1 = "\<lambda>st. (snd (fst st), snd (snd st))"
  have t0: "?P0 (?body i st) = lane_turn (?x0 ! i) ?l i e out \<and> True"
    if "i \<le> ?l" "lane_at (last ?x0) ?x0 c0 O0 ?l i e out" "?P0 st = (e, out)" for i st e out
    using that(1,3) assms lane_xor_twice [OF that(2), of "A0 ! i" "B0 ! i"]
    by (cases st) (auto simp: blockmix_xor_2way_body_def lane_turn_def pwxform_2way_ilv_lanes Let_def)
  have t1: "?P1 (?body i st) = lane_turn (?x1 ! i) ?l i e out \<and> True"
    if "i \<le> ?l" "lane_at (last ?x1) ?x1 c1 O1 ?l i e out" "?P1 st = (e, out)" for i st e out
    using that(1,3) assms lane_xor_twice [OF that(2), of "A1 ! i" "B1 ! i"]
    by (cases st) (auto simp: blockmix_xor_2way_body_def lane_turn_def pwxform_2way_ilv_lanes Let_def)
  have "civic_yp2_finish_salsa ?l a o0 = p0 \<and> civic_yp2_ctx_store c0 a = d0 \<and> yp2_result p0 ?l = last_word p0 \<and> True"
    by (rule lane_kernel [OF len(1,2) m(1), of ?P0 ?st "\<lambda>_ _. True" ?body]) (simp, simp, rule t0, assumption+, rule F, simp)
  moreover have "civic_yp2_finish_salsa ?l b o1 = p1 \<and> civic_yp2_ctx_store c1 b = d1 \<and> yp2_result p1 ?l = last_word p1 \<and> True"
    by (rule lane_kernel [OF len(3,4) m(2), of ?P1 ?st "\<lambda>_ _. True" ?body]) (simp, simp, rule t1, assumption+, rule F, simp)
  ultimately have K: "civic_yp2_finish_salsa ?l a o0 = p0" "civic_yp2_ctx_store c0 a = d0" "yp2_result p0 ?l = last_word p0"
    "civic_yp2_finish_salsa ?l b o1 = p1" "civic_yp2_ctx_store c1 b = d1" "yp2_result p1 ?l = last_word p1" by blast+
  show ?thesis
    unfolding civic_blockmix_xor_2way_def Let_def yp2_start_of last_xor_2r [OF assms(2,3,1)] last_xor_2r [OF assms(5,6,1)] F prod.case K
    by (simp add: lane_blockmix_xor_def blockmix_xor_eq_mix [OF assms(1-4) _ m(1)] blockmix_xor_eq_mix [OF assms(1,5-7) _ m(2)])
qed

section \<open>Each lane is a one-lane call\<close>

lemma blockmix_2way_pair:
  assumes "0 < r" "length A0 = 2 * r" "length O0 = 2 * r" "length A1 = 2 * r" "length O1 = 2 * r"
  shows "civic_blockmix_2way A0 O0 c0 A1 O1 c1 r = (lane_blockmix A0 O0 c0 r, lane_blockmix A1 O1 c1 r)"
  using assms by (simp add: blockmix_2way_1way blockmix_1way_eq)

lemma blockmix_xor_2way_pair:
  assumes "0 < r" "length A0 = 2 * r" "length B0 = 2 * r" "length O0 = 2 * r"
    "length A1 = 2 * r" "length B1 = 2 * r" "length O1 = 2 * r"
  shows "civic_blockmix_xor_2way A0 B0 O0 c0 A1 B1 O1 c1 r = (lane_blockmix_xor A0 B0 O0 c0 r, lane_blockmix_xor A1 B1 O1 c1 r)"
    and "civic_blockmix_xor_2way_pipe A0 B0 O0 c0 A1 B1 O1 c1 r = (lane_blockmix_xor A0 B0 O0 c0 r, lane_blockmix_xor A1 B1 O1 c1 r)"
  using assms by (simp_all add: blockmix_xor_2way_eq blockmix_xor_2way_pipe_1way blockmix_xor_1way_eq)

lemma blockmix_xor_save_2way_pair:
  assumes "0 < r" "length A0 = 2 * r" "length B0 = 2 * r" "length A1 = 2 * r" "length B1 = 2 * r"
  shows "civic_blockmix_xor_save_2way_pipe A0 B0 c0 A1 B1 c1 r
    = (blockmix_xor_save Pass2 A0 B0 r c0, blockmix_xor_save Pass2 A1 B1 r c1)"
  using assms by (simp add: blockmix_xor_save_2way_pipe_1way blockmix_xor_save_1way_eq)

text \<open>The two-lane kernels, which interleave the steps of two independent hashes, hold blocks
  of the table in registers ahead of their use and write the S-boxes of both lanes as they go,
  compute in each lane exactly what the one-lane mixer computes from that lane's data: output,
  saved table row, S-box context and next index.\<close>

theorem two_lane_kernels_agree:
  assumes "0 < r" "length A0 = 2 * r" "length B0 = 2 * r" "length O0 = 2 * r"
    "length A1 = 2 * r" "length B1 = 2 * r" "length O1 = 2 * r"
  shows "civic_blockmix_2way A0 O0 c0 A1 O1 c1 r = (lane_blockmix A0 O0 c0 r, lane_blockmix A1 O1 c1 r)
    \<and> civic_blockmix_xor_2way_pipe A0 B0 O0 c0 A1 B1 O1 c1 r
        = (lane_blockmix_xor A0 B0 O0 c0 r, lane_blockmix_xor A1 B1 O1 c1 r)
    \<and> civic_blockmix_xor_save_2way_pipe A0 B0 c0 A1 B1 c1 r
        = (blockmix_xor_save Pass2 A0 B0 r c0, blockmix_xor_save Pass2 A1 B1 r c1)"
  using blockmix_2way_pair [OF assms(1,2,4,5,7)] blockmix_xor_2way_pair(2) [OF assms]
    blockmix_xor_save_2way_pair [OF assms(1-3,5,6)] by simp

theorem two_lane_kernels_agree_witness:
  "let Z = (Xmm 0 0 0 0, Xmm 0 0 0 0, Xmm 0 0 0 0, Xmm 0 0 0 0); A = [Z, Z]; B = [(Xmm 1 2 3 4, Xmm 0 0 0 0, Xmm 0 0 0 0, Xmm 0 0 0 0), Z];
       S = \<lparr>cSm = replicate 6144 (Xmm 5 6 7 8), cS0 = 0, cS1 = 32768, cS2 = 65536, cw = 0, cSbytes = 98304\<rparr>
   in civic_blockmix_xor_save_2way_pipe A B S B A S 1 = (blockmix_xor_save Pass2 A B 1 S, blockmix_xor_save Pass2 B A 1 S)"
proof -
  let ?Z = "(Xmm 0 0 0 0, Xmm 0 0 0 0, Xmm 0 0 0 0, Xmm 0 0 0 0)" and ?Y = "(Xmm 1 2 3 4, Xmm 0 0 0 0, Xmm 0 0 0 0, Xmm 0 0 0 0)"
  have l: "length [?Z, ?Z] = 2 * 1" "length [?Y, ?Z] = 2 * 1" "(0 :: nat) < 1" by simp_all
  show ?thesis
    unfolding Let_def using two_lane_kernels_agree [OF l(3) l(1) l(2) l(1) l(2) l(1) l(1)] by blast
qed

end
