(* ===== verification/Soj_Yp2Salsa.thy ===== *)
theory Soj_Yp2Salsa
  imports Soj_Yp2Kernels
begin

text \<open>The Salsa20/2 kernels of the two-lane path, in 256-bit registers with one lane in each half, and
  the proof that each half is the one-lane mixer.  They fill the S-boxes.\<close>

section \<open>Salsa20/2 of both lanes\<close>

text \<open>The Salsa20 steps on 256-bit registers: a lane per half, and the shuffle does not cross.\<close>

definition CIVIC_SALSA_ARX :: "ymm \<Rightarrow> ymm \<Rightarrow> ymm \<Rightarrow> nat \<Rightarrow> ymm" where
  "CIVIC_SALSA_ARX out in1 in2 shift =
    (let tmp = ymm_map2 mm_add_epi32 in1 in2;
         out = ymm_map2 mm_xor_si128 out (ymm_map (\<lambda>x. mm_slli_epi32 x shift) tmp)
     in ymm_map2 mm_xor_si128 out (ymm_map (\<lambda>x. mm_srli_epi32 x (32 - shift)) tmp))"

definition mm256_shuffle_epi32 :: "ymm \<Rightarrow> nat \<Rightarrow> ymm" where
  "mm256_shuffle_epi32 x imm = ymm_map (\<lambda>x. mm_shuffle_epi32 x imm) x"

definition civic_salsa_pack :: "xmm \<Rightarrow> xmm \<Rightarrow> ymm" where
  "civic_salsa_pack low high = mm256_set_m128i high low"

type_synonym ymm4 = "ymm \<times> ymm \<times> ymm \<times> ymm"

text \<open>\<open>*out0\<close> and \<open>*out1\<close> are the low and the high halves of the registers.\<close>

definition civic_salsa2_2way :: "ymm4 \<Rightarrow> ymm4 \<times> blk \<times> blk" where
  "civic_salsa2_2way regs = (case regs of (X0, X1, X2, X3) \<Rightarrow>
    (let (Z0, Z1, Z2, Z3) = (X0, X1, X2, X3);
         X1 = CIVIC_SALSA_ARX X1 X0 X3 7;
         X2 = CIVIC_SALSA_ARX X2 X1 X0 9;
         X3 = CIVIC_SALSA_ARX X3 X2 X1 13;
         X0 = CIVIC_SALSA_ARX X0 X3 X2 18;
         X1 = mm256_shuffle_epi32 X1 0x93;
         X2 = mm256_shuffle_epi32 X2 0x4e;
         X3 = mm256_shuffle_epi32 X3 0x39;
         X3 = CIVIC_SALSA_ARX X3 X0 X1 7;
         X2 = CIVIC_SALSA_ARX X2 X3 X0 9;
         X1 = CIVIC_SALSA_ARX X1 X2 X3 13;
         X0 = CIVIC_SALSA_ARX X0 X1 X2 18;
         X1 = mm256_shuffle_epi32 X1 0x39;
         X2 = mm256_shuffle_epi32 X2 0x4e;
         X3 = mm256_shuffle_epi32 X3 0x93;
         X0 = ymm_map2 mm_add_epi32 X0 Z0;
         X1 = ymm_map2 mm_add_epi32 X1 Z1;
         X2 = ymm_map2 mm_add_epi32 X2 Z2;
         X3 = ymm_map2 mm_add_epi32 X3 Z3
     in ((X0, X1, X2, X3), (fst X0, fst X1, fst X2, fst X3), (snd X0, snd X1, snd X2, snd X3))))"

definition pack_blocks :: "blk \<Rightarrow> blk \<Rightarrow> ymm4" where
  "pack_blocks b0 b1 = (case b0 of (p0, p1, p2, p3) \<Rightarrow> case b1 of (q0, q1, q2, q3) \<Rightarrow>
    (civic_salsa_pack p0 q0, civic_salsa_pack p1 q1, civic_salsa_pack p2 q2, civic_salsa_pack p3 q3))"

definition xor4 :: "ymm4 \<Rightarrow> ymm4 \<Rightarrow> ymm4" where
  "xor4 x y = (case x of (X0, X1, X2, X3) \<Rightarrow> case y of (Y0, Y1, Y2, Y3) \<Rightarrow>
    (ymm_map2 mm_xor_si128 X0 Y0, ymm_map2 mm_xor_si128 X1 Y1, ymm_map2 mm_xor_si128 X2 Y2, ymm_map2 mm_xor_si128 X3 Y3))"

definition CIVIC_SALSA_XOR_PAIR :: "blk \<Rightarrow> blk \<Rightarrow> ymm4 \<Rightarrow> ymm4" where
  "CIVIC_SALSA_XOR_PAIR b0 b1 X = xor4 X (pack_blocks b0 b1)"

definition CIVIC_SALSA_XOR_FOUR :: "blk \<Rightarrow> blk \<Rightarrow> blk \<Rightarrow> blk \<Rightarrow> ymm4 \<Rightarrow> ymm4" where
  "CIVIC_SALSA_XOR_FOUR a0 b0 a1 b1 X = xor4 X (pack_blocks (XOR_X a0 b0) (XOR_X a1 b1))"

definition civic_blockmix_salsa_2way :: "blk list \<Rightarrow> blk list \<Rightarrow> blk list \<Rightarrow> blk list \<Rightarrow> blk list \<times> blk list" where
  "civic_blockmix_salsa_2way Bin0 Bout0 Bin1 Bout1 =
    (let X = pack_blocks (Bin0 ! 1) (Bin1 ! 1);
         X = CIVIC_SALSA_XOR_PAIR (Bin0 ! 0) (Bin1 ! 0) X;
         (X, o0, o1) = civic_salsa2_2way X;
         Bout0 = Bout0[0 := o0];
         Bout1 = Bout1[0 := o1];
         X = CIVIC_SALSA_XOR_PAIR (Bin0 ! 1) (Bin1 ! 1) X;
         (X, o0, o1) = civic_salsa2_2way X
     in (Bout0[1 := o0], Bout1[1 := o1]))"

definition civic_blockmix_salsa_xor_2way :: "blk list \<Rightarrow> blk list \<Rightarrow> blk list \<Rightarrow> blk list \<Rightarrow> blk list \<Rightarrow> blk list \<Rightarrow>
    (blk list \<times> nat) \<times> (blk list \<times> nat)" where
  "civic_blockmix_salsa_xor_2way Bin10 Bin20 Bout0 Bin11 Bin21 Bout1 =
    (let X = pack_blocks (XOR_X (Bin10 ! 1) (Bin20 ! 1)) (XOR_X (Bin11 ! 1) (Bin21 ! 1));
         X = CIVIC_SALSA_XOR_FOUR (Bin10 ! 0) (Bin20 ! 0) (Bin11 ! 0) (Bin21 ! 0) X;
         (X, o0, o1) = civic_salsa2_2way X;
         Bout0 = Bout0[0 := o0];
         Bout1 = Bout1[0 := o1];
         X = CIVIC_SALSA_XOR_FOUR (Bin10 ! 1) (Bin20 ! 1) (Bin11 ! 1) (Bin21 ! 1) X;
         (X, o0, o1) = civic_salsa2_2way X;
         Bout0 = Bout0[1 := o0];
         Bout1 = Bout1[1 := o1]
     in ((Bout0, yp2_result Bout0 1), (Bout1, yp2_result Bout1 1)))"

lemma ARX_2way: "CIVIC_SALSA_ARX (a, a') (b, b') (c, c') s = (ARX a b c s, ARX a' b' c' s)"
  by (simp add: CIVIC_SALSA_ARX_def ARX_def ymm_map_def ymm_map2_def Let_def)

lemma pack_xor: "xor4 (pack_blocks a b) (pack_blocks c d) = pack_blocks (XOR_X a c) (XOR_X b d)"
  by (cases a; cases b; cases c; cases d)
    (simp add: xor4_def pack_blocks_def civic_salsa_pack_def mm256_set_m128i_def ymm_map2_def XOR_X_def)

lemma salsa2_2way_lanes:
  "civic_salsa2_2way (pack_blocks a b) = (pack_blocks (SALSA20 Pass2 a) (SALSA20 Pass2 b), SALSA20 Pass2 a, SALSA20 Pass2 b)"
proof -
  obtain a0 a1 a2 a3 b0 b1 b2 b3 where ab: "a = (a0, a1, a2, a3)" "b = (b0, b1, b2, b3)" by (cases a; cases b)
  have one: "(f ^^ 1) x = f x" for f :: "salsa_regs \<Rightarrow> salsa_regs" and x by simp
  show ?thesis
    by (simp only: ab civic_salsa2_2way_def pack_blocks_def civic_salsa_pack_def mm256_set_m128i_def prod.case Let_def ARX_2way
        mm256_shuffle_epi32_def ymm_map_def ymm_map2_def fst_conv snd_conv SALSA20_def SALSA20_wrapper_def SALSA20_2ROUNDS_def
        pass.case one)
qed

text \<open>The one-lane calls, without a context.\<close>

lemma blockmix_salsa_2way_pair:
  "civic_blockmix_salsa_2way A0 O0 A1 O1 = (blockmix_salsa Pass2 A0 O0, blockmix_salsa Pass2 A1 O1)"
  by (simp add: civic_blockmix_salsa_2way_def CIVIC_SALSA_XOR_PAIR_def pack_xor salsa2_2way_lanes blockmix_salsa_def Let_def)

lemma blockmix_salsa_xor_2way_pair:
  assumes "length O0 = 2" "length O1 = 2"
  shows "civic_blockmix_salsa_xor_2way A0 B0 O0 A1 B1 O1 = (blockmix_salsa_xor Pass2 A0 B0 O0, blockmix_salsa_xor Pass2 A1 B1 O1)"
proof -
  have r: "yp2_result (xs[1 := x]) 1 = INTEGERIFY x" if "length xs = 2" for xs x
    using that list_two [of "xs[1 := x]"] yp2_result_last [of "xs[1 := x]" 1] by (auto simp: last_word_def last_conv_nth simp del: One_nat_def)
  show ?thesis
    using assms by (simp add: civic_blockmix_salsa_xor_2way_def CIVIC_SALSA_XOR_FOUR_def pack_xor salsa2_2way_lanes
        blockmix_salsa_xor_def Let_def XOR_X_assoc r [simplified])
qed

end
