(* ===== verification/Soj_Yp2Fill.thy ===== *)
theory Soj_Yp2Fill
  imports Soj_SmixSpec Soj_Yp2Salsa
begin

text \<open>The loop of \<open>yespower-opt.c\<close> that fills the tables of two lanes.  The S-boxes and the large table
  are filled by the same loop with different kernels, so it takes its kernels as arguments;
  \<open>two_lane_kernel\<close> is what it needs of them, and in that locale the loop is proved to leave in each lane
  what the one-lane specification has.\<close>

section \<open>Filling a table in both lanes\<close>

text \<open>A kernel for the first states and one that XORs; \<open>'c\<close> is the context a lane carries.\<close>

type_synonym 'c mix2_fn = "nat \<Rightarrow> blk list \<Rightarrow> blk list \<Rightarrow> 'c \<Rightarrow> blk list \<Rightarrow> blk list \<Rightarrow> 'c \<Rightarrow>
    (blk list \<times> 'c) \<times> (blk list \<times> 'c)"
type_synonym 'c xor2_fn = "nat \<Rightarrow> blk list \<Rightarrow> blk list \<Rightarrow> blk list \<Rightarrow> 'c \<Rightarrow> blk list \<Rightarrow> blk list \<Rightarrow> blk list \<Rightarrow> 'c \<Rightarrow>
    (blk list \<times> 'c \<times> nat) \<times> (blk list \<times> 'c \<times> nat)"
type_synonym 'c table2 = "(blk list \<times> 'c) \<times> (blk list \<times> 'c)"
type_synonym 'c fill_lane = "nat \<times> nat \<times> blk list \<times> 'c"

definition V2_mix :: "'c mix2_fn \<Rightarrow> nat \<Rightarrow> nat \<Rightarrow> nat \<Rightarrow> nat \<Rightarrow> nat \<Rightarrow> 'c table2 \<Rightarrow> 'c table2" where
  "V2_mix mix2 r src0 dst0 src1 dst1 st = (case st of ((V0, c0), (V1, c1)) \<Rightarrow>
    (case mix2 r (seg src0 (2 * r) V0) (seg dst0 (2 * r) V0) c0 (seg src1 (2 * r) V1) (seg dst1 (2 * r) V1) c1 of
       ((o0, c0), (o1, c1)) \<Rightarrow> ((put_at dst0 o0 V0, c0), (put_at dst1 o1 V1, c1))))"

text \<open>The call on \<open>X\<close>, \<open>Vj\<close> and \<open>Y\<close> of both lanes, and the two results.\<close>

definition V2_xor :: "'c xor2_fn \<Rightarrow> nat \<Rightarrow> nat \<Rightarrow> nat \<Rightarrow> nat \<Rightarrow> nat \<Rightarrow> nat \<Rightarrow> nat \<Rightarrow> 'c table2 \<Rightarrow>
    (nat \<times> blk list \<times> 'c) \<times> (nat \<times> blk list \<times> 'c)" where
  "V2_xor xor2 r x0 vj0 y0 x1 vj1 y1 st = (case st of ((V0, c0), (V1, c1)) \<Rightarrow>
    (case xor2 r (seg x0 (2 * r) V0) (seg vj0 (2 * r) V0) (seg y0 (2 * r) V0) c0
        (seg x1 (2 * r) V1) (seg vj1 (2 * r) V1) (seg y1 (2 * r) V1) c1 of
       ((o0, c0, j0), (o1, c1, j1)) \<Rightarrow> ((j0, put_at y0 o0 V0, c0), (j1, put_at y1 o1 V1, c1))))"

definition fill2_body :: "'c xor2_fn \<Rightarrow> nat \<Rightarrow> nat \<Rightarrow> nat \<Rightarrow> 'c fill_lane \<times> 'c fill_lane \<Rightarrow> 'c fill_lane \<times> 'c fill_lane" where
  "fill2_body xor2 r n i st = (case st of ((x0, j0, V0, c0), (x1, j1, V1, c1)) \<Rightarrow>
    (let s = 2 * r;
         y0 = x0 + s;
         y1 = x1 + s;
         vj0 = ((j0 AND (n - 1)) + i - 1) * s;
         vj1 = ((j1 AND (n - 1)) + i - 1) * s;
         ((j0, V0, c0), (j1, V1, c1)) = V2_xor xor2 r x0 vj0 y0 x1 vj1 y1 ((V0, c0), (V1, c1));
         vj0 = ((j0 AND (n - 1)) + i) * s;
         vj1 = ((j1 AND (n - 1)) + i) * s;
         x0 = y0 + s;
         x1 = y1 + s;
         ((j0, V0, c0), (j1, V1, c1)) = V2_xor xor2 r y0 vj0 x0 y1 vj1 x1 ((V0, c0), (V1, c1))
     in ((x0, j0, V0, c0), (x1, j1, V1, c1))))"

function fill2_inner :: "'c xor2_fn \<Rightarrow> nat \<Rightarrow> nat \<Rightarrow> nat \<Rightarrow> nat \<Rightarrow> 'c fill_lane \<times> 'c fill_lane \<Rightarrow> 'c fill_lane \<times> 'c fill_lane" where
  "fill2_inner xor2 r n m i st =
    (if i < m then fill2_inner xor2 r n m (i + 2) (fill2_body xor2 r n i st) else st)"
  by pat_completeness auto
termination by (relation "measure (\<lambda>(xor2, r, n, m, i, st). m - i)") auto

declare fill2_inner.simps [simp del]

function fill2_outer :: "'c xor2_fn \<Rightarrow> nat \<Rightarrow> nat \<Rightarrow> nat \<Rightarrow> 'c fill_lane \<times> 'c fill_lane \<Rightarrow> nat \<times> 'c fill_lane \<times> 'c fill_lane" where
  "fill2_outer xor2 r N n st =
    (if n < N \<and> 0 < n then
       (let m = (if n < N div 2 then n else N - 1 - n)
        in fill2_outer xor2 r N (push_bit 1 n) (fill2_inner xor2 r n m 1 st))
     else (n, st))"
  by pat_completeness auto
termination by (relation "measure (\<lambda>(xor2, r, N, n, st). N - n)") (auto simp: push_bit_eq_mult)

declare fill2_outer.simps [simp del]

text \<open>From the first state in place to the last one in \<open>XY\<close>.\<close>

definition fill2 :: "'c mix2_fn \<Rightarrow> 'c xor2_fn \<Rightarrow> nat \<Rightarrow> nat \<Rightarrow> 'c table2 \<Rightarrow> blk list \<Rightarrow> blk list \<Rightarrow>
    (blk list \<times> blk list \<times> 'c) \<times> (blk list \<times> blk list \<times> 'c)" where
  "fill2 mix2 xor2 r N st XY0 XY1 =
    (let s = 2 * r;
         st = V2_mix mix2 r 0 s 0 s st;
         x0 = s + s;
         x1 = s + s;
         ((V0, c0), (V1, c1)) = V2_mix mix2 r s x0 s x1 st;
         j0 = integerify (seg x0 s V0) r;
         j1 = integerify (seg x1 s V1) r;
         (n, (x0, j0, V0, c0), (x1, j1, V1, c1)) = fill2_outer xor2 r N 2 ((x0, j0, V0, c0), (x1, j1, V1, c1));
         n = drop_bit 1 n;
         y0 = x0 + s;
         y1 = x1 + s;
         vj0 = ((j0 AND (n - 1)) + N - 2 - n) * s;
         vj1 = ((j1 AND (n - 1)) + N - 2 - n) * s;
         ((j0, V0, c0), (j1, V1, c1)) = V2_xor xor2 r x0 vj0 y0 x1 vj1 y1 ((V0, c0), (V1, c1));
         vj0 = ((j0 AND (n - 1)) + N - 1 - n) * s;
         vj1 = ((j1 AND (n - 1)) + N - 1 - n) * s;
         ((o0, c0, _), (o1, c1, _)) = xor2 r (seg y0 s V0) (seg vj0 s V0) (seg 0 s XY0) c0
            (seg y1 s V1) (seg vj1 s V1) (seg 0 s XY1) c1
     in ((V0, put_at 0 o0 XY0, c0), (V1, put_at 0 o1 XY1, c1)))"

section \<open>What the loop needs of its kernels\<close>

definition up_lane :: "('c \<Rightarrow> pwxform_ctx option) \<Rightarrow> 'c fill_lane \<Rightarrow> fill_state" where
  "up_lane up st = (case st of (x, j, V, c) \<Rightarrow> (x, j, V, up c))"

lemma up_lane_simp [simp]: "up_lane up (x, j, V, c) = (x, j, V, up c)"
  by (simp add: up_lane_def)

text \<open>Both lanes at state \<open>k\<close> of the table.\<close>

definition start_ok :: "nat \<Rightarrow> blk list \<Rightarrow> pwxform_ctx option \<Rightarrow> bool" where
  "start_ok r X e \<longleftrightarrow> length X = 2 * r \<and> 0 < r \<and> (e = None \<longrightarrow> r = 1)"

definition filled2 :: "('c \<Rightarrow> pwxform_ctx option) \<Rightarrow> nat \<Rightarrow> blk list \<Rightarrow> pwxform_ctx option \<Rightarrow> blk list \<Rightarrow>
    pwxform_ctx option \<Rightarrow> nat \<Rightarrow> nat \<Rightarrow> 'c fill_lane \<times> 'c fill_lane \<Rightarrow> bool" where
  "filled2 up r X0 e0 X1 e1 N k st \<longleftrightarrow> start_ok r X0 e0 \<and> start_ok r X1 e1
     \<and> filled Pass2 r X0 e0 N k (up_lane up (fst st)) \<and> filled Pass2 r X1 e1 N k (up_lane up (snd st))"

lemma filled_bounds:
  assumes "filled p r X e N k (x, j, V, c)" "start_ok r X e"
  shows "x = k * (2 * r)" "length V = N * (2 * r)" "k < N" "c = None \<longrightarrow> r = 1"
proof -
  obtain Vs Y d where fs: "fill_states p X e k = (Vs, Y, d)" by (metis surj_pair)
  have "x = k * (2 * r) \<and> length V = N * (2 * r) \<and> k < N \<and> c = d" using assms(1) fs by (simp add: filled_def)
  moreover have "d = None \<longleftrightarrow> e = None" using fill_lengths [of X "2 * r" p e k] fs assms(2) by (auto simp: start_ok_def)
  ultimately show "x = k * (2 * r)" "length V = N * (2 * r)" "k < N" "c = None \<longrightarrow> r = 1"
    using assms(2) by (simp_all add: start_ok_def)
qed

lemma row_fits: "i < N \<Longrightarrow> i * (2 * r) + 2 * r \<le> N * (2 * r :: nat)"
  using mult_le_mono1 [of "Suc i" N "2 * r"] by simp

locale two_lane_kernel =
  fixes mix2 :: "'c mix2_fn" and xor2 :: "'c xor2_fn" and up :: "'c \<Rightarrow> pwxform_ctx option"
  assumes mix2_lanes: "0 < r \<Longrightarrow> up c0 = None \<longrightarrow> r = 1 \<Longrightarrow> up c1 = None \<longrightarrow> r = 1 \<Longrightarrow>
      length A0 = 2 * r \<Longrightarrow> length O0 = 2 * r \<Longrightarrow> length A1 = 2 * r \<Longrightarrow> length O1 = 2 * r \<Longrightarrow>
      mix2 r A0 O0 c0 A1 O1 c1 = ((o0, d0), (o1, d1)) \<Longrightarrow>
      blockmix Pass2 A0 O0 r (up c0) = (o0, up d0) \<and> blockmix Pass2 A1 O1 r (up c1) = (o1, up d1)"
    and xor2_lanes: "0 < r \<Longrightarrow> up c0 = None \<longrightarrow> r = 1 \<Longrightarrow> up c1 = None \<longrightarrow> r = 1 \<Longrightarrow>
      length A0 = 2 * r \<Longrightarrow> length B0 = 2 * r \<Longrightarrow> length O0 = 2 * r \<Longrightarrow>
      length A1 = 2 * r \<Longrightarrow> length B1 = 2 * r \<Longrightarrow> length O1 = 2 * r \<Longrightarrow>
      xor2 r A0 B0 O0 c0 A1 B1 O1 c1 = ((o0, d0, j0), (o1, d1, j1)) \<Longrightarrow>
      blockmix_xor Pass2 A0 B0 O0 r (up c0) = (o0, up d0, j0) \<and> blockmix_xor Pass2 A1 B1 O1 r (up c1) = (o1, up d1, j1)"
begin

lemma V2_mix_lanes:
  assumes "0 < r" "up c0 = None \<longrightarrow> r = 1" "up c1 = None \<longrightarrow> r = 1"
    and "src0 + 2 * r \<le> length V0" "dst0 + 2 * r \<le> length V0" "src1 + 2 * r \<le> length V1" "dst1 + 2 * r \<le> length V1"
    and "V2_mix mix2 r src0 dst0 src1 dst1 ((V0, c0), (V1, c1)) = ((V0', c0'), (V1', c1'))"
  shows "V_blockmix Pass2 r src0 dst0 (V0, up c0) = (V0', up c0') \<and> V_blockmix Pass2 r src1 dst1 (V1, up c1) = (V1', up c1')"
proof -
  obtain o0 d0 o1 d1 where m: "mix2 r (seg src0 (2 * r) V0) (seg dst0 (2 * r) V0) c0 (seg src1 (2 * r) V1) (seg dst1 (2 * r) V1) c1
      = ((o0, d0), (o1, d1))" by (metis surj_pair)
  show ?thesis
    using mix2_lanes [OF assms(1-3) _ _ _ _ m] assms(4-8) m by (auto simp: V2_mix_def V_blockmix_def length_seg)
qed

lemma V2_xor_lanes:
  assumes "0 < r" "up c0 = None \<longrightarrow> r = 1" "up c1 = None \<longrightarrow> r = 1"
    and "x0 + 2 * r \<le> length V0" "vj0 + 2 * r \<le> length V0" "y0 + 2 * r \<le> length V0"
    and "x1 + 2 * r \<le> length V1" "vj1 + 2 * r \<le> length V1" "y1 + 2 * r \<le> length V1"
    and "V2_xor xor2 r x0 vj0 y0 x1 vj1 y1 ((V0, c0), (V1, c1)) = ((j0, V0', c0'), (j1, V1', c1'))"
  shows "V_blockmix_xor Pass2 r x0 vj0 y0 (V0, up c0) = (j0, V0', up c0') \<and>
    V_blockmix_xor Pass2 r x1 vj1 y1 (V1, up c1) = (j1, V1', up c1')"
proof -
  obtain o0 d0 k0 o1 d1 k1 where m: "xor2 r (seg x0 (2 * r) V0) (seg vj0 (2 * r) V0) (seg y0 (2 * r) V0) c0
      (seg x1 (2 * r) V1) (seg vj1 (2 * r) V1) (seg y1 (2 * r) V1) c1 = ((o0, d0, k0), (o1, d1, k1))" by (metis surj_pair)
  show ?thesis
    using xor2_lanes [OF assms(1-3) _ _ _ _ _ _ m] assms(4-10) m by (auto simp: V2_xor_def V_blockmix_xor_def length_seg)
qed

lemma xor_filled2:
  assumes F: "filled2 up r X0 e0 X1 e1 N k ((x0, j0, V0, c0), (x1, j1, V1, c1))" and k: "2 \<le> k" "Suc k < N"
    and st: "V2_xor xor2 r x0 (wrap j0 k * (2 * r)) (x0 + 2 * r) x1 (wrap j1 k * (2 * r)) (x1 + 2 * r) ((V0, c0), (V1, c1))
      = ((j0', V0', c0'), (j1', V1', c1'))"
  shows "V_blockmix_xor Pass2 r x0 (wrap j0 k * (2 * r)) (x0 + 2 * r) (V0, up c0) = (j0', V0', up c0')"
    "V_blockmix_xor Pass2 r x1 (wrap j1 k * (2 * r)) (x1 + 2 * r) (V1, up c1) = (j1', V1', up c1')"
    "filled2 up r X0 e0 X1 e1 N (Suc k) ((x0 + 2 * r, j0', V0', c0'), (x1 + 2 * r, j1', V1', c1'))"
proof -
  have F0: "filled Pass2 r X0 e0 N k (x0, j0, V0, up c0)" "start_ok r X0 e0"
    and F1: "filled Pass2 r X1 e1 N k (x1, j1, V1, up c1)" "start_ok r X1 e1"
    using F by (simp_all add: filled2_def)
  note B0 = filled_bounds [OF F0] and B1 = filled_bounds [OF F1]
  have w: "wrap j0 k < N" "wrap j1 k < N" using wrap_less [of k j0] wrap_less [of k j1] k by simp_all
  have E: "V_blockmix_xor Pass2 r x0 (wrap j0 k * (2 * r)) (x0 + 2 * r) (V0, up c0) = (j0', V0', up c0') \<and>
      V_blockmix_xor Pass2 r x1 (wrap j1 k * (2 * r)) (x1 + 2 * r) (V1, up c1) = (j1', V1', up c1')"
    using F0(2) B0 B1 w row_fits [of k N r] row_fits [of "Suc k" N r] row_fits [of "wrap j0 k" N r] row_fits [of "wrap j1 k" N r] k st
    by (intro V2_xor_lanes) (simp_all add: start_ok_def algebra_simps)
  then show "V_blockmix_xor Pass2 r x0 (wrap j0 k * (2 * r)) (x0 + 2 * r) (V0, up c0) = (j0', V0', up c0')"
    "V_blockmix_xor Pass2 r x1 (wrap j1 k * (2 * r)) (x1 + 2 * r) (V1, up c1) = (j1', V1', up c1')" by simp_all
  then show "filled2 up r X0 e0 X1 e1 N (Suc k) ((x0 + 2 * r, j0', V0', c0'), (x1 + 2 * r, j1', V1', c1'))"
    using filled_step [OF F0(1) _ _ _ k refl] filled_step [OF F1(1) _ _ _ k refl] F0(2) F1(2)
    by (simp add: filled2_def start_ok_def)
qed

lemma body_filled2:
  assumes F: "filled2 up r X0 e0 X1 e1 N k st"
    and n: "n = 2 ^ e" "2 \<le> n" "k + 1 = n + i" "1 \<le> i" "i < n" "k + 2 < N"
  shows "filled2 up r X0 e0 X1 e1 N (k + 2) (fill2_body xor2 r n i st)"
proof -
  obtain x0 j0 V0 c0 x1 j1 V1 c1 where st: "st = ((x0, j0, V0, c0), (x1, j1, V1, c1))" by (metis surj_pair)
  let ?s = "2 * r"
  obtain k0 W0 d0 k1 W1 d1 where 1: "V2_xor xor2 r x0 (wrap j0 k * ?s) (x0 + ?s) x1 (wrap j1 k * ?s) (x1 + ?s) ((V0, c0), (V1, c1))
      = ((k0, W0, d0), (k1, W1, d1))" by (metis surj_pair)
  have F1: "filled2 up r X0 e0 X1 e1 N (Suc k) ((x0 + ?s, k0, W0, d0), (x1 + ?s, k1, W1, d1))"
    using xor_filled2(3) [OF F [unfolded st] _ _ 1] n by simp
  obtain l0 U0 f0 l1 U1 f1 where 2: "V2_xor xor2 r (x0 + ?s) (wrap k0 (Suc k) * ?s) (x0 + ?s + ?s)
      (x1 + ?s) (wrap k1 (Suc k) * ?s) (x1 + ?s + ?s) ((W0, d0), (W1, d1)) = ((l0, U0, f0), (l1, U1, f1))" by (metis surj_pair)
  have F2: "filled2 up r X0 e0 X1 e1 N (Suc (Suc k)) ((x0 + ?s + ?s, l0, U0, f0), (x1 + ?s + ?s, l1, U1, f1))"
    using xor_filled2(3) [OF F1 _ _ 2] n by simp
  have w: "(j AND (n - 1)) + i - 1 = wrap j k" "(j AND (n - 1)) + i = wrap j (Suc k)" for j
    using and_wrap [OF n(1), of k j] and_wrap [OF n(1), of "Suc k" j] n by auto
  show ?thesis
    using F2 unfolding st fill2_body_def Let_def prod.case w(1) 1 unfolding w(2) 2 prod.case by simp
qed

lemma outer_filled2:
  assumes "filled2 up r X0 e0 X1 e1 N 2 st" "even N" "4 \<le> N"
  shows "\<exists>st' e'. fill2_outer xor2 r N 2 st = (2 * 2 ^ e', st') \<and> filled2 up r X0 e0 X1 e1 N (N - 2) st'
    \<and> (2 :: nat) ^ e' \<le> N - 2 \<and> N \<le> 2 * 2 ^ e'"
proof (rule doubling_outer [where inner = "fill2_inner xor2 r" and body = "fill2_body xor2 r"
      and P = "filled2 up r X0 e0 X1 e1 N" and e = 1, OF _ _ _ assms(1)])
  show "fill2_inner xor2 r n m i st = (if i < m then fill2_inner xor2 r n m (i + 2) (fill2_body xor2 r n i st) else st)" for n m i st
    by (rule fill2_inner.simps)
  show "fill2_outer xor2 r N n st = (if n < N \<and> 0 < n then
      fill2_outer xor2 r N (push_bit 1 n) (fill2_inner xor2 r n (if n < N div 2 then n else N - 1 - n) 1 st) else (n, st))" for n st
    by (subst fill2_outer.simps) (simp add: Let_def)
  show "filled2 up r X0 e0 X1 e1 N (k + 2) (fill2_body xor2 r n i st)" if "filled2 up r X0 e0 X1 e1 N k st" "n = 2 ^ e" "2 \<le> n" "k + 1 = n + i"
    "1 \<le> i" "i < n" "k + 2 < N" for n e k i st
    using that by (rule body_filled2)
qed (use assms in simp_all)

lemma mix_filled2:
  assumes F: "filled2 up r X0 e0 X1 e1 N k ((x0, j0, V0, c0), (x1, j1, V1, c1))" and k: "k < 2" "Suc k < N"
    and st: "V2_mix mix2 r x0 (x0 + 2 * r) x1 (x1 + 2 * r) ((V0, c0), (V1, c1)) = ((V0', c0'), (V1', c1'))"
  shows "filled2 up r X0 e0 X1 e1 N (Suc k)
    ((x0 + 2 * r, integerify (seg (x0 + 2 * r) (2 * r) V0') r, V0', c0'), (x1 + 2 * r, integerify (seg (x1 + 2 * r) (2 * r) V1') r, V1', c1'))"
proof -
  have F0: "filled Pass2 r X0 e0 N k (x0, j0, V0, up c0)" "start_ok r X0 e0"
    and F1: "filled Pass2 r X1 e1 N k (x1, j1, V1, up c1)" "start_ok r X1 e1"
    using F by (simp_all add: filled2_def)
  note B0 = filled_bounds [OF F0] and B1 = filled_bounds [OF F1]
  have "V_blockmix Pass2 r x0 (x0 + 2 * r) (V0, up c0) = (V0', up c0') \<and> V_blockmix Pass2 r x1 (x1 + 2 * r) (V1, up c1) = (V1', up c1')"
    using F0(2) B0 B1 row_fits [of k N r] row_fits [of "Suc k" N r] k st
    by (intro V2_mix_lanes) (simp_all add: start_ok_def algebra_simps)
  then show ?thesis
    using filled_mix [OF F0(1) _ _ _ k] filled_mix [OF F1(1) _ _ _ k] F0(2) F1(2) by (simp add: filled2_def start_ok_def)
qed

text \<open>The loop leaves both tables, both last states and both contexts as the one-lane
  specification has them.\<close>

lemma fill2_computes:
  assumes F: "filled2 up r X0 e0 X1 e1 N 0 ((0, j0, V0, c0), (0, j1, V1, c1))" and N: "even N" "4 \<le> N"
    and XY: "2 * r \<le> length XY0" "2 * r \<le> length XY1"
  shows "\<exists>W0 o0 d0 W1 o1 d1. fill2 mix2 xor2 r N ((V0, c0), (V1, c1)) XY0 XY1
      = ((W0, put_at 0 o0 XY0, d0), (W1, put_at 0 o1 XY1, d1))
    \<and> fill_states Pass2 X0 e0 N = (chunks (2 * r) W0, o0, up d0) \<and> length o0 = 2 * r \<and> length W0 = length V0
    \<and> fill_states Pass2 X1 e1 N = (chunks (2 * r) W1, o1, up d1) \<and> length o1 = 2 * r \<and> length W1 = length V1"
proof -
  let ?s = "2 * r"
  obtain V0a c0a V1a c1a where 1: "V2_mix mix2 r 0 ?s 0 ?s ((V0, c0), (V1, c1)) = ((V0a, c0a), (V1a, c1a))" by (metis surj_pair)
  have F1: "filled2 up r X0 e0 X1 e1 N (Suc 0) ((?s, integerify (seg ?s ?s V0a) r, V0a, c0a), (?s, integerify (seg ?s ?s V1a) r, V1a, c1a))"
    using mix_filled2 [OF F] 1 N(2) by simp
  obtain V0b c0b V1b c1b where 2: "V2_mix mix2 r ?s (?s + ?s) ?s (?s + ?s) ((V0a, c0a), (V1a, c1a)) = ((V0b, c0b), (V1b, c1b))"
    by (metis surj_pair)
  let ?j0 = "integerify (seg (?s + ?s) ?s V0b) r" and ?j1 = "integerify (seg (?s + ?s) ?s V1b) r"
  have F2: "filled2 up r X0 e0 X1 e1 N 2 ((?s + ?s, ?j0, V0b, c0b), (?s + ?s, ?j1, V1b, c1b))"
    using mix_filled2 [OF F1 _ _ 2] N(2) by (simp add: numeral_2_eq_2)
  obtain st3 e where 3: "fill2_outer xor2 r N 2 ((?s + ?s, ?j0, V0b, c0b), (?s + ?s, ?j1, V1b, c1b)) = (2 * 2 ^ e, st3)"
    "filled2 up r X0 e0 X1 e1 N (N - 2) st3" "(2 :: nat) ^ e \<le> N - 2" "N \<le> 2 * 2 ^ e"
    using outer_filled2 [OF F2 N] by auto
  obtain x0 k0 V0c c0c x1 k1 V1c c1c where st3: "st3 = ((x0, k0, V0c, c0c), (x1, k1, V1c, c1c))" by (metis surj_pair)
  have half: "drop_bit 1 (2 * 2 ^ e :: nat) = 2 ^ e" by (simp add: drop_bit_eq_div)
  have w3: "(j AND (2 ^ e - 1)) + N - 2 - 2 ^ e = wrap j (N - 2)" and w4: "(j AND (2 ^ e - 1)) + N - 1 - 2 ^ e = wrap j (N - 1)" for j
    using and_wrap [of "2 ^ e" e "N - 2" j] and_wrap [of "2 ^ e" e "N - 1" j] 3(3,4) N(2) by simp_all
  obtain l0 V0d c0d l1 V1d c1d where 4: "V2_xor xor2 r x0 (wrap k0 (N - 2) * ?s) (x0 + ?s) x1 (wrap k1 (N - 2) * ?s) (x1 + ?s)
      ((V0c, c0c), (V1c, c1c)) = ((l0, V0d, c0d), (l1, V1d, c1d))" by (metis surj_pair)
  have "Suc (N - 2) = N - 1" using N(2) by simp
  then have F4: "filled2 up r X0 e0 X1 e1 N (N - 1) ((x0 + ?s, l0, V0d, c0d), (x1 + ?s, l1, V1d, c1d))"
    using xor_filled2(3) [OF 3(2) [unfolded st3] _ _ 4] N(2) by simp
  then have L0: "filled Pass2 r X0 e0 N (N - 1) (x0 + ?s, l0, V0d, up c0d)" "start_ok r X0 e0"
    and L1: "filled Pass2 r X1 e1 N (N - 1) (x1 + ?s, l1, V1d, up c1d)" "start_ok r X1 e1"
    by (simp_all add: filled2_def)
  note B0 = filled_bounds [OF L0] and B1 = filled_bounds [OF L1]
  have k5: "2 \<le> N - 1" "N = Suc (N - 1)" "length (seg 0 ?s XY0) = ?s" "length (seg 0 ?s XY1) = ?s" using XY N(2) by (simp_all add: length_seg)
  obtain o0 d0 where 50: "blockmix_xor Pass2 (seg (x0 + ?s) ?s V0d) (seg (wrap l0 (N - 1) * ?s) ?s V0d) (seg 0 ?s XY0) r (up c0d)
      = (o0, d0, last_word o0)" "fill_states Pass2 X0 e0 N = (chunks ?s V0d, o0, d0)" "length o0 = ?s"
    using filled_last [OF L0(1) _ _ _ k5(1,2,3)] L0(2) by (auto simp: start_ok_def)
  obtain o1 d1 where 51: "blockmix_xor Pass2 (seg (x1 + ?s) ?s V1d) (seg (wrap l1 (N - 1) * ?s) ?s V1d) (seg 0 ?s XY1) r (up c1d)
      = (o1, d1, last_word o1)" "fill_states Pass2 X1 e1 N = (chunks ?s V1d, o1, d1)" "length o1 = ?s"
    using filled_last [OF L1(1) _ _ _ k5(1,2,4)] L1(2) by (auto simp: start_ok_def)
  obtain p0 f0 i0 p1 f1 i1 where 6: "xor2 r (seg (x0 + ?s) ?s V0d) (seg (wrap l0 (N - 1) * ?s) ?s V0d) (seg 0 ?s XY0) c0d
      (seg (x1 + ?s) ?s V1d) (seg (wrap l1 (N - 1) * ?s) ?s V1d) (seg 0 ?s XY1) c1d = ((p0, f0, i0), (p1, f1, i1))" by (metis surj_pair)
  have w: "wrap l0 (N - 1) < N" "wrap l1 (N - 1) < N" using wrap_less [of "N - 1" l0] wrap_less [of "N - 1" l1] N(2) by simp_all
  have ls: "length (seg (x0 + ?s) ?s V0d) = ?s" "length (seg (wrap l0 (N - 1) * ?s) ?s V0d) = ?s"
    "length (seg (x1 + ?s) ?s V1d) = ?s" "length (seg (wrap l1 (N - 1) * ?s) ?s V1d) = ?s"
    using B0 B1 row_fits [OF w(1), of r] row_fits [OF w(2), of r] row_fits [of "N - 1" N r] N(2) by (simp_all add: length_seg)
  have "o0 = p0" "d0 = up f0" "o1 = p1" "d1 = up f1"
    using xor2_lanes [OF _ B0(4) B1(4) ls(1,2) k5(3) ls(3,4) k5(4) 6] 50(1) 51(1) L0(2) by (auto simp: start_ok_def)
  moreover have "length V0d = length V0" "length V1d = length V1"
    using B0(2) B1(2) F filled_bounds [of Pass2 r X0 e0 N 0 0 j0 V0 "up c0"] filled_bounds [of Pass2 r X1 e1 N 0 0 j1 V1 "up c1"]
    by (simp_all add: filled2_def)
  ultimately show ?thesis
    unfolding fill2_def Let_def 1 prod.case 2 3(1) st3 half w3 4 w4 6 using 50(2,3) 51(2,3) by blast
qed

end

end
