(* ===== verification/Soj_Yp2Smix.thy ===== *)
theory Soj_Yp2Smix
  imports Soj_Yp2Fill
begin

text \<open>\<open>civic_smix1_1_0_2way\<close>, \<open>civic_smix1_salsa_2way\<close>, \<open>civic_smix2_1_0_2way\<close> and
  \<open>civic_smix_1_0_2way\<close> of \<open>yespower-opt.c\<close>.  Each lane ends with the bytes, the table and the
  context that SMix gives for that lane alone.\<close>

section \<open>The kernels of a build\<close>

text \<open>Which kernels SMix calls is chosen by macros of the build: the mixer, \<open>CIVIC_SMIX1_BLKXOR\<close> and
  \<open>CIVIC_SMIX2_BLKXOR\<close>.\<close>

type_synonym save2_fn = "blk list \<Rightarrow> blk list \<Rightarrow> pwxform_ctx \<Rightarrow> blk list \<Rightarrow> blk list \<Rightarrow> pwxform_ctx \<Rightarrow> nat \<Rightarrow>
    (blk list \<times> blk list \<times> pwxform_ctx \<times> nat) \<times> (blk list \<times> blk list \<times> pwxform_ctx \<times> nat)"

record smix_kernels =
  k_mix :: "pwxform_ctx mix2_fn"
  k_xor :: "pwxform_ctx xor2_fn"
  k_save :: save2_fn

text \<open>What SMix needs of them.\<close>

locale two_lane_smix = two_lane_kernel "k_mix K" "k_xor K" Some for K :: smix_kernels +
  assumes save2_lanes: "0 < r \<Longrightarrow> length A0 = 2 * r \<Longrightarrow> length B0 = 2 * r \<Longrightarrow> length A1 = 2 * r \<Longrightarrow> length B1 = 2 * r \<Longrightarrow>
      k_save K A0 B0 c0 A1 B1 c1 r = (blockmix_xor_save Pass2 A0 B0 r c0, blockmix_xor_save Pass2 A1 B1 r c1)"

text \<open>A kernel for each lane gives a kernel for both: the law from its equality with the one-lane mixers.\<close>

lemma mix2_law:
  assumes "0 < r" "length A0 = 2 * r" "length O0 = 2 * r" "length A1 = 2 * r" "length O1 = 2 * r"
    and "(lane_blockmix A0 O0 c0 r, lane_blockmix A1 O1 c1 r) = ((o0, d0), (o1, d1))"
  shows "blockmix Pass2 A0 O0 r (Some c0) = (o0, Some d0) \<and> blockmix Pass2 A1 O1 r (Some c1) = (o1, Some d1)"
proof -
  obtain p0 e0 p1 e1 where "mix Pass2 A0 (Some c0) = (p0, Some e0)" "mix Pass2 A1 (Some c1) = (p1, Some e1)"
    using mix_Some by blast
  then show ?thesis using assms by (simp add: lane_blockmix_def blockmix_eq_mix)
qed

lemma xor2_law:
  assumes "0 < r" "length A0 = 2 * r" "length B0 = 2 * r" "length O0 = 2 * r" "length A1 = 2 * r" "length B1 = 2 * r" "length O1 = 2 * r"
    and "(lane_blockmix_xor A0 B0 O0 c0 r, lane_blockmix_xor A1 B1 O1 c1 r) = ((o0, d0, j0), (o1, d1, j1))"
  shows "blockmix_xor Pass2 A0 B0 O0 r (Some c0) = (o0, Some d0, j0) \<and> blockmix_xor Pass2 A1 B1 O1 r (Some c1) = (o1, Some d1, j1)"
proof -
  obtain p0 e0 p1 e1 where m: "mix Pass2 (xor_blocks A0 B0) (Some c0) = (p0, Some e0)" "mix Pass2 (xor_blocks A1 B1) (Some c1) = (p1, Some e1)"
    using mix_Some by blast
  show ?thesis
    using blockmix_xor_eq_mix [OF assms(1-4) _ m(1)] blockmix_xor_eq_mix [OF assms(1,5-7) _ m(2)] assms(8)
    by (auto simp: lane_blockmix_xor_def)
qed

text \<open>The default build.\<close>

definition CIVIC_SMIX1_BLKXOR :: "pwxform_ctx xor2_fn" where
  "CIVIC_SMIX1_BLKXOR r Bin10 Bin20 Bout0 ctx0 Bin11 Bin21 Bout1 ctx1 =
    civic_blockmix_xor_2way_pipe Bin10 Bin20 Bout0 ctx0 Bin11 Bin21 Bout1 ctx1 r"

definition smix1_blkmix :: "pwxform_ctx mix2_fn" where
  "smix1_blkmix r Bin0 Bout0 ctx0 Bin1 Bout1 ctx1 = civic_blockmix_2way Bin0 Bout0 ctx0 Bin1 Bout1 ctx1 r"

definition CIVIC_SMIX2_BLKXOR :: save2_fn where
  "CIVIC_SMIX2_BLKXOR = civic_blockmix_xor_save_2way_pipe"

definition pipe_kernels :: smix_kernels where
  "pipe_kernels = \<lparr>k_mix = smix1_blkmix, k_xor = CIVIC_SMIX1_BLKXOR, k_save = CIVIC_SMIX2_BLKXOR\<rparr>"

interpretation pwx2: two_lane_smix pipe_kernels
proof
  show "blockmix Pass2 A0 O0 r (Some c0) = (o0, Some d0) \<and> blockmix Pass2 A1 O1 r (Some c1) = (o1, Some d1)"
    if "0 < r" "length A0 = 2 * r" "length O0 = 2 * r" "length A1 = 2 * r" "length O1 = 2 * r"
      "k_mix pipe_kernels r A0 O0 c0 A1 O1 c1 = ((o0, d0), (o1, d1))" for r c0 c1 A0 O0 A1 O1 o0 d0 o1 d1
    using that by (intro mix2_law) (simp_all add: pipe_kernels_def smix1_blkmix_def blockmix_2way_pair)
  show "blockmix_xor Pass2 A0 B0 O0 r (Some c0) = (o0, Some d0, j0) \<and> blockmix_xor Pass2 A1 B1 O1 r (Some c1) = (o1, Some d1, j1)"
    if "0 < r" "length A0 = 2 * r" "length B0 = 2 * r" "length O0 = 2 * r" "length A1 = 2 * r" "length B1 = 2 * r" "length O1 = 2 * r"
      "k_xor pipe_kernels r A0 B0 O0 c0 A1 B1 O1 c1 = ((o0, d0, j0), (o1, d1, j1))" for r c0 c1 A0 B0 O0 A1 B1 O1 o0 d0 j0 o1 d1 j1
    using that by (intro xor2_law) (simp_all add: pipe_kernels_def CIVIC_SMIX1_BLKXOR_def blockmix_xor_2way_pair(2))
  show "k_save pipe_kernels A0 B0 c0 A1 B1 c1 r = (blockmix_xor_save Pass2 A0 B0 r c0, blockmix_xor_save Pass2 A1 B1 r c1)"
    if "0 < r" "length A0 = 2 * r" "length B0 = 2 * r" "length A1 = 2 * r" "length B1 = 2 * r" for r A0 B0 c0 A1 B1 c1
    using that by (simp add: pipe_kernels_def CIVIC_SMIX2_BLKXOR_def blockmix_xor_save_2way_pair)
qed

text \<open>The S-boxes are filled by Salsa20/2 without a context.\<close>

definition salsa_blkmix :: "unit mix2_fn" where
  "salsa_blkmix r Bin0 Bout0 c0 Bin1 Bout1 c1 =
    (case civic_blockmix_salsa_2way Bin0 Bout0 Bin1 Bout1 of (o0, o1) \<Rightarrow> ((o0, ()), (o1, ())))"

definition salsa_blkxor :: "unit xor2_fn" where
  "salsa_blkxor r Bin10 Bin20 Bout0 c0 Bin11 Bin21 Bout1 c1 =
    (case civic_blockmix_salsa_xor_2way Bin10 Bin20 Bout0 Bin11 Bin21 Bout1 of ((o0, j0), (o1, j1)) \<Rightarrow>
      ((o0, (), j0), (o1, (), j1)))"

interpretation salsa2: two_lane_kernel salsa_blkmix salsa_blkxor "\<lambda>_. None"
  by unfold_locales
    (auto simp: salsa_blkmix_def salsa_blkxor_def blockmix_salsa_2way_pair blockmix_salsa_xor_2way_pair blockmix_def blockmix_xor_def
      split: prod.splits)

section \<open>smix1\<close>

text \<open>\<open>smix1_1_0_2way K\<close> is the code of \<open>civic_smix1_1_0_2way\<close> in the build with the kernels \<open>K\<close>.\<close>

definition smix1_1_0_2way :: "smix_kernels \<Rightarrow> bytes \<Rightarrow> bytes \<Rightarrow> nat \<Rightarrow> nat \<Rightarrow> blk list \<Rightarrow> blk list \<Rightarrow> blk list \<Rightarrow> blk list \<Rightarrow>
    pwxform_ctx \<Rightarrow> pwxform_ctx \<Rightarrow> (bytes \<times> blk list \<times> blk list \<times> pwxform_ctx) \<times> (bytes \<times> blk list \<times> blk list \<times> pwxform_ctx)" where
  "smix1_1_0_2way K B0 B1 r N V0 V1 XY0 XY1 ctx0 ctx1 =
    (let s = 2 * r;
         V0 = fold (load_step B0 s) [0..<2] V0;
         V1 = fold (load_step B1 s) [0..<2] V1;
         st = fold (\<lambda>i. V2_mix (k_mix K) 1 ((i - 1) * 2) (i * 2) ((i - 1) * 2) (i * 2)) [1..<r] ((V0, ctx0), (V1, ctx1));
         ((V0, XY0, ctx0), (V1, XY1, ctx1)) = fill2 (k_mix K) (k_xor K) r N st XY0 XY1;
         (XY0, B0) = fold (store_step s) [0..<2 * r] (XY0, B0);
         (XY1, B1) = fold (store_step s) [0..<2 * r] (XY1, B1)
     in ((B0, V0, XY0, ctx0), (B1, V1, XY1, ctx1)))"

definition civic_smix1_1_0_2way :: "bytes \<Rightarrow> bytes \<Rightarrow> nat \<Rightarrow> nat \<Rightarrow> blk list \<Rightarrow> blk list \<Rightarrow> blk list \<Rightarrow> blk list \<Rightarrow>
    pwxform_ctx \<Rightarrow> pwxform_ctx \<Rightarrow> (bytes \<times> blk list \<times> blk list \<times> pwxform_ctx) \<times> (bytes \<times> blk list \<times> blk list \<times> pwxform_ctx)" where
  "civic_smix1_1_0_2way = smix1_1_0_2way pipe_kernels"

definition civic_smix1_salsa_2way :: "bytes \<Rightarrow> bytes \<Rightarrow> blk list \<Rightarrow> blk list \<Rightarrow> blk list \<Rightarrow> blk list \<Rightarrow>
    (bytes \<times> blk list \<times> blk list) \<times> (bytes \<times> blk list \<times> blk list)" where
  "civic_smix1_salsa_2way B0 B1 V0 V1 XY0 XY1 =
    (let civic_salsa_N = 768; civic_salsa_s = 2;
         V0 = fold (load_step B0 civic_salsa_s) [0..<2] V0;
         V1 = fold (load_step B1 civic_salsa_s) [0..<2] V1;
         ((V0, XY0, _), (V1, XY1, _)) = fill2 salsa_blkmix salsa_blkxor 1 civic_salsa_N ((V0, ()), (V1, ())) XY0 XY1;
         (XY0, B0) = fold (store_step civic_salsa_s) [0..<2] (XY0, B0);
         (XY1, B1) = fold (store_step civic_salsa_s) [0..<2] (XY1, B1)
     in ((B0, V0, XY0), (B1, V1, XY1)))"

text \<open>The expansion of the first two blocks, lane by lane.\<close>

lemma V_blockmix_keeps:
  assumes "0 < r" "ctx = None \<longrightarrow> r = 1" "src + 2 * r \<le> length V" "dst + 2 * r \<le> length V"
    and "V_blockmix p r src dst (V, ctx) = (V', ctx')"
  shows "length V' = length V" "ctx' = None \<longleftrightarrow> ctx = None"
proof -
  let ?A = "seg src (2 * r) V"
  have l: "length ?A = 2 * r" "length (seg dst (2 * r) V) = 2 * r" using assms(3,4) by (simp_all add: length_seg)
  then have ne: "?A \<noteq> []" using assms(1) by (cases "?A") auto
  obtain out d where m: "mix p ?A ctx = (out, d)" by fastforce
  have V': "V' = put_at dst out V" "ctx' = d"
    using assms(5) m blockmix_eq_mix [OF assms(1) l assms(2), of p] by (simp_all add: V_blockmix_def)
  moreover have "length out = 2 * r" using length_mix [OF ne, of p ctx] m l(1) by simp
  ultimately show "length V' = length V" using assms(4) by (simp add: length_put_at)
  show "ctx' = None \<longleftrightarrow> ctx = None" using mix_ctx_none [of p ?A ctx] m V'(2) by simp
qed

lemma table2_exhaust: obtains V0 c0 V1 c1 where "x = ((V0, c0), (V1, c1))"
  by (metis surj_pair)

context two_lane_smix
begin

lemma expand_2way:
  assumes "2 * m \<le> length V0" "2 * m \<le> length V1"
    and "fold (\<lambda>i. V2_mix (k_mix K) 1 ((i - 1) * 2) (i * 2) ((i - 1) * 2) (i * 2)) [1..<m] ((V0, c0), (V1, c1)) = ((W0, d0), (W1, d1))"
  shows "fold (\<lambda>i. V_blockmix Pass2 1 ((i - 1) * 2) (i * 2)) [1..<m] (V0, Some c0) = (W0, Some d0) \<and> length W0 = length V0 \<and>
    fold (\<lambda>i. V_blockmix Pass2 1 ((i - 1) * 2) (i * 2)) [1..<m] (V1, Some c1) = (W1, Some d1) \<and> length W1 = length V1"
  using assms
proof (induction m arbitrary: W0 d0 W1 d1)
  case (Suc m)
  show ?case
  proof (cases "m = 0")
    case True
    then show ?thesis using Suc.prems by simp
  next
    case False
    let ?f = "\<lambda>i. V2_mix (k_mix K) 1 ((i - 1) * 2) (i * 2) ((i - 1) * 2) (i * 2)"
    obtain U0 e0 U1 e1 where U: "fold ?f [1..<m] ((V0, c0), (V1, c1)) = ((U0, e0), (U1, e1))" by (rule table2_exhaust)
    have "2 * m \<le> length V0" "2 * m \<le> length V1" using Suc.prems by simp_all
    note IH = Suc.IH [OF this U]
    have st: "V2_mix (k_mix K) 1 ((m - 1) * 2) (m * 2) ((m - 1) * 2) (m * 2) ((U0, e0), (U1, e1)) = ((W0, d0), (W1, d1))"
      using Suc.prems(3) U False by (simp add: upt_Suc del: upt_Suc_append One_nat_def)
    have fit: "(m - 1) * 2 + 2 * 1 \<le> length U0" "m * 2 + 2 * 1 \<le> length U0" "(m - 1) * 2 + 2 * 1 \<le> length U1" "m * 2 + 2 * 1 \<le> length U1"
      using IH Suc.prems by simp_all
    have E: "V_blockmix Pass2 1 ((m - 1) * 2) (m * 2) (U0, Some e0) = (W0, Some d0)" "V_blockmix Pass2 1 ((m - 1) * 2) (m * 2) (U1, Some e1) = (W1, Some d1)"
      using V2_mix_lanes [OF _ _ _ fit st] by simp_all
    moreover have "length W0 = length U0" "length W1 = length U1"
      using V_blockmix_keeps(1) [OF _ _ fit(1,2) E(1)] V_blockmix_keeps(1) [OF _ _ fit(3,4) E(2)] by simp_all
    ultimately show ?thesis using IH False by simp
  qed
qed simp

end

text \<open>From loaded tables to the specification of \<open>smix1\<close> and back to bytes.\<close>

context two_lane_kernel
begin

lemma fill2_from_start:
  assumes r: "0 < r" and lens: "length V0 = N * (2 * r)" "length V1 = N * (2 * r)" and N: "even N" "4 \<le> N"
    and up: "up c0 = None \<longrightarrow> r = 1" "up c1 = None \<longrightarrow> r = 1" and XY: "2 * r \<le> length XY0" "2 * r \<le> length XY1"
    and start: "smix1_start Pass2 B0 r V0 (up c0) = (U0, up d0)" "smix1_start Pass2 B1 r V1 (up c1) = (U1, up d1)"
  shows "\<exists>W0 o0 f0 W1 o1 f1. fill2 mix2 xor2 r N ((U0, d0), (U1, d1)) XY0 XY1 = ((W0, put_at 0 o0 XY0, f0), (W1, put_at 0 o1 XY1, f1))
    \<and> smix1_spec Pass2 B0 r N (up c0) = (chunks (2 * r) W0, o0, up f0) \<and> length o0 = 2 * r \<and> length W0 = length V0
    \<and> smix1_spec Pass2 B1 r N (up c1) = (chunks (2 * r) W1, o1, up f1) \<and> length o1 = 2 * r \<and> length W1 = length V1"
proof -
  obtain X0 g0 X1 g1 where S: "start_state Pass2 B0 r (up c0) = (X0, g0)" "start_state Pass2 B1 r (up c1) = (X1, g1)"
    by (metis surj_pair)
  have G0: "g0 = up d0" "length X0 = 2 * r" "g0 = None \<longleftrightarrow> up c0 = None" "filled Pass2 r X0 g0 N 0 (0, last_word X0, U0, g0)"
    using start_filled [OF r lens(1) _ up(1) S(1)] N(2) start(1) by auto
  have G1: "g1 = up d1" "length X1 = 2 * r" "g1 = None \<longleftrightarrow> up c1 = None" "filled Pass2 r X1 g1 N 0 (0, last_word X1, U1, g1)"
    using start_filled [OF r lens(2) _ up(2) S(2)] N(2) start(2) by auto
  have F: "filled2 up r X0 g0 X1 g1 N 0 ((0, last_word X0, U0, d0), (0, last_word X1, U1, d1))"
    using G0 G1 r up by (simp add: filled2_def start_ok_def)
  have "length U0 = length V0" "length U1 = length V1"
    using filled_bounds(2) [OF G0(4)] filled_bounds(2) [OF G1(4)] G0 G1 r up lens by (simp_all add: start_ok_def)
  then show ?thesis
    using fill2_computes [OF F N XY] S by (simp add: smix1_spec_def)
qed

end

lemma store_state:
  assumes "length X = 2 * r" "2 * r < length XY" "128 * r \<le> length B"
  obtains Y where "fold (store_step (2 * r)) [0..<2 * r] (put_at 0 X XY, B) = (Y, put_at 0 (bytes_of X) B)" "length Y = length XY"
  using store_blocks [of "2 * r" "2 * r" "put_at 0 X XY" B] take_put_at_0 [of X XY] assms that by (auto simp: length_put_at)

context two_lane_smix
begin

lemma smix1_2way_eq:
  assumes r: "0 < r" and N: "even N" "4 \<le> N" and lens: "length V0 = N * (2 * r)" "length V1 = N * (2 * r)"
    and XY: "2 * r < length XY0" "2 * r < length XY1" and B: "128 * r \<le> length B0" "128 * r \<le> length B1"
    and spec: "smix1_spec Pass2 B0 r N (Some ctx0) = (Vs0, X0, c0)" "smix1_spec Pass2 B1 r N (Some ctx1) = (Vs1, X1, c1)"
  shows "\<exists>W0 Y0 d0 W1 Y1 d1. smix1_1_0_2way K B0 B1 r N V0 V1 XY0 XY1 ctx0 ctx1
      = ((put_at 0 (bytes_of X0) B0, W0, Y0, d0), (put_at 0 (bytes_of X1) B1, W1, Y1, d1))
    \<and> chunks (2 * r) W0 = Vs0 \<and> c0 = Some d0 \<and> length W0 = length V0 \<and> length Y0 = length XY0
    \<and> chunks (2 * r) W1 = Vs1 \<and> c1 = Some d1 \<and> length W1 = length V1 \<and> length Y1 = length XY1"
proof -
  let ?s = "2 * r"
  let ?V0 = "fold (load_step B0 ?s) [0..<2] V0" and ?V1 = "fold (load_step B1 ?s) [0..<2] V1"
  have big: "2 * r < length V0" "2 * r < length V1" using lens N(2) r mult_le_mono1 [of 2 N "2 * r"] by simp_all
  have lV: "length ?V0 = length V0" "length ?V1 = length V1"
    using load_blocks [of 2 ?s V0 B0] load_blocks [of 2 ?s V1 B1] big r by simp_all
  obtain U0 e0 U1 e1 where U: "fold (\<lambda>i. V2_mix (k_mix K) 1 ((i - 1) * 2) (i * 2) ((i - 1) * 2) (i * 2)) [1..<r] ((?V0, ctx0), (?V1, ctx1))
      = ((U0, e0), (U1, e1))" by (rule table2_exhaust)
  have st: "smix1_start Pass2 B0 r V0 (Some ctx0) = (U0, Some e0)" "smix1_start Pass2 B1 r V1 (Some ctx1) = (U1, Some e1)"
    using expand_2way [OF _ _ U] lV big by (simp_all add: smix1_start_def Let_def)
  have XY': "2 * r \<le> length XY0" "2 * r \<le> length XY1" using XY by simp_all
  obtain W0 o0 f0 W1 o1 f1 where F: "fill2 (k_mix K) (k_xor K) r N ((U0, e0), (U1, e1)) XY0 XY1
      = ((W0, put_at 0 o0 XY0, f0), (W1, put_at 0 o1 XY1, f1))"
    "smix1_spec Pass2 B0 r N (Some ctx0) = (chunks ?s W0, o0, Some f0)" "length o0 = ?s" "length W0 = length V0"
    "smix1_spec Pass2 B1 r N (Some ctx1) = (chunks ?s W1, o1, Some f1)" "length o1 = ?s" "length W1 = length V1"
    using fill2_from_start [OF r lens N _ _ XY' st] by auto
  have o: "o0 = X0" "o1 = X1" using F(2,5) spec by simp_all
  obtain Y0 where S0: "fold (store_step ?s) [0..<2 * r] (put_at 0 X0 XY0, B0) = (Y0, put_at 0 (bytes_of X0) B0)" "length Y0 = length XY0"
    using store_state [OF F(3) [unfolded o] XY(1) B(1)] .
  obtain Y1 where S1: "fold (store_step ?s) [0..<2 * r] (put_at 0 X1 XY1, B1) = (Y1, put_at 0 (bytes_of X1) B1)" "length Y1 = length XY1"
    using store_state [OF F(6) [unfolded o] XY(2) B(2)] .
  have "smix1_1_0_2way K B0 B1 r N V0 V1 XY0 XY1 ctx0 ctx1
      = ((put_at 0 (bytes_of X0) B0, W0, Y0, f0), (put_at 0 (bytes_of X1) B1, W1, Y1, f1))"
    unfolding smix1_1_0_2way_def Let_def U F(1) [unfolded o] prod.case S0(1) S1(1) by (rule refl)
  then show ?thesis using F spec S0(2) S1(2) by simp
qed

end

lemma smix1_salsa_2way_eq:
  assumes lens: "length V0 = 1536" "length V1 = 1536" and XY: "2 < length XY0" "2 < length XY1"
    and B: "128 \<le> length B0" "128 \<le> length B1"
    and spec: "smix1_spec Pass2 B0 1 768 None = (Vs0, X0, c0)" "smix1_spec Pass2 B1 1 768 None = (Vs1, X1, c1)"
  shows "\<exists>W0 Y0 W1 Y1. civic_smix1_salsa_2way B0 B1 V0 V1 XY0 XY1
      = ((put_at 0 (bytes_of X0) B0, W0, Y0), (put_at 0 (bytes_of X1) B1, W1, Y1))
    \<and> chunks 2 W0 = Vs0 \<and> length W0 = length V0 \<and> length Y0 = length XY0
    \<and> chunks 2 W1 = Vs1 \<and> length W1 = length V1 \<and> length Y1 = length XY1"
proof -
  let ?V0 = "fold (load_step B0 2) [0..<2] V0" and ?V1 = "fold (load_step B1 2) [0..<2] V1"
  have st: "smix1_start Pass2 B0 1 V0 None = (?V0, None)" "smix1_start Pass2 B1 1 V1 None = (?V1, None)"
    by (simp_all add: smix1_start_def Let_def)
  have pre: "(0 :: nat) < 1" "length V0 = 768 * (2 * 1)" "length V1 = 768 * (2 * 1)" "even (768 :: nat)" "4 \<le> (768 :: nat)"
    "None = (None :: pwxform_ctx option) \<longrightarrow> 1 = (1 :: nat)" "2 * 1 \<le> length XY0" "2 * 1 \<le> length XY1"
    using lens XY by simp_all
  obtain W0 o0 W1 o1 where F: "fill2 salsa_blkmix salsa_blkxor 1 768 ((?V0, ()), (?V1, ())) XY0 XY1
      = ((W0, put_at 0 o0 XY0, ()), (W1, put_at 0 o1 XY1, ()))"
    "smix1_spec Pass2 B0 1 768 None = (chunks 2 W0, o0, None)" "length o0 = 2" "length W0 = length V0"
    "smix1_spec Pass2 B1 1 768 None = (chunks 2 W1, o1, None)" "length o1 = 2" "length W1 = length V1"
    using salsa2.fill2_from_start [OF pre(1-5) pre(6) pre(6) pre(7,8) st] by auto
  have o: "o0 = X0" "o1 = X1" using F(2,5) spec by simp_all
  obtain Y0 where S0: "fold (store_step 2) [0..<2] (put_at 0 X0 XY0, B0) = (Y0, put_at 0 (bytes_of X0) B0)" "length Y0 = length XY0"
    using store_state [of X0 1 XY0 B0] F(3) XY B unfolding o by auto
  obtain Y1 where S1: "fold (store_step 2) [0..<2] (put_at 0 X1 XY1, B1) = (Y1, put_at 0 (bytes_of X1) B1)" "length Y1 = length XY1"
    using store_state [of X1 1 XY1 B1] F(6) XY B unfolding o by auto
  have "civic_smix1_salsa_2way B0 B1 V0 V1 XY0 XY1
      = ((put_at 0 (bytes_of X0) B0, W0, Y0), (put_at 0 (bytes_of X1) B1, W1, Y1))"
    unfolding civic_smix1_salsa_2way_def Let_def F(1) [unfolded o] prod.case S0(1) S1(1) by (rule refl)
  then show ?thesis using F spec S0(2) S1(2) by simp
qed

section \<open>smix2\<close>

text \<open>One call of \<open>CIVIC_SMIX2_BLKXOR\<close> and the masking of its results.\<close>

definition walk2_step :: "save2_fn \<Rightarrow> nat \<Rightarrow> nat \<Rightarrow> walk_state \<times> walk_state \<Rightarrow> walk_state \<times> walk_state" where
  "walk2_step save2 r N st = (case st of ((j0, V0, XY0, ctx0), (j1, V1, XY1, ctx1)) \<Rightarrow>
    (let s = 2 * r;
         vj0 = j0 * s;
         vj1 = j1 * s;
         ((X0, W0, ctx0, res0), (X1, W1, ctx1, res1)) = save2 (seg 0 s XY0) (seg vj0 s V0) ctx0
            (seg 0 s XY1) (seg vj1 s V1) ctx1 r;
         j0 = res0 AND (N - 1);
         j1 = res1 AND (N - 1)
     in ((j0, put_at vj0 W0 V0, put_at 0 X0 XY0, ctx0), (j1, put_at vj1 W1 V1, put_at 0 X1 XY1, ctx1))))"

function walk2_loop :: "save2_fn \<Rightarrow> nat \<Rightarrow> nat \<Rightarrow> nat \<Rightarrow> walk_state \<times> walk_state \<Rightarrow> walk_state \<times> walk_state" where
  "walk2_loop save2 r N Nloop st =
    (let st = walk2_step save2 r N (walk2_step save2 r N st);
         Nloop = Nloop - 2
     in if Nloop \<noteq> 0 then walk2_loop save2 r N Nloop st else st)"
  by pat_completeness auto
termination by (relation "measure (\<lambda>(save2, r, N, Nloop, st). Nloop)") auto

declare walk2_loop.simps [simp del]

definition smix2_1_0_2way :: "smix_kernels \<Rightarrow> bytes \<Rightarrow> bytes \<Rightarrow> nat \<Rightarrow> nat \<Rightarrow> nat \<Rightarrow> blk list \<Rightarrow> blk list \<Rightarrow> blk list \<Rightarrow> blk list \<Rightarrow>
    pwxform_ctx \<Rightarrow> pwxform_ctx \<Rightarrow> (bytes \<times> blk list \<times> blk list \<times> pwxform_ctx) \<times> (bytes \<times> blk list \<times> blk list \<times> pwxform_ctx)" where
  "smix2_1_0_2way K B0 B1 r N Nloop V0 V1 XY0 XY1 ctx0 ctx1 =
    (let s = 2 * r;
         XY0 = fold (load_step B0 s) [0..<2 * r] XY0;
         XY1 = fold (load_step B1 s) [0..<2 * r] XY1;
         j0 = integerify (seg 0 s XY0) r AND (N - 1);
         j1 = integerify (seg 0 s XY1) r AND (N - 1);
         ((j0, V0, XY0, ctx0), (j1, V1, XY1, ctx1)) = walk2_loop (k_save K) r N Nloop ((j0, V0, XY0, ctx0), (j1, V1, XY1, ctx1));
         (XY0, B0) = fold (store_step s) [0..<2 * r] (XY0, B0);
         (XY1, B1) = fold (store_step s) [0..<2 * r] (XY1, B1)
     in ((B0, V0, XY0, ctx0), (B1, V1, XY1, ctx1)))"

definition civic_smix2_1_0_2way :: "bytes \<Rightarrow> bytes \<Rightarrow> nat \<Rightarrow> nat \<Rightarrow> nat \<Rightarrow> blk list \<Rightarrow> blk list \<Rightarrow> blk list \<Rightarrow> blk list \<Rightarrow>
    pwxform_ctx \<Rightarrow> pwxform_ctx \<Rightarrow> (bytes \<times> blk list \<times> blk list \<times> pwxform_ctx) \<times> (bytes \<times> blk list \<times> blk list \<times> pwxform_ctx)" where
  "civic_smix2_1_0_2way = smix2_1_0_2way pipe_kernels"

context two_lane_smix
begin

lemma walk2_step_lanes:
  assumes "walked r N L0 st0 sp0" "walked r N L1 st1 sp1" "0 < r" "N = 2 ^ e"
  shows "walk2_step (k_save K) r N (st0, st1) = (smix2_step Pass2 r N st0, smix2_step Pass2 r N st1)"
proof -
  obtain j0 V0 XY0 c0 j1 V1 XY1 c1 where st: "st0 = (j0, V0, XY0, c0)" "st1 = (j1, V1, XY1, c1)" by (metis surj_pair)
  have lens: "length (seg 0 (2 * r) XY) = 2 * r \<and> length (seg (j * (2 * r)) (2 * r) V) = 2 * r"
    if "walked r N L (j, V, XY, c) sp" for L j V XY c sp
  proof -
    obtain Vs X d where sp: "sp = (Vs, X, d)" by (metis surj_pair)
    have W: "V = concat Vs" "length Vs = N" "\<forall>v \<in> set Vs. length v = 2 * r" "2 * r \<le> length XY" "j = last_word X mod N"
      using that by (auto simp: walked_def sp)
    have "j < length Vs" using W(2,5) assms(4) by simp
    then show ?thesis using W seg_concat' [OF W(3)] by (simp add: length_seg)
  qed
  note l0 = lens [OF assms(1) [unfolded st]] and l1 = lens [OF assms(2) [unfolded st]]
  have "k_save K (seg 0 (2 * r) XY0) (seg (j0 * (2 * r)) (2 * r) V0) c0 (seg 0 (2 * r) XY1) (seg (j1 * (2 * r)) (2 * r) V1) c1 r
    = (blockmix_xor_save Pass2 (seg 0 (2 * r) XY0) (seg (j0 * (2 * r)) (2 * r) V0) r c0,
       blockmix_xor_save Pass2 (seg 0 (2 * r) XY1) (seg (j1 * (2 * r)) (2 * r) V1) r c1)"
    using l0 l1 assms(3) by (intro save2_lanes) simp_all
  then show ?thesis
    by (simp add: st walk2_step_def smix2_step_def Let_def split: prod.splits)
qed

lemma walk2_loop_lanes:
  assumes "walked r N L0 st0 sp0" "walked r N L1 st1 sp1" "0 < r" "N = 2 ^ e" "even Nloop" "0 < Nloop"
  shows "walk2_loop (k_save K) r N Nloop (st0, st1) = (smix2_loop Pass2 r N Nloop st0, smix2_loop Pass2 r N Nloop st1)"
  using assms(1,2,5,6)
proof (induction Nloop arbitrary: st0 st1 sp0 sp1 rule: less_induct)
  case (less Nloop)
  let ?S = "smix2_step Pass2 r N" and ?W = "walk_step Pass2 True N"
  have one: "walked r N L0 (?S st0) (?W sp0)" "walked r N L1 (?S st1) (?W sp1)"
    by (rule smix2_step_walked [OF less.prems(1) assms(3,4)], rule smix2_step_walked [OF less.prems(2) assms(3,4)])
  have two: "walked r N L0 (?S (?S st0)) (?W (?W sp0))" "walked r N L1 (?S (?S st1)) (?W (?W sp1))"
    by (rule smix2_step_walked [OF one(1) assms(3,4)], rule smix2_step_walked [OF one(2) assms(3,4)])
  have step: "walk2_step (k_save K) r N (walk2_step (k_save K) r N (st0, st1)) = (?S (?S st0), ?S (?S st1))"
    using walk2_step_lanes [OF less.prems(1,2) assms(3,4)] walk2_step_lanes [OF one assms(3,4)] by simp
  show ?case
  proof (cases "Nloop - 2 = 0")
    case True
    then show ?thesis by (simp add: walk2_loop.simps [of "k_save K" r N Nloop] smix2_loop.simps [of Pass2 r N Nloop] step Let_def)
  next
    case False
    then have "walk2_loop (k_save K) r N (Nloop - 2) (?S (?S st0), ?S (?S st1))
        = (smix2_loop Pass2 r N (Nloop - 2) (?S (?S st0)), smix2_loop Pass2 r N (Nloop - 2) (?S (?S st1)))"
      using less.IH [OF _ two] less.prems(3) by simp
    with False show ?thesis by (simp add: walk2_loop.simps [of "k_save K" r N Nloop] smix2_loop.simps [of Pass2 r N Nloop] step Let_def)
  qed
qed

end

text \<open>A loaded lane is where the walk of the specification starts.\<close>

lemma load_walked:
  assumes "0 < r" "N = 2 ^ e" "length Vs = N" "\<forall>v \<in> set Vs. length v = 2 * r" "2 * r < length XY"
  shows "walked r N (length XY) (integerify (seg 0 (2 * r) (fold (load_step B (2 * r)) [0..<2 * r] XY)) r AND (N - 1), concat Vs,
      fold (load_step B (2 * r)) [0..<2 * r] XY, c) (Vs, map (block_at B) [0..<2 * r], Some c)"
proof -
  let ?X = "map (block_at B) [0..<2 * r]" and ?XY = "fold (load_step B (2 * r)) [0..<2 * r] XY"
  have L: "length ?XY = length XY" "take (2 * r) ?XY = ?X" using load_blocks [of "2 * r" "2 * r" XY B] assms(5) by auto
  then have "seg 0 (2 * r) ?XY = ?X" by (simp add: seg_def)
  then have "integerify (seg 0 (2 * r) ?XY) r AND (N - 1) = last_word ?X mod N"
    using integerify_last [of ?X r] assms(1) and_pow2 [OF assms(2)] by simp
  then show ?thesis using L assms by (simp add: walked_def)
qed

context two_lane_smix
begin

lemma smix2_2way_lanes:
  assumes "0 < r" "N = 2 ^ e" "even Nloop" "0 < Nloop"
    and "length Vs0 = N" "\<forall>v \<in> set Vs0. length v = 2 * r" "2 * r < length XY0"
    and "length Vs1 = N" "\<forall>v \<in> set Vs1. length v = 2 * r" "2 * r < length XY1"
  shows "smix2_1_0_2way K B0 B1 r N Nloop (concat Vs0) (concat Vs1) XY0 XY1 c0 c1
    = (smix2 Pass2 B0 r N Nloop (concat Vs0) XY0 c0, smix2 Pass2 B1 r N Nloop (concat Vs1) XY1 c1)"
  using walk2_loop_lanes [OF load_walked [OF assms(1,2,5-7)] load_walked [OF assms(1,2,8-10)] assms(1-4), of B0 c0 B1 c1]
  by (simp add: smix2_1_0_2way_def smix2_def smix2_loaded_def Let_def split: prod.splits)

end

section \<open>smix\<close>

text \<open>With AVX2; \<open>civic_smix1_salsa_2way\<close> fills the region from \<open>ctx->S0\<close>, its start.\<close>

definition smix_1_0_2way :: "smix_kernels \<Rightarrow> bytes \<Rightarrow> bytes \<Rightarrow> nat \<Rightarrow> nat \<Rightarrow> blk list \<Rightarrow> blk list \<Rightarrow> blk list \<Rightarrow> blk list \<Rightarrow>
    pwxform_ctx \<Rightarrow> pwxform_ctx \<Rightarrow> (bytes \<times> blk list \<times> blk list \<times> pwxform_ctx) \<times> (bytes \<times> blk list \<times> blk list \<times> pwxform_ctx)" where
  "smix_1_0_2way K B0 B1 N r V0 V1 XY0 XY1 ctx0 ctx1 =
    (let Nloop_rw = (N + 2) div 3;
         Nloop_rw = clear_bit0 (Nloop_rw + 1);
         ((B0, S0, XY0), (B1, S1, XY1)) = civic_smix1_salsa_2way B0 B1 (blocks_of_lanes (cSm ctx0)) (blocks_of_lanes (cSm ctx1)) XY0 XY1;
         ctx0 = ctx0\<lparr>cSm := lanes_of_blocks S0\<rparr>;
         ctx1 = ctx1\<lparr>cSm := lanes_of_blocks S1\<rparr>;
         ((B0, V0, XY0, ctx0), (B1, V1, XY1, ctx1)) = smix1_1_0_2way K B0 B1 r N V0 V1 XY0 XY1 ctx0 ctx1
     in smix2_1_0_2way K B0 B1 r N Nloop_rw V0 V1 XY0 XY1 ctx0 ctx1)"

definition civic_smix_1_0_2way :: "bytes \<Rightarrow> bytes \<Rightarrow> nat \<Rightarrow> nat \<Rightarrow> blk list \<Rightarrow> blk list \<Rightarrow> blk list \<Rightarrow> blk list \<Rightarrow>
    pwxform_ctx \<Rightarrow> pwxform_ctx \<Rightarrow> (bytes \<times> blk list \<times> blk list \<times> pwxform_ctx) \<times> (bytes \<times> blk list \<times> blk list \<times> pwxform_ctx)" where
  "civic_smix_1_0_2way = smix_1_0_2way pipe_kernels"

text \<open>A lane with buffers of the right sizes, and the stages of its specification.\<close>

definition lane_ok :: "nat \<Rightarrow> nat \<Rightarrow> bytes \<Rightarrow> blk list \<Rightarrow> blk list \<Rightarrow> pwxform_ctx \<Rightarrow> bool" where
  "lane_ok r N B V XY ctx \<longleftrightarrow> 128 * r \<le> length B \<and> length V = N * (2 * r) \<and> 2 * r < length XY
     \<and> cSbytes ctx = 98304 \<and> length (cSm ctx) = 6144"

lemma lane_stages:
  assumes "0 < r" "4 \<le> N" "lane_ok r N B V XY ctx"
  obtains S X c Ba Vs Y d Bb where
    "smix1_spec Pass2 B 1 768 None = (S, X, c)" "length S = 768" "\<forall>v \<in> set S. length v = 2"
    "Ba = put_at 0 (bytes_of X) B" "length Ba = length B"
    "smix1_spec Pass2 Ba r N (Some (ctx\<lparr>cSm := lanes_of_blocks (concat S)\<rparr>)) = (Vs, Y, Some d)"
    "length Vs = N" "\<forall>v \<in> set Vs. length v = 2 * r" "Bb = put_at 0 (bytes_of Y) Ba" "length Bb = length B"
    "smix_spec Pass2 B r N ctx = smix2_bytes Pass2 r N (Nloop_rw Pass2 N) (Bb, Vs, d)"
proof -
  have ok: "128 * r \<le> length B" "cSbytes ctx = 98304" using assms(3) by (simp_all add: lane_ok_def)
  obtain S X c where 0: "smix1_spec Pass2 B 1 768 None = (S, X, c)" by (metis prod_cases3)
  have l0: "length S = 768" "\<forall>v \<in> set S. length v = 2" "length X = 2" using smix1_spec_lengths [OF _ _ 0] by auto
  let ?Ba = "put_at 0 (bytes_of X) B"
  have lBa: "length ?Ba = length B" using l0(3) ok(1) assms(1) by (intro length_put_at_0) simp
  obtain Vs Y c1 where 1: "smix1_spec Pass2 ?Ba r N (Some (ctx\<lparr>cSm := lanes_of_blocks (concat S)\<rparr>)) = (Vs, Y, c1)" by (metis prod_cases3)
  have l1: "length Vs = N" "\<forall>v \<in> set Vs. length v = 2 * r" "length Y = 2 * r" "c1 \<noteq> None"
    using smix1_spec_lengths [OF assms(1) _ 1] assms(2) by auto
  then obtain d where d: "c1 = Some d" by auto
  have lBb: "length (put_at 0 (bytes_of Y) ?Ba) = length B" using length_put_at_0 [of "bytes_of Y" ?Ba] l1(3) ok(1) lBa by simp
  have "smix_spec Pass2 B r N ctx = smix2_bytes Pass2 r N (Nloop_rw Pass2 N) (put_at 0 (bytes_of Y) ?Ba, Vs, d)"
    using 0 1 d ok(2) by (simp add: smix_spec_def Let_def)
  with that [OF 0 l0(1,2) refl lBa 1 [unfolded d] l1(1,2) refl lBb] show thesis .
qed

context two_lane_smix
begin

lemma smix_2way_lanes:
  assumes r: "0 < r" and N: "N = 2 ^ e" "8 \<le> N" and ok: "lane_ok r N B0 V0 XY0 ctx0" "lane_ok r N B1 V1 XY1 ctx1"
  shows "\<exists>R0 W0 Y0 d0 R1 W1 Y1 d1. smix_1_0_2way K B0 B1 N r V0 V1 XY0 XY1 ctx0 ctx1 = ((R0, W0, Y0, d0), (R1, W1, Y1, d1))
    \<and> (R0, chunks (2 * r) W0, d0) = smix_spec Pass2 B0 r N ctx0 \<and> length R0 = length B0
    \<and> (R1, chunks (2 * r) W1, d1) = smix_spec Pass2 B1 r N ctx1 \<and> length R1 = length B1"
proof -
  have N4: "even N" "4 \<le> N" using N by (cases e; simp)+
  have o0: "128 * r \<le> length B0" "length V0 = N * (2 * r)" "2 * r < length XY0" "length (cSm ctx0) = 6144"
    and o1: "128 * r \<le> length B1" "length V1 = N * (2 * r)" "2 * r < length XY1" "length (cSm ctx1) = 6144"
    using ok by (simp_all add: lane_ok_def)
  obtain S0 X0 c0 Ba0 Vs0 Y0 d0 Bb0 where A: "smix1_spec Pass2 B0 1 768 None = (S0, X0, c0)" "length S0 = 768" "\<forall>v \<in> set S0. length v = 2"
    "Ba0 = put_at 0 (bytes_of X0) B0" "length Ba0 = length B0"
    "smix1_spec Pass2 Ba0 r N (Some (ctx0\<lparr>cSm := lanes_of_blocks (concat S0)\<rparr>)) = (Vs0, Y0, Some d0)"
    "length Vs0 = N" "\<forall>v \<in> set Vs0. length v = 2 * r" "Bb0 = put_at 0 (bytes_of Y0) Ba0" "length Bb0 = length B0"
    "smix_spec Pass2 B0 r N ctx0 = smix2_bytes Pass2 r N (Nloop_rw Pass2 N) (Bb0, Vs0, d0)"
    using lane_stages [OF r N4(2) ok(1)] .
  obtain S1 X1 c1 Ba1 Vs1 Y1 d1 Bb1 where B: "smix1_spec Pass2 B1 1 768 None = (S1, X1, c1)" "length S1 = 768" "\<forall>v \<in> set S1. length v = 2"
    "Ba1 = put_at 0 (bytes_of X1) B1" "length Ba1 = length B1"
    "smix1_spec Pass2 Ba1 r N (Some (ctx1\<lparr>cSm := lanes_of_blocks (concat S1)\<rparr>)) = (Vs1, Y1, Some d1)"
    "length Vs1 = N" "\<forall>v \<in> set Vs1. length v = 2 * r" "Bb1 = put_at 0 (bytes_of Y1) Ba1" "length Bb1 = length B1"
    "smix_spec Pass2 B1 r N ctx1 = smix2_bytes Pass2 r N (Nloop_rw Pass2 N) (Bb1, Vs1, d1)"
    using lane_stages [OF r N4(2) ok(2)] .
  have pre1: "length (blocks_of_lanes (cSm ctx0)) = 1536" "length (blocks_of_lanes (cSm ctx1)) = 1536"
    "2 < length XY0" "2 < length XY1" "128 \<le> length B0" "128 \<le> length B1"
    using o0 o1 r by simp_all
  obtain T0 Z0 T1 Z1 where 1: "civic_smix1_salsa_2way B0 B1 (blocks_of_lanes (cSm ctx0)) (blocks_of_lanes (cSm ctx1)) XY0 XY1
      = ((Ba0, T0, Z0), (Ba1, T1, Z1))" "chunks 2 T0 = S0" "chunks 2 T1 = S1" "length Z0 = length XY0" "length Z1 = length XY1"
    using smix1_salsa_2way_eq [OF pre1 A(1) B(1)] A(4) B(4) by auto
  have T: "T0 = concat S0" "T1 = concat S1" using 1(2,3) concat_chunks [of 2 T0] concat_chunks [of 2 T1] by simp_all
  have pre2: "2 * r < length Z0" "2 * r < length Z1" "128 * r \<le> length Ba0" "128 * r \<le> length Ba1"
    using o0 o1 1(4,5) A(5) B(5) by simp_all
  obtain U0 Q0 U1 Q1 where 2: "smix1_1_0_2way K Ba0 Ba1 r N V0 V1 Z0 Z1 (ctx0\<lparr>cSm := lanes_of_blocks (concat S0)\<rparr>)
      (ctx1\<lparr>cSm := lanes_of_blocks (concat S1)\<rparr>) = ((Bb0, U0, Q0, d0), (Bb1, U1, Q1, d1))"
    "chunks (2 * r) U0 = Vs0" "chunks (2 * r) U1 = Vs1" "length Q0 = length Z0" "length Q1 = length Z1"
    using smix1_2way_eq [OF r N4 o0(2) o1(2) pre2 A(6) B(6)] A(9) B(9) by auto
  have U: "U0 = concat Vs0" "U1 = concat Vs1"
    using 2(2,3) concat_chunks [of "2 * r" U0] concat_chunks [of "2 * r" U1] r by simp_all
  note nl = Nloop_rw_even(1) [of Pass2 N] Nloop_rw_even(2) [OF N(2), of Pass2]
  have pre3: "2 * r < length Q0" "2 * r < length Q1" "128 * r \<le> length Bb0" "128 * r \<le> length Bb1"
    using pre2 2(4,5) A(5,10) B(5,10) by simp_all
  have 3: "smix2_1_0_2way K Bb0 Bb1 r N (Nloop_rw Pass2 N) U0 U1 Q0 Q1 d0 d1
      = (smix2 Pass2 Bb0 r N (Nloop_rw Pass2 N) U0 Q0 d0, smix2 Pass2 Bb1 r N (Nloop_rw Pass2 N) U1 Q1 d1)"
    unfolding U by (rule smix2_2way_lanes [OF r N(1) nl A(7,8) pre3(1) B(7,8) pre3(2)])
  have p1: "Pass2 = Pass1 \<longrightarrow> 4 * r \<le> length Q0" "Pass2 = Pass1 \<longrightarrow> 4 * r \<le> length Q1" by simp_all
  obtain R0 W0 P0 f0 where 4: "smix2 Pass2 Bb0 r N (Nloop_rw Pass2 N) U0 Q0 d0 = (R0, W0, P0, f0)"
    "smix2_bytes Pass2 r N (Nloop_rw Pass2 N) (Bb0, Vs0, d0) = (R0, chunks (2 * r) W0, f0)" "length R0 = length Bb0"
    using smix2_on_table [OF r N(1) A(7,8) pre3(3,1) p1(1) nl, of d0] U(1) by auto
  obtain R1 W1 P1 f1 where 5: "smix2 Pass2 Bb1 r N (Nloop_rw Pass2 N) U1 Q1 d1 = (R1, W1, P1, f1)"
    "smix2_bytes Pass2 r N (Nloop_rw Pass2 N) (Bb1, Vs1, d1) = (R1, chunks (2 * r) W1, f1)" "length R1 = length Bb1"
    using smix2_on_table [OF r N(1) B(7,8) pre3(4,2) p1(2) nl, of d1] U(2) by auto
  have loops: "clear_bit0 ((N + 2) div 3 + 1) = Nloop_rw Pass2 N" by (simp add: Nloop_rw_def)
  have "smix_1_0_2way K B0 B1 N r V0 V1 XY0 XY1 ctx0 ctx1 = ((R0, W0, P0, f0), (R1, W1, P1, f1))"
    unfolding smix_1_0_2way_def Let_def loops 1(1) prod.case T 2(1) 3 4(1) 5(1) by (rule refl)
  then show ?thesis using 4(2,3) 5(2,3) A(10,11) B(10,11) by simp
qed

end

lemmas smix_2way_computes = pwx2.smix_2way_lanes [folded civic_smix_1_0_2way_def]

end
