(* ===== verification/Soj_Yp2.thy ===== *)
theory Soj_Yp2
  imports Soj_Yespower Soj_Yp2Smix
begin

text \<open>\<open>civic_yespower2_fixed\<close> and \<open>civic_yespower2_tls\<close> of \<open>yespower-opt.c\<close>: two hashes with
  the parameters of CivicLight, each with a region of its own.  The build is the one with AVX2
  and separate regions (\<open>CIVIC_YP2_FUSED_V_ON\<close> is 0).  The two regions are mapped by
  separate calls, so each lane has its own \<open>os\<close>.\<close>

definition civic_N :: nat where "civic_N = 2048"
definition civic_r :: nat where "civic_r = 8"

text \<open>The second half of a lane's turn of the setup loop: what goes into \<open>B\<close>, the context and the key.\<close>

definition fixed_lane :: "HMAC_SHA256_CTX \<Rightarrow> yp_mem \<Rightarrow> bytes \<Rightarrow> bytes \<times> pwxform_ctx \<times> bytes" where
  "fixed_lane hc m src =
    (let ctx = init_ctx Pass2 (mS m);
         sha256 = YP_SHA256_Buf (ictx hc) (take 32 src);
         B = put_at 0 (YP_PBKDF2_SHA256 hc sha256 (take 0 src) 1 128) (mB m);
         sha256 = take 32 B
     in (B, ctx, sha256))"

definition civic_yespower2_fixed :: "os \<Rightarrow> os \<Rightarrow> HMAC_SHA256_CTX \<Rightarrow> contents \<Rightarrow> civic_yespower_region \<Rightarrow> civic_yespower_region \<Rightarrow>
    bytes \<Rightarrow> bytes \<Rightarrow> (civic_yespower_region \<times> civic_yespower_region) \<times> int \<times> bytes \<times> bytes" where
  "civic_yespower2_fixed os0 os1 hc found rg0 rg1 src0 src1 =
    (let need = region_need Pass2 civic_r civic_N;
         (rg0, ok0) = ensure_region os0 need rg0
     in if \<not> ok0 then ((rg0, rg1), -1, fail_hash, fail_hash)
        else
          (let m0 = found rg0 Pass2 civic_r civic_N;
               (B0, ctx0, sha0) = fixed_lane hc m0 src0;
               (rg1, ok1) = ensure_region os1 need rg1
           in if \<not> ok1 then ((rg0, rg1), -1, fail_hash, fail_hash)
              else
                (let m1 = found rg1 Pass2 civic_r civic_N;
                     (B1, ctx1, sha1) = fixed_lane hc m1 src1;
                     ((B0, _, _, _), (B1, _, _, _)) = civic_smix_1_0_2way B0 B1 civic_N civic_r (mV m0) (mV m1) (mXY m0) (mXY m1) ctx0 ctx1;
                     dst0 = YP_HMAC_SHA256_Buf hc (seg (B_size civic_r - 64) 64 B0) sha0;
                     dst1 = YP_HMAC_SHA256_Buf hc (seg (B_size civic_r - 64) 64 B1) sha1
                 in ((rg0, rg1), 0, dst0, dst1))))"

text \<open>The two regions of a thread and whether they are set up.\<close>

type_synonym tls2 = "bool \<times> civic_yespower_region \<times> civic_yespower_region"

definition fixed_params :: "nat \<Rightarrow> civic_yespower_params \<Rightarrow> bool" where
  "fixed_params srclen ps \<longleftrightarrow> srclen = 32 \<and> version ps = YESPOWER_1_0 \<and> pN ps = 2048 \<and> pr ps = 8 \<and> pers ps = None \<and> perslen ps = 0"

definition civic_yespower2_tls :: "os \<Rightarrow> os \<Rightarrow> HMAC_SHA256_CTX \<Rightarrow> contents \<Rightarrow> tls2 \<Rightarrow> bytes \<Rightarrow> bytes \<Rightarrow> nat \<Rightarrow> civic_yespower_params \<Rightarrow>
    tls2 \<times> int \<times> bytes \<times> bytes" where
  "civic_yespower2_tls os0 os1 hc found st src0 src1 srclen ps =
    (let (initialized, rg0, rg1) = st;
         (rg0, rg1) = (if \<not> initialized then (init_region, init_region) else (rg0, rg1))
     in if fixed_params srclen ps then
          (case civic_yespower2_fixed os0 os1 hc found rg0 rg1 src0 src1 of
             ((rg0, rg1), rc, dst0, dst1) \<Rightarrow> ((True, rg0, rg1), rc, dst0, dst1))
        else
          (let (rg0, _, rc0, dst0) = civic_yespower os0 hc found rg0 (take srclen src0) ps;
               (rg1, _, rc1, dst1) = civic_yespower os1 hc found rg1 (take srclen src1) ps
           in ((True, rg0, rg1), rc0 OR rc1, dst0, dst1)))"

section \<open>Two hashes at once are two hashes\<close>

lemma fixed_lane_ok:
  assumes "mem_fits Pass2 civic_r civic_N m" "fixed_lane hc m src = (B, ctx, sha)"
    and "length (YP_PBKDF2_SHA256 hc (YP_SHA256_Buf (ictx hc) (take 32 src)) [] 1 128) = 128"
  shows "lane_ok civic_r civic_N B (mV m) (mXY m) ctx"
  using assms by (auto simp: fixed_lane_def Let_def lane_ok_def mem_fits_def B_size_def V_size_def XY_size_def S_size_def init_ctx_def
      Swidth_to_Sbytes1_def Swidth_def PWXsimple_def civic_r_def civic_N_def length_put_at)

text \<open>The last step of a lane is the one of \<open>yespower_1_0\<close>.\<close>

lemma fixed_lane_hash:
  assumes "mem_fits Pass2 civic_r civic_N m" "fixed_lane hc m src = (B, ctx, sha)" "hmac_usable hc" "length src = 32"
    and "lane_ok civic_r civic_N B (mV m) (mXY m) ctx" "(R, W, d) = smix_spec Pass2 B civic_r civic_N ctx"
  shows "YP_HMAC_SHA256_Buf hc (seg (B_size civic_r - 64) 64 R) sha = yespower_hash civic_params src"
proof -
  have L: "0 < civic_r" "length (mV m) = civic_N * (2 * civic_r)" "civic_N = 2 ^ 11" "8 \<le> civic_N" "128 * civic_r \<le> length B"
    "2 * civic_r < length (mXY m)" "Pass2 = Pass1 \<longrightarrow> 4 * civic_r \<le> length (mXY m)" "16 * length (cSm ctx) = cSbytes ctx"
    "cSbytes ctx = (case Pass2 of Pass1 \<Rightarrow> 2 | Pass2 \<Rightarrow> 3) * Sb Pass2"
    using assms(5) by (simp_all add: lane_ok_def civic_r_def civic_N_def Sb_values)
  obtain R' V XY c where s': "smix Pass2 B civic_r civic_N (mV m) (mXY m) ctx = (R', V, XY, c)" by (metis prod_cases4)
  have "(R', chunks (2 * civic_r) V, c) = smix_spec Pass2 B civic_r civic_N ctx" using smix_computes [OF L] s' by simp
  then have "R' = R" unfolding assms(6) [symmetric] by simp
  note s = s' [unfolded this]
  have "yespower_1_0 hc m src civic_params = YP_HMAC_SHA256_Buf hc (seg (B_size civic_r - 64) 64 R) sha"
    using assms(2,4) s by (auto simp: yespower_1_0_def fixed_lane_def Let_def civic_params_def civic_r_def civic_N_def)
  moreover have "yespower_1_0 hc m src civic_params = yespower_hash civic_params src"
    by (rule yespower_1_0_correct [where e = 11])
      (use assms(1,3) in \<open>simp_all add: civic_params_def civic_r_def civic_N_def pass_of_def YESPOWER_0_5_def\<close>)
  ultimately show ?thesis by simp
qed

lemma fixed_params_civic: "fixed_params srclen ps \<longleftrightarrow> srclen = 32 \<and> ps = civic_params"
  by (cases ps) (auto simp: fixed_params_def civic_params_def YESPOWER_1_0_def)

lemma yespower2_fixed_result:
  assumes hc: "hmac_usable hc" and fit: "\<And>rg p r N. mem_fits p r N (found rg p r N)" and src: "length src0 = 32" "length src1 = 32"
  defines "need \<equiv> region_need Pass2 civic_r civic_N"
  shows "civic_yespower2_fixed os0 os1 hc found rg0 rg1 src0 src1 =
    (case ensure_region os0 need rg0 of (rg0', ok0) \<Rightarrow>
      if ok0 then (case ensure_region os1 need rg1 of (rg1', ok1) \<Rightarrow>
        if ok1 then ((rg0', rg1'), 0, yespower_hash civic_params src0, yespower_hash civic_params src1)
        else ((rg0', rg1'), -1, fail_hash, fail_hash))
      else ((rg0', rg1), -1, fail_hash, fail_hash))"
proof -
  obtain rg0' ok0 rg1' ok1 where e: "ensure_region os0 need rg0 = (rg0', ok0)" "ensure_region os1 need rg1 = (rg1', ok1)" by fastforce
  let ?m0 = "found rg0' Pass2 civic_r civic_N" and ?m1 = "found rg1' Pass2 civic_r civic_N"
  obtain B0 c0 k0 where f0: "fixed_lane hc ?m0 src0 = (B0, c0, k0)" by (metis prod_cases3)
  obtain B1 c1 k1 where f1: "fixed_lane hc ?m1 src1 = (B1, c1, k1)" by (metis prod_cases3)
  have l: "length (YP_PBKDF2_SHA256 hc x [] 1 128) = 128" for x
    unfolding pbkdf2_correct [OF hc] by (rule length_pbkdf2) simp
  note o0 = fixed_lane_ok [OF fit f0 l] and o1 = fixed_lane_ok [OF fit f1 l]
  have N: "0 < civic_r" "civic_N = 2 ^ 11" "8 \<le> civic_N" by (simp_all add: civic_r_def civic_N_def)
  obtain R0 W0 Y0 d0 R1 W1 Y1 d1 where s: "civic_smix_1_0_2way B0 B1 civic_N civic_r (mV ?m0) (mV ?m1) (mXY ?m0) (mXY ?m1) c0 c1
      = ((R0, W0, Y0, d0), (R1, W1, Y1, d1))"
    "(R0, chunks (2 * civic_r) W0, d0) = smix_spec Pass2 B0 civic_r civic_N c0" "(R1, chunks (2 * civic_r) W1, d1) = smix_spec Pass2 B1 civic_r civic_N c1"
    using smix_2way_computes [OF N o0 o1] by blast
  show ?thesis
    using fixed_lane_hash [OF fit f0 hc src(1) o0 s(2)] fixed_lane_hash [OF fit f1 hc src(2) o1 s(3)] e f0 f1 s(1)
    by (simp add: civic_yespower2_fixed_def need_def [symmetric] Let_def)
qed

lemma yespower2_general:
  assumes hc: "hmac_usable hc" and fit: "\<And>rg p r N. mem_fits p r N (found rg p r N)"
    and mm: "mmap_ok (os_mmap os)" and rg: "region_ok rg" and run: "civic_yespower os hc found rg src ps = (rg', err, rc, dst)"
  shows "region_ok rg' \<and> (rc = 0 \<and> dst = yespower_hash ps src \<or> rc = -1 \<and> dst = fail_hash)
    \<and> (\<not> params_invalid ps \<longrightarrow> memory_given os \<longrightarrow> rc = 0)"
proof (cases "params_invalid ps")
  case True
  then show ?thesis using run rg by (auto simp: civic_yespower_def)
next
  case False
  note v = valid_params [OF False]
  let ?need = "region_need (pass_of ps) (unat (pr ps)) (unat (pN ps))"
  obtain rg1 ok where en: "ensure_region os ?need rg = (rg1, ok)" by fastforce
  have "region_ok rg1" using ensure_region_ok [OF mm _ rg en] region_need_small [OF v(4,5,3), of "pass_of ps"] by simp
  moreover have "memory_given os \<longrightarrow> ok"
    using ensure_region_succeeds [OF mm region_need_small [OF v(4,5,3)], where rg = rg] en
    by (metis snd_conv)
  ultimately show ?thesis
    using run False en by (auto simp: civic_yespower_result [OF hc fit] split: if_splits)
qed

lemma yespower2_tls_computes:
  assumes hc: "hmac_usable hc" and fit: "\<And>rg p r N. mem_fits p r N (found rg p r N)" and src: "length src0 = srclen" "length src1 = srclen"
    and os: "mmap_ok (os_mmap os0)" "mmap_ok (os_mmap os1)" and rg: "region_ok rg0" "region_ok rg1"
    and run: "civic_yespower2_tls os0 os1 hc found (b, rg0, rg1) src0 src1 srclen ps = ((b', rg0', rg1'), rc, dst0, dst1)"
  shows "b' \<and> region_ok rg0' \<and> region_ok rg1'
    \<and> (rc = 0 \<and> dst0 = yespower_hash ps src0 \<and> dst1 = yespower_hash ps src1 \<or> rc = -1 \<and> (dst0 = fail_hash \<or> dst1 = fail_hash))
    \<and> (\<not> params_invalid ps \<longrightarrow> memory_given os0 \<longrightarrow> memory_given os1 \<longrightarrow> rc = 0)"
proof -
  define r0 r1 where r: "r0 = (if b then rg0 else init_region)" "r1 = (if b then rg1 else init_region)"
  have ok: "region_ok r0" "region_ok r1" using rg by (auto simp: r region_ok_def)
  show ?thesis
  proof (cases "fixed_params srclen ps")
    case True
    then have ps: "srclen = 32" "ps = civic_params" by (simp_all add: fixed_params_civic)
    let ?need = "region_need Pass2 civic_r civic_N"
    have need: "?need + 2 ^ 22 < 2 ^ 33" using region_need_small [of civic_r civic_N Pass2] by (simp add: civic_r_def civic_N_def)
    obtain s0 k0 s1 k1 where e: "ensure_region os0 ?need r0 = (s0, k0)" "ensure_region os1 ?need r1 = (s1, k1)" by fastforce
    have R: "region_ok s0" "region_ok s1"
      using ensure_region_ok [OF os(1) _ ok(1) e(1)] ensure_region_ok [OF os(2) _ ok(2) e(2)] need by simp_all
    have M: "memory_given os0 \<Longrightarrow> k0" "memory_given os1 \<Longrightarrow> k1"
      using ensure_region_succeeds [OF os(1) need, of r0] ensure_region_succeeds [OF os(2) need, of r1] e by simp_all
    have "civic_yespower2_tls os0 os1 hc found (b, rg0, rg1) src0 src1 srclen ps
        = (case civic_yespower2_fixed os0 os1 hc found r0 r1 src0 src1 of ((rg0, rg1), rc, dst0, dst1) \<Rightarrow> ((True, rg0, rg1), rc, dst0, dst1))"
      using True by (simp add: civic_yespower2_tls_def r Let_def)
    then show ?thesis
      using run ps(2) R M ok e src ps(1)
      by (auto simp: yespower2_fixed_result [OF hc fit] split: if_splits)
  next
    case False
    obtain s0 e0 c0 d0 where 0: "civic_yespower os0 hc found r0 (take srclen src0) ps = (s0, e0, c0, d0)" by (metis prod_cases4)
    obtain s1 e1 c1 d1 where 1: "civic_yespower os1 hc found r1 (take srclen src1) ps = (s1, e1, c1, d1)" by (metis prod_cases4)
    have "rc = c0 OR c1" "b'" "rg0' = s0" "rg1' = s1" "dst0 = d0" "dst1 = d1"
      using run False 0 1 by (auto simp: civic_yespower2_tls_def r Let_def split: if_splits)
    then show ?thesis
      using yespower2_general [OF hc fit os(1) ok(1) 0] yespower2_general [OF hc fit os(2) ok(2) 1] src by auto
  qed
qed

text \<open>C3: \<open>civic_yespower2_tls\<close> hashes two messages.  On either path - the two-lane kernels for
  CivicLight's parameters, or two calls of \<open>civic_yespower\<close> - success means that each output is the
  specified hash of its own message, and failure that an output is all ones.  It succeeds when
  the parameters are valid and the system gives memory, from any state of the thread's two
  regions, and leaves them within their mappings.\<close>

theorem civic_yespower2_tls_correct:
  assumes "hmac_usable hc" "\<And>rg p r N. mem_fits p r N (found rg p r N)" "length src0 = srclen" "length src1 = srclen"
    and "mmap_ok (os_mmap os0)" "mmap_ok (os_mmap os1)" "region_ok rg0" "region_ok rg1"
    and "civic_yespower2_tls os0 os1 hc found (b, rg0, rg1) src0 src1 srclen ps = ((b', rg0', rg1'), rc, dst0, dst1)"
  shows "b' \<and> region_ok rg0' \<and> region_ok rg1'
    \<and> (rc = 0 \<and> dst0 = yespower_hash ps src0 \<and> dst1 = yespower_hash ps src1 \<or> rc = -1 \<and> (dst0 = fail_hash \<or> dst1 = fail_hash))
    \<and> (\<not> params_invalid ps \<longrightarrow> memory_given os0 \<longrightarrow> memory_given os1 \<longrightarrow> rc = 0)"
  using assms by (rule yespower2_tls_computes)

text \<open>A system that maps everything below 1 TB at one place, huge pages excepted.\<close>

definition simple_os :: os where
  "simple_os = \<lparr>os_mmap = \<lambda>n h. if \<not> h \<and> n < 2 ^ 40 then Some (2 ^ 44) else None, os_munmap_fails = \<lambda>b n. False\<rparr>"

lemma simple_os_ok: "mmap_ok (os_mmap simple_os)" "memory_given simple_os"
  by (auto simp: simple_os_def mmap_ok_def memory_given_def word_less_nat_alt)

theorem civic_yespower2_tls_correct_witness:
  "let hc = \<lparr>ictx = \<lparr>state = [], count = 0, buf = replicate 64 1\<rparr>, octx = \<lparr>state = [], count = 0, buf = replicate 64 2\<rparr>\<rparr>;
       a = replicate 32 1; b = replicate 32 2
   in \<exists>st. civic_yespower2_tls simple_os simple_os hc zero_found (False, init_region, init_region) a b 32 civic_params
      = (st, 0, yespower_hash civic_params a, yespower_hash civic_params b)"
proof -
  let ?hc = "\<lparr>ictx = \<lparr>state = [], count = 0, buf = replicate 64 1\<rparr>, octx = \<lparr>state = [], count = 0, buf = replicate 64 2\<rparr>\<rparr>"
  have hc: "hmac_usable ?hc" by (simp add: hmac_usable_def)
  have l: "length (replicate 32 1 :: bytes) = 32" "length (replicate 32 2 :: bytes) = 32" "region_ok init_region"
    by (simp_all add: region_ok_def)
  obtain b' rg0' rg1' rc d0 d1 where run: "civic_yespower2_tls simple_os simple_os ?hc zero_found (False, init_region, init_region)
      (replicate 32 1) (replicate 32 2) 32 civic_params = ((b', rg0', rg1'), rc, d0, d1)" by (metis surj_pair)
  show ?thesis
    using civic_yespower2_tls_correct [OF hc zero_found_fits l(1,2) simple_os_ok(1) simple_os_ok(1) l(3) l(3) run]
      simple_os_ok(2) civic_params_valid run
    unfolding Let_def by auto
qed

end
