(* ===== verification/Soj_Pow.thy ===== *)
theory Soj_Pow
  imports Soj_Yp2 Soj_Civiclight
begin

text \<open>The proof of work with the yespower of the repository in the place of the function pointers: what
  the scanner is proved to do for any pair of yespower functions, it does for
  \<open>civic_yespower_tls\<close> and \<open>civic_yespower2_tls\<close>.  A call finds the thread's regions, the system and
  the stack in some state; a call's state is a function of its inputs, so nothing is assumed of how the
  states of different calls are related.\<close>

record call_env =
  ce_os0 :: os
  ce_os1 :: os
  ce_hc :: HMAC_SHA256_CTX
  ce_found :: contents
  ce_init :: bool
  ce_rg0 :: civic_yespower_region
  ce_rg1 :: civic_yespower_region

text \<open>\<open>civic_yespower_impl (hash1, 32, &params, &yp_out)\<close> and its two-way form, return values dropped
  as \<open>civiclight.c\<close> does.\<close>

definition tls_impl :: "(bytes \<Rightarrow> call_env) \<Rightarrow> (bytes \<Rightarrow> bytes \<Rightarrow> call_env) \<Rightarrow> yespower_impl" where
  "tls_impl env1 env2 =
    \<lparr>impl1 = \<lambda>a. (let e = env1 a in
        case civic_yespower_tls (ce_os0 e) (ce_hc e) (ce_found e) (ce_init e, ce_rg0 e) a civic_params of (_, _, dst) \<Rightarrow> dst),
     impl2 = \<lambda>a b. (let e = env2 a b in
        case civic_yespower2_tls (ce_os0 e) (ce_os1 e) (ce_hc e) (ce_found e) (ce_init e, ce_rg0 e, ce_rg1 e) a b 32 civic_params of
          (_, _, dst0, dst1) \<Rightarrow> (dst0, dst1))\<rparr>"

text \<open>A call that finds its regions in order and a system that gives memory.\<close>

definition env_ok :: "call_env \<Rightarrow> bool" where
  "env_ok e \<longleftrightarrow> hmac_usable (ce_hc e) \<and> (\<forall>rg p r N. mem_fits p r N (ce_found e rg p r N))
     \<and> mmap_ok (os_mmap (ce_os0 e)) \<and> mmap_ok (os_mmap (ce_os1 e)) \<and> memory_given (ce_os0 e) \<and> memory_given (ce_os1 e)
     \<and> region_ok (ce_rg0 e) \<and> region_ok (ce_rg1 e)"

lemma tls_impl1:
  assumes "env_ok (env1 a)"
  shows "impl1 (tls_impl env1 env2) a = yespower_hash civic_params a"
proof -
  let ?e = "env1 a"
  let ?rg = "if ce_init ?e then ce_rg0 ?e else init_region"
  have ok: "region_ok ?rg" using assms by (simp add: env_ok_def region_ok_def)
  obtain rg err rc dst where run: "civic_yespower (ce_os0 ?e) (ce_hc ?e) (ce_found ?e) ?rg a civic_params = (rg, err, rc, dst)"
    by (metis prod_cases4)
  have "dst = yespower_hash civic_params a"
    using yespower2_general [OF _ _ _ ok run] assms civic_params_valid by (auto simp: env_ok_def)
  then show ?thesis using run by (auto simp: tls_impl_def civic_yespower_tls_def Let_def)
qed

lemma tls_impl2:
  assumes "env_ok (env2 a b)" "length a = 32" "length b = 32"
  shows "impl2 (tls_impl env1 env2) a b = (yespower_hash civic_params a, yespower_hash civic_params b)"
proof -
  let ?e = "env2 a b"
  obtain i rg0 rg1 rc d0 d1 where run: "civic_yespower2_tls (ce_os0 ?e) (ce_os1 ?e) (ce_hc ?e) (ce_found ?e) (ce_init ?e, ce_rg0 ?e, ce_rg1 ?e) a b 32 civic_params
      = ((i, rg0, rg1), rc, d0, d1)" by (metis surj_pair)
  have "d0 = yespower_hash civic_params a \<and> d1 = yespower_hash civic_params b"
    using yespower2_tls_computes [OF _ _ assms(2,3) _ _ _ _ run] assms(1) civic_params_valid by (auto simp: env_ok_def)
  then show ?thesis using run by (simp add: tls_impl_def Let_def)
qed

lemma tls_impl_pairs:
  assumes "\<And>a. env_ok (env1 a)" "\<And>a b. env_ok (env2 a b)" "length a = 32" "length b = 32"
  shows "impl2 (tls_impl env1 env2) a b = (impl1 (tls_impl env1 env2) a, impl1 (tls_impl env1 env2) b)"
  using tls_impl1 [OF assms(1)] tls_impl2 [OF assms(2-4)] by simp



section \<open>When memory cannot be had\<close>

lemma no_memory_hash:
  assumes "\<And>n h. os_mmap os n h = None"
  shows "civic_yespower_tls os hc found (False, rg) src civic_params = ((True, init_region), -1, fail_hash)"
proof -
  have "map_region (os_mmap os) n = None" for n
    using assms by (cases "first_request n") (simp add: map_region_def)
  then have a: "alloc_region (os_mmap os) n = (init_region, 0)" for n
    by (simp add: alloc_region_def init_region_def)
  have "0 < region_need (pass_of civic_params) (unat (pr civic_params)) (unat (pN civic_params))"
    by (simp add: civic_params_def region_need_def B_size_def)
  then have "ensure_region os (region_need (pass_of civic_params) (unat (pr civic_params)) (unat (pN civic_params))) init_region = (init_region, False)"
    using a by (simp add: ensure_region_def free_region_def) (simp add: init_region_def)
  then show ?thesis
    using civic_params_valid by (simp add: civic_yespower_tls_def civic_yespower_def Let_def)
qed



end
