(* ===== verification/Soj_Yp1.thy ===== *)
theory Soj_Yp1
  imports Soj_Yp2
begin

text \<open>The build with \<open>CIVIC_ONEWAY\<close>: SMix on one lane by the one-lane kernels, and
  \<open>civic_yespower_fixed_1way\<close>.  The S-boxes are filled by \<open>civic_smix1_salsa_2way\<close> with both lanes on
  the same memory, so this call is modelled on shared buffers: every store of a lane is seen by the
  other.  \<open>civic_smix1_1_0_1way\<close> and \<open>civic_smix2_1_0_1way\<close> are proved to be one lane of the two-lane
  functions, whatever the data.\<close>

section \<open>smix1 on one lane\<close>

definition V1_mix :: "nat \<Rightarrow> nat \<Rightarrow> nat \<Rightarrow> blk list \<times> pwxform_ctx \<Rightarrow> blk list \<times> pwxform_ctx" where
  "V1_mix r src dst st = (case st of (V, c) \<Rightarrow>
    (case civic_blockmix_1way (seg src (2 * r) V) (seg dst (2 * r) V) c r of (out, c) \<Rightarrow> (put_at dst out V, c)))"

definition V1_xor :: "nat \<Rightarrow> nat \<Rightarrow> nat \<Rightarrow> nat \<Rightarrow> blk list \<times> pwxform_ctx \<Rightarrow> nat \<times> blk list \<times> pwxform_ctx" where
  "V1_xor r x vj y st = (case st of (V, c) \<Rightarrow>
    (case civic_blockmix_xor_1way_pipe (seg x (2 * r) V) (seg vj (2 * r) V) (seg y (2 * r) V) c r of
       (out, c, j) \<Rightarrow> (j, put_at y out V, c)))"

definition fill1_body :: "nat \<Rightarrow> nat \<Rightarrow> nat \<Rightarrow> pwxform_ctx fill_lane \<Rightarrow> pwxform_ctx fill_lane" where
  "fill1_body r n i st = (case st of (x, j, V, c) \<Rightarrow>
    (let s = 2 * r;
         y = x + s;
         vj = ((j AND (n - 1)) + i - 1) * s;
         (j, V, c) = V1_xor r x vj y (V, c);
         vj = ((j AND (n - 1)) + i) * s;
         x = y + s;
         (j, V, c) = V1_xor r y vj x (V, c)
     in (x, j, V, c)))"

function fill1_inner :: "nat \<Rightarrow> nat \<Rightarrow> nat \<Rightarrow> nat \<Rightarrow> pwxform_ctx fill_lane \<Rightarrow> pwxform_ctx fill_lane" where
  "fill1_inner r n m i st = (if i < m then fill1_inner r n m (i + 2) (fill1_body r n i st) else st)"
  by pat_completeness auto
termination by (relation "measure (\<lambda>(r, n, m, i, st). m - i)") auto

declare fill1_inner.simps [simp del]

function fill1_outer :: "nat \<Rightarrow> nat \<Rightarrow> nat \<Rightarrow> pwxform_ctx fill_lane \<Rightarrow> nat \<times> pwxform_ctx fill_lane" where
  "fill1_outer r N n st =
    (if n < N \<and> 0 < n then
       (let m = (if n < N div 2 then n else N - 1 - n)
        in fill1_outer r N (push_bit 1 n) (fill1_inner r n m 1 st))
     else (n, st))"
  by pat_completeness auto
termination by (relation "measure (\<lambda>(r, N, n, st). N - n)") (auto simp: push_bit_eq_mult)

declare fill1_outer.simps [simp del]

definition civic_smix1_1_0_1way :: "bytes \<Rightarrow> nat \<Rightarrow> nat \<Rightarrow> blk list \<Rightarrow> blk list \<Rightarrow> pwxform_ctx \<Rightarrow> bytes \<times> blk list \<times> blk list \<times> pwxform_ctx" where
  "civic_smix1_1_0_1way B r N V XY ctx =
    (let s = 2 * r;
         V = fold (load_step B s) [0..<2] V;
         (V, ctx) = fold (\<lambda>i. V1_mix 1 ((i - 1) * 2) (i * 2)) [1..<r] (V, ctx);
         (V, ctx) = V1_mix r 0 s (V, ctx);
         x = s + s;
         (V, ctx) = V1_mix r s x (V, ctx);
         j = integerify (seg x s V) r;
         (n, x, j, V, ctx) = fill1_outer r N 2 (x, j, V, ctx);
         n = drop_bit 1 n;
         y = x + s;
         vj = ((j AND (n - 1)) + N - 2 - n) * s;
         (j, V, ctx) = V1_xor r x vj y (V, ctx);
         vj = ((j AND (n - 1)) + N - 1 - n) * s;
         (out, ctx, _) = civic_blockmix_xor_1way_pipe (seg y s V) (seg vj s V) (seg 0 s XY) ctx r;
         (XY, B) = fold (store_step s) [0..<2 * r] (put_at 0 out XY, B)
     in (B, V, XY, ctx))"

section \<open>smix2 on one lane\<close>

definition walk1_step :: "nat \<Rightarrow> nat \<Rightarrow> walk_state \<Rightarrow> walk_state" where
  "walk1_step r N st = (case st of (j, V, XY, ctx) \<Rightarrow>
    (let s = 2 * r;
         vj = j * s;
         (X, W, ctx, res) = civic_blockmix_xor_save_1way_pipe (seg 0 s XY) (seg vj s V) ctx r
     in (res AND (N - 1), put_at vj W V, put_at 0 X XY, ctx)))"

function walk1_loop :: "nat \<Rightarrow> nat \<Rightarrow> nat \<Rightarrow> walk_state \<Rightarrow> walk_state" where
  "walk1_loop r N Nloop st =
    (let st = walk1_step r N (walk1_step r N st);
         Nloop = Nloop - 2
     in if Nloop \<noteq> 0 then walk1_loop r N Nloop st else st)"
  by pat_completeness auto
termination by (relation "measure (\<lambda>(r, N, Nloop, st). Nloop)") auto

declare walk1_loop.simps [simp del]

definition civic_smix2_1_0_1way :: "bytes \<Rightarrow> nat \<Rightarrow> nat \<Rightarrow> nat \<Rightarrow> blk list \<Rightarrow> blk list \<Rightarrow> pwxform_ctx \<Rightarrow>
    bytes \<times> blk list \<times> blk list \<times> pwxform_ctx" where
  "civic_smix2_1_0_1way B r N Nloop V XY ctx =
    (let s = 2 * r;
         XY = fold (load_step B s) [0..<2 * r] XY;
         j = integerify (seg 0 s XY) r AND (N - 1);
         (j, V, XY, ctx) = walk1_loop r N Nloop (j, V, XY, ctx);
         (XY, B) = fold (store_step s) [0..<2 * r] (XY, B)
     in (B, V, XY, ctx))"

section \<open>Two lanes are two runs on one lane\<close>

lemma V2_mix_1way:
  "V2_mix smix1_blkmix r src0 dst0 src1 dst1 (l0, l1) = (V1_mix r src0 dst0 l0, V1_mix r src1 dst1 l1)"
  by (cases l0; cases l1) (simp add: V2_mix_def V1_mix_def smix1_blkmix_def blockmix_2way_1way split: prod.split)

lemma V2_xor_1way:
  "V2_xor CIVIC_SMIX1_BLKXOR r x0 vj0 y0 x1 vj1 y1 (l0, l1) = (V1_xor r x0 vj0 y0 l0, V1_xor r x1 vj1 y1 l1)"
  by (cases l0; cases l1) (simp add: V2_xor_def V1_xor_def CIVIC_SMIX1_BLKXOR_def blockmix_xor_2way_pipe_1way split: prod.split)

lemma fill2_body_1way: "fill2_body CIVIC_SMIX1_BLKXOR r n i (l0, l1) = (fill1_body r n i l0, fill1_body r n i l1)"
  by (cases l0; cases l1) (simp add: fill2_body_def fill1_body_def V2_xor_1way Let_def split: prod.split)

lemma fill2_inner_1way: "fill2_inner CIVIC_SMIX1_BLKXOR r n m i (l0, l1) = (fill1_inner r n m i l0, fill1_inner r n m i l1)"
proof (induction "m - i" arbitrary: i l0 l1 rule: less_induct)
  case less
  show ?case
  proof (cases "i < m")
    case True
    have "fill2_inner CIVIC_SMIX1_BLKXOR r n m (i + 2) (fill1_body r n i l0, fill1_body r n i l1)
        = (fill1_inner r n m (i + 2) (fill1_body r n i l0), fill1_inner r n m (i + 2) (fill1_body r n i l1))"
      using True by (intro less) simp
    with True show ?thesis
      by (simp add: fill2_inner.simps [of _ r n m i] fill1_inner.simps [of r n m i] fill2_body_1way)
  qed (simp add: fill2_inner.simps fill1_inner.simps)
qed

lemma fill2_outer_1way:
  "fill2_outer CIVIC_SMIX1_BLKXOR r N n (l0, l1) = (fst (fill1_outer r N n l0), snd (fill1_outer r N n l0), snd (fill1_outer r N n l1))
    \<and> fst (fill1_outer r N n l1) = fst (fill1_outer r N n l0)"
proof (induction "N - n" arbitrary: n l0 l1 rule: less_induct)
  case less
  show ?case
  proof (cases "n < N \<and> 0 < n")
    case True
    then have "N - push_bit 1 n < N - n" by (auto simp: push_bit_eq_mult intro: diff_less_mono2)
    from less [OF this] True show ?thesis
      by (simp add: fill2_outer.simps [of _ r N n] fill1_outer.simps [of r N n] fill2_inner_1way Let_def)
  next
    case False
    then show ?thesis by (simp only: fill2_outer.simps [of _ r N n] fill1_outer.simps [of r N n] if_not_P fst_conv snd_conv) simp
  qed
qed

lemma fold_expand_1way:
  "fold (\<lambda>i. V2_mix smix1_blkmix 1 ((i - 1) * 2) (i * 2) ((i - 1) * 2) (i * 2)) is (l0, l1)
    = (fold (\<lambda>i. V1_mix 1 ((i - 1) * 2) (i * 2)) is l0, fold (\<lambda>i. V1_mix 1 ((i - 1) * 2) (i * 2)) is l1)"
  by (induction "is" arbitrary: l0 l1) (simp_all add: V2_mix_1way)

text \<open>From the same start, \<open>civic_smix1_1_0_2way\<close> runs \<open>civic_smix1_1_0_1way\<close> in each lane.\<close>

lemma smix1_2way_is_1way:
  "civic_smix1_1_0_2way B0 B1 r N V0 V1 XY0 XY1 c0 c1 = (civic_smix1_1_0_1way B0 r N V0 XY0 c0, civic_smix1_1_0_1way B1 r N V1 XY1 c1)"
proof -
  let ?s = "2 * r"
  let ?f = "\<lambda>i. V1_mix 1 ((i - 1) * 2) (i * 2)"
  obtain W0 d0 where a0: "fold ?f [1..<r] (fold (load_step B0 ?s) [0..<2] V0, c0) = (W0, d0)" by fastforce
  obtain W1 d1 where a1: "fold ?f [1..<r] (fold (load_step B1 ?s) [0..<2] V1, c1) = (W1, d1)" by fastforce
  obtain U0 e0 where b0: "V1_mix r 0 ?s (W0, d0) = (U0, e0)" by fastforce
  obtain U1 e1 where b1: "V1_mix r 0 ?s (W1, d1) = (U1, e1)" by fastforce
  obtain T0 f0 where t0: "V1_mix r ?s (?s + ?s) (U0, e0) = (T0, f0)" by fastforce
  obtain T1 f1 where t1: "V1_mix r ?s (?s + ?s) (U1, e1) = (T1, f1)" by fastforce
  let ?l0 = "(?s + ?s, integerify (seg (?s + ?s) ?s T0) r, T0, f0)" and ?l1 = "(?s + ?s, integerify (seg (?s + ?s) ?s T1) r, T1, f1)"
  obtain n x0 j0 R0 g0 where o0: "fill1_outer r N 2 ?l0 = (n, x0, j0, R0, g0)" by (metis prod_cases5)
  obtain n' x1 j1 R1 g1 where o1': "fill1_outer r N 2 ?l1 = (n', x1, j1, R1, g1)" by (metis prod_cases5)
  have o2: "fill2_outer CIVIC_SMIX1_BLKXOR r N 2 (?l0, ?l1) = (n, (x0, j0, R0, g0), (x1, j1, R1, g1))" "n' = n"
    using fill2_outer_1way [of r N 2 ?l0 ?l1] o0 o1' by simp_all
  note o1 = o1' [unfolded o2(2)]
  obtain k0 Q0 h0 where q0: "V1_xor r x0 (((j0 AND (drop_bit 1 n - 1)) + N - 2 - drop_bit 1 n) * ?s) (x0 + ?s) (R0, g0) = (k0, Q0, h0)"
    by (metis prod_cases3)
  obtain k1 Q1 h1 where q1: "V1_xor r x1 (((j1 AND (drop_bit 1 n - 1)) + N - 2 - drop_bit 1 n) * ?s) (x1 + ?s) (R1, g1) = (k1, Q1, h1)"
    by (metis prod_cases3)
  have K: "k_mix pipe_kernels = smix1_blkmix" "k_xor pipe_kernels = CIVIC_SMIX1_BLKXOR" by (simp_all add: pipe_kernels_def)
  show ?thesis
    unfolding civic_smix1_1_0_2way_def smix1_1_0_2way_def civic_smix1_1_0_1way_def fill2_def K Let_def fold_expand_1way a0 a1 prod.case
      V2_mix_1way b0 b1 t0 t1 o2(1) o0 o1 V2_xor_1way q0 q1
    by (simp add: CIVIC_SMIX1_BLKXOR_def blockmix_xor_2way_pipe_1way split: prod.split)
qed

lemma walk2_step_1way: "walk2_step CIVIC_SMIX2_BLKXOR r N (l0, l1) = (walk1_step r N l0, walk1_step r N l1)"
  by (cases l0; cases l1) (simp add: walk2_step_def walk1_step_def CIVIC_SMIX2_BLKXOR_def blockmix_xor_save_2way_pipe_1way Let_def split: prod.split)

lemma walk2_loop_1way: "walk2_loop CIVIC_SMIX2_BLKXOR r N Nloop (l0, l1) = (walk1_loop r N Nloop l0, walk1_loop r N Nloop l1)"
proof (induction Nloop arbitrary: l0 l1 rule: less_induct)
  case (less Nloop)
  show ?case
    using less.IH [of "Nloop - 2"]
    by (cases "Nloop - 2 = 0") (simp_all add: walk2_loop.simps [of _ r N Nloop] walk1_loop.simps [of r N Nloop] walk2_step_1way Let_def)
qed

lemma smix2_2way_is_1way:
  "civic_smix2_1_0_2way B0 B1 r N Nloop V0 V1 XY0 XY1 c0 c1
    = (civic_smix2_1_0_1way B0 r N Nloop V0 XY0 c0, civic_smix2_1_0_1way B1 r N Nloop V1 XY1 c1)"
  by (simp add: civic_smix2_1_0_2way_def smix2_1_0_2way_def civic_smix2_1_0_1way_def pipe_kernels_def walk2_loop_1way Let_def split: prod.split)

section \<open>The S-boxes, filled by two lanes on one memory\<close>

text \<open>\<open>civic_smix1_salsa_2way (B, B, S0, S0, XY, XY)\<close>: the arguments of the lanes are the same buffers.  The
  kernels, on block indices into the one table: each store is made for both lanes, and later reads see it.\<close>

definition shared_mix :: "nat \<Rightarrow> nat \<Rightarrow> nat \<Rightarrow> nat \<Rightarrow> blk list \<Rightarrow> blk list" where
  "shared_mix x0 y0 x1 y1 V =
    (let X = pack_blocks (V ! (x0 + 1)) (V ! (x1 + 1));
         X = CIVIC_SALSA_XOR_PAIR (V ! x0) (V ! x1) X;
         (X, o0, o1) = civic_salsa2_2way X;
         V = V[y0 := o0];
         V = V[y1 := o1];
         X = CIVIC_SALSA_XOR_PAIR (V ! (x0 + 1)) (V ! (x1 + 1)) X;
         (X, o0, o1) = civic_salsa2_2way X;
         V = V[y0 + 1 := o0]
     in V[y1 + 1 := o1])"

definition shared_xor :: "nat \<Rightarrow> nat \<Rightarrow> nat \<Rightarrow> nat \<Rightarrow> nat \<Rightarrow> nat \<Rightarrow> blk list \<Rightarrow> blk list \<times> nat \<times> nat" where
  "shared_xor x0 vj0 y0 x1 vj1 y1 V =
    (let X = pack_blocks (XOR_X (V ! (x0 + 1)) (V ! (vj0 + 1))) (XOR_X (V ! (x1 + 1)) (V ! (vj1 + 1)));
         X = CIVIC_SALSA_XOR_FOUR (V ! x0) (V ! vj0) (V ! x1) (V ! vj1) X;
         (X, o0, o1) = civic_salsa2_2way X;
         V = V[y0 := o0];
         V = V[y1 := o1];
         X = CIVIC_SALSA_XOR_FOUR (V ! (x0 + 1)) (V ! (vj0 + 1)) (V ! (x1 + 1)) (V ! (vj1 + 1)) X;
         (X, o0, o1) = civic_salsa2_2way X;
         V = V[y0 + 1 := o0];
         V = V[y1 + 1 := o1]
     in (V, yp2_result V (y0 + 1), yp2_result V (y1 + 1)))"

text \<open>The last call writes to \<open>XY\<close>, shared too.\<close>

definition shared_xor_out :: "nat \<Rightarrow> nat \<Rightarrow> nat \<Rightarrow> nat \<Rightarrow> blk list \<Rightarrow> blk list \<Rightarrow> blk list" where
  "shared_xor_out x0 vj0 x1 vj1 V XY =
    (let X = pack_blocks (XOR_X (V ! (x0 + 1)) (V ! (vj0 + 1))) (XOR_X (V ! (x1 + 1)) (V ! (vj1 + 1)));
         X = CIVIC_SALSA_XOR_FOUR (V ! x0) (V ! vj0) (V ! x1) (V ! vj1) X;
         (X, o0, o1) = civic_salsa2_2way X;
         XY = XY[0 := o0];
         XY = XY[0 := o1];
         X = CIVIC_SALSA_XOR_FOUR (V ! (x0 + 1)) (V ! (vj0 + 1)) (V ! (x1 + 1)) (V ! (vj1 + 1)) X;
         (X, o0, o1) = civic_salsa2_2way X;
         XY = XY[1 := o0]
     in XY[1 := o1])"

text \<open>Where each lane is, and the table.\<close>

type_synonym shared_state = "(nat \<times> nat) \<times> (nat \<times> nat) \<times> blk list"

definition shared_body :: "nat \<Rightarrow> nat \<Rightarrow> shared_state \<Rightarrow> shared_state" where
  "shared_body n i st = (case st of ((x0, j0), (x1, j1), V) \<Rightarrow>
    (let s = 2;
         y0 = x0 + s;
         y1 = x1 + s;
         vj0 = ((j0 AND (n - 1)) + i - 1) * s;
         vj1 = ((j1 AND (n - 1)) + i - 1) * s;
         (V, j0, j1) = shared_xor x0 vj0 y0 x1 vj1 y1 V;
         vj0 = ((j0 AND (n - 1)) + i) * s;
         vj1 = ((j1 AND (n - 1)) + i) * s;
         x0 = y0 + s;
         x1 = y1 + s;
         (V, j0, j1) = shared_xor y0 vj0 x0 y1 vj1 x1 V
     in ((x0, j0), (x1, j1), V)))"

function shared_inner :: "nat \<Rightarrow> nat \<Rightarrow> nat \<Rightarrow> shared_state \<Rightarrow> shared_state" where
  "shared_inner n m i st = (if i < m then shared_inner n m (i + 2) (shared_body n i st) else st)"
  by pat_completeness auto
termination by (relation "measure (\<lambda>(n, m, i, st). m - i)") auto

declare shared_inner.simps [simp del]

function shared_outer :: "nat \<Rightarrow> nat \<Rightarrow> shared_state \<Rightarrow> nat \<times> shared_state" where
  "shared_outer N n st =
    (if n < N \<and> 0 < n then
       (let m = (if n < N div 2 then n else N - 1 - n)
        in shared_outer N (push_bit 1 n) (shared_inner n m 1 st))
     else (n, st))"
  by pat_completeness auto
termination by (relation "measure (\<lambda>(N, n, st). N - n)") (auto simp: push_bit_eq_mult)

declare shared_outer.simps [simp del]

definition civic_smix1_salsa_shared :: "bytes \<Rightarrow> blk list \<Rightarrow> blk list \<Rightarrow> bytes \<times> blk list \<times> blk list" where
  "civic_smix1_salsa_shared B V XY =
    (let N = 768; s = 2;
         V = fold (load_step B s) [0..<2] V;
         V = fold (load_step B s) [0..<2] V;
         V = shared_mix 0 s 0 s V;
         x0 = s + s;
         x1 = s + s;
         V = shared_mix s x0 s x1 V;
         j0 = integerify (seg x0 s V) 1;
         j1 = integerify (seg x1 s V) 1;
         (n, (x0, j0), (x1, j1), V) = shared_outer N 2 ((x0, j0), (x1, j1), V);
         n = drop_bit 1 n;
         y0 = x0 + s;
         y1 = x1 + s;
         vj0 = ((j0 AND (n - 1)) + N - 2 - n) * s;
         vj1 = ((j1 AND (n - 1)) + N - 2 - n) * s;
         (V, j0, j1) = shared_xor x0 vj0 y0 x1 vj1 y1 V;
         vj0 = ((j0 AND (n - 1)) + N - 1 - n) * s;
         vj1 = ((j1 AND (n - 1)) + N - 1 - n) * s;
         XY = shared_xor_out y0 vj0 y1 vj1 V XY;
         (XY, B) = fold (store_step s) [0..<2] (XY, B);
         (XY, B) = fold (store_step s) [0..<2] (XY, B)
     in (B, V, XY))"

text \<open>When both lanes are at the same place, the doubled stores are one store.\<close>

lemma seg_two: "x + 2 \<le> length V \<Longrightarrow> seg x 2 V ! 0 = V ! x" "x + 2 \<le> length V \<Longrightarrow> seg x 2 V ! Suc 0 = V ! Suc x"
  by (simp_all add: seg_def)

lemma put_two: "y + 2 \<le> length V \<Longrightarrow> put_at y [a, b] V = V[y := a, Suc y := b]"
  using put_at_two [of y V "[]" a b] by simp

lemma two_updates: "length out = 2 \<Longrightarrow> out[0 := a, Suc 0 := b] = [a, b]"
  by (cases out rule: remdups_adj.cases) auto

lemma result_block: "i < length V \<Longrightarrow> yp2_result (V[i := x]) i = INTEGERIFY x"
proof -
  have "(ucast (q_lo y) :: u32) = mm_cvtsi128_si32 y" for y by (cases y) simp
  then show "i < length V \<Longrightarrow> yp2_result (V[i := x]) i = INTEGERIFY x" by (simp add: yp2_result_def INTEGERIFY_def)
qed

lemma shared_mix_lane:
  assumes "x + 4 \<le> length V"
  shows "(shared_mix x (x + 2) x (x + 2) V, None) = V_blockmix Pass2 1 x (x + 2) (V, None)"
proof -
  have l: "length (seg (x + 2) 2 V) = 2" using assms by (simp add: length_seg)
  show ?thesis
    using assms two_updates [OF l]
    by (simp add: shared_mix_def V_blockmix_def blockmix_def blockmix_salsa_def Let_def CIVIC_SALSA_XOR_PAIR_def pack_xor salsa2_2way_lanes
        seg_two put_two)
qed

lemma shared_xor_lane:
  assumes "y = x + 2" "x + 4 \<le> length V" "vj + 2 \<le> length V" "vj + 1 \<noteq> y"
  shows "shared_xor x vj y x vj y V = (V', j, j') \<longleftrightarrow> j' = j \<and> V_blockmix_xor Pass2 1 x vj y (V, None) = (j, V', None)"
proof -
  have l: "length (seg (x + 2) 2 V) = 2" using assms by (simp add: length_seg)
  show ?thesis
    using assms two_updates [OF l] result_block
    by (auto simp: shared_xor_def V_blockmix_xor_def blockmix_xor_def blockmix_salsa_xor_def Let_def CIVIC_SALSA_XOR_FOUR_def pack_xor
        salsa2_2way_lanes seg_two put_two XOR_X_assoc)
qed

lemma shared_out_lane:
  assumes "x + 2 \<le> length V" "vj + 2 \<le> length V" "2 \<le> length XY"
  shows "shared_xor_out x vj x vj V XY = put_at 0 (fst (blockmix_xor Pass2 (seg x 2 V) (seg vj 2 V) (seg 0 2 XY) 1 None)) XY"
proof -
  have l: "length (seg 0 2 XY) = 2" using assms by (simp add: length_seg)
  show ?thesis
    using assms two_updates [OF l] put_two [of 0 XY]
    by (simp add: shared_xor_out_def blockmix_xor_def blockmix_salsa_xor_def Let_def CIVIC_SALSA_XOR_FOUR_def pack_xor
        salsa2_2way_lanes seg_two XOR_X_assoc)
qed

definition shared_at :: "blk list \<Rightarrow> nat \<Rightarrow> nat \<Rightarrow> shared_state \<Rightarrow> bool" where
  "shared_at X N k st \<longleftrightarrow> (case st of ((x0, j0), (x1, j1), V) \<Rightarrow>
     x1 = x0 \<and> j1 = j0 \<and> length X = 2 \<and> filled Pass2 1 X None N k (x0, j0, V, None))"

lemma shared_at_bounds:
  assumes "length X = 2" "filled Pass2 1 X None N k (x, j, V, None)"
  shows "x = k * 2" "length V = N * 2" "k < N"
  using filled_bounds(1-3) [OF assms(2)] assms(1) by (simp_all add: start_ok_def)

lemma odd_ne_even: "2 * a + 1 \<noteq> 2 * (b :: nat)" by presburger

lemma shared_xor_step:
  assumes F: "shared_at X N k ((x, j), (x, j), V)" and k: "2 \<le> k" "Suc k < N"
  obtains V' j' where "shared_xor x (wrap j k * 2) (x + 2) x (wrap j k * 2) (x + 2) V = (V', j', j')"
    "shared_at X N (Suc k) ((x + 2, j'), (x + 2, j'), V')"
proof -
  have l: "length X = 2" and fl: "filled Pass2 1 X None N k (x, j, V, None)" using F by (simp_all add: shared_at_def)
  note b = shared_at_bounds [OF l fl]
  have w: "wrap j k < N" using wrap_less [of k j] k by simp
  obtain V' j' where S: "shared_xor x (wrap j k * 2) (x + 2) x (wrap j k * 2) (x + 2) V = (V', j', j')"
    "V_blockmix_xor Pass2 1 x (wrap j k * 2) (x + 2) (V, None) = (j', V', None)"
  proof -
    obtain V' j' j'' where e: "shared_xor x (wrap j k * 2) (x + 2) x (wrap j k * 2) (x + 2) V = (V', j', j'')" by (metis prod_cases3)
    have "wrap j k * 2 + 1 \<noteq> x + 2" using b(1) odd_ne_even [of "wrap j k" "k + 1"] by simp
    then show thesis using e shared_xor_lane [of "x + 2" x V "wrap j k * 2" V' j' j''] b k w that by auto
  qed
  have "filled Pass2 1 X None N (Suc k) (x + 2, j', V', None)"
    using filled_step [OF fl _ _ _ k, of "x + 2"] S(2) l by simp
  with S(1) that l show thesis by (simp add: shared_at_def)
qed

lemma shared_body_at:
  assumes F: "shared_at X N k st" and n: "n = 2 ^ e" "2 \<le> n" "k + 1 = n + i" "1 \<le> i" "i < n" "k + 2 < N"
  shows "shared_at X N (k + 2) (shared_body n i st)"
proof -
  obtain x j V where st: "st = ((x, j), (x, j), V)" using F by (cases st) (auto simp: shared_at_def)
  have w: "(j AND (n - 1)) + i - 1 = wrap j k" "(j AND (n - 1)) + i = wrap j (Suc k)" for j
    using and_wrap [OF n(1), of k j] and_wrap [OF n(1), of "Suc k" j] n by auto
  obtain V1 j1 where 1: "shared_xor x (wrap j k * 2) (x + 2) x (wrap j k * 2) (x + 2) V = (V1, j1, j1)"
    "shared_at X N (Suc k) ((x + 2, j1), (x + 2, j1), V1)"
    using shared_xor_step [OF F [unfolded st]] n by auto
  obtain V2 j2 where 2: "shared_xor (x + 2) (wrap j1 (Suc k) * 2) (x + 2 + 2) (x + 2) (wrap j1 (Suc k) * 2) (x + 2 + 2) V1 = (V2, j2, j2)"
    "shared_at X N (Suc (Suc k)) ((x + 2 + 2, j2), (x + 2 + 2, j2), V2)"
    using shared_xor_step [OF 1(2)] n by auto
  show ?thesis
    unfolding st shared_body_def Let_def prod.case w(1) 1(1) unfolding w(2) 2(1) prod.case using 2(2) by simp
qed

lemma shared_outer_at:
  assumes "shared_at X N 2 st" "even N" "4 \<le> N"
  shows "\<exists>st' e'. shared_outer N 2 st = (2 * 2 ^ e', st') \<and> shared_at X N (N - 2) st' \<and> (2 :: nat) ^ e' \<le> N - 2 \<and> N \<le> 2 * 2 ^ e'"
proof (rule doubling_outer [where inner = shared_inner and body = shared_body and P = "shared_at X N" and e = 1, OF _ _ _ assms(1)])
  show "shared_inner n m i st = (if i < m then shared_inner n m (i + 2) (shared_body n i st) else st)" for n m i st
    by (rule shared_inner.simps)
  show "shared_outer N n st = (if n < N \<and> 0 < n then
      shared_outer N (push_bit 1 n) (shared_inner n (if n < N div 2 then n else N - 1 - n) 1 st) else (n, st))" for n st
    by (subst shared_outer.simps) (simp add: Let_def)
  show "shared_at X N (k + 2) (shared_body n i st)" if "shared_at X N k st" "n = 2 ^ e" "2 \<le> n" "k + 1 = n + i"
    "1 \<le> i" "i < n" "k + 2 < N" for n e k i st
    using that by (rule shared_body_at)
qed (use assms in simp_all)

lemma shared_mix_step:
  assumes F: "shared_at X N k ((x, j), (x, j), V)" and k: "k < 2" "Suc k < N"
  shows "shared_at X N (Suc k) ((x + 2, integerify (seg (x + 2) 2 (shared_mix x (x + 2) x (x + 2) V)) 1),
    (x + 2, integerify (seg (x + 2) 2 (shared_mix x (x + 2) x (x + 2) V)) 1), shared_mix x (x + 2) x (x + 2) V)"
proof -
  have l: "length X = 2" and fl: "filled Pass2 1 X None N k (x, j, V, None)" using F by (simp_all add: shared_at_def)
  note b = shared_at_bounds [OF l fl]
  have "(shared_mix x (x + 2) x (x + 2) V, None) = V_blockmix Pass2 1 x (x + 2) (V, None)"
    using shared_mix_lane [of x V] b k by simp
  then show ?thesis using filled_mix [OF fl _ _ _ k, of "shared_mix x (x + 2) x (x + 2) V" None] l by (simp add: shared_at_def)
qed

text \<open>The stores to the bytes, made twice.\<close>

lemma store_twice:
  assumes "length X = 2" "2 < length XY" "128 \<le> length B"
  shows "\<exists>Y. (case fold (store_step 2) [0..<2] (put_at 0 X XY, B) of (XY, B) \<Rightarrow> fold (store_step 2) [0..<2] (XY, B))
    = (Y, put_at 0 (bytes_of X) B) \<and> length Y = length XY"
proof -
  have t: "take 2 (put_at 0 X XY) = X" using take_put_at_0 [of X XY] assms by simp
  obtain Y where 1: "fold (store_step 2) [0..<2] (put_at 0 X XY, B) = (Y, put_at 0 (bytes_of X) B)"
    "length Y = length XY" "take 2 Y = X"
    using store_blocks [of 2 2 "put_at 0 X XY" B] t assms by (auto simp: length_put_at)
  have lb: "length (bytes_of X) = 128" using assms(1) by simp
  obtain Z where 2: "fold (store_step 2) [0..<2] (Y, put_at 0 (bytes_of X) B) = (Z, put_at 0 (bytes_of X) (put_at 0 (bytes_of X) B))"
    "length Z = length Y"
    using store_blocks [of 2 2 Y "put_at 0 (bytes_of X) B"] 1 assms lb by (auto simp: length_put_at)
  have "put_at 0 (bytes_of X) (put_at 0 (bytes_of X) B) = put_at 0 (bytes_of X) B"
    using assms lb by (simp add: put_at_def)
  then show ?thesis using 1 2 by simp
qed

lemma smix1_salsa_shared_eq:
  assumes lens: "length V = 1536" "2 < length XY" "128 \<le> length B"
    and spec: "smix1_spec Pass2 B 1 768 None = (Vs, X, c)"
  shows "\<exists>W Y. civic_smix1_salsa_shared B V XY = (put_at 0 (bytes_of X) B, W, Y)
    \<and> chunks 2 W = Vs \<and> length W = length V \<and> length Y = length XY"
proof -
  let ?N = "768 :: nat" and ?W = "fold (load_step B 2) [0..<2] V"
  let ?V = "fold (load_step B 2) [0..<2] ?W"
  obtain Z g where S: "start_state Pass2 B 1 None = (Z, g)" by fastforce
  have lW: "length ?W = 1536" using load_blocks [of 2 2 V B] lens by simp
  have g: "g = None" "length Z = 2" "filled Pass2 1 Z None ?N 0 (0, last_word Z, ?V, None)"
    using start_filled [of 1 ?W ?N None Pass2 B Z g] S lW by (auto simp: smix1_start_def Let_def)
  have F0: "shared_at Z ?N 0 ((0, last_word Z), (0, last_word Z), ?V)" using g by (simp add: shared_at_def)
  let ?V1 = "shared_mix 0 2 0 2 ?V" and ?V2 = "shared_mix 2 (2 + 2) 2 (2 + 2) (shared_mix 0 2 0 2 ?V)"
  let ?j2 = "integerify (seg (2 + 2) 2 ?V2) 1"
  have F1: "shared_at Z ?N (Suc 0) ((2, integerify (seg 2 2 ?V1) 1), (2, integerify (seg 2 2 ?V1) 1), ?V1)"
    by (rule shared_mix_step [OF F0, unfolded add_0]) simp_all
  have "shared_at Z ?N (Suc (Suc 0)) ((2 + 2, ?j2), (2 + 2, ?j2), ?V2)"
    by (rule shared_mix_step [OF F1]) simp_all
  then have F2: "shared_at Z ?N 2 ((2 + 2, ?j2), (2 + 2, ?j2), ?V2)"
    by (simp only: numeral_2_eq_2)
  obtain st3 e where 3: "shared_outer ?N 2 ((2 + 2, ?j2), (2 + 2, ?j2), ?V2) = (2 * 2 ^ e, st3)" "shared_at Z ?N (?N - 2) st3"
    "(2 :: nat) ^ e \<le> ?N - 2" "?N \<le> 2 * 2 ^ e"
    using shared_outer_at [OF F2] by auto
  obtain x j V3 where st3: "st3 = ((x, j), (x, j), V3)" using 3(2) by (cases st3) (auto simp: shared_at_def)
  have half: "drop_bit 1 (2 * 2 ^ e :: nat) = 2 ^ e" by (simp add: drop_bit_eq_div)
  have w3: "(j AND (2 ^ e - 1)) + ?N - 2 - 2 ^ e = wrap j (?N - 2)" and w4: "(j AND (2 ^ e - 1)) + ?N - 1 - 2 ^ e = wrap j (?N - 1)" for j
    using and_wrap [of "2 ^ e" e "?N - 2" j] and_wrap [of "2 ^ e" e "?N - 1" j] 3(3,4) by simp_all
  obtain V4 k where 4: "shared_xor x (wrap j (?N - 2) * 2) (x + 2) x (wrap j (?N - 2) * 2) (x + 2) V3 = (V4, k, k)"
    "shared_at Z ?N (Suc (?N - 2)) ((x + 2, k), (x + 2, k), V4)"
    using shared_xor_step [OF 3(2) [unfolded st3]] by auto
  have f4: "filled Pass2 1 Z None ?N 767 (x + 2, k, V4, None)" using 4(2) by (simp add: shared_at_def)
  note b = shared_at_bounds [OF g(2) f4]
  have lx: "length (seg 0 (2 * 1) XY) = 2 * 1" using lens by (simp add: length_seg)
  obtain out where 5: "blockmix_xor Pass2 (seg (x + 2) 2 V4) (seg (wrap k 767 * 2) 2 V4) (seg 0 2 XY) 1 None = (out, None, last_word out)"
    "smix1_spec Pass2 B 1 ?N None = (chunks 2 V4, out, None)" "length out = 2"
  proof -
    obtain out d where "blockmix_xor Pass2 (seg (x + 2) 2 V4) (seg (wrap k 767 * 2) 2 V4) (seg 0 2 XY) 1 None = (out, d, last_word out)"
      "fill_states Pass2 Z None ?N = (chunks 2 V4, out, d)" "length out = 2"
      using filled_last [OF f4 _ _ _ _ _ lx] g(2) by auto
    moreover have "d = None" using fill_lengths [of Z "2 * 1" Pass2 None ?N] calculation(2) g(2) by auto
    ultimately show thesis using that S g(1) by (simp add: smix1_spec_def)
  qed
  have w: "wrap k 767 < 768" using wrap_less [of 767 k] by simp
  have o: "shared_xor_out (x + 2) (wrap k (?N - 1) * 2) (x + 2) (wrap k (?N - 1) * 2) V4 XY = put_at 0 X XY" and X: "length X = 2" "chunks 2 V4 = Vs"
    using shared_out_lane [of "x + 2" V4 "wrap k 767 * 2" XY] b w lens 5 spec by simp_all
  obtain Y where Y: "(case fold (store_step 2) [0..<2] (put_at 0 X XY, B) of (XY, B) \<Rightarrow> fold (store_step 2) [0..<2] (XY, B))
      = (Y, put_at 0 (bytes_of X) B)" "length Y = length XY"
    using store_twice [OF X(1) lens(2,3)] by auto
  have "civic_smix1_salsa_shared B V XY = (case (case fold (store_step 2) [0..<2] (put_at 0 X XY, B) of (XY, B) \<Rightarrow> fold (store_step 2) [0..<2] (XY, B)) of
      (XY, B) \<Rightarrow> (B, V4, XY))"
    unfolding civic_smix1_salsa_shared_def Let_def 3(1) prod.case st3 half w3 4(1) w4 o by (simp split: prod.split)
  then show ?thesis using Y X(2) b(2) lens(1) by simp
qed

section \<open>smix and the hash\<close>

definition civic_smix_1_0_oneway :: "bytes \<Rightarrow> nat \<Rightarrow> nat \<Rightarrow> blk list \<Rightarrow> blk list \<Rightarrow> pwxform_ctx \<Rightarrow> bytes \<times> blk list \<times> blk list \<times> pwxform_ctx" where
  "civic_smix_1_0_oneway B r N V XY ctx =
    (let Nloop_rw = (N + 2) div 3;
         Nloop_rw = clear_bit0 (Nloop_rw + 1);
         (B, S, XY) = civic_smix1_salsa_shared B (blocks_of_lanes (cSm ctx)) XY;
         ctx = ctx\<lparr>cSm := lanes_of_blocks S\<rparr>;
         (B, V, XY, ctx) = civic_smix1_1_0_1way B r N V XY ctx
     in civic_smix2_1_0_1way B r N Nloop_rw V XY ctx)"

lemma smix_oneway_computes:
  assumes r: "0 < r" and N: "N = 2 ^ e" "8 \<le> N" and ok: "lane_ok r N B V XY ctx"
  shows "\<exists>R W Y d. civic_smix_1_0_oneway B r N V XY ctx = (R, W, Y, d)
    \<and> (R, chunks (2 * r) W, d) = smix_spec Pass2 B r N ctx \<and> length R = length B"
proof -
  have N4: "even N" "4 \<le> N" using N by (cases e; simp)+
  have o: "128 * r \<le> length B" "length V = N * (2 * r)" "2 * r < length XY" "length (cSm ctx) = 6144"
    using ok by (simp_all add: lane_ok_def)
  obtain S X c Ba Vs Y d Bb where A: "smix1_spec Pass2 B 1 768 None = (S, X, c)" "length S = 768" "\<forall>v \<in> set S. length v = 2"
    "Ba = put_at 0 (bytes_of X) B" "length Ba = length B"
    "smix1_spec Pass2 Ba r N (Some (ctx\<lparr>cSm := lanes_of_blocks (concat S)\<rparr>)) = (Vs, Y, Some d)"
    "length Vs = N" "\<forall>v \<in> set Vs. length v = 2 * r" "Bb = put_at 0 (bytes_of Y) Ba" "length Bb = length B"
    "smix_spec Pass2 B r N ctx = smix2_bytes Pass2 r N (Nloop_rw Pass2 N) (Bb, Vs, d)"
    using lane_stages [OF r N4(2) ok] .
  have pre1: "length (blocks_of_lanes (cSm ctx)) = 1536" "2 < length XY" "128 \<le> length B" using o r by simp_all
  obtain T Z where 1: "civic_smix1_salsa_shared B (blocks_of_lanes (cSm ctx)) XY = (Ba, T, Z)" "chunks 2 T = S" "length Z = length XY"
    using smix1_salsa_shared_eq [OF pre1 A(1)] A(4) by auto
  have T: "T = concat S" using 1(2) concat_chunks [of 2 T] by simp
  let ?c = "ctx\<lparr>cSm := lanes_of_blocks (concat S)\<rparr>"
  have pre2: "2 * r < length Z" "128 * r \<le> length Ba" using o 1(3) A(5) by simp_all
  have smix1': "\<exists>U Q. civic_smix1_1_0_1way Ba r N V Z ?c = (Bb, U, Q, d) \<and> chunks (2 * r) U = Vs \<and> length Q = length Z"
  proof -
    obtain W0 Y0 d0 W1 Y1 d1 where "civic_smix1_1_0_2way Ba Ba r N V V Z Z ?c ?c
        = ((put_at 0 (bytes_of Y) Ba, W0, Y0, d0), (put_at 0 (bytes_of Y) Ba, W1, Y1, d1))"
      "chunks (2 * r) W0 = Vs" "Some d = Some d0" "length Y0 = length Z"
      using pwx2.smix1_2way_eq [OF r N4 o(2) o(2) pre2(1) pre2(1) pre2(2) pre2(2) A(6) A(6)] unfolding civic_smix1_1_0_2way_def by blast
    then show ?thesis unfolding smix1_2way_is_1way using A(9) by simp
  qed
  then obtain U Q where 2: "civic_smix1_1_0_1way Ba r N V Z ?c = (Bb, U, Q, d)" "chunks (2 * r) U = Vs" "length Q = length Z" by auto
  have U: "U = concat Vs" using 2(2) concat_chunks [of "2 * r" U] r by simp
  note nl = Nloop_rw_even(1) [of Pass2 N] Nloop_rw_even(2) [OF N(2), of Pass2]
  have pre3: "2 * r < length Q" "128 * r \<le> length Bb" using pre2 2(3) A(5,10) by simp_all
  have 3: "civic_smix2_1_0_1way Bb r N (Nloop_rw Pass2 N) U Q d = smix2 Pass2 Bb r N (Nloop_rw Pass2 N) U Q d"
    using pwx2.smix2_2way_lanes [OF r N(1) nl A(7,8) pre3(1) A(7,8) pre3(1), of Bb Bb d d]
      smix2_2way_is_1way [of Bb Bb r N "Nloop_rw Pass2 N" U U Q Q d d] by (simp add: U civic_smix2_1_0_2way_def)
  have p1: "Pass2 = Pass1 \<longrightarrow> 4 * r \<le> length Q" by simp
  obtain R W P f where 4: "smix2 Pass2 Bb r N (Nloop_rw Pass2 N) U Q d = (R, W, P, f)"
    "smix2_bytes Pass2 r N (Nloop_rw Pass2 N) (Bb, Vs, d) = (R, chunks (2 * r) W, f)" "length R = length Bb"
    using smix2_on_table [OF r N(1) A(7,8) pre3(2,1) p1 nl, of d] U by auto
  have loops: "clear_bit0 ((N + 2) div 3 + 1) = Nloop_rw Pass2 N" by (simp add: Nloop_rw_def)
  have "civic_smix_1_0_oneway B r N V XY ctx = (R, W, P, f)"
    unfolding civic_smix_1_0_oneway_def Let_def loops 1(1) prod.case T 2(1) 3 4(1) by (rule refl)
  then show ?thesis using 4(2,3) A(10,11) by simp
qed

definition civic_yespower_fixed_1way :: "os \<Rightarrow> HMAC_SHA256_CTX \<Rightarrow> contents \<Rightarrow> civic_yespower_region \<Rightarrow> bytes \<Rightarrow>
    civic_yespower_region \<times> int \<times> bytes" where
  "civic_yespower_fixed_1way os hc found rg src =
    (let need = region_need Pass2 civic_r civic_N;
         (rg, ok) = ensure_region os need rg
     in if \<not> ok then (rg, -1, fail_hash)
        else
          (let m = found rg Pass2 civic_r civic_N;
               (B, ctx, sha256) = fixed_lane hc m src;
               (B, _, _, _) = civic_smix_1_0_oneway B civic_r civic_N (mV m) (mXY m) ctx;
               dst = YP_HMAC_SHA256_Buf hc (seg (B_size civic_r - 64) 64 B) sha256
           in (rg, 0, dst)))"

text \<open>\<open>civic_yespower_tls\<close> with \<open>CIVIC_ONEWAY\<close> and AVX2; \<open>srclen\<close> is the length of \<open>src\<close>.\<close>

definition civic_yespower_tls_1way :: "os \<Rightarrow> HMAC_SHA256_CTX \<Rightarrow> contents \<Rightarrow> tls \<Rightarrow> bytes \<Rightarrow> civic_yespower_params \<Rightarrow> tls \<times> int \<times> bytes" where
  "civic_yespower_tls_1way os hc found st src ps =
    (let (initialized, rg) = st;
         rg = (if \<not> initialized then init_region else rg)
     in if fixed_params (length src) ps then
          (case civic_yespower_fixed_1way os hc found rg src of (rg, rc, dst) \<Rightarrow> ((True, rg), rc, dst))
        else (case civic_yespower os hc found rg src ps of (rg, _, rc, dst) \<Rightarrow> ((True, rg), rc, dst)))"

lemma fixed_1way_result:
  assumes hc: "hmac_usable hc" and fit: "\<And>rg p r N. mem_fits p r N (found rg p r N)" and src: "length src = 32"
  shows "civic_yespower_fixed_1way os hc found rg src = (case ensure_region os (region_need Pass2 civic_r civic_N) rg of (rg', ok) \<Rightarrow>
    if ok then (rg', 0, yespower_hash civic_params src) else (rg', -1, fail_hash))"
proof -
  obtain rg' ok where e: "ensure_region os (region_need Pass2 civic_r civic_N) rg = (rg', ok)" by fastforce
  let ?m = "found rg' Pass2 civic_r civic_N"
  obtain B c k where f: "fixed_lane hc ?m src = (B, c, k)" by (metis prod_cases3)
  have "length (YP_PBKDF2_SHA256 hc x [] 1 128) = 128" for x
    unfolding pbkdf2_correct [OF hc] by (rule length_pbkdf2) simp
  note o = fixed_lane_ok [OF fit f this]
  have N: "0 < civic_r" "civic_N = 2 ^ 11" "8 \<le> civic_N" by (simp_all add: civic_r_def civic_N_def)
  obtain R W Y d where s: "civic_smix_1_0_oneway B civic_r civic_N (mV ?m) (mXY ?m) c = (R, W, Y, d)"
    "(R, chunks (2 * civic_r) W, d) = smix_spec Pass2 B civic_r civic_N c"
    using smix_oneway_computes [OF N o] by blast
  show ?thesis
    using fixed_lane_hash [OF fit f hc src o s(2)] e f s(1) by (simp add: civic_yespower_fixed_1way_def Let_def)
qed

lemma tls_1way_computes:
  assumes hc: "hmac_usable hc" and fit: "\<And>rg p r N. mem_fits p r N (found rg p r N)" and os: "mmap_ok (os_mmap os)" and rg: "region_ok rg"
    and run: "civic_yespower_tls_1way os hc found (b, rg) src ps = ((b', rg'), rc, dst)"
  shows "b' \<and> region_ok rg' \<and> (rc = 0 \<and> dst = yespower_hash ps src \<or> rc = -1 \<and> dst = fail_hash)
    \<and> (\<not> params_invalid ps \<longrightarrow> memory_given os \<longrightarrow> rc = 0)"
proof -
  define r0 where "r0 = (if b then rg else init_region)"
  have ok: "region_ok r0" using rg by (simp add: r0_def region_ok_def)
  show ?thesis
  proof (cases "fixed_params (length src) ps")
    case True
    then have ps: "length src = 32" "ps = civic_params" by (simp_all add: fixed_params_civic)
    let ?need = "region_need Pass2 civic_r civic_N"
    have need: "?need + 2 ^ 22 < 2 ^ 33" using region_need_small [of civic_r civic_N Pass2] by (simp add: civic_r_def civic_N_def)
    obtain s k where e: "ensure_region os ?need r0 = (s, k)" by fastforce
    have "region_ok s" "memory_given os \<Longrightarrow> k"
      using ensure_region_ok [OF os _ ok e] ensure_region_succeeds [OF os need, of r0] need e by simp_all
    moreover have "civic_yespower_tls_1way os hc found (b, rg) src ps
        = (case civic_yespower_fixed_1way os hc found r0 src of (rg, rc, dst) \<Rightarrow> ((True, rg), rc, dst))"
      using True by (simp add: civic_yespower_tls_1way_def r0_def Let_def)
    ultimately show ?thesis
      using run ps e by (auto simp: fixed_1way_result [OF hc fit] split: if_splits)
  next
    case False
    obtain s e c d where r: "civic_yespower os hc found r0 src ps = (s, e, c, d)" by (metis prod_cases4)
    have "b'" "rg' = s" "rc = c" "dst = d"
      using run False r by (auto simp: civic_yespower_tls_1way_def r0_def Let_def split: if_splits)
    then show ?thesis using yespower2_general [OF hc fit os ok r] by auto
  qed
qed

end
