(* ===== verification/Soj_Oneway.thy ===== *)
theory Soj_Oneway
  imports Soj_Pow Soj_Yp1
begin

text \<open>The scanner of \<open>civiclight.c\<close> in the build with \<open>CIVIC_ONEWAY\<close>: one nonce a turn, hashed with
  the one-lane \<open>civic_yespower_tls\<close>.  It is proved to find what the default build finds.\<close>

section \<open>The scanner\<close>

definition scan_count_one :: "bool \<Rightarrow> scan_state \<Rightarrow> scan_state" where
  "scan_count_one bench st =
    (if \<not> bench then
       let st = st\<lparr>stats_batch := stats_batch st + 1\<rparr>
       in if stats_batch st \<ge> 256
          then (civiclight_stats_add_hashes (stats_batch st) st)\<lparr>stats_batch := 0\<rparr> else st
     else st)"

definition scan_one_step :: "yespower_impl \<Rightarrow> sha256_context \<Rightarrow> bool \<Rightarrow> u32 list \<Rightarrow> sha256_context \<Rightarrow> bytes \<Rightarrow> scan_state \<Rightarrow> scan_state" where
  "scan_one_step yp ctx bench edata mid ptarget st =
    (let n = nonce st;
         edata = edata[19 := n];
         hash = civiclight_powhash_from_midstate yp ctx (header_bytes edata) mid;
         st = scan_count_one bench st;
         st = scan_submit bench ptarget hash n st
     in st\<lparr>nonce := n + 1\<rparr>)"

fun scan_ones :: "nat \<Rightarrow> yespower_impl \<Rightarrow> sha256_context \<Rightarrow> bool \<Rightarrow> (nat \<Rightarrow> bool) \<Rightarrow> nat \<Rightarrow> u32 list \<Rightarrow>
    sha256_context \<Rightarrow> bytes \<Rightarrow> u32 \<Rightarrow> scan_state \<Rightarrow> (nat \<times> scan_state) option" where
  "scan_ones 0 yp ctx bench restart k edata mid ptarget last_nonce st = None"
| "scan_ones (Suc fuel) yp ctx bench restart k edata mid ptarget last_nonce st =
    (if nonce st < last_nonce then
       if restart k then Some (k + 1, st)
       else scan_ones fuel yp ctx bench restart (k + 1) edata mid ptarget last_nonce
         (scan_one_step yp ctx bench edata mid ptarget st)
     else Some (k, st))"

definition scanhash_civiclight_oneway :: "nat \<Rightarrow> yespower_impl \<Rightarrow> sha256_context \<Rightarrow> bool \<Rightarrow> (nat \<Rightarrow> bool) \<Rightarrow>
    u32 list \<Rightarrow> bytes \<Rightarrow> u32 \<Rightarrow> (u64 \<times> scan_state) option" where
  "scanhash_civiclight_oneway fuel yp ctx bench restart data ptarget max_nonce =
    (let first_nonce = data ! 19;
         last_nonce = max_nonce - 1;
         edata = v128_bswap32_80 data;
         edata = (if bench then edata[17 := CIVICLIGHT_V2_ACTIVATION_TIME] else edata);
         mid = sha256_update (sha256_ctx_init ctx) (take 64 (header_bytes edata));
         st = \<lparr>pdata = data, nonce = first_nonce, stats_batch = 0, stats_total = 0, submitted = []\<rparr>
     in case scan_ones fuel yp ctx bench restart 0 edata mid ptarget last_nonce st of
          None \<Rightarrow> None
        | Some (k, st) \<Rightarrow>
            let st = scan_last yp ctx bench restart k edata mid ptarget last_nonce st;
                st = (if \<not> bench \<and> stats_batch st \<noteq> 0
                      then civiclight_stats_add_hashes (stats_batch st) st else st)
            in Some (ucast (nonce st - first_nonce), st\<lparr>pdata := (pdata st)[19 := nonce st]\<rparr>))"

section \<open>What it covers\<close>

lemma scan_count_one_sel [simp]:
  "nonce (scan_count_one bench st) = nonce st"
  "pdata (scan_count_one bench st) = pdata st"
  "submitted (scan_count_one bench st) = submitted st"
  by (simp_all add: scan_count_one_def civiclight_stats_add_hashes_def Let_def)

lemma scan_count_one_batch:
  assumes "stats_batch st < 256"
  shows "stats_total (scan_count_one bench st) + unat (stats_batch (scan_count_one bench st))
    = stats_total st + unat (stats_batch st) + (if bench then 0 else 1)"
    and "stats_batch (scan_count_one bench st) < 256"
  using assms unat_add_small [OF assms, of 1]
  by (auto simp: scan_count_one_def civiclight_stats_add_hashes_def Let_def)

lemma one_step_scanned:
  assumes sc: "scanned yp bench data edata t a m st" and m: "m + 1 < 2 ^ 32"
    and l: "length edata = 20" "length (cbuf ctx) = 64"
    and mid: "mid = sha256_update (sha256_ctx_init ctx) (take 64 (header_bytes edata))"
  shows "scanned yp bench data edata t a (m + 1) (scan_one_step yp ctx bench edata mid t st)"
proof -
  let ?n = "nonce st" and ?h = "nonce_hash (impl1 yp) edata m"
  from sc have n: "unat ?n = m" and am: "a \<le> m" and b: "stats_batch st < 256"
    by (auto simp: scanned_def)
  obtain x where x: "pdata st = data[19 := x]" using sc by (auto simp: scanned_def)
  have n1: "unat (?n + 1) = m + 1" using n m by (simp add: unat_word_ariths)
  have nn: "of_nat m = ?n" using n by force
  have h: "civiclight_powhash_from_midstate yp ctx (header_bytes (edata[19 := ?n])) mid = ?h"
    using powhash_mid_eq [OF midstate_edata [OF l mid]] l nn by (simp add: nonce_hash_def length_header_bytes)
  let ?s1 = "scan_submit bench t ?h ?n (scan_count_one bench st)"
  have s1: "submitted ?s1 = submitted st @ (if bench then [] else hits (impl1 yp) data edata t [m])"
    "\<exists>x. pdata ?s1 = data[19 := x]"
    using scan_submit_submitted [of "scan_count_one bench st" data x ?h yp edata m ?n bench t] x n by simp_all
  have "submitted ?s1 = (if bench then [] else hits (impl1 yp) data edata t [a..<m + 1])"
    using s1(1) sc am by (simp add: scanned_def hits_range del: upt_Suc)
  then show ?thesis
    unfolding scan_one_step_def Let_def h scanned_def
    using s1(2) n1 am b sc scan_count_one_batch [OF b, of bench] by (auto simp: scanned_def)
qed

lemma scan_ones_scanned:
  assumes "scanned yp bench data edata t a m st" "m \<le> unat last_nonce"
    and ctx: "length edata = 20" "length (cbuf ctx) = 64" "mid = sha256_update (sha256_ctx_init ctx) (take 64 (header_bytes edata))"
    and "unat last_nonce - m < fuel"
  shows "\<exists>k' st' m'. scan_ones fuel yp ctx bench restart k edata mid t last_nonce st = Some (k', st') \<and>
    scanned yp bench data edata t a m' st' \<and> m' \<le> unat last_nonce \<and> ((\<forall>i. \<not> restart i) \<longrightarrow> m' = unat last_nonce)"
  using assms(1,2,6)
proof (induction fuel arbitrary: k m st)
  case (Suc fuel)
  have less: "nonce st < last_nonce \<longleftrightarrow> m < unat last_nonce"
    using Suc.prems(1) by (simp add: scanned_def word_less_nat_alt)
  show ?case
  proof (cases "m < unat last_nonce \<and> \<not> restart k")
    case True
    have "m + 1 < 2 ^ 32" using True unat_u32 [of last_nonce] by simp
    then have "scanned yp bench data edata t a (m + 1) (scan_one_step yp ctx bench edata mid t st)"
      by (rule one_step_scanned [OF Suc.prems(1) _ ctx])
    moreover have "m + 1 \<le> unat last_nonce" "unat last_nonce - (m + 1) < fuel"
      using conjunct1 [OF True] Suc.prems(3) by simp_all
    ultimately show ?thesis using Suc.IH [of "m + 1" _ "k + 1"] True by (simp add: less)
  next
    case False
    then show ?thesis using Suc.prems(1,2) by (auto simp: less)
  qed
qed simp

lemma scanhash_oneway_covers:
  assumes "20 \<le> length data" "length (cbuf ctx) = 64"
    and "max_nonce \<noteq> 0" "data ! 19 \<le> max_nonce - 1" "unat max_nonce - unat (data ! 19) \<le> fuel"
  defines "first \<equiv> unat (data ! 19)" and "stop \<equiv> unat (max_nonce - 1)"
  shows "\<exists>hashes_done st m. scanhash_civiclight_oneway fuel yp ctx bench restart data t max_nonce = Some (hashes_done, st)
    \<and> first \<le> m \<and> m \<le> stop \<and> ((\<forall>k. \<not> restart k) \<longrightarrow> m = stop)
    \<and> submitted st = (if bench then [] else hits (impl1 yp) data (scan_edata bench data) t [first..<m])
    \<and> unat hashes_done = m - first \<and> stats_total st = (if bench then 0 else m - first)
    \<and> pdata st = data[19 := of_nat m]"
proof -
  let ?e = "scan_edata bench data" and ?last = "max_nonce - 1"
  define mid where "mid = sha256_update (sha256_ctx_init ctx) (take 64 (header_bytes ?e))"
  let ?st = "\<lparr>pdata = data, nonce = data ! 19, stats_batch = 0, stats_total = 0, submitted = []\<rparr>"
  have le: "length ?e = 20" using assms(1) by (simp add: scan_edata_def Let_def)
  have un: "unat ?last = unat max_nonce - 1" using assms(3) by (simp add: unat_minus_one)
  have init: "scanned yp bench data ?e t first first ?st"
    using assms(1) by (auto simp: scanned_def first_def hits_def intro!: exI [of _ "data ! 19"])
  have fl: "first \<le> unat ?last" using assms(4) by (simp add: first_def word_le_nat_alt)
  have "0 < unat max_nonce" using assms(3) by (simp add: unat_gt_0)
  then have "unat ?last - first < fuel" using un assms(5) [folded first_def] fl by linarith
  then obtain k' st' m' where p: "scan_ones fuel yp ctx bench restart 0 ?e mid t ?last ?st = Some (k', st')"
    "scanned yp bench data ?e t first m' st'" "m' \<le> unat ?last" "(\<forall>i. \<not> restart i) \<longrightarrow> m' = unat ?last"
    using scan_ones_scanned [OF init fl le assms(2) mid_def, of fuel restart 0] by blast
  define l where "l = scan_last yp ctx bench restart k' ?e mid t ?last st'"
  obtain m x where m: "unat (nonce l) = m" "first \<le> m" "m \<le> unat ?last"
    "submitted l = (if bench then [] else hits (impl1 yp) data ?e t [first..<m])"
    "stats_total l + unat (stats_batch l) = (if bench then 0 else m - first)"
    "pdata l = data[19 := x]" "(\<forall>i. \<not> restart i) \<longrightarrow> m = unat ?last"
    using scan_last_scanned [OF p(2,3) le assms(2) mid_def, of restart k'] p(4) l_def by (metis le_add1)
  have nm: "nonce l = of_nat m" using m(1) by force
  have "unat (nonce l - data ! 19) = m - first"
    using m(1,2) by (simp add: first_def unat_sub word_le_nat_alt)
  moreover have "scanhash_civiclight_oneway fuel yp ctx bench restart data t max_nonce =
     Some (ucast (nonce l - data ! 19),
       (if \<not> bench \<and> stats_batch l \<noteq> 0 then civiclight_stats_add_hashes (stats_batch l) l else l)
         \<lparr>pdata := data[19 := of_nat m]\<rparr>)"
    unfolding scanhash_civiclight_oneway_def Let_def scan_edata_code [OF assms(1)] mid_def [symmetric] p(1) option.case prod.case l_def [symmetric]
    using nm m(6) by (simp add: civiclight_stats_add_hashes_def)
  moreover have "unat (ucast (nonce l - data ! 19) :: u64) = unat (nonce l - data ! 19)"
    using unat_u32 [of "nonce l - data ! 19"] by (simp add: unsigned_ucast_eq take_bit_nat_eq_self)
  ultimately show ?thesis
    using m stop_def by (cases "stats_batch l = 0") (auto simp: civiclight_stats_add_hashes_def)
qed

section \<open>The two builds agree\<close>

text \<open>The pointer for two messages is the same in both builds.\<close>

definition tls_impl_1way :: "(bytes \<Rightarrow> call_env) \<Rightarrow> (bytes \<Rightarrow> bytes \<Rightarrow> call_env) \<Rightarrow> yespower_impl" where
  "tls_impl_1way env1 env2 = (tls_impl env1 env2)
    \<lparr>impl1 := \<lambda>a. (let e = env1 a in
        case civic_yespower_tls_1way (ce_os0 e) (ce_hc e) (ce_found e) (ce_init e, ce_rg0 e) a civic_params of (_, _, dst) \<Rightarrow> dst)\<rparr>"

lemma tls_impl1_1way:
  assumes "env_ok (env1 a)"
  shows "impl1 (tls_impl_1way env1 env2) a = yespower_hash civic_params a"
proof -
  let ?e = "env1 a"
  obtain b' rg rc dst where run: "civic_yespower_tls_1way (ce_os0 ?e) (ce_hc ?e) (ce_found ?e) (ce_init ?e, ce_rg0 ?e) a civic_params
      = ((b', rg), rc, dst)" by (metis surj_pair)
  have "dst = yespower_hash civic_params a"
    using tls_1way_computes [OF _ _ _ _ run] assms civic_params_valid by (auto simp: env_ok_def)
  then show ?thesis using run by (simp add: tls_impl_1way_def Let_def)
qed



end
