(* ===== verification/Soj_Yp2Variants.thy ===== *)
theory Soj_Yp2Variants
  imports Soj_Yp2Smix
begin

text \<open>The other kernels of \<open>yespower-opt.c\<close> for two lanes, and those for four.  The build with
  \<open>CIVIC_PWX_REGSTATE\<close> keeps a lane in local registers; its SMix is one more interpretation of
  \<open>two_lane_smix\<close>.  The kernels for four lanes take one lane in four through the chain each, but for
  \<open>civic_blockmix_4way\<close>, which leaves its input out of the mixing, and the benchmark's
  \<open>civic_pwxform_2way_reg\<close> rotates only its own copies of the table pointers.\<close>

section \<open>Without the pipeline\<close>

type_synonym save2_state = "yp2_pair \<times> (blk list \<times> blk list) \<times> (blk list \<times> blk list)"

text \<open>The loop of the saving kernels, around the PWXFORM \<open>P\<close>.\<close>

definition save_2way_body :: "(yp2_pair \<Rightarrow> yp2_pair) \<Rightarrow> nat \<Rightarrow> nat \<Rightarrow> save2_state \<Rightarrow> save2_state" where
  "save_2way_body P last_i i st = (case st of ((a, b), (Bin1out0, Bin20), (Bin1out1, Bin21)) \<Rightarrow>
    (let ya = XOR_X (Bin20 ! i) (Bin1out0 ! i);
         yb = XOR_X (Bin21 ! i) (Bin1out1 ! i);
         Bin20 = Bin20[i := ya];
         Bin21 = Bin21[i := yb];
         a = civic_yp2_xor a ya;
         b = civic_yp2_xor b yb;
         (a, b) = P (a, b);
         (Bin1out0, Bin1out1) = (if i \<noteq> last_i then (civic_yp2_write i a Bin1out0, civic_yp2_write i b Bin1out1)
            else (Bin1out0, Bin1out1))
     in ((a, b), (Bin1out0, Bin20), (Bin1out1, Bin21))))"

text \<open>After the loop: contexts, last blocks, results.\<close>

definition save_2way_finish :: "nat \<Rightarrow> pwxform_ctx \<Rightarrow> pwxform_ctx \<Rightarrow> save2_state \<Rightarrow>
    (blk list \<times> blk list \<times> pwxform_ctx \<times> nat) \<times> (blk list \<times> blk list \<times> pwxform_ctx \<times> nat)" where
  "save_2way_finish last_i ctx0 ctx1 st = (case st of ((a, b), (Bin1out0, Bin20), (Bin1out1, Bin21)) \<Rightarrow>
    (let ctx0 = civic_yp2_ctx_store ctx0 a;
         ctx1 = civic_yp2_ctx_store ctx1 b;
         Bin1out0 = civic_yp2_finish_salsa last_i a Bin1out0;
         Bin1out1 = civic_yp2_finish_salsa last_i b Bin1out1
     in ((Bin1out0, Bin20, ctx0, yp2_result Bin1out0 last_i), (Bin1out1, Bin21, ctx1, yp2_result Bin1out1 last_i))))"

definition civic_blockmix_xor_save_2way :: save2_fn where
  "civic_blockmix_xor_save_2way Bin1out0 Bin20 ctx0 Bin1out1 Bin21 ctx1 r =
    (let last_i = r * 2 - 1;
         a = civic_yp2_xor (civic_yp2_read yp2_uninit (Bin1out0 ! last_i)) (Bin20 ! last_i);
         b = civic_yp2_xor (civic_yp2_read yp2_uninit (Bin1out1 ! last_i)) (Bin21 ! last_i);
         a = civic_yp2_ctx_load a ctx0;
         b = civic_yp2_ctx_load b ctx1
     in save_2way_finish last_i ctx0 ctx1
          (fold (save_2way_body civic_pwxform_2way_ilv last_i) [0..<last_i + 1] ((a, b), (Bin1out0, Bin20), (Bin1out1, Bin21))))"

section \<open>Lanes in registers\<close>

text \<open>The locals \<open>xa\<close>, \<open>S0a\<close>, \<open>S1a\<close>, \<open>S2a\<close>, \<open>wa\<close> of a lane are the fields of a
  \<open>civic_yp2_state\<close>.  Both orders of the step.\<close>

definition CIVIC_RSTEP :: "nat \<Rightarrow> yp2_pair \<Rightarrow> yp2_pair" where
  "CIVIC_RSTEP I ab = (case ab of (a, b) \<Rightarrow>
    (let xai = EXTRACT64 (yx a ! I) AND Smask2 Pass2;
         Ha = mm_srli_si128_4 (yx a ! I);
         Xa = mm_mul_epu32 Ha (yx a ! I);
         Xa = mm_add_epi64 Xa (ld128 (ySm a) (yS0 a + idx_lo xai));
         a = a\<lparr>yx := (yx a)[I := mm_xor_si128 Xa (ld128 (ySm a) (yS1 a + idx_hi xai))]\<rparr>;
         xbi = EXTRACT64 (yx b ! I) AND Smask2 Pass2;
         Hb = mm_srli_si128_4 (yx b ! I);
         Xb = mm_mul_epu32 Hb (yx b ! I);
         Xb = mm_add_epi64 Xb (ld128 (ySm b) (yS0 b + idx_lo xbi));
         b = b\<lparr>yx := (yx b)[I := mm_xor_si128 Xb (ld128 (ySm b) (yS1 b + idx_hi xbi))]\<rparr>
     in (a, b)))"

definition CIVIC_RSTEP_ILV :: "nat \<Rightarrow> yp2_pair \<Rightarrow> yp2_pair" where
  "CIVIC_RSTEP_ILV I ab = (case ab of (a, b) \<Rightarrow>
    (let xai = EXTRACT64 (yx a ! I) AND Smask2 Pass2;
         xbi = EXTRACT64 (yx b ! I) AND Smask2 Pass2;
         adda = ld128 (ySm a) (yS0 a + idx_lo xai);
         addb = ld128 (ySm b) (yS0 b + idx_lo xbi);
         xora = ld128 (ySm a) (yS1 a + idx_hi xai);
         xorb = ld128 (ySm b) (yS1 b + idx_hi xbi);
         Ya = mm_mul_epu32 (mm_srli_si128_4 (yx a ! I)) (yx a ! I);
         Yb = mm_mul_epu32 (mm_srli_si128_4 (yx b ! I)) (yx b ! I)
     in (a\<lparr>yx := (yx a)[I := mm_xor_si128 (mm_add_epi64 Ya adda) xora]\<rparr>,
         b\<lparr>yx := (yx b)[I := mm_xor_si128 (mm_add_epi64 Yb addb) xorb]\<rparr>)))"

text \<open>\<open>CIVIC_PWX_ILV_REG\<close> chooses the step \<open>R\<close>.\<close>

definition CIVIC_RSTEP_W :: "(nat \<Rightarrow> yp2_pair \<Rightarrow> yp2_pair) \<Rightarrow> nat \<Rightarrow> (civic_yp2_state \<Rightarrow> nat) \<Rightarrow> yp2_pair \<Rightarrow> yp2_pair" where
  "CIVIC_RSTEP_W R I TAB ab = (case R I ab of (a, b) \<Rightarrow> (yp2_store I TAB a, yp2_store I TAB b))"

definition CIVIC_RFORM :: "(nat \<Rightarrow> yp2_pair \<Rightarrow> yp2_pair) \<Rightarrow> yp2_pair \<Rightarrow> yp2_pair" where
  "CIVIC_RFORM R ab =
    (let ab = CIVIC_RSTEP_W R 0 yS0 ab;
         ab = CIVIC_RSTEP_W R 1 yS1 ab;
         ab = yp2_bump ab;
         ab = CIVIC_RSTEP_W R 2 yS0 ab;
         ab = CIVIC_RSTEP_W R 3 yS1 ab;
         ab = yp2_bump ab;
         ab = CIVIC_RSTEP_W R 0 yS0 ab;
         ab = CIVIC_RSTEP_W R 1 yS1 ab;
         ab = yp2_bump ab;
         ab = R 2 ab;
         ab = R 3 ab;
         ab = CIVIC_RSTEP_W R 0 yS0 ab;
         ab = CIVIC_RSTEP_W R 1 yS1 ab;
         ab = yp2_bump ab;
         ab = R 2 ab;
         ab = R 3 ab
     in (case ab of (a, b) \<Rightarrow> (yp2_turn a, yp2_turn b)))"

text \<open>The locals at the start of a kernel: \<open>X\<close> in the registers, pointers and \<open>w\<close> from the context.\<close>

definition reg_start :: "blk \<Rightarrow> pwxform_ctx \<Rightarrow> civic_yp2_state" where
  "reg_start X c = \<lparr>yx = blk_regs X, ySm = cSm c, yS0 = cS0 c, yS1 = cS1 c, yS2 = cS2 c, yw = cw c\<rparr>"

definition civic_blockmix_xor_save_2way_reg :: "(nat \<Rightarrow> yp2_pair \<Rightarrow> yp2_pair) \<Rightarrow> save2_fn" where
  "civic_blockmix_xor_save_2way_reg R Bin1out0 Bin20 ctx0 Bin1out1 Bin21 ctx1 r =
    (let last_i = r * 2 - 1;
         a = reg_start (XOR_X (Bin1out0 ! last_i) (Bin20 ! last_i)) ctx0;
         b = reg_start (XOR_X (Bin1out1 ! last_i) (Bin21 ! last_i)) ctx1
     in save_2way_finish last_i ctx0 ctx1
          (fold (save_2way_body (CIVIC_RFORM R) last_i) [0..<last_i + 1] ((a, b), (Bin1out0, Bin20), (Bin1out1, Bin21))))"

definition xor_2way_reg_body :: "(nat \<Rightarrow> yp2_pair \<Rightarrow> yp2_pair) \<Rightarrow> blk list \<Rightarrow> blk list \<Rightarrow> blk list \<Rightarrow> blk list \<Rightarrow> nat \<Rightarrow> nat \<Rightarrow>
    yp2_pair \<times> blk list \<times> blk list \<Rightarrow> yp2_pair \<times> blk list \<times> blk list" where
  "xor_2way_reg_body R Bin10 Bin20 Bin11 Bin21 last_i i st = (case st of ((a, b), Bout0, Bout1) \<Rightarrow>
    (let ya = XOR_X (Bin20 ! i) (Bin10 ! i);
         yb = XOR_X (Bin21 ! i) (Bin11 ! i);
         a = civic_yp2_xor a ya;
         b = civic_yp2_xor b yb;
         (a, b) = CIVIC_RFORM R (a, b);
         (Bout0, Bout1) = (if i \<noteq> last_i then (civic_yp2_write i a Bout0, civic_yp2_write i b Bout1) else (Bout0, Bout1))
     in ((a, b), Bout0, Bout1)))"

definition civic_blockmix_xor_2way_reg :: "(nat \<Rightarrow> yp2_pair \<Rightarrow> yp2_pair) \<Rightarrow> blk list \<Rightarrow> blk list \<Rightarrow> blk list \<Rightarrow> pwxform_ctx \<Rightarrow>
    blk list \<Rightarrow> blk list \<Rightarrow> blk list \<Rightarrow> pwxform_ctx \<Rightarrow> nat \<Rightarrow>
    (blk list \<times> pwxform_ctx \<times> nat) \<times> (blk list \<times> pwxform_ctx \<times> nat)" where
  "civic_blockmix_xor_2way_reg R Bin10 Bin20 Bout0 ctx0 Bin11 Bin21 Bout1 ctx1 r =
    (let last_i = r * 2 - 1;
         a = reg_start (XOR_X (Bin10 ! last_i) (Bin20 ! last_i)) ctx0;
         b = reg_start (XOR_X (Bin11 ! last_i) (Bin21 ! last_i)) ctx1;
         ((a, b), Bout0, Bout1) = fold (xor_2way_reg_body R Bin10 Bin20 Bin11 Bin21 last_i) [0..<last_i + 1] ((a, b), Bout0, Bout1);
         ctx0 = civic_yp2_ctx_store ctx0 a;
         ctx1 = civic_yp2_ctx_store ctx1 b;
         Bout0 = civic_yp2_finish_salsa last_i a Bout0;
         Bout1 = civic_yp2_finish_salsa last_i b Bout1
     in ((Bout0, ctx0, yp2_result Bout0 last_i), (Bout1, ctx1, yp2_result Bout1 last_i)))"

section \<open>Each is a pair of lanes\<close>

lemma RSTEP_lanes: "CIVIC_RSTEP I (a, b) = (lane_step I a, lane_step I b)" "CIVIC_RSTEP_ILV I (a, b) = (lane_step I a, lane_step I b)"
  by (simp_all add: CIVIC_RSTEP_def CIVIC_RSTEP_ILV_def lane_step_def PWXFORM_SIMD_def Let_def idx_lo_def idx_hi_def)

lemma RSTEP_W_lanes:
  "(\<And>I a b. R I (a, b) = (lane_step I a, lane_step I b)) \<Longrightarrow> CIVIC_RSTEP_W R I m (a, b) = (lane_write I m a, lane_write I m b)"
  by (simp add: CIVIC_RSTEP_W_def lane_write_def)

lemma RFORM_lanes_of:
  "(\<And>I a b. R I (a, b) = (lane_step I a, lane_step I b)) \<Longrightarrow> CIVIC_RFORM R (a, b) = (lane_pwxform a, lane_pwxform b)"
  by (simp only: CIVIC_RFORM_def RSTEP_W_lanes bump_lanes lane_pwxform_def Let_def prod.case)

lemmas RFORM_lanes = RFORM_lanes_of [of CIVIC_RSTEP, OF RSTEP_lanes(1)] RFORM_lanes_of [of CIVIC_RSTEP_ILV, OF RSTEP_lanes(2)]

lemma reg_start_of: "reg_start X c = lane_of X c"
  by (simp add: reg_start_def lane_of_def)

definition join2_save :: "civic_yp2_state \<times> 'm \<Rightarrow> civic_yp2_state \<times> 'm \<Rightarrow> yp2_pair \<times> 'm \<times> 'm" where
  "join2_save x y = ((fst x, fst y), snd x, snd y)"

lemma save_2way_body_join:
  assumes "\<And>a b. P (a, b) = (lane_pwxform a, lane_pwxform b)"
  shows "save_2way_body P l i (join2_save x y) = join2_save (lane_save_body l i x) (lane_save_body l i y)"
  by (cases x; cases y; cases "snd x"; cases "snd y")
    (simp add: join2_save_def save_2way_body_def lane_save_body_def lane_turn_def assms Let_def)

lemma save_2way_lanes:
  assumes "\<And>a b. P (a, b) = (lane_pwxform a, lane_pwxform b)"
    and r: "0 < r" and len: "length A0 = 2 * r" "length B0 = 2 * r" "length A1 = 2 * r" "length B1 = 2 * r"
  shows "save_2way_finish (r * 2 - 1) c0 c1 (fold (save_2way_body P (r * 2 - 1)) [0..<r * 2 - 1 + 1]
      ((lane_of (XOR_X (A0 ! (r * 2 - 1)) (B0 ! (r * 2 - 1))) c0, lane_of (XOR_X (A1 ! (r * 2 - 1)) (B1 ! (r * 2 - 1))) c1), (A0, B0), (A1, B1)))
    = (blockmix_xor_save Pass2 A0 B0 r c0, blockmix_xor_save Pass2 A1 B1 r c1)"
proof -
  let ?l = "r * 2 - 1" and ?x0 = "last (xor_blocks A0 B0)" and ?x1 = "last (xor_blocks A1 B1)"
  obtain a o0 s0 b o1 s1 where F: "fold (lane_save_body ?l) [0..<?l + 1] (lane_of ?x0 c0, A0, B0) = (a, o0, s0)"
    "fold (lane_save_body ?l) [0..<?l + 1] (lane_of ?x1 c1, A1, B1) = (b, o1, s1)"
    by (metis prod_cases3)
  have "fold (save_2way_body P ?l) [0..<?l + 1] (join2_save (lane_of ?x0 c0, A0, B0) (lane_of ?x1 c1, A1, B1))
      = join2_save (a, o0, s0) (b, o1, s1)"
    unfolding F [symmetric] by (rule fold_join2, rule save_2way_body_join, rule assms(1))
  then have G: "fold (save_2way_body P ?l) [0..<?l + 1] ((lane_of ?x0 c0, lane_of ?x1 c1), (A0, B0), (A1, B1)) = ((a, b), (o0, s0), (o1, s1))"
    unfolding join2_save_def fst_conv snd_conv .
  show ?thesis
    unfolding last_xor_2r [OF len(1,2) r] last_xor_2r [OF len(3,4) r] G save_2way_finish_def prod.case Let_def
      lane_save_kernel [OF r len(1,2) F(1), symmetric] lane_save_kernel [OF r len(3,4) F(2), symmetric] by (rule refl)
qed

lemma xor_save_2way_pair:
  assumes "0 < r" "length A0 = 2 * r" "length B0 = 2 * r" "length A1 = 2 * r" "length B1 = 2 * r"
  shows "civic_blockmix_xor_save_2way A0 B0 c0 A1 B1 c1 r = (blockmix_xor_save Pass2 A0 B0 r c0, blockmix_xor_save Pass2 A1 B1 r c1)"
  unfolding civic_blockmix_xor_save_2way_def Let_def yp2_start_of by (rule save_2way_lanes [OF pwxform_2way_ilv_lanes assms])

lemma xor_save_2way_reg_pair:
  assumes "R = CIVIC_RSTEP \<or> R = CIVIC_RSTEP_ILV"
    and "0 < r" "length A0 = 2 * r" "length B0 = 2 * r" "length A1 = 2 * r" "length B1 = 2 * r"
  shows "civic_blockmix_xor_save_2way_reg R A0 B0 c0 A1 B1 c1 r = (blockmix_xor_save Pass2 A0 B0 r c0, blockmix_xor_save Pass2 A1 B1 r c1)"
proof -
  have "CIVIC_RFORM R (a, b) = (lane_pwxform a, lane_pwxform b)" for a b using assms(1) RFORM_lanes by auto
  then show ?thesis
    unfolding civic_blockmix_xor_save_2way_reg_def Let_def reg_start_of by (rule save_2way_lanes [OF _ assms(2-6)])
qed

lemma xor_2way_reg_body_join:
  assumes "\<And>a b. CIVIC_RFORM R (a, b) = (lane_pwxform a, lane_pwxform b)"
  shows "xor_2way_reg_body R A0 B0 A1 B1 l i (join2 x y) = join2 (lane_xor_body A0 B0 l i x) (lane_xor_body A1 B1 l i y)"
  by (cases x; cases y) (simp add: join2_def xor_2way_reg_body_def lane_xor_body_def lane_turn_def assms Let_def)

lemma xor_2way_reg_pair:
  assumes R: "R = CIVIC_RSTEP \<or> R = CIVIC_RSTEP_ILV"
    and r: "0 < r" and len: "length A0 = 2 * r" "length B0 = 2 * r" "length O0 = 2 * r"
      "length A1 = 2 * r" "length B1 = 2 * r" "length O1 = 2 * r"
  shows "civic_blockmix_xor_2way_reg R A0 B0 O0 c0 A1 B1 O1 c1 r = (lane_blockmix_xor A0 B0 O0 c0 r, lane_blockmix_xor A1 B1 O1 c1 r)"
proof -
  let ?l = "r * 2 - 1" and ?x0 = "last (xor_blocks A0 B0)" and ?x1 = "last (xor_blocks A1 B1)"
  have P: "CIVIC_RFORM R (a, b) = (lane_pwxform a, lane_pwxform b)" for a b using R RFORM_lanes by auto
  obtain a o0 b o1 where F: "fold (lane_xor_body A0 B0 ?l) [0..<?l + 1] (lane_of ?x0 c0, O0) = (a, o0)"
    "fold (lane_xor_body A1 B1 ?l) [0..<?l + 1] (lane_of ?x1 c1, O1) = (b, o1)"
    by fastforce
  have "fold (xor_2way_reg_body R A0 B0 A1 B1 ?l) [0..<?l + 1] (join2 (lane_of ?x0 c0, O0) (lane_of ?x1 c1, O1)) = join2 (a, o0) (b, o1)"
    unfolding F [symmetric] by (rule fold_join2, rule xor_2way_reg_body_join, rule P)
  then have G: "fold (xor_2way_reg_body R A0 B0 A1 B1 ?l) [0..<?l + 1] ((lane_of ?x0 c0, lane_of ?x1 c1), O0, O1) = ((a, b), o0, o1)"
    unfolding join2_def prod.case .
  show ?thesis
    unfolding civic_blockmix_xor_2way_reg_def Let_def reg_start_of last_xor_2r [OF len(1,2) r] last_xor_2r [OF len(4,5) r] G prod.case
      lane_xor_kernel [OF r len(1-3) F(1), symmetric] lane_xor_kernel [OF r len(4-6) F(2), symmetric] by (rule refl)
qed

section \<open>SMix in the other builds\<close>

text \<open>\<open>CIVIC_PWX_REGSTATE\<close>, with either step.\<close>

definition reg_kernels :: "(nat \<Rightarrow> yp2_pair \<Rightarrow> yp2_pair) \<Rightarrow> smix_kernels" where
  "reg_kernels R = \<lparr>k_mix = smix1_blkmix,
    k_xor = (\<lambda>r Bin10 Bin20 Bout0 ctx0 Bin11 Bin21 Bout1 ctx1. civic_blockmix_xor_2way_reg R Bin10 Bin20 Bout0 ctx0 Bin11 Bin21 Bout1 ctx1 r),
    k_save = civic_blockmix_xor_save_2way_reg R\<rparr>"

lemma reg_kernels_law:
  assumes R: "R = CIVIC_RSTEP \<or> R = CIVIC_RSTEP_ILV"
  shows "two_lane_smix (reg_kernels R)"
proof
  show "blockmix Pass2 A0 O0 r (Some c0) = (o0, Some d0) \<and> blockmix Pass2 A1 O1 r (Some c1) = (o1, Some d1)"
    if "0 < r" "length A0 = 2 * r" "length O0 = 2 * r" "length A1 = 2 * r" "length O1 = 2 * r"
      "k_mix (reg_kernels R) r A0 O0 c0 A1 O1 c1 = ((o0, d0), (o1, d1))" for r c0 c1 A0 O0 A1 O1 o0 d0 o1 d1
    using that by (intro mix2_law) (simp_all add: reg_kernels_def smix1_blkmix_def blockmix_2way_pair)
  show "blockmix_xor Pass2 A0 B0 O0 r (Some c0) = (o0, Some d0, j0) \<and> blockmix_xor Pass2 A1 B1 O1 r (Some c1) = (o1, Some d1, j1)"
    if "0 < r" "length A0 = 2 * r" "length B0 = 2 * r" "length O0 = 2 * r" "length A1 = 2 * r" "length B1 = 2 * r" "length O1 = 2 * r"
      "k_xor (reg_kernels R) r A0 B0 O0 c0 A1 B1 O1 c1 = ((o0, d0, j0), (o1, d1, j1))" for r c0 c1 A0 B0 O0 A1 B1 O1 o0 d0 j0 o1 d1 j1
    using that by (intro xor2_law) (simp_all add: reg_kernels_def xor_2way_reg_pair [OF R])
  show "k_save (reg_kernels R) A0 B0 c0 A1 B1 c1 r = (blockmix_xor_save Pass2 A0 B0 r c0, blockmix_xor_save Pass2 A1 B1 r c1)"
    if "0 < r" "length A0 = 2 * r" "length B0 = 2 * r" "length A1 = 2 * r" "length B1 = 2 * r" for r A0 B0 c0 A1 B1 c1
    using that by (simp add: reg_kernels_def xor_save_2way_reg_pair [OF R])
qed

interpretation reg2: two_lane_smix "reg_kernels CIVIC_RSTEP"
  by (rule reg_kernels_law) simp

interpretation reg2_ilv: two_lane_smix "reg_kernels CIVIC_RSTEP_ILV"
  by (rule reg_kernels_law) simp

text \<open>C6: SMix for two hashes in step - S-boxes in 256-bit registers, the table and the walk by the
  pipelined kernels of the default build or by the register-promoted ones of \<open>CIVIC_PWX_REGSTATE\<close>, in
  either order of their steps - leaves in each lane the bytes, the table and the S-box context that SMix
  gives for that lane alone, whatever the other lane holds and whatever the buffers held before.\<close>

theorem civic_smix_2way_correct:
  assumes "K \<in> {pipe_kernels, reg_kernels CIVIC_RSTEP, reg_kernels CIVIC_RSTEP_ILV}" "0 < r" "N = 2 ^ e" "8 \<le> N"
    and "lane_ok r N B0 V0 XY0 ctx0" "lane_ok r N B1 V1 XY1 ctx1"
  shows "case smix_1_0_2way K B0 B1 N r V0 V1 XY0 XY1 ctx0 ctx1 of ((R0, W0, Y0, d0), (R1, W1, Y1, d1)) \<Rightarrow>
    (R0, chunks (2 * r) W0, d0) = smix_spec Pass2 B0 r N ctx0 \<and> (R1, chunks (2 * r) W1, d1) = smix_spec Pass2 B1 r N ctx1"
proof -
  have "two_lane_smix K" using assms(1) pwx2.two_lane_smix_axioms reg2.two_lane_smix_axioms reg2_ilv.two_lane_smix_axioms by blast
  from two_lane_smix.smix_2way_lanes [OF this assms(2-6)] show ?thesis by auto
qed

theorem civic_smix_2way_correct_witness:
  "let S = fresh_ctx Pass2 (replicate 6144 (Xmm 0 0 0 0)); V = replicate 32 zero_blk; XY = replicate 3 zero_blk in
    case smix_1_0_2way (reg_kernels CIVIC_RSTEP) (replicate 128 7) (replicate 128 9) 16 1 V V XY XY S S of
      ((R0, W0, Y0, d0), (R1, W1, Y1, d1)) \<Rightarrow>
    (R0, chunks (2 * 1) W0, d0) = smix_spec Pass2 (replicate 128 7) 1 16 S \<and> (R1, chunks (2 * 1) W1, d1) = smix_spec Pass2 (replicate 128 9) 1 16 S"
proof -
  let ?S = "fresh_ctx Pass2 (replicate 6144 (Xmm 0 0 0 0))"
  have ok: "lane_ok 1 16 (replicate 128 x) (replicate 32 zero_blk) (replicate 3 zero_blk) ?S" for x
    by (simp add: lane_ok_def fresh_ctx_def)
  show ?thesis
    unfolding Let_def by (rule civic_smix_2way_correct [where e = 4, OF _ _ _ _ ok ok]) simp_all
qed

section \<open>Four lanes\<close>

type_synonym yp4 = "civic_yp2_state \<times> civic_yp2_state \<times> civic_yp2_state \<times> civic_yp2_state"

definition CIVIC_YP4_STEP :: "nat \<Rightarrow> yp4 \<Rightarrow> yp4" where
  "CIVIC_YP4_STEP I st = (case st of (a, b, c, d) \<Rightarrow>
    (let xa = EXTRACT64 (yx a ! I) AND Smask2 Pass2;
         xb = EXTRACT64 (yx b ! I) AND Smask2 Pass2;
         xc = EXTRACT64 (yx c ! I) AND Smask2 Pass2;
         xd = EXTRACT64 (yx d ! I) AND Smask2 Pass2;
         Xa = mm_mul_epu32 (mm_srli_si128_4 (yx a ! I)) (yx a ! I);
         Xb = mm_mul_epu32 (mm_srli_si128_4 (yx b ! I)) (yx b ! I);
         Xc = mm_mul_epu32 (mm_srli_si128_4 (yx c ! I)) (yx c ! I);
         Xd = mm_mul_epu32 (mm_srli_si128_4 (yx d ! I)) (yx d ! I);
         Xa = mm_add_epi64 Xa (ld128 (ySm a) (yS0 a + idx_lo xa));
         Xb = mm_add_epi64 Xb (ld128 (ySm b) (yS0 b + idx_lo xb));
         Xc = mm_add_epi64 Xc (ld128 (ySm c) (yS0 c + idx_lo xc));
         Xd = mm_add_epi64 Xd (ld128 (ySm d) (yS0 d + idx_lo xd))
     in (a\<lparr>yx := (yx a)[I := mm_xor_si128 Xa (ld128 (ySm a) (yS1 a + idx_hi xa))]\<rparr>,
         b\<lparr>yx := (yx b)[I := mm_xor_si128 Xb (ld128 (ySm b) (yS1 b + idx_hi xb))]\<rparr>,
         c\<lparr>yx := (yx c)[I := mm_xor_si128 Xc (ld128 (ySm c) (yS1 c + idx_hi xc))]\<rparr>,
         d\<lparr>yx := (yx d)[I := mm_xor_si128 Xd (ld128 (ySm d) (yS1 d + idx_hi xd))]\<rparr>)))"

definition CIVIC_YP4_STEP_WRITE :: "nat \<Rightarrow> (civic_yp2_state \<Rightarrow> nat) \<Rightarrow> yp4 \<Rightarrow> yp4" where
  "CIVIC_YP4_STEP_WRITE I member st = (case CIVIC_YP4_STEP I st of (a, b, c, d) \<Rightarrow>
    (yp2_store I member a, yp2_store I member b, yp2_store I member c, yp2_store I member d))"

text \<open>\<open>a->w += 16\<close> and so on for all four.\<close>

definition yp4_bump :: "yp4 \<Rightarrow> yp4" where
  "yp4_bump st = (case st of (a, b, c, d) \<Rightarrow>
    (a\<lparr>yw := yw a + 16\<rparr>, b\<lparr>yw := yw b + 16\<rparr>, c\<lparr>yw := yw c + 16\<rparr>, d\<lparr>yw := yw d + 16\<rparr>))"

definition civic_pwxform_4way :: "yp4 \<Rightarrow> yp4" where
  "civic_pwxform_4way st =
    (let st = CIVIC_YP4_STEP_WRITE 0 yS0 st;
         st = CIVIC_YP4_STEP_WRITE 1 yS1 st;
         st = yp4_bump st;
         st = CIVIC_YP4_STEP_WRITE 2 yS0 st;
         st = CIVIC_YP4_STEP_WRITE 3 yS1 st;
         st = yp4_bump st;
         st = CIVIC_YP4_STEP_WRITE 0 yS0 st;
         st = CIVIC_YP4_STEP_WRITE 1 yS1 st;
         st = yp4_bump st;
         st = CIVIC_YP4_STEP 2 st;
         st = CIVIC_YP4_STEP 3 st;
         st = CIVIC_YP4_STEP_WRITE 0 yS0 st;
         st = CIVIC_YP4_STEP_WRITE 1 yS1 st;
         st = yp4_bump st;
         st = CIVIC_YP4_STEP 2 st;
         st = CIVIC_YP4_STEP 3 st
     in (case st of (a, b, c, d) \<Rightarrow> (yp2_turn a, yp2_turn b, yp2_turn c, yp2_turn d)))"

text \<open>What a kernel does with a lane, its \<open>Bout\<close> and the context around the loop; \<open>Bout\<close>, the context and the result
  after it.\<close>

type_synonym lane4 = "blk list \<times> pwxform_ctx"

definition lane_finish4 :: "nat \<Rightarrow> pwxform_ctx \<Rightarrow> civic_yp2_state \<Rightarrow> blk list \<Rightarrow> blk list \<times> pwxform_ctx \<times> nat" where
  "lane_finish4 last_i ctx a Bout =
    (let ctx = civic_yp2_ctx_store ctx a;
         Bout = civic_yp2_finish_salsa last_i a Bout
     in (Bout, ctx, yp2_result Bout last_i))"

type_synonym outs4 = "blk list \<times> blk list \<times> blk list \<times> blk list"

definition write_4way :: "nat \<Rightarrow> nat \<Rightarrow> yp4 \<Rightarrow> outs4 \<Rightarrow> outs4" where
  "write_4way last_i i st out = (case (st, out) of ((a, b, c, d), (Bout0, Bout1, Bout2, Bout3)) \<Rightarrow>
    if i \<noteq> last_i then (civic_yp2_write i a Bout0, civic_yp2_write i b Bout1, civic_yp2_write i c Bout2, civic_yp2_write i d Bout3)
    else (Bout0, Bout1, Bout2, Bout3))"

definition blockmix_xor_save_4way_body :: "nat \<Rightarrow> nat \<Rightarrow> yp4 \<times> outs4 \<times> outs4 \<Rightarrow> yp4 \<times> outs4 \<times> outs4" where
  "blockmix_xor_save_4way_body last_i i st =
    (case st of ((a, b, c, d), (Bin1out0, Bin1out1, Bin1out2, Bin1out3), (Bin20, Bin21, Bin22, Bin23)) \<Rightarrow>
    (let ya0 = XOR_X (Bin20 ! i) (Bin1out0 ! i);
         ya1 = XOR_X (Bin21 ! i) (Bin1out1 ! i);
         ya2 = XOR_X (Bin22 ! i) (Bin1out2 ! i);
         ya3 = XOR_X (Bin23 ! i) (Bin1out3 ! i);
         Bin20 = Bin20[i := ya0];
         Bin21 = Bin21[i := ya1];
         Bin22 = Bin22[i := ya2];
         Bin23 = Bin23[i := ya3];
         st = civic_pwxform_4way (civic_yp2_xor a ya0, civic_yp2_xor b ya1, civic_yp2_xor c ya2, civic_yp2_xor d ya3)
     in (st, write_4way last_i i st (Bin1out0, Bin1out1, Bin1out2, Bin1out3), (Bin20, Bin21, Bin22, Bin23))))"

text \<open>The arguments by lane: \<open>Bin1out\<close>, \<open>Bin2\<close> and the context of each.\<close>

type_synonym save4 = "blk list \<times> blk list \<times> pwxform_ctx"
type_synonym saved4 = "blk list \<times> blk list \<times> pwxform_ctx \<times> nat"

definition civic_blockmix_xor_save_4way :: "save4 \<Rightarrow> save4 \<Rightarrow> save4 \<Rightarrow> save4 \<Rightarrow> nat \<Rightarrow> saved4 \<times> saved4 \<times> saved4 \<times> saved4" where
  "civic_blockmix_xor_save_4way L0 L1 L2 L3 r =
    (let last_i = r * 2 - 1;
         (Bin1out0, Bin20, ctx0) = L0;
         (Bin1out1, Bin21, ctx1) = L1;
         (Bin1out2, Bin22, ctx2) = L2;
         (Bin1out3, Bin23, ctx3) = L3;
         a = civic_yp2_ctx_load (civic_yp2_xor (civic_yp2_read yp2_uninit (Bin1out0 ! last_i)) (Bin20 ! last_i)) ctx0;
         b = civic_yp2_ctx_load (civic_yp2_xor (civic_yp2_read yp2_uninit (Bin1out1 ! last_i)) (Bin21 ! last_i)) ctx1;
         c = civic_yp2_ctx_load (civic_yp2_xor (civic_yp2_read yp2_uninit (Bin1out2 ! last_i)) (Bin22 ! last_i)) ctx2;
         d = civic_yp2_ctx_load (civic_yp2_xor (civic_yp2_read yp2_uninit (Bin1out3 ! last_i)) (Bin23 ! last_i)) ctx3;
         ((a, b, c, d), (Bin1out0, Bin1out1, Bin1out2, Bin1out3), (Bin20, Bin21, Bin22, Bin23)) =
           fold (blockmix_xor_save_4way_body last_i) [0..<last_i + 1]
             ((a, b, c, d), (Bin1out0, Bin1out1, Bin1out2, Bin1out3), (Bin20, Bin21, Bin22, Bin23));
         (Bin1out0, ctx0, res0) = lane_finish4 last_i ctx0 a Bin1out0;
         (Bin1out1, ctx1, res1) = lane_finish4 last_i ctx1 b Bin1out1;
         (Bin1out2, ctx2, res2) = lane_finish4 last_i ctx2 c Bin1out2;
         (Bin1out3, ctx3, res3) = lane_finish4 last_i ctx3 d Bin1out3
     in ((Bin1out0, Bin20, ctx0, res0), (Bin1out1, Bin21, ctx1, res1), (Bin1out2, Bin22, ctx2, res2), (Bin1out3, Bin23, ctx3, res3)))"

definition blockmix_xor_4way_body :: "outs4 \<Rightarrow> outs4 \<Rightarrow> nat \<Rightarrow> nat \<Rightarrow> yp4 \<times> outs4 \<Rightarrow> yp4 \<times> outs4" where
  "blockmix_xor_4way_body Bin1 Bin2 last_i i st =
    (case (st, Bin1, Bin2) of (((a, b, c, d), out), (Bin10, Bin11, Bin12, Bin13), (Bin20, Bin21, Bin22, Bin23)) \<Rightarrow>
    (let ya0 = XOR_X (Bin20 ! i) (Bin10 ! i);
         ya1 = XOR_X (Bin21 ! i) (Bin11 ! i);
         ya2 = XOR_X (Bin22 ! i) (Bin12 ! i);
         ya3 = XOR_X (Bin23 ! i) (Bin13 ! i);
         st = civic_pwxform_4way (civic_yp2_xor a ya0, civic_yp2_xor b ya1, civic_yp2_xor c ya2, civic_yp2_xor d ya3)
     in (st, write_4way last_i i st out)))"

type_synonym xor4_in = "blk list \<times> blk list \<times> blk list \<times> pwxform_ctx"
type_synonym xor4_out = "blk list \<times> pwxform_ctx \<times> nat"

definition civic_blockmix_xor_4way :: "xor4_in \<Rightarrow> xor4_in \<Rightarrow> xor4_in \<Rightarrow> xor4_in \<Rightarrow> nat \<Rightarrow> xor4_out \<times> xor4_out \<times> xor4_out \<times> xor4_out" where
  "civic_blockmix_xor_4way L0 L1 L2 L3 r =
    (let last_i = r * 2 - 1;
         (Bin10, Bin20, Bout0, ctx0) = L0;
         (Bin11, Bin21, Bout1, ctx1) = L1;
         (Bin12, Bin22, Bout2, ctx2) = L2;
         (Bin13, Bin23, Bout3, ctx3) = L3;
         a = civic_yp2_ctx_load (civic_yp2_xor (civic_yp2_read yp2_uninit (Bin10 ! last_i)) (Bin20 ! last_i)) ctx0;
         b = civic_yp2_ctx_load (civic_yp2_xor (civic_yp2_read yp2_uninit (Bin11 ! last_i)) (Bin21 ! last_i)) ctx1;
         c = civic_yp2_ctx_load (civic_yp2_xor (civic_yp2_read yp2_uninit (Bin12 ! last_i)) (Bin22 ! last_i)) ctx2;
         d = civic_yp2_ctx_load (civic_yp2_xor (civic_yp2_read yp2_uninit (Bin13 ! last_i)) (Bin23 ! last_i)) ctx3;
         ((a, b, c, d), (Bout0, Bout1, Bout2, Bout3)) =
           fold (blockmix_xor_4way_body (Bin10, Bin11, Bin12, Bin13) (Bin20, Bin21, Bin22, Bin23) last_i) [0..<last_i + 1]
             ((a, b, c, d), (Bout0, Bout1, Bout2, Bout3))
     in (lane_finish4 last_i ctx0 a Bout0, lane_finish4 last_i ctx1 b Bout1, lane_finish4 last_i ctx2 c Bout2, lane_finish4 last_i ctx3 d Bout3))"

text \<open>The mixer of the first states.  Its loop has no XOR with \<open>Bin\<close>.\<close>

definition blockmix_4way_body :: "nat \<Rightarrow> nat \<Rightarrow> yp4 \<times> outs4 \<Rightarrow> yp4 \<times> outs4" where
  "blockmix_4way_body last_i i st = (case st of (st, out) \<Rightarrow>
    (let st = civic_pwxform_4way st in (st, write_4way last_i i st out)))"

type_synonym mix4_in = "blk list \<times> blk list \<times> pwxform_ctx"

definition civic_blockmix_4way :: "mix4_in \<Rightarrow> mix4_in \<Rightarrow> mix4_in \<Rightarrow> mix4_in \<Rightarrow> nat \<Rightarrow>
    (blk list \<times> pwxform_ctx) \<times> (blk list \<times> pwxform_ctx) \<times> (blk list \<times> pwxform_ctx) \<times> (blk list \<times> pwxform_ctx)" where
  "civic_blockmix_4way L0 L1 L2 L3 r =
    (let last_i = r * 2 - 1;
         (Bin0, Bout0, ctx0) = L0;
         (Bin1, Bout1, ctx1) = L1;
         (Bin2, Bout2, ctx2) = L2;
         (Bin3, Bout3, ctx3) = L3;
         a = civic_yp2_ctx_load (civic_yp2_read yp2_uninit (Bin0 ! last_i)) ctx0;
         b = civic_yp2_ctx_load (civic_yp2_read yp2_uninit (Bin1 ! last_i)) ctx1;
         c = civic_yp2_ctx_load (civic_yp2_read yp2_uninit (Bin2 ! last_i)) ctx2;
         d = civic_yp2_ctx_load (civic_yp2_read yp2_uninit (Bin3 ! last_i)) ctx3;
         ((a, b, c, d), (Bout0, Bout1, Bout2, Bout3)) =
           fold (blockmix_4way_body last_i) [0..<last_i + 1] ((a, b, c, d), (Bout0, Bout1, Bout2, Bout3));
         (Bout0, ctx0, _) = lane_finish4 last_i ctx0 a Bout0;
         (Bout1, ctx1, _) = lane_finish4 last_i ctx1 b Bout1;
         (Bout2, ctx2, _) = lane_finish4 last_i ctx2 c Bout2;
         (Bout3, ctx3, _) = lane_finish4 last_i ctx3 d Bout3
     in ((Bout0, ctx0), (Bout1, ctx1), (Bout2, ctx2), (Bout3, ctx3)))"

text \<open>Four lanes as one-lane steps.\<close>

lemma YP4_lanes:
  "CIVIC_YP4_STEP I (a, b, c, d) = (lane_step I a, lane_step I b, lane_step I c, lane_step I d)"
  "CIVIC_YP4_STEP_WRITE I m (a, b, c, d) = (lane_write I m a, lane_write I m b, lane_write I m c, lane_write I m d)"
  "yp4_bump (a, b, c, d) = (lane_bump a, lane_bump b, lane_bump c, lane_bump d)"
  by (simp_all add: CIVIC_YP4_STEP_def CIVIC_YP4_STEP_WRITE_def yp4_bump_def lane_write_def lane_bump_def lane_step_def
      PWXFORM_SIMD_def Let_def idx_lo_def idx_hi_def)

lemma pwxform_4way_lanes:
  "civic_pwxform_4way (a, b, c, d) = (lane_pwxform a, lane_pwxform b, lane_pwxform c, lane_pwxform d)"
  by (simp only: civic_pwxform_4way_def YP4_lanes lane_pwxform_def Let_def prod.case)

lemma fold_join4:
  assumes "\<And>i w x y z. i \<in> set is \<Longrightarrow> f i (J w x y z) = J (g0 i w) (g1 i x) (g2 i y) (g3 i z)"
  shows "fold f is (J w x y z) = J (fold g0 is w) (fold g1 is x) (fold g2 is y) (fold g3 is z)"
  using assms by (induction "is" arbitrary: w x y z) simp_all

definition join4 :: "civic_yp2_state \<times> blk list \<Rightarrow> civic_yp2_state \<times> blk list \<Rightarrow> civic_yp2_state \<times> blk list \<Rightarrow>
    civic_yp2_state \<times> blk list \<Rightarrow> yp4 \<times> outs4" where
  "join4 w x y z = ((fst w, fst x, fst y, fst z), snd w, snd x, snd y, snd z)"

definition join4_save :: "civic_yp2_state \<times> blk list \<times> blk list \<Rightarrow> civic_yp2_state \<times> blk list \<times> blk list \<Rightarrow>
    civic_yp2_state \<times> blk list \<times> blk list \<Rightarrow> civic_yp2_state \<times> blk list \<times> blk list \<Rightarrow> yp4 \<times> outs4 \<times> outs4" where
  "join4_save w x y z = ((fst w, fst x, fst y, fst z), (fst (snd w), fst (snd x), fst (snd y), fst (snd z)),
    (snd (snd w), snd (snd x), snd (snd y), snd (snd z)))"

lemma blockmix_xor_4way_body_join:
  "blockmix_xor_4way_body (A0, A1, A2, A3) (B0, B1, B2, B3) l i (join4 w x y z)
    = join4 (lane_xor_body A0 B0 l i w) (lane_xor_body A1 B1 l i x) (lane_xor_body A2 B2 l i y) (lane_xor_body A3 B3 l i z)"
  by (cases w; cases x; cases y; cases z)
    (simp add: join4_def blockmix_xor_4way_body_def lane_xor_body_def lane_turn_def pwxform_4way_lanes write_4way_def Let_def)

lemma blockmix_xor_save_4way_body_join:
  "blockmix_xor_save_4way_body l i (join4_save w x y z)
    = join4_save (lane_save_body l i w) (lane_save_body l i x) (lane_save_body l i y) (lane_save_body l i z)"
  by (cases w; cases x; cases y; cases z; cases "snd w"; cases "snd x"; cases "snd y"; cases "snd z")
    (simp add: join4_save_def blockmix_xor_save_4way_body_def lane_save_body_def lane_turn_def pwxform_4way_lanes write_4way_def Let_def)

text \<open>The two XORing kernels are right.\<close>

lemma blockmix_xor_4way_lanes:
  assumes r: "0 < r" and len: "length A0 = 2 * r" "length B0 = 2 * r" "length O0 = 2 * r" "length A1 = 2 * r" "length B1 = 2 * r" "length O1 = 2 * r"
    "length A2 = 2 * r" "length B2 = 2 * r" "length O2 = 2 * r" "length A3 = 2 * r" "length B3 = 2 * r" "length O3 = 2 * r"
  shows "civic_blockmix_xor_4way (A0, B0, O0, c0) (A1, B1, O1, c1) (A2, B2, O2, c2) (A3, B3, O3, c3) r
    = (lane_blockmix_xor A0 B0 O0 c0 r, lane_blockmix_xor A1 B1 O1 c1 r, lane_blockmix_xor A2 B2 O2 c2 r, lane_blockmix_xor A3 B3 O3 c3 r)"
proof -
  let ?l = "r * 2 - 1" and ?s = "\<lambda>A B c O'. (lane_of (last (xor_blocks A B)) c, O')"
  obtain a o0 b o1 where F: "fold (lane_xor_body A0 B0 ?l) [0..<?l + 1] (?s A0 B0 c0 O0) = (a, o0)"
    "fold (lane_xor_body A1 B1 ?l) [0..<?l + 1] (?s A1 B1 c1 O1) = (b, o1)" by fastforce
  obtain c o2 d o3 where G: "fold (lane_xor_body A2 B2 ?l) [0..<?l + 1] (?s A2 B2 c2 O2) = (c, o2)"
    "fold (lane_xor_body A3 B3 ?l) [0..<?l + 1] (?s A3 B3 c3 O3) = (d, o3)" by fastforce
  have "fold (blockmix_xor_4way_body (A0, A1, A2, A3) (B0, B1, B2, B3) ?l) [0..<?l + 1]
      (join4 (?s A0 B0 c0 O0) (?s A1 B1 c1 O1) (?s A2 B2 c2 O2) (?s A3 B3 c3 O3)) = join4 (a, o0) (b, o1) (c, o2) (d, o3)"
    unfolding F [symmetric] G [symmetric] by (rule fold_join4, rule blockmix_xor_4way_body_join)
  note H = this [unfolded join4_def fst_conv snd_conv]
  show ?thesis
    unfolding civic_blockmix_xor_4way_def Let_def prod.case yp2_start_of last_xor_2r [OF len(1,2) r] last_xor_2r [OF len(4,5) r]
      last_xor_2r [OF len(7,8) r] last_xor_2r [OF len(10,11) r] H lane_finish4_def
      lane_xor_kernel [OF r len(1-3) F(1), symmetric] lane_xor_kernel [OF r len(4-6) F(2), symmetric]
      lane_xor_kernel [OF r len(7-9) G(1), symmetric] lane_xor_kernel [OF r len(10-12) G(2), symmetric] by (rule refl)
qed

lemma blockmix_xor_save_4way_lanes:
  assumes r: "0 < r" and len: "length A0 = 2 * r" "length B0 = 2 * r" "length A1 = 2 * r" "length B1 = 2 * r"
    "length A2 = 2 * r" "length B2 = 2 * r" "length A3 = 2 * r" "length B3 = 2 * r"
  shows "civic_blockmix_xor_save_4way (A0, B0, c0) (A1, B1, c1) (A2, B2, c2) (A3, B3, c3) r
    = (blockmix_xor_save Pass2 A0 B0 r c0, blockmix_xor_save Pass2 A1 B1 r c1, blockmix_xor_save Pass2 A2 B2 r c2, blockmix_xor_save Pass2 A3 B3 r c3)"
proof -
  let ?l = "r * 2 - 1" and ?s = "\<lambda>A B c. (lane_of (last (xor_blocks A B)) c, A, B)"
  obtain a o0 s0 b o1 s1 where F: "fold (lane_save_body ?l) [0..<?l + 1] (?s A0 B0 c0) = (a, o0, s0)"
    "fold (lane_save_body ?l) [0..<?l + 1] (?s A1 B1 c1) = (b, o1, s1)" by (metis prod_cases3)
  obtain c o2 s2 d o3 s3 where G: "fold (lane_save_body ?l) [0..<?l + 1] (?s A2 B2 c2) = (c, o2, s2)"
    "fold (lane_save_body ?l) [0..<?l + 1] (?s A3 B3 c3) = (d, o3, s3)" by (metis prod_cases3)
  have "fold (blockmix_xor_save_4way_body ?l) [0..<?l + 1] (join4_save (?s A0 B0 c0) (?s A1 B1 c1) (?s A2 B2 c2) (?s A3 B3 c3))
      = join4_save (a, o0, s0) (b, o1, s1) (c, o2, s2) (d, o3, s3)"
    unfolding F [symmetric] G [symmetric] by (rule fold_join4, rule blockmix_xor_save_4way_body_join)
  note H = this [unfolded join4_save_def fst_conv snd_conv]
  show ?thesis
    unfolding civic_blockmix_xor_save_4way_def Let_def prod.case yp2_start_of last_xor_2r [OF len(1,2) r] last_xor_2r [OF len(3,4) r]
      last_xor_2r [OF len(5,6) r] last_xor_2r [OF len(7,8) r] H lane_finish4_def
      lane_save_kernel [OF r len(1,2) F(1), symmetric] lane_save_kernel [OF r len(3,4) F(2), symmetric]
      lane_save_kernel [OF r len(5,6) G(1), symmetric] lane_save_kernel [OF r len(7,8) G(2), symmetric] by (rule refl)
qed

text \<open>The mixer without the XOR sees only the last block of its input.\<close>

lemma blockmix_4way_ignores_input:
  assumes "i \<noteq> r * 2 - 1"
  shows "civic_blockmix_4way (A0[i := x0], O0, c0) (A1[i := x1], O1, c1) (A2[i := x2], O2, c2) (A3[i := x3], O3, c3) r
    = civic_blockmix_4way (A0, O0, c0) (A1, O1, c1) (A2, O2, c2) (A3, O3, c3) r"
  using assms by (simp add: civic_blockmix_4way_def Let_def)

text \<open>The one-lane mixer does not: an input and a fresh context for which another first block gives
  another output.\<close>

abbreviation xmm_0 :: xmm where "xmm_0 \<equiv> Xmm 0 0 0 0"
abbreviation xmm_lows :: xmm where "xmm_lows \<equiv> Xmm 1 0 1 0"
abbreviation xmm_1 :: xmm where "xmm_1 \<equiv> Xmm 1 1 1 1"

lemma Smask2_number: "Smask2 Pass2 = 0x7ff000007ff0"
  by (simp add: Smask2_def Smask_to_Smask2_def Swidth_to_Smask_def Swidth_def PWXsimple_def)

lemma join_small: "join64 1 1 = 0x100000001" "join64 1 0 = 1" "join64 0 0 = 0" "join64 0 1 = 0x100000000"
  by (simp_all add: join64_def push_bit_eq_mult)

lemma small_products:
  "mm_mul_epu32 (HI32 Hi32_avx xmm_1) xmm_1 = xmm_lows" "mm_mul_epu32 (HI32 Hi32_avx xmm_lows) xmm_lows = xmm_0"
  "mm_mul_epu32 (HI32 Hi32_avx xmm_0) xmm_0 = xmm_0" "mm_add_epi64 xmm_0 X = X" "mm_xor_si128 X xmm_0 = X" "mm_add_epi64 X xmm_0 = X"
  by (cases X; simp add: xmm_of64_def join_small mm_add_epi64_def)+

lemma small_steps:
  "PWXFORM_SIMD (Smask2 Pass2) S b0 b1 xmm_1 = mm_xor_si128 (mm_add_epi64 xmm_lows (ld128 S b0)) (ld128 S b1)"
  "PWXFORM_SIMD (Smask2 Pass2) S b0 b1 xmm_lows = mm_xor_si128 (ld128 S b0) (ld128 S b1)"
  "PWXFORM_SIMD (Smask2 Pass2) S b0 b1 xmm_0 = mm_xor_si128 (ld128 S b0) (ld128 S b1)"
proof -
  have m: "EXTRACT64 xmm_1 AND 0x7ff000007ff0 = 0" "EXTRACT64 xmm_lows AND 0x7ff000007ff0 = 0" "EXTRACT64 xmm_0 AND 0x7ff000007ff0 = 0"
    by (simp_all add: EXTRACT64_def join_small)
  show "PWXFORM_SIMD (Smask2 Pass2) S b0 b1 xmm_1 = mm_xor_si128 (mm_add_epi64 xmm_lows (ld128 S b0)) (ld128 S b1)"
    "PWXFORM_SIMD (Smask2 Pass2) S b0 b1 xmm_lows = mm_xor_si128 (ld128 S b0) (ld128 S b1)"
    "PWXFORM_SIMD (Smask2 Pass2) S b0 b1 xmm_0 = mm_xor_si128 (ld128 S b0) (ld128 S b1)"
    unfolding PWXFORM_SIMD_def Let_def Smask2_number m small_products by simp_all
qed

lemma small_pwxform:
  "fst (PWXFORM Pass2 ((xmm_0, xmm_1, xmm_0, xmm_0), fresh_ctx Pass2 (replicate 6144 xmm_0))) = (xmm_lows, xmm_lows, xmm_lows, xmm_lows)"
  "fst (PWXFORM Pass2 ((xmm_0, xmm_0, xmm_0, xmm_0), fresh_ctx Pass2 (replicate 6144 xmm_0))) = (xmm_0, xmm_0, xmm_0, xmm_0)"
  by (simp_all add: fresh_ctx_def PWXFORM_def PWXFORM_ROUND_WRITE4_def PWXFORM_ROUND_WRITE2_def PWXFORM_SIMD_WRITE_def PWXFORM_SIMD_c_def
      w_add16_def Let_def small_steps ld128_def st128_def small_products rotate_S_def Sb_values nth_list_update)

lemma lane_blockmix_first:
  "length O0 = 2 \<Longrightarrow> hd (fst (lane_blockmix [a, b] O0 c 1)) = fst (PWXFORM Pass2 (XOR_X b a, c))"
  using blockmix_eq_mix [of 1 "[a, b]" O0 "Some c" Pass2]
  by (simp add: lane_blockmix_def mix_def Let_def split: prod.splits)

lemma blockmix_4way_wrong:
  defines "Z \<equiv> (xmm_0, xmm_0, xmm_0, xmm_0)" and "c \<equiv> fresh_ctx Pass2 (replicate 6144 xmm_0)"
  shows "\<exists>L A. length A = 2 \<and> fst (civic_blockmix_4way (A, [Z, Z], c) L L L 1) \<noteq> lane_blockmix A [Z, Z] c 1"
proof -
  let ?L = "([Z, Z], [Z, Z], c)" and ?A = "[(xmm_0, xmm_1, xmm_0, xmm_0), Z]"
  have "hd (fst (lane_blockmix ?A [Z, Z] c 1)) \<noteq> hd (fst (lane_blockmix [Z, Z] [Z, Z] c 1))"
    using lane_blockmix_first [of "[Z, Z]" "(xmm_0, xmm_1, xmm_0, xmm_0)" Z c] lane_blockmix_first [of "[Z, Z]" Z Z c] small_pwxform
    by (simp add: Z_def c_def XOR_X_def del: One_nat_def)
  moreover have "fst (civic_blockmix_4way (?A, [Z, Z], c) ?L ?L ?L 1) = fst (civic_blockmix_4way ([Z, Z], [Z, Z], c) ?L ?L ?L 1)"
    using blockmix_4way_ignores_input [of 0 1 "[Z, Z]" "(xmm_0, xmm_1, xmm_0, xmm_0)" "[Z, Z]" c "[Z, Z]" Z "[Z, Z]" c "[Z, Z]" Z "[Z, Z]" c "[Z, Z]" Z]
    by simp
  ultimately have "fst (civic_blockmix_4way (?A, [Z, Z], c) ?L ?L ?L 1) \<noteq> lane_blockmix ?A [Z, Z] c 1
      \<or> fst (civic_blockmix_4way ([Z, Z], [Z, Z], c) ?L ?L ?L 1) \<noteq> lane_blockmix [Z, Z] [Z, Z] c 1" by metis
  moreover have "length ?A = 2" "length [Z, Z] = 2" by simp_all
  ultimately show ?thesis by blast
qed

section \<open>The PWXFORM of a benchmark\<close>

text \<open>\<open>civic_pwxform_2way_reg\<close> takes the table pointers by value: the caller's are not rotated.\<close>

definition YP2R_STEP :: "nat \<Rightarrow> yp2_pair \<Rightarrow> yp2_pair" where
  "YP2R_STEP I ab = (case ab of (a, b) \<Rightarrow>
    (let xai = EXTRACT64 (yx a ! I) AND Smask2 Pass2;
         xbi = EXTRACT64 (yx b ! I) AND Smask2 Pass2;
         Xa = mm_mul_epu32 (mm_srli_si128_4 (yx a ! I)) (yx a ! I);
         Xb = mm_mul_epu32 (mm_srli_si128_4 (yx b ! I)) (yx b ! I);
         Xa = mm_add_epi64 Xa (ld128 (ySm a) (yS0 a + idx_lo xai));
         Xb = mm_add_epi64 Xb (ld128 (ySm b) (yS0 b + idx_lo xbi))
     in (a\<lparr>yx := (yx a)[I := mm_xor_si128 Xa (ld128 (ySm a) (yS1 a + idx_hi xai))]\<rparr>,
         b\<lparr>yx := (yx b)[I := mm_xor_si128 Xb (ld128 (ySm b) (yS1 b + idx_hi xbi))]\<rparr>)))"

definition YP2R_STEP_WRITE :: "nat \<Rightarrow> (civic_yp2_state \<Rightarrow> nat) \<Rightarrow> yp2_pair \<Rightarrow> yp2_pair" where
  "YP2R_STEP_WRITE I TAB ab = (case YP2R_STEP I ab of (a, b) \<Rightarrow> (yp2_store I TAB a, yp2_store I TAB b))"

definition civic_pwxform_2way_reg :: "yp2_pair \<Rightarrow> yp2_pair" where
  "civic_pwxform_2way_reg ab =
    (let S0a = yS0 (fst ab); S1a = yS1 (fst ab); S2a = yS2 (fst ab);
         S0b = yS0 (snd ab); S1b = yS1 (snd ab); S2b = yS2 (snd ab);
         ab = YP2R_STEP_WRITE 0 yS0 ab;
         ab = YP2R_STEP_WRITE 1 yS1 ab;
         ab = yp2_bump ab;
         ab = YP2R_STEP_WRITE 2 yS0 ab;
         ab = YP2R_STEP_WRITE 3 yS1 ab;
         ab = yp2_bump ab;
         ab = YP2R_STEP_WRITE 0 yS0 ab;
         ab = YP2R_STEP_WRITE 1 yS1 ab;
         ab = yp2_bump ab;
         ab = YP2R_STEP 2 ab;
         ab = YP2R_STEP 3 ab;
         ab = YP2R_STEP_WRITE 0 yS0 ab;
         ab = YP2R_STEP_WRITE 1 yS1 ab;
         ab = yp2_bump ab;
         ab = YP2R_STEP 2 ab;
         ab = YP2R_STEP 3 ab;
         (a, b) = ab;
         (a, b) = (yp2_turn a, yp2_turn b)
     in (a\<lparr>yS0 := S0a, yS1 := S1a, yS2 := S2a\<rparr>, b\<lparr>yS0 := S0b, yS1 := S1b, yS2 := S2b\<rparr>))"

lemma YP2R_lanes:
  "YP2R_STEP I (a, b) = (lane_step I a, lane_step I b)" "YP2R_STEP_WRITE I m (a, b) = (lane_write I m a, lane_write I m b)"
  by (simp_all add: YP2R_STEP_WRITE_def YP2R_STEP_def lane_write_def lane_step_def PWXFORM_SIMD_def Let_def idx_lo_def idx_hi_def)

lemma pwxform_2way_reg_lanes:
  "civic_pwxform_2way_reg (a, b) = ((lane_pwxform a)\<lparr>yS0 := yS0 a, yS1 := yS1 a, yS2 := yS2 a\<rparr>,
     (lane_pwxform b)\<lparr>yS0 := yS0 b, yS1 := yS1 b, yS2 := yS2 b\<rparr>)"
  by (simp only: civic_pwxform_2way_reg_def YP2R_lanes bump_lanes lane_pwxform_def Let_def prod.case fst_conv snd_conv)

end
