(* ===== verification/Soj_Options.thy ===== *)
theory Soj_Options
  imports Soj_Libc
begin

text \<open>The options of the program, from \<open>soj_cli.c\<close> and the globals of \<open>soj.c\<close>: the table of
  options, \<open>parse_arg\<close> with the surgery it does on a pool URL in place, the configuration file and the
  command line.  What \<open>getopt_long\<close> returns is a list of events with its documented contract; a
  configuration file is the JSON value that was read from it.  Log messages are left out.\<close>

section \<open>Hiding an argument\<close>

text \<open>\<open>strhide\<close>: an \<open>x\<close> for the first character and zeros for the others.\<close>

definition strhide :: "cstring \<Rightarrow> bytes" where
  "strhide s = (case s of [] \<Rightarrow> [] | c # r \<Rightarrow> CH CHR ''x'' # replicate (length r) 0)"

section \<open>The build and the globals\<close>

text \<open>The macros of the build the code depends on.  \<open>wallet_lock\<close>: one of
  \<open>HARDCODED_WALLET\<close>, \<open>ENCODED_WALLET_BYTES\<close> and \<open>HARDCODED_WALLET_LOCK\<close> is defined; \<open>wallet_seed\<close>: the
  wallet of the first two.\<close>

record build =
  RELEASE_HARDENED :: bool
  LOG_ERRORS_ONLY :: bool
  HAVE_SYSLOG_H :: bool
  wallet_lock :: bool
  wallet_seed :: "cstring option"
  fixed_pool_url :: cstring
  DEFAULT_POOL_URL :: "cstring option"

datatype curl_proxy = CURLPROXY_HTTP | CURLPROXY_SOCKS4 | CURLPROXY_SOCKS4A | CURLPROXY_SOCKS5 | CURLPROXY_SOCKS5_HOSTNAME

text \<open>\<open>short_url\<close> points into \<open>rpc_url\<close> and is an offset.\<close>

record opts =
  opt_algo :: algos
  opt_debug :: bool
  opt_protocol :: bool
  opt_quiet :: bool
  opt_benchmark :: bool
  opt_background :: bool
  opt_redirect :: bool
  opt_bell :: bool
  opt_stratum_keepalive :: bool
  use_colors :: bool
  use_syslog :: bool
  want_stratum :: bool
  have_stratum :: bool
  opt_retries :: int
  opt_fail_pause :: int
  opt_scantime :: int
  opt_timeout :: int
  opt_n_threads :: int
  opt_time_limit :: int
  opt_priority :: int
  opt_affinity :: u64
  opt_diff_factor :: rat
  rpc_url :: "cstring option"
  short_url :: "nat option"
  rpc_userpass :: "cstring option"
  rpc_user :: "cstring option"
  rpc_pass :: "cstring option"
  opt_cert :: "cstring option"
  opt_proxy :: "cstring option"
  opt_proxy_type :: curl_proxy
  opt_worker :: "cstring option"
  opt_data_file :: "cstring option"
  opt_stealth_filename :: "cstring option"

definition opts_initial :: opts where
  "opts_initial = \<lparr>opt_algo = ALGO_NULL, opt_debug = False, opt_protocol = False, opt_quiet = False,
     opt_benchmark = False, opt_background = False, opt_redirect = True, opt_bell = False,
     opt_stratum_keepalive = False, use_colors = True, use_syslog = False, want_stratum = True,
     have_stratum = False, opt_retries = -1, opt_fail_pause = 10, opt_scantime = 0, opt_timeout = 300,
     opt_n_threads = 0, opt_time_limit = 0, opt_priority = 0, opt_affinity = 0xFFFFFFFFFFFFFFFF,
     opt_diff_factor = 1, rpc_url = None, short_url = None, rpc_userpass = None, rpc_user = None,
     rpc_pass = None, opt_cert = None, opt_proxy = None, opt_proxy_type = CURLPROXY_HTTP, opt_worker = None,
     opt_data_file = None, opt_stealth_filename = None\<rparr>"

section \<open>The pool URL\<close>

text \<open>The program can stop with a status, or by undefined behaviour: a null pointer read, a
  write outside a buffer.\<close>

datatype stop = Exit int | Crash

text \<open>The part between \<open>*hp = 0\<close> and \<open>*hp++ = '@'\<close> for credentials in front of the last \<open>@\<close>.
  The password is overwritten by an \<open>x\<close> and what follows it moved up.  \<open>hp - p\<close> is the
  length of a \<open>memset\<close>: negative, it is a huge \<open>size_t\<close>.\<close>

definition url_credentials :: "build \<Rightarrow> nat \<Rightarrow> nat \<Rightarrow> bytes \<Rightarrow> opts \<Rightarrow> stop + (bytes \<times> nat \<times> opts)" where
  "url_credentials b ap hp mem st =
    (let mem = mem[hp := 0] in
     case strchr mem ap (CH CHR '':'') of
       Some p \<Rightarrow>
         let st = (if wallet_lock b then st\<lparr>rpc_pass := Some (str_at (p + 1) mem)\<rparr>
                   else st\<lparr>rpc_userpass := Some (str_at ap mem), rpc_user := Some (take (p - ap) (str_at ap mem)),
                          rpc_pass := Some (str_at (p + 1) mem)\<rparr>);
             p = p + 1;
             (mem, p) = (if mem ! p \<noteq> 0 then (mem[p := CH CHR ''x''], p + 1) else (mem, p));
             v = length (str_at (hp + 1) mem) + 1
         in if hp < p then Inl Crash
            else let mem = put_at (p + 1) (seg (hp + 1) v mem) mem;
                     mem = put_at (p + v) (replicate (hp - p) 0) mem
                 in Inr (mem, p, st)
     | None \<Rightarrow>
         Inr (mem, hp, if wallet_lock b then st else st\<lparr>rpc_user := Some (str_at ap mem)\<rparr>))"

definition url_protocols :: "cstring list" where
  "url_protocols = map cstr [''http://'', ''https://'', ''stratum+tcp://'', ''stratum+ssl://'', ''stratum+tcps://'']"

definition has_protocol :: "cstring \<Rightarrow> bool" where
  "has_protocol arg \<longleftrightarrow> (\<exists>pre \<in> set url_protocols. strncasecmp_eq arg pre (length pre))"

text \<open>The end of the case \<open>'o'\<close>, with \<open>hp\<close> at the host.\<close>

definition url_store :: "nat \<Rightarrow> bytes \<Rightarrow> nat \<Rightarrow> opts \<Rightarrow> stop + (opts \<times> bytes)" where
  "url_store ap mem hp st =
    (let arg = str_at 0 mem in
     if ap \<noteq> 0 \<and> \<not> has_protocol arg then Inl (Exit 1)
     else if ap = 0 \<and> (mem ! hp = 0 \<or> mem ! hp = CH CHR ''/'') then Inl (Exit 1)
     else
       let (u, k) = (if ap \<noteq> 0 then (take ap arg @ str_at hp mem, ap) else (cstr ''stratum+tcp://'' @ str_at hp mem, 14));
           st = st\<lparr>rpc_url := Some u, short_url := Some k\<rparr>
       in Inr (st\<lparr>have_stratum := \<not> opt_benchmark st \<and> strncasecmp_eq u (cstr ''stratum'') 7\<rparr>, butlast mem))"

text \<open>\<open>-o\<close>: the options and the argument as it is left in \<open>argv\<close>.\<close>

definition parse_url :: "build \<Rightarrow> cstring \<Rightarrow> opts \<Rightarrow> stop + (opts \<times> bytes)" where
  "parse_url b arg st =
    (if fixed_pool_url b \<noteq> [] then Inr (st, arg)
     else
       let mem = arg @ [0];
           ap = (case strstr_at arg (cstr ''://'') of Some i \<Rightarrow> i + 3 | None \<Rightarrow> 0)
       in case strrchr mem 0 (CH CHR ''@'') of
            Some hp \<Rightarrow>
              (case url_credentials b ap hp mem st of
                 Inl e \<Rightarrow> Inl e
               | Inr (mem, hp, st) \<Rightarrow> url_store ap (mem[hp := CH CHR ''@'']) (hp + 1) st)
          | None \<Rightarrow> url_store ap mem ap st)"

section \<open>What a pool URL means\<close>

text \<open>The parts of a pool URL, the text they are written as, the options they set, and the
  argument that is left in \<open>argv\<close>.\<close>

type_synonym credentials = "(cstring \<times> cstring option) option"

definition cred_text :: "credentials \<Rightarrow> cstring" where
  "cred_text cr = (case cr of None \<Rightarrow> [] | Some (user, None) \<Rightarrow> user @ [CH CHR ''@'']
     | Some (user, Some pass) \<Rightarrow> user @ [CH CHR '':''] @ pass @ [CH CHR ''@''])"

definition url_text :: "cstring \<Rightarrow> credentials \<Rightarrow> cstring \<Rightarrow> cstring" where
  "url_text pre cr host = pre @ cred_text cr @ host"

definition cred_opts :: "build \<Rightarrow> credentials \<Rightarrow> opts \<Rightarrow> opts" where
  "cred_opts b cr st = (case cr of None \<Rightarrow> st
     | Some (user, None) \<Rightarrow> if wallet_lock b then st else st\<lparr>rpc_user := Some user\<rparr>
     | Some (user, Some pass) \<Rightarrow> if wallet_lock b then st\<lparr>rpc_pass := Some pass\<rparr>
         else st\<lparr>rpc_userpass := Some (user @ [CH CHR '':''] @ pass), rpc_user := Some user, rpc_pass := Some pass\<rparr>)"

definition pool_opts :: "cstring \<Rightarrow> cstring \<Rightarrow> opts \<Rightarrow> opts" where
  "pool_opts pre host st =
    (let pre = (if pre = [] then cstr ''stratum+tcp://'' else pre)
     in st\<lparr>rpc_url := Some (pre @ host), short_url := Some (length pre),
          have_stratum := \<not> opt_benchmark st \<and> strncasecmp_eq pre (cstr ''stratum'') 7\<rparr>)"

definition hidden_text :: "cstring \<Rightarrow> credentials \<Rightarrow> cstring \<Rightarrow> bytes" where
  "hidden_text pre cr host = (case cr of
       Some (user, Some (c # pass)) \<Rightarrow>
         pre @ user @ [CH CHR '':'', CH CHR ''x'', CH CHR ''@''] @ host @ replicate (length pass) 0
     | _ \<Rightarrow> url_text pre cr host)"

definition url_parts_ok :: "cstring \<Rightarrow> credentials \<Rightarrow> cstring \<Rightarrow> bool" where
  "url_parts_ok pre cr host \<longleftrightarrow> 0 \<notin> set (url_text pre cr host) \<and> CH CHR ''@'' \<notin> set host
     \<and> (case cr of None \<Rightarrow> True | Some (user, _) \<Rightarrow> CH CHR '':'' \<notin> set user)
     \<and> (pre \<in> set url_protocols
        \<or> pre = [] \<and> strstr_at (url_text pre cr host) (cstr ''://'') = None \<and> host \<noteq> [] \<and> hd host \<noteq> CH CHR ''/'')"

text \<open>The credentials' part of the buffer, with a password of at least one character and without.\<close>

text \<open>Moving the host up over the password and filling with zeros.\<close>

lemma move_up:
  "put_at (length A + 1 + length host) (replicate (length ys) 0) (put_at (length A + 1) (host @ [0]) (A @ y # ys @ host @ [0]))
    = A @ y # host @ replicate (Suc (length ys)) (0 :: u8)"
proof -
  let ?m' = "put_at (length A + 1) (host @ [0]) (A @ y # ys @ host @ [0])"
  define t where "t = drop (Suc (length host)) (ys @ host @ [0])"
  have lt: "length t = length ys" by (simp add: t_def)
  have m': "?m' = A @ y # host @ 0 # t" by (simp add: put_at_def t_def)
  have z: "drop (length ys) (0 # t) = [0]"
  proof (cases "length ys")
    case (Suc n)
    have "t ! n = (ys @ host @ [0]) ! (Suc (length host) + n)" by (simp add: t_def nth_drop del: drop_append)
    also have "\<dots> = ((ys @ host) @ [0]) ! length (ys @ host)" using Suc by (simp add: add.commute)
    finally have "t ! n = 0" by (simp only: nth_append_length)
    then show ?thesis using Suc lt by (simp add: Cons_nth_drop_Suc [symmetric])
  qed (use lt in simp)
  have "put_at (length A + 1 + length host) (replicate (length ys) 0) ?m'
      = A @ y # host @ replicate (length ys) 0 @ drop (length ys) (0 # t)"
    unfolding m' by (simp add: put_at_def)
  then show ?thesis by (simp add: z replicate_append_same)
qed

lemma url_credentials_pass:
  assumes "0 \<notin> set (pre @ user @ pass @ host)" "58 \<notin> set user"
  defines "A \<equiv> pre @ user @ [58]"
  shows "\<exists>mem' p. url_credentials b (length pre) (length (A @ pass)) (A @ pass @ 64 # host @ [0]) st
      = Inr (mem', p, cred_opts b (Some (user, Some pass)) st)
    \<and> mem'[p := 64] = hidden_text pre (Some (user, Some pass)) host @ [0]
    \<and> p = length A + (if pass = [] then 0 else 1)"
proof -
  let ?m = "A @ pass @ 0 # host @ [0]" and ?p = "length pre + length user"
  have m: "(A @ pass @ 64 # host @ [0])[length (A @ pass) := 0] = ?m" by (simp add: list_update_append)
  have at: "str_at (length pre) ?m = user @ 58 # pass" "str_at (?p + 1) ?m = pass"
    using str_at_append [of "user @ 58 # pass" pre "length pre" "host @ [0]"] str_at_append [of pass A "?p + 1" "host @ [0]"] assms(1)
    by (auto simp: A_def)
  have colon: "strchr ?m (length pre) 58 = Some ?p"
    using assms(2) by (simp add: strchr_def at chr_pos_append)
  show ?thesis
  proof (cases pass)
    case Nil
    have host: "str_at (Suc (length A)) ?m = host"
      using str_at_append [of host "A @ [0]" "Suc (length A)" "[]"] assms(1) Nil by auto
    have same: "put_at (Suc (Suc ?p)) (seg (Suc (Suc ?p)) (Suc (length host)) ?m) ?m = ?m"
      by (simp add: put_at_def seg_def A_def Nil)
    have "?m ! (?p + 1) = 0" by (simp add: A_def Nil nth_append)
    then have "url_credentials b (length pre) (length (A @ pass)) (A @ pass @ 64 # host @ [0]) st
        = Inr (?m, length A, cred_opts b (Some (user, Some pass)) st)"
      using host same unfolding url_credentials_def Let_def m CH_nonzero colon option.case at
      by (simp add: A_def cred_opts_def Nil)
    then show ?thesis
      by (simp add: Nil A_def hidden_text_def url_text_def cred_text_def list_update_append)
  next
    case (Cons c rest)
    let ?n = "A @ 120 # rest @ 0 # host @ [0]"
    have c: "c \<noteq> 0" using assms(1) Cons by auto
    have n: "?m[?p + 1 := 120] = ?n" "?m ! (?p + 1) = c" "\<not> length (A @ pass) < ?p + 1 + 1"
      by (simp_all add: Cons A_def nth_append list_update_append)
    have host: "str_at (length (A @ pass) + 1) ?n = host"
      using str_at_append [of host "A @ 120 # rest @ [0]" "length (A @ pass) + 1" "[]"] assms(1) Cons by auto
    obtain y ys where yy: "rest @ [0] = y # ys" by (cases "rest @ [0]") auto
    have "length (rest @ [0]) = length (y # ys)" by (simp only: yy)
    note y = yy this [simplified, symmetric]
    have n': "?n = (A @ [120]) @ y # ys @ host @ [0]" using arg_cong [OF y(1), of "\<lambda>z. A @ 120 # z @ host @ [0]"] by simp
    have src: "seg (length (A @ pass) + 1) (length host + 1) ?n = host @ [0]" by (simp add: seg_def Cons)
    have "length (A @ pass) - (?p + 1 + 1) = length rest" by (simp add: Cons A_def)
    then have moved: "put_at (?p + 1 + 1 + (length host + 1)) (replicate (length (A @ pass) - (?p + 1 + 1)) 0)
        (put_at (?p + 1 + 1 + 1) (host @ [0]) ?n) = A @ 120 # y # host @ replicate (Suc (length rest)) 0"
      using move_up [of "A @ [120]" host ys y] y(2) unfolding n' by (simp add: A_def)
    have u: "take (?p - length pre) (user @ 58 # pass) = user" by simp
    have "url_credentials b (length pre) (length (A @ pass)) (A @ pass @ 64 # host @ [0]) st
        = Inr (A @ 120 # y # host @ replicate (Suc (length rest)) 0, ?p + 1 + 1, cred_opts b (Some (user, Some pass)) st)"
      unfolding url_credentials_def Let_def m CH_nonzero colon option.case at n u
      by (simp only: c not_False_eq_True if_True prod.case host src moved n(3) if_False cred_opts_def option.case CH_nonzero append_Cons append_Nil)
    then show ?thesis
      by (simp add: Cons hidden_text_def A_def list_update_append replicate_append_same)
  qed
qed

lemma url_credentials_user:
  assumes "0 \<notin> set (pre @ user @ host)" "58 \<notin> set user"
  shows "\<exists>mem' p. url_credentials b (length pre) (length (pre @ user)) (pre @ user @ 64 # host @ [0]) st
      = Inr (mem', p, cred_opts b (Some (user, None)) st)
    \<and> mem'[p := 64] = hidden_text pre (Some (user, None)) host @ [0] \<and> p = length (pre @ user)"
proof -
  have m: "(pre @ user @ 64 # host @ [0])[length (pre @ user) := 0] = pre @ user @ 0 # host @ [0]"
    by (simp add: list_update_append)
  have at: "str_at (length pre) (pre @ user @ 0 # host @ [0]) = user"
    using str_at_append [of user pre "length pre" "host @ [0]"] assms(1) by simp
  then have colon: "strchr (pre @ user @ 0 # host @ [0]) (length pre) 58 = None"
    using assms(2) by (simp add: strchr_def chr_pos_None)
  have "url_credentials b (length pre) (length (pre @ user)) (pre @ user @ 64 # host @ [0]) st
      = Inr (pre @ user @ 0 # host @ [0], length (pre @ user), cred_opts b (Some (user, None)) st)"
    unfolding url_credentials_def Let_def m CH_nonzero colon option.case at
    by (simp add: cred_opts_def)
  then show ?thesis
    by (simp add: hidden_text_def url_text_def cred_text_def list_update_append)
qed

lemma url_protocol_facts:
  assumes "pre \<in> set url_protocols"
  shows "strstr_at (pre @ x) (cstr ''://'') = Some (length pre - 3)" "7 \<le> length pre" "64 \<notin> set pre"
    "has_protocol (pre @ x)"
proof -
  show "strstr_at (pre @ x) (cstr ''://'') = Some (length pre - 3)" "7 \<le> length pre" "64 \<notin> set pre"
    using assms by (auto simp: url_protocols_def cstr_def)
  show "has_protocol (pre @ x)"
    using assms unfolding has_protocol_def by (intro bexI [of _ pre]) (simp_all add: strncasecmp_eq_def strcasecmp_eq_def)
qed

lemma url_store_pool:
  assumes "str_at 0 mem = pre @ x" "str_at hp mem = host"
    and "pre \<in> set url_protocols \<or> pre = [] \<and> mem ! hp \<noteq> 0 \<and> mem ! hp \<noteq> CH CHR ''/''"
  shows "url_store (length pre) mem hp st = Inr (pool_opts pre host st, butlast mem)"
  using assms(3)
proof
  assume pre: "pre \<in> set url_protocols"
  note f = url_protocol_facts [OF pre]
  have "take 7 (pre @ host) = take 7 pre" using f(2) by simp
  then show ?thesis
    using f assms(1,2) by (auto simp: url_store_def pool_opts_def Let_def strncasecmp_eq_def)
next
  assume "pre = [] \<and> mem ! hp \<noteq> 0 \<and> mem ! hp \<noteq> CH CHR ''/''"
  then show ?thesis
    using assms(1,2) by (simp add: url_store_def pool_opts_def Let_def strncasecmp_eq_def cstr_def)
qed

lemma str_at_zeros: "0 \<notin> set s \<Longrightarrow> length a = i \<Longrightarrow> str_at i (a @ s @ replicate n 0 @ [0]) = s"
  by (cases n) (simp_all add: str_at_append)

lemma hidden_text_host:
  assumes "0 \<notin> set (url_text pre cr host)"
  obtains a n where "hidden_text pre cr host = pre @ a @ host @ replicate n 0" "0 \<notin> set a"
    "length (pre @ a) = length pre + (case cr of None \<Rightarrow> 0 | Some (user, None) \<Rightarrow> length user + 1
       | Some (user, Some pass) \<Rightarrow> length user + (if pass = [] then 2 else 3))"
proof (cases cr)
  case None
  show thesis by (rule that [of "[]" 0]) (use None in \<open>simp_all add: hidden_text_def url_text_def cred_text_def\<close>)
next
  case (Some up)
  obtain user q where up: "up = (user, q)" by (cases up)
  show thesis
  proof (cases q)
    case None
    show thesis
      by (rule that [of "user @ [64]" 0]) (use Some up None assms in \<open>simp_all add: hidden_text_def url_text_def cred_text_def\<close>)
  next
    case P: (Some pass)
    show thesis
    proof (cases pass)
      case Nil
      show thesis
        by (rule that [of "user @ [58, 64]" 0]) (use Some up P Nil assms in \<open>simp_all add: hidden_text_def url_text_def cred_text_def\<close>)
    next
      case (Cons c rest)
      show thesis
        by (rule that [of "user @ [58, 120, 64]" "length rest"])
          (use Some up P Cons assms in \<open>simp_all add: hidden_text_def url_text_def cred_text_def\<close>)
    qed
  qed
qed

lemma parse_url_parts:
  assumes ok: "url_parts_ok pre cr host" and "fixed_pool_url b = []"
  shows "parse_url b (url_text pre cr host) st = Inr (pool_opts pre host (cred_opts b cr st), hidden_text pre cr host)"
proof -
  let ?T = "url_text pre cr host"
  have z: "0 \<notin> set ?T" "64 \<notin> set host" using ok by (simp_all add: url_parts_ok_def)
  have pre: "pre \<in> set url_protocols \<or> pre = [] \<and> host \<noteq> [] \<and> hd host \<noteq> 47"
    using ok by (auto simp: url_parts_ok_def)
  have ap: "(case strstr_at ?T (cstr ''://'') of Some i \<Rightarrow> i + 3 | None \<Rightarrow> 0) = length pre"
    using ok url_protocol_facts(1,2) [of pre] by (auto simp: url_parts_ok_def url_text_def)
  have T: "str_at 0 (?T @ [0]) = ?T" using str_at_append [of ?T "[]" 0 "[]"] z(1) by simp
  obtain a n where a: "hidden_text pre cr host = pre @ a @ host @ replicate n 0" "0 \<notin> set a"
    "length (pre @ a) = length pre + (case cr of None \<Rightarrow> 0 | Some (user, None) \<Rightarrow> length user + 1
       | Some (user, Some pass) \<Rightarrow> length user + (if pass = [] then 2 else 3))"
    using hidden_text_host [OF z(1)] by blast
  have host0: "0 \<notin> set (pre @ a @ host)" using z(1) a(2) by (simp add: url_text_def)
  let ?h = "hidden_text pre cr host @ [0]"
  have at: "str_at 0 ?h = pre @ a @ host" "str_at (length (pre @ a)) ?h = host"
    using str_at_zeros [of "pre @ a @ host" "[]" 0 n] str_at_zeros [of host "pre @ a" "length (pre @ a)" n] host0
    by (simp_all add: a(1))
  have hd: "?h ! length (pre @ a) = hd host" if "host \<noteq> []"
    using that by (simp add: a(1) nth_append hd_conv_nth)
  have "hd host \<noteq> 0" if "host \<noteq> []" using that host0 by (cases host) auto
  then have store: "url_store (length pre) ?h (length (pre @ a)) st' = Inr (pool_opts pre host st', hidden_text pre cr host)" for st'
    using url_store_pool [of ?h pre "a @ host" "length (pre @ a)" host st'] at pre hd by auto
  show ?thesis
  proof (cases cr)
    case None
    have "64 \<notin> set ?T" using z(2) pre url_protocol_facts(3) [of pre] None by (auto simp: url_text_def cred_text_def)
    then have no: "strrchr (?T @ [0]) 0 64 = None" by (simp add: strrchr_def T rchr_pos_None)
    have "?T = hidden_text pre cr host" "a = []" using None a(3) by (auto simp: hidden_text_def)
    then show ?thesis
      unfolding parse_url_def Let_def ap CH_nonzero no option.case
      using store [of st] assms(2) None by (simp add: cred_opts_def)
  next
    case (Some up)
    obtain user q where up: "up = (user, q)" by (cases up)
    have user: "58 \<notin> set user" using ok Some up by (simp add: url_parts_ok_def)
    let ?hp = "length (pre @ user) + (case q of None \<Rightarrow> 0 | Some pass \<Rightarrow> 1 + length pass)"
    have TT: "?T = (pre @ user @ (case q of None \<Rightarrow> [] | Some pass \<Rightarrow> 58 # pass)) @ 64 # host"
      using Some up by (auto simp: url_text_def cred_text_def split: option.splits)
    have at_pos: "strrchr (?T @ [0]) 0 64 = Some ?hp"
      unfolding strrchr_def T unfolding TT rchr_pos_append [OF z(2)] by (simp split: option.splits)
    have "\<exists>mem' p. url_credentials b (length pre) ?hp (?T @ [0]) st = Inr (mem', p, cred_opts b cr st)
        \<and> mem'[p := 64] = ?h \<and> p + 1 = length (pre @ a)"
    proof (cases q)
      case None
      show ?thesis
        using url_credentials_user [of pre user host b st] user z(1) a(3) by (simp add: Some up None url_text_def cred_text_def)
    next
      case P: (Some pass)
      show ?thesis
        using url_credentials_pass [of pre user pass host b st] user z(1) a(3) by (auto simp: Some up P url_text_def cred_text_def add.assoc)
    qed
    then obtain mem' p where c: "url_credentials b (length pre) ?hp (?T @ [0]) st = Inr (mem', p, cred_opts b cr st)"
      "mem'[p := 64] = ?h" "p + 1 = length (pre @ a)" by blast
    show ?thesis
      unfolding parse_url_def Let_def ap CH_nonzero at_pos option.case c(1) sum.case prod.case c(2,3) store using assms(2) by simp
  qed
qed

text \<open>An \<open>@\<close> in front of \<open>://\<close> and a colon behind it: the colon is taken for the one of
  \<open>user:password\<close>, and the \<open>memset\<close> runs backwards.\<close>

lemma chr_pos_member: "c \<in> set s \<Longrightarrow> \<exists>k. chr_pos c s = Some k"
  by (induction s) auto

lemma parse_url_misplaced_at:
  assumes arg: "arg = x @ CH CHR ''@'' # y" "CH CHR ''@'' \<notin> set y" "0 \<notin> set arg"
    and i: "strstr_at arg (cstr ''://'') = Some i" "length x < i" "CH CHR '':'' \<in> set (drop (i + 3) arg)"
    and "fixed_pool_url b = []"
  shows "parse_url b arg st = Inl Crash"
proof -
  let ?m = "x @ 0 # y @ [0]"
  have T: "str_at 0 (arg @ [0]) = arg" using str_at_append [of arg "[]" 0 "[]"] arg(3) by simp
  have hp: "strrchr (arg @ [0]) 0 64 = Some (length x)"
    unfolding strrchr_def T using arg(1,2) by (simp add: rchr_pos_append)
  have m: "(arg @ [0])[length x := 0] = ?m" by (simp add: arg(1))
  have "i + 3 < length arg" using i(3) by (metis drop_all empty_iff empty_set not_less)
  then have d: "drop (i + 3) ?m = drop (i + 3) arg @ [0]"
    using i(2) by (cases "i + 3 - length x") (simp_all add: arg(1) drop_append)
  have "0 \<notin> set (drop (i + 3) arg)" using arg(3) by (meson in_set_dropD)
  then have w: "str_at (i + 3) ?m = drop (i + 3) arg"
    unfolding str_at_def d using takeWhile_to_zero [of "drop (i + 3) arg" "[]"] by simp
  obtain k where k: "chr_pos 58 (drop (i + 3) arg) = Some k" using chr_pos_member i(3) by force
  have "strchr ?m (i + 3) 58 = Some (i + 3 + k)" by (simp add: strchr_def w k)
  then have "url_credentials b (i + 3) (length x) (arg @ [0]) st = Inl Crash"
    unfolding url_credentials_def Let_def m CH_nonzero using i(2) by (simp split: prod.split)
  then show ?thesis
    unfolding parse_url_def Let_def i(1) option.case CH_nonzero hp using assms(7) by simp
qed

section \<open>The table of options\<close>

text \<open>The labels of the switch; what \<open>getopt_long\<close> returns for anything else (also \<open>'?'\<close>) is
  \<open>Opt_other\<close>.\<close>

datatype opt_key =
    Opt_stealth_file | Opt_algo | Opt_background | Opt_config | Opt_quiet | Opt_debug | Opt_pass | Opt_protocol
  | Opt_retries | Opt_retry_pause | Opt_scantime | Opt_timeout | Opt_threads | Opt_user | Opt_url | Opt_userpass
  | Opt_proxy | Opt_cert | Opt_no_color | Opt_benchmark | Opt_cputest | Opt_time_limit | Opt_no_redirect | Opt_bell
  | Opt_diff_factor | Opt_diff_multiplier | Opt_worker | Opt_syslog | Opt_cpu_affinity | Opt_cpu_priority
  | Opt_data_file | Opt_keepalive | Opt_version | Opt_help | Opt_other int

definition options :: "build \<Rightarrow> (cstring \<times> bool \<times> opt_key) list" where
  "options b =
    (if LOG_ERRORS_ONLY b then [(cstr ''file'', True, Opt_stealth_file)] else []) @
    (if RELEASE_HARDENED b then
       [(cstr ''help'', False, Opt_help), (cstr ''url'', True, Opt_url), (cstr ''user'', True, Opt_user),
        (cstr ''pass'', True, Opt_pass), (cstr ''threads'', True, Opt_threads), (cstr ''tps'', True, Opt_other 1034),
        (cstr ''worker'', True, Opt_worker), (cstr ''cpu-affinity'', True, Opt_cpu_affinity),
        (cstr ''timeout'', True, Opt_timeout)]
     else
       [(cstr ''algo'', True, Opt_algo), (cstr ''debug'', False, Opt_debug), (cstr ''help'', False, Opt_help),
        (cstr ''version'', False, Opt_version), (cstr ''url'', True, Opt_url), (cstr ''user'', True, Opt_user),
        (cstr ''pass'', True, Opt_pass), (cstr ''threads'', True, Opt_threads), (cstr ''worker'', True, Opt_worker),
        (cstr ''benchmark'', True, Opt_benchmark), (cstr ''cpu-affinity'', True, Opt_cpu_affinity),
        (cstr ''time-limit'', True, Opt_time_limit)])"

text \<open>\<open>short_options\<close>: a letter and whether a colon follows it.\<close>

definition short_options :: "build \<Rightarrow> (char \<times> bool \<times> opt_key) list" where
  "short_options b =
    (if RELEASE_HARDENED b then
       [(CHR ''h'', True, Opt_help), (CHR ''o'', True, Opt_url), (CHR ''p'', True, Opt_pass),
        (CHR ''t'', True, Opt_threads), (CHR ''T'', True, Opt_timeout), (CHR ''u'', True, Opt_user)]
     else
       [(CHR ''a'', True, Opt_algo), (CHR ''D'', False, Opt_debug), (CHR ''h'', True, Opt_help),
        (CHR ''o'', True, Opt_url), (CHR ''p'', True, Opt_pass), (CHR ''t'', True, Opt_threads),
        (CHR ''u'', True, Opt_user), (CHR ''V'', False, Opt_version)])"

section \<open>One option\<close>

text \<open>The library: the rounding of a double, \<open>sprintf\<close> of a double, and the configuration a
  file or URL holds, when it can be read.\<close>

record cli_env =
  round_d :: "rat \<Rightarrow> rat"
  sprintf_f :: "rat \<Rightarrow> cstring"
  load_config :: "cstring \<Rightarrow> json option"

text \<open>The result of an option: the settings and the argument as it is left in \<open>argv\<close>.\<close>

type_synonym arg_result = "stop + (opts \<times> bytes option)"

text \<open>An option that reads its argument; reading a null pointer crashes.\<close>

definition with_arg :: "cstring option \<Rightarrow> (cstring \<Rightarrow> arg_result) \<Rightarrow> arg_result" where
  "with_arg arg f = (case arg of None \<Rightarrow> Inl Crash | Some a \<Rightarrow> f a)"

definition with_int :: "int \<Rightarrow> int \<Rightarrow> cstring option \<Rightarrow> (int \<Rightarrow> opts) \<Rightarrow> arg_result" where
  "with_int lo hi arg f =
    with_arg arg (\<lambda>a. let v = atoi a in if v < lo \<or> v > hi then Inl (Exit 1) else Inr (f v, arg))"

definition parse_algo :: "cstring \<Rightarrow> opts \<Rightarrow> arg_result" where
  "parse_algo a st = (case algo_of_arg (map (\<lambda>c. char_of (unat c)) a) of
     None \<Rightarrow> Inl (Exit 1) | Some v \<Rightarrow> Inr (st\<lparr>opt_algo := v\<rparr>, Some a))"

definition parse_userpass :: "build \<Rightarrow> cstring \<Rightarrow> opts \<Rightarrow> arg_result" where
  "parse_userpass b a st = (case chr_pos (CH CHR '':'') a of
     None \<Rightarrow> Inl (Exit 1)
   | Some p \<Rightarrow>
       let st = (if wallet_lock b then st\<lparr>rpc_pass := Some (drop (p + 1) a)\<rparr>
                 else st\<lparr>rpc_userpass := Some a, rpc_user := Some (take p a), rpc_pass := Some (drop (p + 1) a)\<rparr>)
       in Inr (st, Some (take (p + 1) a @ strhide (drop (p + 1) a))))"

definition proxy_type :: "cstring \<Rightarrow> curl_proxy" where
  "proxy_type a =
    (if strncasecmp_eq a (cstr ''socks4://'') 9 then CURLPROXY_SOCKS4
     else if strncasecmp_eq a (cstr ''socks5://'') 9 then CURLPROXY_SOCKS5
     else if strncasecmp_eq a (cstr ''socks4a://'') 10 then CURLPROXY_SOCKS4A
     else if strncasecmp_eq a (cstr ''socks5h://'') 10 then CURLPROXY_SOCKS5_HOSTNAME
     else CURLPROXY_HTTP)"

definition parse_affinity :: "cstring \<Rightarrow> u64" where
  "parse_affinity a = (case strstr_at a (cstr ''0x'') of
     Some i \<Rightarrow> strtoull_0x (drop i a) | None \<Rightarrow> word_of_int (strtol a))"

definition parse_worker :: "cstring option \<Rightarrow> opts \<Rightarrow> opts" where
  "parse_worker arg st =
    (let st = st\<lparr>opt_worker := None\<rparr>
     in case arg of Some (c # r) \<Rightarrow> st\<lparr>opt_worker := Some (c # r)\<rparr> | _ \<Rightarrow> st)"

definition parse_benchmark :: "build \<Rightarrow> cstring option \<Rightarrow> opts \<Rightarrow> arg_result" where
  "parse_benchmark b arg st =
    (if RELEASE_HARDENED b then Inl (Exit 1)
     else
       let st = st\<lparr>opt_benchmark := True, opt_algo := ALGO_CIVICLIGHT, want_stratum := False, have_stratum := False\<rparr>
       in case arg of
            None \<Rightarrow> Inl (Exit 1)
          | Some a \<Rightarrow> if atoi a \<le> 0 then Inl (Exit 1) else Inr (st\<lparr>opt_time_limit := atoi a\<rparr>, arg))"

text \<open>The switch.  \<open>config\<close> reads a configuration into the settings; it is given below.\<close>

definition parse_arg_switch :: "(json option \<Rightarrow> opts \<Rightarrow> stop + opts) \<Rightarrow> cli_env \<Rightarrow> build \<Rightarrow> opt_key \<Rightarrow> cstring option \<Rightarrow> opts \<Rightarrow> arg_result" where
  "parse_arg_switch config env b key arg st =
    (case key of
       Opt_stealth_file \<Rightarrow>
         if LOG_ERRORS_ONLY b then
           (case arg of Some (c # r) \<Rightarrow> Inr (st\<lparr>opt_stealth_filename := Some (c # r)\<rparr>, arg)
            | _ \<Rightarrow> Inr (st\<lparr>opt_stealth_filename := None\<rparr>, arg))
         else Inl (Exit 1)
     | Opt_algo \<Rightarrow> with_arg arg (\<lambda>a. parse_algo a st)
     | Opt_background \<Rightarrow> Inr (st\<lparr>opt_background := True, use_colors := False\<rparr>, arg)
     | Opt_config \<Rightarrow> with_arg arg (\<lambda>a.
         (case load_config env a of
            Some (JObject kvs) \<Rightarrow> (case config (Some (JObject kvs)) st of Inl e \<Rightarrow> Inl e | Inr st \<Rightarrow> Inr (st, arg))
          | _ \<Rightarrow> Inr (st, arg)))
     | Opt_quiet \<Rightarrow> Inr (st\<lparr>opt_quiet := \<not> (opt_debug st \<or> opt_protocol st)\<rparr>, arg)
     | Opt_debug \<Rightarrow> if RELEASE_HARDENED b then Inl (Exit 1) else Inr (st\<lparr>opt_debug := True, opt_quiet := False\<rparr>, arg)
     | Opt_pass \<Rightarrow> with_arg arg (\<lambda>a. Inr (st\<lparr>rpc_pass := Some a\<rparr>, Some (strhide a)))
     | Opt_protocol \<Rightarrow> Inr (st\<lparr>opt_protocol := True, opt_quiet := False\<rparr>, arg)
     | Opt_retries \<Rightarrow> with_int (-1) 9999 arg (\<lambda>v. st\<lparr>opt_retries := v\<rparr>)
     | Opt_retry_pause \<Rightarrow> with_int 1 9999 arg (\<lambda>v. st\<lparr>opt_fail_pause := v\<rparr>)
     | Opt_scantime \<Rightarrow> with_int 1 9999 arg (\<lambda>v. st\<lparr>opt_scantime := v\<rparr>)
     | Opt_timeout \<Rightarrow> with_int 1 99999 arg (\<lambda>v. st\<lparr>opt_timeout := v\<rparr>)
     | Opt_threads \<Rightarrow> with_int 0 9999 arg (\<lambda>v. st\<lparr>opt_n_threads := v\<rparr>)
     | Opt_user \<Rightarrow> if wallet_lock b then Inr (st, arg) else with_arg arg (\<lambda>a. Inr (st\<lparr>rpc_user := Some a\<rparr>, arg))
     | Opt_url \<Rightarrow> with_arg arg (\<lambda>a. (case parse_url b a st of Inl e \<Rightarrow> Inl e | Inr (st, m) \<Rightarrow> Inr (st, Some m)))
     | Opt_userpass \<Rightarrow> with_arg arg (\<lambda>a. parse_userpass b a st)
     | Opt_proxy \<Rightarrow> with_arg arg (\<lambda>a. Inr (st\<lparr>opt_proxy_type := proxy_type a, opt_proxy := Some a\<rparr>, arg))
     | Opt_cert \<Rightarrow> with_arg arg (\<lambda>a. Inr (st\<lparr>opt_cert := Some a\<rparr>, arg))
     | Opt_no_color \<Rightarrow> Inr (st\<lparr>use_colors := False\<rparr>, arg)
     | Opt_benchmark \<Rightarrow> parse_benchmark b arg st
     | Opt_cputest \<Rightarrow> Inl (Exit 0)
     | Opt_time_limit \<Rightarrow> with_arg arg (\<lambda>a. Inr (st\<lparr>opt_time_limit := atoi a\<rparr>, arg))
     | Opt_no_redirect \<Rightarrow> Inr (st\<lparr>opt_redirect := False\<rparr>, arg)
     | Opt_bell \<Rightarrow> Inr (st\<lparr>opt_bell := True\<rparr>, arg)
     | Opt_diff_factor \<Rightarrow> with_arg arg (\<lambda>a. let d = atof (round_d env) a in
         if d = 0 then Inl (Exit 1) else Inr (st\<lparr>opt_diff_factor := d\<rparr>, arg))
     | Opt_diff_multiplier \<Rightarrow> with_arg arg (\<lambda>a. let d = atof (round_d env) a in
         if d = 0 then Inl (Exit 1) else Inr (st\<lparr>opt_diff_factor := round_d env (1 / d)\<rparr>, arg))
     | Opt_worker \<Rightarrow> Inr (parse_worker arg st, arg)
     | Opt_syslog \<Rightarrow> if HAVE_SYSLOG_H b then Inr (st\<lparr>use_syslog := True, use_colors := False\<rparr>, arg) else Inl (Exit 1)
     | Opt_cpu_affinity \<Rightarrow> with_arg arg (\<lambda>a. Inr (st\<lparr>opt_affinity := parse_affinity a\<rparr>, arg))
     | Opt_cpu_priority \<Rightarrow> with_int 0 5 arg (\<lambda>v. st\<lparr>opt_priority := v\<rparr>)
     | Opt_data_file \<Rightarrow> with_arg arg (\<lambda>a. Inr (st\<lparr>opt_data_file := Some a\<rparr>, arg))
     | Opt_keepalive \<Rightarrow> Inr (st\<lparr>opt_stratum_keepalive := True\<rparr>, arg)
     | Opt_version \<Rightarrow> Inl (Exit 0)
     | Opt_help \<Rightarrow> Inl (Exit 0)
     | Opt_other n \<Rightarrow> Inl (Exit 1))"

section \<open>The configuration file and the command line\<close>

text \<open>One entry of the table looked up in the configuration.  The text of a number goes
  into a buffer of 16 characters.  An entry without an argument is called with the empty string.\<close>

definition config_entry :: "(opt_key \<Rightarrow> cstring option \<Rightarrow> opts \<Rightarrow> arg_result) \<Rightarrow> cli_env \<Rightarrow> json option \<Rightarrow>
    cstring \<times> bool \<times> opt_key \<Rightarrow> opts \<Rightarrow> stop + opts" where
  "config_entry p env config opt st = (case opt of (name, has_arg, key) \<Rightarrow>
    (let call = (\<lambda>s. case p key (Some s) st of Inl e \<Rightarrow> Inl e | Inr (st, _) \<Rightarrow> Inr st);
         val = json_object_get config name
     in case val of
          None \<Rightarrow> Inr st
        | Some (JString s) \<Rightarrow> if has_arg then call s else Inr st
        | Some (JInt i) \<Rightarrow> if has_arg then call (fmt_d (to_int32 i)) else Inr st
        | Some (JReal r) \<Rightarrow>
            if has_arg then (if 16 \<le> length (sprintf_f env r) then Inl Crash else call (sprintf_f env r)) else Inr st
        | Some v \<Rightarrow> if \<not> has_arg \<and> v = JTrue then call [] else Inr st))"

fun config_entries :: "(opt_key \<Rightarrow> cstring option \<Rightarrow> opts \<Rightarrow> arg_result) \<Rightarrow> cli_env \<Rightarrow> json option \<Rightarrow>
    (cstring \<times> bool \<times> opt_key) list \<Rightarrow> opts \<Rightarrow> stop + opts" where
  "config_entries p env config [] st = Inr st"
| "config_entries p env config (opt # opts) st =
    (case config_entry p env config opt st of Inl e \<Rightarrow> Inl e | Inr st \<Rightarrow> config_entries p env config opts st)"

text \<open>\<open>parse_config\<close> calls \<open>parse_arg\<close> for the entries of the table, and the table has no
  configuration file, so the calls do not nest.\<close>

definition parse_config :: "cli_env \<Rightarrow> build \<Rightarrow> json option \<Rightarrow> opts \<Rightarrow> stop + opts" where
  "parse_config env b config st =
    config_entries (parse_arg_switch (\<lambda>_ _. Inl Crash) env b) env config (options b) st"

definition parse_arg :: "cli_env \<Rightarrow> build \<Rightarrow> opt_key \<Rightarrow> cstring option \<Rightarrow> opts \<Rightarrow> arg_result" where
  "parse_arg env b = parse_arg_switch (parse_config env b) env b"

text \<open>The loop over what \<open>getopt_long\<close> returns, and the test for arguments that are left; the second
  component is what becomes of the arguments.\<close>

fun parse_events :: "cli_env \<Rightarrow> build \<Rightarrow> (opt_key \<times> cstring option) list \<Rightarrow> opts \<Rightarrow> stop + (opts \<times> bytes option list)" where
  "parse_events env b [] st = Inr (st, [])"
| "parse_events env b ((key, arg) # evs) st =
    (case parse_arg env b key arg st of
       Inl e \<Rightarrow> Inl e
     | Inr (st, a) \<Rightarrow>
         (case parse_events env b evs st of Inl e \<Rightarrow> Inl e | Inr (st, args) \<Rightarrow> Inr (st, a # args)))"

definition parse_cmdline :: "cli_env \<Rightarrow> build \<Rightarrow> (opt_key \<times> cstring option) list \<Rightarrow> bool \<Rightarrow> opts \<Rightarrow> stop + (opts \<times> bytes option list)" where
  "parse_cmdline env b evs left st =
    (case parse_events env b evs st of
       Inl e \<Rightarrow> Inl e
     | Inr (st, args) \<Rightarrow> if left then Inl (Exit 1) else Inr (st, args))"

text \<open>What \<open>getopt_long\<close> returns: the value of an entry of one of the tables, with an argument when
  the entry has one, or \<open>'?'\<close>.\<close>

definition getopt_event :: "build \<Rightarrow> opt_key \<times> cstring option \<Rightarrow> bool" where
  "getopt_event b ev \<longleftrightarrow> ev = (Opt_other 63, None)
     \<or> (\<exists>e \<in> set (options b). snd (snd e) = fst ev \<and> (fst (snd e) \<longleftrightarrow> snd ev \<noteq> None))
     \<or> (\<exists>e \<in> set (short_options b). snd (snd e) = fst ev \<and> (fst (snd e) \<longleftrightarrow> snd ev \<noteq> None))"

section \<open>What the options can become\<close>

text \<open>The settings the rest of the program relies on.\<close>

definition settings_ok :: "opts \<Rightarrow> bool" where
  "settings_ok st \<longleftrightarrow>
     -1 \<le> opt_retries st \<and> opt_retries st \<le> 9999
   \<and> 1 \<le> opt_fail_pause st \<and> opt_fail_pause st \<le> 9999
   \<and> 0 \<le> opt_scantime st \<and> opt_scantime st \<le> 9999
   \<and> 1 \<le> opt_timeout st \<and> opt_timeout st \<le> 99999
   \<and> 0 \<le> opt_n_threads st \<and> opt_n_threads st \<le> 9999
   \<and> 0 \<le> opt_priority st \<and> opt_priority st \<le> 5
   \<and> opt_algo st \<noteq> ALGO_COUNT
   \<and> (opt_quiet st \<longrightarrow> \<not> opt_debug st \<and> \<not> opt_protocol st)
   \<and> (rpc_url st = None \<longleftrightarrow> short_url st = None)
   \<and> (have_stratum st \<longrightarrow> \<not> opt_benchmark st \<and> (\<exists>u. rpc_url st = Some u \<and> strncasecmp_eq u (cstr ''stratum'') 7))"

lemma settings_ok_initial: "settings_ok opts_initial"
  by (simp add: settings_ok_def opts_initial_def)

text \<open>Settings on which nothing else depends.\<close>

lemma settings_frame [simp]:
  "settings_ok (st\<lparr>opt_background := x0\<rparr>) = settings_ok st"
  "settings_ok (st\<lparr>opt_redirect := x1\<rparr>) = settings_ok st"
  "settings_ok (st\<lparr>opt_bell := x2\<rparr>) = settings_ok st"
  "settings_ok (st\<lparr>opt_stratum_keepalive := x3\<rparr>) = settings_ok st"
  "settings_ok (st\<lparr>use_colors := x4\<rparr>) = settings_ok st"
  "settings_ok (st\<lparr>use_syslog := x5\<rparr>) = settings_ok st"
  "settings_ok (st\<lparr>want_stratum := x6\<rparr>) = settings_ok st"
  "settings_ok (st\<lparr>opt_time_limit := x7\<rparr>) = settings_ok st"
  "settings_ok (st\<lparr>opt_affinity := x8\<rparr>) = settings_ok st"
  "settings_ok (st\<lparr>opt_diff_factor := x9\<rparr>) = settings_ok st"
  "settings_ok (st\<lparr>rpc_userpass := x10\<rparr>) = settings_ok st"
  "settings_ok (st\<lparr>rpc_user := x11\<rparr>) = settings_ok st"
  "settings_ok (st\<lparr>rpc_pass := x12\<rparr>) = settings_ok st"
  "settings_ok (st\<lparr>opt_cert := x13\<rparr>) = settings_ok st"
  "settings_ok (st\<lparr>opt_proxy := x14\<rparr>) = settings_ok st"
  "settings_ok (st\<lparr>opt_proxy_type := x15\<rparr>) = settings_ok st"
  "settings_ok (st\<lparr>opt_worker := x16\<rparr>) = settings_ok st"
  "settings_ok (st\<lparr>opt_data_file := x17\<rparr>) = settings_ok st"
  "settings_ok (st\<lparr>opt_stealth_filename := x18\<rparr>) = settings_ok st"
  by (simp_all add: settings_ok_def)

lemma settings_ok_ints:
  assumes "settings_ok st"
  shows "-1 \<le> v \<Longrightarrow> v \<le> 9999 \<Longrightarrow> settings_ok (st\<lparr>opt_retries := v\<rparr>)"
    "1 \<le> v \<Longrightarrow> v \<le> 9999 \<Longrightarrow> settings_ok (st\<lparr>opt_fail_pause := v\<rparr>)"
    "1 \<le> v \<Longrightarrow> v \<le> 9999 \<Longrightarrow> settings_ok (st\<lparr>opt_scantime := v\<rparr>)"
    "1 \<le> v \<Longrightarrow> v \<le> 99999 \<Longrightarrow> settings_ok (st\<lparr>opt_timeout := v\<rparr>)"
    "0 \<le> v \<Longrightarrow> v \<le> 9999 \<Longrightarrow> settings_ok (st\<lparr>opt_n_threads := v\<rparr>)"
    "0 \<le> v \<Longrightarrow> v \<le> 5 \<Longrightarrow> settings_ok (st\<lparr>opt_priority := v\<rparr>)"
  using assms by (simp_all add: settings_ok_def)

lemma settings_ok_flags:
  assumes "settings_ok st"
  shows "settings_ok (st\<lparr>opt_quiet := \<not> (opt_debug st \<or> opt_protocol st)\<rparr>)"
    "settings_ok (st\<lparr>opt_debug := True, opt_quiet := False\<rparr>)"
    "settings_ok (st\<lparr>opt_protocol := True, opt_quiet := False\<rparr>)"
    "a \<noteq> ALGO_COUNT \<Longrightarrow> settings_ok (st\<lparr>opt_algo := a\<rparr>)"
    "settings_ok (st\<lparr>opt_benchmark := True, opt_algo := ALGO_CIVICLIGHT, want_stratum := False, have_stratum := False\<rparr>)"
  using assms by (simp_all add: settings_ok_def)

lemma url_credentials_ok: "url_credentials b ap hp m st = Inr (m', p, st') \<Longrightarrow> settings_ok st \<longrightarrow> settings_ok st'"
  by (auto simp: url_credentials_def Let_def split: option.splits if_splits prod.splits)

lemma settings_ok_pool:
  "settings_ok st \<Longrightarrow> settings_ok (st\<lparr>rpc_url := Some u, short_url := Some k,
     have_stratum := \<not> opt_benchmark st \<and> strncasecmp_eq u (cstr ''stratum'') 7\<rparr>)"
  by (simp add: settings_ok_def)

lemma url_store_ok: "url_store ap m hp st = Inr (st', m') \<Longrightarrow> settings_ok st \<longrightarrow> settings_ok st'"
proof -
  assume "url_store ap m hp st = Inr (st', m')"
  then have "\<exists>u k. st' = st\<lparr>rpc_url := Some u, short_url := Some k,
     have_stratum := \<not> opt_benchmark st \<and> strncasecmp_eq u (cstr ''stratum'') 7\<rparr>"
    by (cases "ap = 0") (simp_all add: url_store_def Let_def split: if_splits, metis+)
  then show ?thesis using settings_ok_pool by blast
qed

lemma parse_url_ok:
  assumes "parse_url b arg st = Inr (st', m)" "settings_ok st"
  shows "settings_ok st'"
  using assms
  by (auto simp: parse_url_def Let_def split: option.splits sum.splits if_splits dest!: url_store_ok url_credentials_ok)

lemma with_int_ok:
  assumes "with_int lo hi arg f = Inr (st', a)" "\<And>v. lo \<le> v \<Longrightarrow> v \<le> hi \<Longrightarrow> settings_ok (f v)"
  shows "settings_ok st'"
  using assms by (auto simp: with_int_def with_arg_def Let_def split: option.splits if_splits)

lemma with_arg_ok:
  assumes "with_arg arg f = Inr (st', a)" "\<And>x. arg = Some x \<Longrightarrow> f x = Inr (st', a) \<Longrightarrow> settings_ok st'"
  shows "settings_ok st'"
  using assms by (auto simp: with_arg_def split: option.splits)

lemma switch_ok:
  assumes config: "\<And>j s s'. config j s = Inr s' \<Longrightarrow> settings_ok s \<Longrightarrow> settings_ok s'"
    and run: "parse_arg_switch config env b key arg st = Inr (st', a)" and ok: "settings_ok st"
  shows "settings_ok st'"
proof -
  note [simp] = parse_arg_switch_def
  note ints = settings_ok_ints [OF ok] and flags = settings_ok_flags [OF ok]
  show ?thesis
  proof (cases key)
    case Opt_url
    then show ?thesis using run ok by (auto elim!: with_arg_ok split: sum.splits dest: parse_url_ok)
  next
    case Opt_config
    then show ?thesis using run ok
      by (auto elim!: with_arg_ok split: option.splits sum.splits json.splits dest: config)
  next
    case Opt_algo
    then show ?thesis using run ok flags
      by (auto elim!: with_arg_ok simp: parse_algo_def algo_of_arg_def Let_def split: option.splits if_splits)
  next
    case Opt_userpass
    then show ?thesis using run ok
      by (auto elim!: with_arg_ok simp: parse_userpass_def Let_def split: option.splits)
  next
    case Opt_benchmark
    then show ?thesis using run flags
      by (auto simp: parse_benchmark_def Let_def split: option.splits if_splits)
  next
    case Opt_worker
    then show ?thesis using run ok
      by (auto simp: parse_worker_def Let_def split: option.splits list.splits)
  qed (use run ok ints flags in \<open>auto elim!: with_int_ok with_arg_ok simp: Let_def split: option.splits if_splits list.splits\<close>)
qed

text \<open>What the switch keeps, the configuration file and the command line keep.\<close>

definition option_keeps :: "(opts \<Rightarrow> bool) \<Rightarrow> (opt_key \<Rightarrow> cstring option \<Rightarrow> opts \<Rightarrow> arg_result) \<Rightarrow> bool" where
  "option_keeps P p \<longleftrightarrow> (\<forall>key arg s s' a. p key arg s = Inr (s', a) \<longrightarrow> P s \<longrightarrow> P s')"

definition switch_keeps :: "(opts \<Rightarrow> bool) \<Rightarrow> cli_env \<Rightarrow> build \<Rightarrow> bool" where
  "switch_keeps P env b \<longleftrightarrow> (\<forall>config. (\<forall>j s s'. config j s = Inr s' \<longrightarrow> P s \<longrightarrow> P s') \<longrightarrow> option_keeps P (parse_arg_switch config env b))"

lemma option_keepsD: "p key arg s = Inr (s', a) \<Longrightarrow> option_keeps P p \<Longrightarrow> P s \<Longrightarrow> P s'"
  unfolding option_keeps_def by blast

lemma config_entries_keep:
  assumes p: "option_keeps P p"
  shows "config_entries p env config opts st = Inr st' \<Longrightarrow> P st \<Longrightarrow> P st'"
proof (induction opts arbitrary: st)
  case (Cons opt opts)
  obtain s where s: "config_entry p env config opt st = Inr s" "config_entries p env config opts s = Inr st'"
    using Cons.prems(1) by (auto split: sum.splits)
  then have "P s"
    using Cons.prems(2) p
    by (auto simp: config_entry_def Let_def split: prod.splits option.splits json.splits if_splits sum.splits dest: option_keepsD)
  then show ?case using Cons.IH s(2) by blast
qed simp

lemma parse_arg_keep:
  assumes "switch_keeps P env b"
  shows "option_keeps P (parse_arg env b)"
proof -
  have "option_keeps P (parse_arg_switch (\<lambda>_ _. Inl Crash) env b)" using assms by (simp add: switch_keeps_def)
  then have "\<forall>j s s'. parse_config env b j s = Inr s' \<longrightarrow> P s \<longrightarrow> P s'"
    unfolding parse_config_def using config_entries_keep by blast
  then show ?thesis using assms by (simp add: switch_keeps_def parse_arg_def)
qed

lemma parse_events_keep:
  assumes "switch_keeps P env b"
  shows "parse_events env b evs st = Inr (st', args) \<Longrightarrow> P st \<Longrightarrow> P st'"
proof (induction evs arbitrary: st args)
  case (Cons ev evs)
  then obtain key arg s a args' where s: "parse_arg env b key arg st = Inr (s, a)" "parse_events env b evs s = Inr (st', args')"
    by (cases ev) (auto split: sum.splits)
  have "P s" using parse_arg_keep [OF assms] s(1) Cons.prems(2) unfolding option_keeps_def by blast
  then show ?case using Cons.IH s(2) by blast
qed simp

lemma parse_events_ok:
  assumes "parse_events env b evs st = Inr (st', args)" "settings_ok st"
  shows "settings_ok st'"
proof -
  have "switch_keeps settings_ok env b"
    unfolding switch_keeps_def option_keeps_def using switch_ok [of _ env b] by (intro allI impI) blast
  then show ?thesis using parse_events_keep assms by blast
qed

section \<open>What the command line cannot change\<close>

text \<open>The settings behind the options that the help text of the default build lists and its
  tables do not have: \<open>--retries\<close>, \<open>--retry-pause\<close>, \<open>--timeout\<close>, \<open>--scantime\<close>, \<open>--diff-factor\<close>,
  \<open>--diff-multiplier\<close>, \<open>--no-redirect\<close>, \<open>--no-color\<close>, \<open>--protocol-dump\<close>, \<open>--syslog\<close>, \<open>--background\<close>,
  \<open>--cpu-priority\<close>, \<open>--data-file\<close>, \<open>--stratum-keepalive\<close>, \<open>--cert\<close>, \<open>--proxy\<close>.\<close>

definition unreachable_settings :: "opts \<Rightarrow> (int \<times> int \<times> int \<times> int \<times> int \<times> rat) \<times> (bool \<times> bool \<times> bool \<times> bool \<times> bool \<times> bool)
    \<times> (cstring option \<times> cstring option \<times> curl_proxy \<times> cstring option)" where
  "unreachable_settings st =
    ((opt_retries st, opt_fail_pause st, opt_timeout st, opt_scantime st, opt_priority st, opt_diff_factor st),
     (opt_redirect st, use_colors st, opt_protocol st, use_syslog st, opt_background st, opt_stratum_keepalive st),
     (opt_data_file st, opt_proxy st, opt_proxy_type st, opt_cert st))"

lemma unreachable_frame [simp]:
  "unreachable_settings (st\<lparr>opt_algo := x0\<rparr>) = unreachable_settings st"
  "unreachable_settings (st\<lparr>opt_debug := x1\<rparr>) = unreachable_settings st"
  "unreachable_settings (st\<lparr>opt_quiet := x2\<rparr>) = unreachable_settings st"
  "unreachable_settings (st\<lparr>opt_benchmark := x3\<rparr>) = unreachable_settings st"
  "unreachable_settings (st\<lparr>want_stratum := x4\<rparr>) = unreachable_settings st"
  "unreachable_settings (st\<lparr>have_stratum := x5\<rparr>) = unreachable_settings st"
  "unreachable_settings (st\<lparr>opt_n_threads := x6\<rparr>) = unreachable_settings st"
  "unreachable_settings (st\<lparr>opt_time_limit := x7\<rparr>) = unreachable_settings st"
  "unreachable_settings (st\<lparr>opt_affinity := x8\<rparr>) = unreachable_settings st"
  "unreachable_settings (st\<lparr>rpc_url := x9\<rparr>) = unreachable_settings st"
  "unreachable_settings (st\<lparr>short_url := x10\<rparr>) = unreachable_settings st"
  "unreachable_settings (st\<lparr>rpc_userpass := x11\<rparr>) = unreachable_settings st"
  "unreachable_settings (st\<lparr>rpc_user := x12\<rparr>) = unreachable_settings st"
  "unreachable_settings (st\<lparr>rpc_pass := x13\<rparr>) = unreachable_settings st"
  "unreachable_settings (st\<lparr>opt_worker := x14\<rparr>) = unreachable_settings st"
  by (simp_all add: unreachable_settings_def)

lemma url_unreachable:
  assumes "parse_url b arg st = Inr (st', m)"
  shows "unreachable_settings st' = unreachable_settings st \<and> opt_quiet st' = opt_quiet st"
proof -
  have c: "unreachable_settings s' = unreachable_settings s \<and> opt_quiet s' = opt_quiet s"
    if "url_credentials b ap hp m s = Inr (m', p, s')" for ap hp m s m' p s'
    using that by (auto simp: url_credentials_def Let_def split: option.splits if_splits prod.splits)
  have s: "unreachable_settings s' = unreachable_settings s \<and> opt_quiet s' = opt_quiet s"
    if "url_store ap m hp s = Inr (s', m')" for ap hp m s m' s'
    using that by (cases "ap = 0") (auto simp: url_store_def Let_def split: if_splits)
  show ?thesis
    using assms by (auto simp: parse_url_def Let_def split: option.splits sum.splits if_splits dest!: c s)
qed

definition reachable_keys :: "opt_key set" where
  "reachable_keys = {Opt_other 63, Opt_algo, Opt_debug, Opt_help, Opt_version, Opt_url, Opt_user, Opt_pass, Opt_threads,
     Opt_worker, Opt_benchmark, Opt_cpu_affinity, Opt_time_limit}"

lemma getopt_keys:
  assumes "getopt_event b (key, arg)" "\<not> RELEASE_HARDENED b" "\<not> LOG_ERRORS_ONLY b"
  shows "key \<in> reachable_keys"
  using assms by (auto simp: getopt_event_def options_def short_options_def reachable_keys_def)

lemma reachable_effect:
  assumes "key \<in> reachable_keys" "parse_arg env b key arg st = Inr (s, a)"
  shows "unreachable_settings s = unreachable_settings st \<and> (opt_quiet s \<longrightarrow> opt_quiet st)"
proof -
  note [simp] = parse_arg_def parse_arg_switch_def with_arg_def
  consider "key = Opt_url" | "key = Opt_worker" | "key = Opt_algo" | "key = Opt_benchmark" | "key = Opt_threads"
    | "key \<in> {Opt_other 63, Opt_help, Opt_version}" | "key \<in> {Opt_debug, Opt_user, Opt_pass, Opt_cpu_affinity, Opt_time_limit}"
    using assms(1) unfolding reachable_keys_def by blast
  then show ?thesis
  proof cases
    case 1
    then show ?thesis using assms(2) by (auto split: option.splits sum.splits dest!: url_unreachable)
  next
    case 2
    then show ?thesis using assms(2) by (auto simp: parse_worker_def Let_def split: option.splits list.splits)
  next
    case 3
    then show ?thesis using assms(2) by (auto simp: parse_algo_def split: option.splits)
  next
    case 4
    then show ?thesis using assms(2) by (auto simp: parse_benchmark_def Let_def split: option.splits if_splits)
  next
    case 5
    then show ?thesis using assms(2) by (auto simp: with_int_def Let_def split: option.splits if_splits)
  qed (use assms(2) in \<open>auto split: option.splits if_splits\<close>)
qed

lemma parse_events_unreachable:
  assumes "\<not> RELEASE_HARDENED b" "\<not> LOG_ERRORS_ONLY b"
  shows "\<forall>ev \<in> set evs. getopt_event b ev \<Longrightarrow> parse_events env b evs st = Inr (st', args) \<Longrightarrow>
    unreachable_settings st' = unreachable_settings st \<and> (opt_quiet st' \<longrightarrow> opt_quiet st)"
proof (induction evs arbitrary: st args)
  case (Cons ev evs)
  obtain key arg where ev: "ev = (key, arg)" by (cases ev)
  obtain s a args' where s: "parse_arg env b key arg st = Inr (s, a)" "parse_events env b evs s = Inr (st', args')"
    using Cons.prems(2) by (auto simp: ev split: sum.splits)
  have "key \<in> reachable_keys" using Cons.prems(1) getopt_keys assms by (auto simp: ev)
  then show ?case using reachable_effect [OF _ s(1)] Cons.IH [OF _ s(2)] Cons.prems(1) by simp
qed simp

section \<open>Properties\<close>

text \<open>The build without any of the macros.\<close>

definition default_build :: build where
  "default_build = \<lparr>RELEASE_HARDENED = False, LOG_ERRORS_ONLY = False, HAVE_SYSLOG_H = True, wallet_lock = False,
     wallet_seed = None, fixed_pool_url = [], DEFAULT_POOL_URL = None\<rparr>"

text \<open>A library whose floating-point calls are not used.\<close>

definition plain_env :: cli_env where
  "plain_env = \<lparr>round_d = \<lambda>r. r, sprintf_f = \<lambda>r. [], load_config = \<lambda>s. None\<rparr>"

text \<open>C13: a pool URL is read as the parts it is written from.  For every protocol (or none, which means
  \<open>stratum+tcp\<close>) and host, and for no credentials, a user, or a user and a password, \<open>-o\<close> stores the URL
  without the credentials, the user and the password, and whether the URL is a stratum one; a
  password is replaced by an \<open>x\<close> in the argument that other processes can see.  The password may contain
  any characters, also \<open>:\<close> and \<open>@\<close>.\<close>

theorem pool_url_parsed:
  assumes "url_parts_ok pre cr host" "fixed_pool_url b = []"
  shows "parse_arg env b Opt_url (Some (url_text pre cr host)) st
    = Inr (pool_opts pre host (cred_opts b cr st), Some (hidden_text pre cr host))"
  by (simp add: parse_arg_def parse_arg_switch_def with_arg_def parse_url_parts [OF assms])

theorem pool_url_parsed_witness:
  "\<exists>st'. parse_arg plain_env default_build Opt_url (Some (cstr ''stratum+tcp://me:s@c:ret@pool:3333'')) opts_initial
      = Inr (st', Some (cstr ''stratum+tcp://me:x@pool:3333'' @ [0, 0, 0, 0, 0, 0]))
    \<and> rpc_url st' = Some (cstr ''stratum+tcp://pool:3333'') \<and> rpc_user st' = Some (cstr ''me'')
    \<and> rpc_pass st' = Some (cstr ''s@c:ret'') \<and> have_stratum st'"
proof -
  have ok: "url_parts_ok (cstr ''stratum+tcp://'') (Some (cstr ''me'', Some (cstr ''s@c:ret''))) (cstr ''pool:3333'')"
    by (simp add: url_parts_ok_def url_text_def cred_text_def url_protocols_def cstr_def)
  show ?thesis
    using pool_url_parsed [OF ok, of default_build plain_env opts_initial]
    by (simp add: default_build_def url_text_def cred_text_def hidden_text_def cred_opts_def pool_opts_def opts_initial_def Let_def
        cstr_def strncasecmp_eq_def strcasecmp_eq_def)
qed

text \<open>C14: whatever the command line and a configuration file contain, the options the program starts with are
  well formed: retries, pauses, times, threads and priority are in their ranges, a URL is set exactly when its
  short form is, quiet excludes debug and protocol output, and stratum is used only with a
  stratum URL and outside the benchmark.\<close>

theorem options_well_formed:
  assumes "settings_ok st" "parse_cmdline env b evs left st = Inr (st', args)"
  shows "settings_ok st'"
  using assms by (auto simp: parse_cmdline_def split: sum.splits if_splits intro: parse_events_ok)

theorem options_well_formed_witness:
  "\<exists>st' args. parse_cmdline plain_env default_build [(Opt_threads, Some (cstr ''8'')), (Opt_debug, None)] False opts_initial = Inr (st', args)
    \<and> settings_ok st' \<and> opt_n_threads st' = 8"
proof -
  have "\<exists>st' args. parse_cmdline plain_env default_build [(Opt_threads, Some (cstr ''8'')), (Opt_debug, None)] False opts_initial
      = Inr (st', args) \<and> opt_n_threads st' = 8"
    by (simp add: parse_cmdline_def parse_arg_def parse_arg_switch_def with_int_def with_arg_def atoi_def strtol_def take_sign_def digits_value_def to_int32_def
        is_space_def is_digit_def cstr_def default_build_def opts_initial_def)
  then show ?thesis using options_well_formed [OF settings_ok_initial] by blast
qed

text \<open>The help text of the default build offers retries, pauses, timeouts, difficulty factors, proxies,
  certificates, colours, redirects, a data file, the keepalive and more, and \<open>parse_arg\<close> implements
  them, but the tables given to \<open>getopt_long\<close> lack them.  A command line that does not end the program
  leaves all these settings as they were, and can never switch quiet on.\<close>

theorem documented_options_have_no_effect:
  assumes "\<not> RELEASE_HARDENED b" "\<not> LOG_ERRORS_ONLY b" "\<forall>ev \<in> set evs. getopt_event b ev"
    and "parse_cmdline env b evs left st = Inr (st', args)"
  shows "unreachable_settings st' = unreachable_settings st \<and> (opt_quiet st' \<longrightarrow> opt_quiet st)"
  using assms parse_events_unreachable [OF assms(1-3)] by (auto simp: parse_cmdline_def split: sum.splits if_splits)

theorem documented_options_have_no_effect_witness:
  "\<exists>st' args. parse_cmdline plain_env default_build [(Opt_threads, Some (cstr ''4'')), (Opt_debug, None)] False opts_initial = Inr (st', args)
    \<and> opt_debug st' \<and> unreachable_settings st' = unreachable_settings opts_initial"
proof -
  have run: "\<exists>st' args. parse_cmdline plain_env default_build [(Opt_threads, Some (cstr ''4'')), (Opt_debug, None)] False opts_initial
      = Inr (st', args) \<and> opt_debug st'"
    by (simp add: parse_cmdline_def parse_arg_def parse_arg_switch_def with_int_def with_arg_def atoi_def strtol_def take_sign_def digits_value_def to_int32_def
        is_space_def is_digit_def cstr_def default_build_def opts_initial_def)
  have ev: "\<forall>ev \<in> set [(Opt_threads, Some (cstr ''4'')), (Opt_debug, None)]. getopt_event default_build ev"
    by (simp add: getopt_event_def default_build_def options_def short_options_def)
  have b: "\<not> RELEASE_HARDENED default_build" "\<not> LOG_ERRORS_ONLY default_build" by (simp_all add: default_build_def)
  show ?thesis using run documented_options_have_no_effect [OF b ev] by blast
qed

text \<open>An \<open>@\<close> in front of the protocol, as in \<open>user@stratum+tcp://host:3333\<close>, crashes the
  program: the colon of the port is taken for the one between user and password although it is behind
  the \<open>@\<close>, and the length of the \<open>memset\<close> that should hide the password is negative.\<close>

theorem misplaced_at_crashes:
  assumes "arg = x @ CH CHR ''@'' # y" "CH CHR ''@'' \<notin> set y" "0 \<notin> set arg"
    and "strstr_at arg (cstr ''://'') = Some i" "length x < i" "CH CHR '':'' \<in> set (drop (i + 3) arg)"
    and "fixed_pool_url b = []"
  shows "parse_arg env b Opt_url (Some arg) st = Inl Crash"
  using parse_url_misplaced_at [OF assms] by (simp add: parse_arg_def parse_arg_switch_def with_arg_def)

theorem misplaced_at_crashes_witness:
  "parse_arg plain_env default_build Opt_url (Some (cstr ''user@stratum+tcp://host:3333'')) opts_initial = Inl Crash"
  by (rule misplaced_at_crashes [where x = "cstr ''user''" and y = "cstr ''stratum+tcp://host:3333''" and i = 16])
    (simp_all add: cstr_def default_build_def)

end
