(* ===== verification/Soj_Start.thy ===== *)
theory Soj_Start
  imports Soj_Options Soj_Queue
begin

text \<open>The start of the program, from \<open>soj_bootstrap.c\<close> and \<open>soj.c\<close>: the constants of a release,
  \<open>soj_bootstrap\<close>, and \<open>soj_main\<close> up to the point where it waits for the workio thread.  The macros of
  the build are a record, and so are the answers of the system: allocations, the clock, the number of processors,
  the created threads.  Log messages and signal handlers are left out.\<close>

section \<open>The constants of a release\<close>

text \<open>\<open>ENCODED_WALLET\<close> and \<open>ENCODED_POOL\<close>: the bytes and the key.\<close>

datatype platform = Linux | Windows | Other_os

record release =
  macros :: build
  HARDCODED_WALLET :: "cstring option"
  HARDCODED_WALLET_LOCK :: bool
  ENCODED_WALLET :: "(bytes \<times> u8) option"
  ENCODED_POOL :: "(bytes \<times> u8) option"
  FIXED_POOL_URL :: cstring
  LOCK_CONFIG :: bool
  TIMEBOMB_EXPIRY :: "int option"
  target_os :: platform

definition decode_release_constant :: "bytes \<Rightarrow> bytes \<Rightarrow> u8 \<Rightarrow> bytes" where
  "decode_release_constant dst src key =
    (if dst = [] then dst
     else let src_len = (if length dst \<le> length src then length dst - 1 else length src)
          in put_at 0 (map (\<lambda>c. c XOR key) (take src_len src) @ [0]) dst)"

record constants =
  fixed_pool :: bytes
  fixed_wallet :: bytes
  fixed_constants_ready :: bool

definition constants_zero :: constants where
  "constants_zero = \<lparr>fixed_pool = replicate 256 0, fixed_wallet = replicate 128 0, fixed_constants_ready = False\<rparr>"

definition init_encoded_release_constants :: "release \<Rightarrow> constants \<Rightarrow> constants" where
  "init_encoded_release_constants r c =
    (if fixed_constants_ready c then c
     else
       let c = (case ENCODED_POOL r of None \<Rightarrow> c
                | Some (src, key) \<Rightarrow> c\<lparr>fixed_pool := decode_release_constant (fixed_pool c) src key\<rparr>);
           c = (case ENCODED_WALLET r of None \<Rightarrow> c
                | Some (src, key) \<Rightarrow> c\<lparr>fixed_wallet := decode_release_constant (fixed_wallet c) src key\<rparr>)
       in c\<lparr>fixed_constants_ready := True\<rparr>)"

definition encoded :: "release \<Rightarrow> bool" where
  "encoded r \<longleftrightarrow> ENCODED_WALLET r \<noteq> None \<or> ENCODED_POOL r \<noteq> None"

definition get_fixed_wallet_seed :: "release \<Rightarrow> cstring" where
  "get_fixed_wallet_seed r =
    (if encoded r then str_at 0 (fixed_wallet (init_encoded_release_constants r constants_zero))
     else case HARDCODED_WALLET r of Some w \<Rightarrow> w | None \<Rightarrow> [])"

text \<open>The macros with the constants as the rest of the code reads them.\<close>

definition build_of :: "release \<Rightarrow> build" where
  "build_of r = (macros r)\<lparr>
     wallet_lock := HARDCODED_WALLET r \<noteq> None \<or> ENCODED_WALLET r \<noteq> None \<or> HARDCODED_WALLET_LOCK r,
     wallet_seed := (if HARDCODED_WALLET r \<noteq> None \<or> ENCODED_WALLET r \<noteq> None
                     then Some (get_fixed_wallet_seed r) else None),
     fixed_pool_url := (if encoded r then str_at 0 (fixed_pool (init_encoded_release_constants r constants_zero))
                        else FIXED_POOL_URL r)\<rparr>"

section \<open>What the system answers\<close>

text \<open>The allocations the code does, by what they are for.  \<open>h_queue\<close>: the list head that \<open>tq_new\<close>
  allocates for a thread; \<open>h_entry\<close>: the entry for the URL; \<open>h_heap\<close>: the memory they come from;
  \<open>h_create\<close>: whether the thread could be created; \<open>h_affinity\<close>: the answer of
  \<open>sched_getaffinity\<close>.\<close>

datatype alloc = A_user | A_pass | A_pool | A_worker | A_default_pool | A_combo | A_seed | A_userpass
  | A_affinity_map | A_work_restart | A_thr_info | A_thr_hashrates | A_url_copy

record host =
  h_alloc :: "alloc \<Rightarrow> bool"
  h_time :: int
  h_nprocs :: int
  h_hostname :: "cstring option"
  h_cpu_capable :: bool
  h_curl_ok :: bool
  h_fork :: int
  h_affinity :: "nat list option"
  h_queue :: "nat \<Rightarrow> nat option"
  h_entry :: "nat option"
  h_heap :: "cstring heap"
  h_create :: "nat \<Rightarrow> bool"

definition strdup_opt :: "bool \<Rightarrow> cstring \<Rightarrow> cstring option" where
  "strdup_opt ok s = (if ok then Some s else None)"

text \<open>A pointer that is not null and not to an empty string.\<close>

definition nonempty :: "cstring option \<Rightarrow> cstring option" where
  "nonempty s = (case s of Some (c # t) \<Rightarrow> s | _ \<Rightarrow> None)"

text \<open>One step of the start after the other, until one ends the program.\<close>

definition and_then :: "stop + 'a \<Rightarrow> ('a \<Rightarrow> stop + 'b) \<Rightarrow> stop + 'b" where
  "and_then r f = (case r of Inl e \<Rightarrow> Inl e | Inr x \<Rightarrow> f x)"

definition exit_unless :: "bool \<Rightarrow> stop + unit" where
  "exit_unless ok = (if ok then Inr () else Inl (Exit 1))"

text \<open>A release can have an expiry.\<close>

definition not_expired :: "release \<Rightarrow> host \<Rightarrow> bool" where
  "not_expired r h \<longleftrightarrow> (case TIMEBOMB_EXPIRY r of None \<Rightarrow> True | Some expiry \<Rightarrow> h_time h \<le> expiry)"

section \<open>Bootstrap\<close>

definition is_stratum_url :: "cstring \<Rightarrow> bool" where
  "is_stratum_url u \<longleftrightarrow> strncasecmp_eq u (cstr ''stratum'') 7"

definition enforce_fixed_pool_url :: "host \<Rightarrow> build \<Rightarrow> opts \<Rightarrow> opts" where
  "enforce_fixed_pool_url h b st =
    (let u = fixed_pool_url b in
     if u = [] then st
     else if h_alloc h A_pool then
       st\<lparr>rpc_url := Some u,
          short_url := Some (case strstr_at u (cstr ''://'') of Some i \<Rightarrow> i + 3 | None \<Rightarrow> 0),
          have_stratum := \<not> opt_benchmark st \<and> is_stratum_url u\<rparr>
     else st\<lparr>rpc_url := None, short_url := None, have_stratum := False\<rparr>)"

definition file_tag :: "build \<Rightarrow> opts \<Rightarrow> cstring option" where
  "file_tag b st = nonempty (if LOG_ERRORS_ONLY b then opt_stealth_filename st else opt_data_file st)"

definition default_worker :: "host \<Rightarrow> build \<Rightarrow> opts \<Rightarrow> opts" where
  "default_worker h b st =
    (if nonempty (opt_worker st) = None then
       (case file_tag b st of
          Some t \<Rightarrow> st\<lparr>opt_worker := strdup_opt (h_alloc h A_worker) t\<rparr>
        | None \<Rightarrow> (case h_hostname h of
            Some s \<Rightarrow> st\<lparr>opt_worker := strdup_opt (h_alloc h A_worker) (take 127 s)\<rparr>
          | None \<Rightarrow> st))
     else st)"

definition bootstrap_opts :: "host \<Rightarrow> build \<Rightarrow> int \<Rightarrow> opts" where
  "bootstrap_opts h b num_cpus = opts_initial\<lparr>
     rpc_user := strdup_opt (h_alloc h A_user) (case wallet_seed b of Some w \<Rightarrow> w | None \<Rightarrow> []),
     rpc_pass := strdup_opt (h_alloc h A_pass) [],
     opt_n_threads := num_cpus, opt_algo := ALGO_CIVICLIGHT\<rparr>"

text \<open>The options and \<open>num_cpus\<close>.\<close>

definition soj_bootstrap :: "cli_env \<Rightarrow> release \<Rightarrow> host \<Rightarrow> (opt_key \<times> cstring option) list \<Rightarrow> bool \<Rightarrow> stop + (opts \<times> int)" where
  "soj_bootstrap env r h evs left =
    (let b = build_of r;
         num_cpus = (if h_nprocs h < 1 then 1 else h_nprocs h)
     in and_then (parse_cmdline env b evs left (bootstrap_opts h b num_cpus))
          (\<lambda>(st, _). let st = default_worker h b (enforce_fixed_pool_url h b st)
             in and_then (exit_unless (opt_algo st \<noteq> ALGO_NULL)) (\<lambda>_. Inr (st, num_cpus))))"

section \<open>The restrictions of hardened builds\<close>

definition restricted :: "release \<Rightarrow> bool" where
  "restricted r \<longleftrightarrow> LOCK_CONFIG r \<or> wallet_lock (build_of r)"

text \<open>When the copy fails, \<open>strncasecmp\<close> reads a null pointer, unless the benchmark makes it unread.\<close>

definition force_default_pool :: "host \<Rightarrow> build \<Rightarrow> opts \<Rightarrow> stop + opts" where
  "force_default_pool h b st =
    (case DEFAULT_POOL_URL b of
       None \<Rightarrow> Inr st
     | Some d \<Rightarrow>
         if fixed_pool_url b \<noteq> [] then Inr st
         else if h_alloc h A_default_pool then
           Inr (st\<lparr>rpc_url := Some d, short_url := Some 0, have_stratum := \<not> opt_benchmark st \<and> is_stratum_url d\<rparr>)
         else if opt_benchmark st then Inr (st\<lparr>rpc_url := None, short_url := None, have_stratum := False\<rparr>)
         else Inl Crash)"

definition compose_user :: "host \<Rightarrow> build \<Rightarrow> opts \<Rightarrow> opts" where
  "compose_user h b st =
    (case wallet_seed b of
       None \<Rightarrow> st
     | Some w \<Rightarrow>
         (case nonempty (opt_worker st) of
            Some s \<Rightarrow> if h_alloc h A_combo then st\<lparr>rpc_user := Some (w @ CH CHR ''.'' # s)\<rparr> else st
          | None \<Rightarrow> st\<lparr>rpc_user := strdup_opt (h_alloc h A_seed) w\<rparr>))"

definition apply_restrictions :: "release \<Rightarrow> host \<Rightarrow> opts \<Rightarrow> stop + opts" where
  "apply_restrictions r h st =
    (if restricted r then
       and_then (force_default_pool h (build_of r) (st\<lparr>opt_algo := ALGO_CIVICLIGHT\<rparr>))
         (\<lambda>st. Inr (compose_user h (build_of r) st))
     else Inr st)"

text \<open>In a restricted build the test for \<open>rpc_user\<close> has lost its statement and guards this one.\<close>

definition default_scantime :: "release \<Rightarrow> opts \<Rightarrow> opts" where
  "default_scantime r st =
    (if (restricted r \<longrightarrow> rpc_user st \<noteq> None) \<and> opt_scantime st = 0
     then st\<lparr>opt_scantime := (if have_stratum st then 30 else 5)\<rparr> else st)"

section \<open>Checks\<close>

text \<open>\<open>time_limit_stop\<close> is an unsigned int.\<close>

definition time_limit_end :: "host \<Rightarrow> opts \<Rightarrow> u32" where
  "time_limit_end h st = (if opt_time_limit st \<noteq> 0 then word_of_int (h_time h) + word_of_int (opt_time_limit st) else 0)"

definition pool_usable :: "opts \<Rightarrow> bool" where
  "pool_usable st \<longleftrightarrow> opt_benchmark st \<or> short_url st \<noteq> None \<and> have_stratum st"

definition set_userpass :: "host \<Rightarrow> opts \<Rightarrow> stop + opts" where
  "set_userpass h st =
    (case rpc_userpass st of
       Some _ \<Rightarrow> Inr st
     | None \<Rightarrow>
         (case (rpc_user st, rpc_pass st) of
            (Some u, Some p) \<Rightarrow>
              if h_alloc h A_userpass then Inr (st\<lparr>rpc_userpass := Some (u @ CH CHR '':'' # p)\<rparr>) else Inl (Exit 1)
          | _ \<Rightarrow> Inl Crash))"

text \<open>Whether \<open>CURL_GLOBAL_SSL\<close> stays in the flags.\<close>

definition curl_ssl :: "opts \<Rightarrow> stop + bool" where
  "curl_ssl st =
    (if opt_benchmark st then Inr True
     else case rpc_url st of
       None \<Rightarrow> Inl Crash
     | Some u \<Rightarrow> Inr (strncasecmp_eq u (cstr ''https:'') 6 \<or> strncasecmp_eq u (cstr ''stratum+ssl://'') 14
         \<or> strncasecmp_eq u (cstr ''stratum+tcps://'') 15))"

text \<open>The parent of the background process exits.\<close>

definition go_background :: "release \<Rightarrow> host \<Rightarrow> opts \<Rightarrow> stop + opts" where
  "go_background r h st =
    (if \<not> opt_background st then Inr st
     else if target_os r = Windows then Inr (st\<lparr>opt_background := False\<rparr>)
     else if h_fork h < 0 then Inl (Exit 1)
     else if h_fork h > 0 then Inl (Exit 0) else Inr st)"

section \<open>Processors\<close>

definition CPU_SETSIZE :: nat where "CPU_SETSIZE = 1024"

definition in_mask :: "u64 \<Rightarrow> nat \<Rightarrow> bool" where
  "in_mask m i \<longleftrightarrow> m = 0xFFFFFFFFFFFFFFFF \<or> i < 64 \<and> bit m i"

definition process_cpus :: "host \<Rightarrow> int \<Rightarrow> nat list" where
  "process_cpus h num_cpus = (case h_affinity h of Some cpus \<Rightarrow> cpus | None \<Rightarrow> [0..<min (nat num_cpus) CPU_SETSIZE])"

definition allowed_list :: "nat list \<Rightarrow> u64 \<Rightarrow> nat list" where
  "allowed_list cpus m = filter (\<lambda>i. i \<in> set cpus \<and> in_mask m i) [0..<CPU_SETSIZE]"

text \<open>Without Linux: the first processor from \<open>cpu\<close> on whose bit is set, modulo 64, for a mask that is
  not empty, with 64 steps as fuel.\<close>

fun next_cpu :: "nat \<Rightarrow> u64 \<Rightarrow> nat \<Rightarrow> nat" where
  "next_cpu 0 m cpu = cpu"
| "next_cpu (Suc k) m cpu = (if bit m (cpu mod 64) then cpu else next_cpu k m (Suc cpu))"

fun rolling_map :: "nat \<Rightarrow> u64 \<Rightarrow> nat \<Rightarrow> nat \<Rightarrow> nat list" where
  "rolling_map 0 m n cpu = []"
| "rolling_map (Suc k) m n cpu = (let c = next_cpu 64 m cpu in c mod n # rolling_map k m n (Suc c))"

definition map_size :: "int \<Rightarrow> opts \<Rightarrow> nat" where
  "map_size num_cpus st = nat (if opt_n_threads st < num_cpus then num_cpus else opt_n_threads st)"

text \<open>The options and \<open>thread_affinity_map\<close>, when it is filled.\<close>

definition set_affinity_map :: "release \<Rightarrow> host \<Rightarrow> int \<Rightarrow> opts \<Rightarrow> opts \<times> nat list option" where
  "set_affinity_map r h num_cpus st =
    (let st = (if h_alloc h A_affinity_map then st else st\<lparr>opt_affinity := 0\<rparr>);
         size = map_size num_cpus st
     in if opt_affinity st = 0 then (st, None)
        else if target_os r = Linux then
          (let allowed = allowed_list (process_cpus h num_cpus) (opt_affinity st)
           in if allowed = [] then (st\<lparr>opt_affinity := 0\<rparr>, None)
              else (st, Some (map (\<lambda>thr. allowed ! (thr mod length allowed)) [0..<size])))
        else (st, Some (rolling_map size (opt_affinity st) (nat num_cpus) 0)))"

text \<open>The processor a mining thread pins itself to, in \<open>main_entry_thread\<close>.\<close>

definition pinned_cpu :: "release \<Rightarrow> int \<Rightarrow> opts \<Rightarrow> nat list option \<Rightarrow> nat \<Rightarrow> nat option" where
  "pinned_cpu r num_cpus st cpu_map thr_id =
    (if target_os r = Linux \<and> opt_affinity st \<noteq> 0 \<and> 1 < num_cpus
     then map_option (\<lambda>m. m ! thr_id) cpu_map else None)"

section \<open>Threads\<close>

datatype thread_entry = Workio_thread | Stratum_thread | Main_entry_thread

record thread =
  t_id :: nat
  t_q :: "cstring thread_q option"
  t_entry :: "thread_entry option"

definition no_thread :: thread where
  "no_thread = \<lparr>t_id = 0, t_q = None, t_entry = None\<rparr>"

text \<open>A thread with a fresh queue, filled by \<open>fill\<close> before the thread starts.\<close>

definition start_thread :: "host \<Rightarrow> thread_entry \<Rightarrow> nat \<Rightarrow> (cstring thread_q \<Rightarrow> stop + cstring thread_q) \<Rightarrow> thread list \<Rightarrow> stop + thread list" where
  "start_thread h entry i fill thr_info =
    (case tq_new (h_queue h i) (h_heap h) of
       None \<Rightarrow> Inl (Exit 1)
     | Some tq \<Rightarrow>
         and_then (fill tq) (\<lambda>tq.
           if h_create h i then Inr (thr_info[i := \<lparr>t_id = i, t_q = Some tq, t_entry = Some entry\<rparr>]) else Inl (Exit 1)))"

definition push_url :: "host \<Rightarrow> cstring option \<Rightarrow> cstring thread_q \<Rightarrow> stop + cstring thread_q" where
  "push_url h target tq =
    (case target of
       None \<Rightarrow> Inl Crash
     | Some u \<Rightarrow> if h_alloc h A_url_copy then Inr (snd (tq_push (h_entry h) u tq)) else Inl (Exit 1))"

fun start_miners :: "host \<Rightarrow> nat list \<Rightarrow> thread list \<Rightarrow> stop + thread list" where
  "start_miners h [] thr_info = Inr thr_info"
| "start_miners h (i # is) thr_info =
    and_then (start_thread h Main_entry_thread i Inr thr_info) (start_miners h is)"

section \<open>The program\<close>

record started =
  s_opts :: opts
  s_num_cpus :: int
  s_time_limit :: u32
  s_gate :: algo_gate_t
  s_curl_ssl :: bool
  s_cpu_map :: "nat list option"
  s_work_thr_id :: nat
  s_stratum_thr_id :: "nat option"
  s_thr_info :: "thread list"
  s_stratum_stats :: bool
  s_statistics :: bool

text \<open>Up to the creation of the threads.\<close>

definition configure :: "cli_env \<Rightarrow> release \<Rightarrow> host \<Rightarrow> (opt_key \<times> cstring option) list \<Rightarrow> bool \<Rightarrow> stop + started" where
  "configure env r h evs left =
    and_then (exit_unless (not_expired r h)) (\<lambda>_.
    and_then (soj_bootstrap env r h evs left) (\<lambda>(st, num_cpus).
    and_then (apply_restrictions r h st) (\<lambda>st.
    let st = default_scantime r st;
        limit = time_limit_end h st;
        (registered, gate) = register_algo_gate (opt_algo st) (Some zero_gate) in
    and_then (exit_unless (registered \<and> h_cpu_capable h)) (\<lambda>_.
    and_then (exit_unless (pool_usable st)) (\<lambda>_.
    and_then (set_userpass h st) (\<lambda>st.
    and_then (curl_ssl st) (\<lambda>ssl.
    and_then (exit_unless (h_curl_ok h)) (\<lambda>_.
    and_then (go_background r h st) (\<lambda>st.
    let (st, cpu_map) = set_affinity_map r h num_cpus st in
    Inr \<lparr>s_opts = st, s_num_cpus = num_cpus, s_time_limit = limit,
      s_gate = the gate, s_curl_ssl = ssl, s_cpu_map = cpu_map,
      s_work_thr_id = 0, s_stratum_thr_id = None, s_thr_info = [], s_stratum_stats = False, s_statistics = False\<rparr>)))))))))"

text \<open>The threads; what \<open>tq_push\<close> returns is not looked at.\<close>

definition launch :: "host \<Rightarrow> started \<Rightarrow> stop + started" where
  "launch h s =
    (let st = s_opts s; n = nat (opt_n_threads st) in
     and_then (exit_unless (h_alloc h A_work_restart \<and> h_alloc h A_thr_info \<and> h_alloc h A_thr_hashrates)) (\<lambda>_.
     and_then (start_thread h Workio_thread n Inr (replicate (n + 4) no_thread)) (\<lambda>thr_info.
     let stratum_stats = (case (rpc_pass st, rpc_user st) of
           (Some p, Some u) \<Rightarrow> strstr_at p (cstr ''stats'') \<noteq> None \<or> u = cstr ''benchmark'' | _ \<Rightarrow> False) in
     and_then (if have_stratum st then start_thread h Stratum_thread (n + 2) (push_url h (rpc_url st)) thr_info
               else Inr thr_info) (\<lambda>thr_info.
     and_then (start_miners h [0..<n] thr_info) (\<lambda>thr_info.
     Inr (s\<lparr>s_work_thr_id := n, s_stratum_thr_id := (if have_stratum st then Some (n + 2) else None),
        s_thr_info := thr_info, s_stratum_stats := stratum_stats,
        s_statistics := opt_algo st = ALGO_CIVICLIGHT \<and> \<not> opt_benchmark st\<rparr>))))))"

definition soj_main :: "cli_env \<Rightarrow> release \<Rightarrow> host \<Rightarrow> (opt_key \<times> cstring option) list \<Rightarrow> bool \<Rightarrow> stop + started" where
  "soj_main env r h evs left = and_then (configure env r h evs left) (launch h)"

section \<open>The constants come back\<close>

lemma decode_encoded:
  assumes "0 \<notin> set s" "length s < n"
  shows "str_at 0 (decode_release_constant (replicate n 0) (map (\<lambda>c. c XOR key) s) key) = s"
proof -
  have x: "map (\<lambda>c. c XOR key) (map (\<lambda>c. c XOR key) s) = s" by (simp add: comp_def xor.assoc)
  have "decode_release_constant (replicate n 0) (map (\<lambda>c. c XOR key) s) key
      = s @ 0 # drop (Suc (length s)) (replicate n 0)"
    using assms(2) x by (auto simp: decode_release_constant_def put_at_def)
  then show ?thesis using str_at_append [of s "[]" 0] assms(1) by simp
qed

section \<open>What a started program is\<close>

lemma and_then_Inr [simp]: "and_then r f = Inr y \<longleftrightarrow> (\<exists>x. r = Inr x \<and> f x = Inr y)"
  by (auto simp: and_then_def split: sum.splits)

lemma exit_unless_Inr [simp]: "exit_unless ok = Inr u \<longleftrightarrow> ok"
  by (simp add: exit_unless_def)

text \<open>The command line cannot change the user of a build with a wallet.\<close>

definition account :: "opts \<Rightarrow> cstring option \<times> cstring option" where
  "account st = (rpc_user st, rpc_userpass st)"

lemma url_account:
  assumes "parse_url b arg st = Inr (st', m)" "wallet_lock b"
  shows "account st' = account st"
proof -
  have c: "account s' = account s" if "url_credentials b ap hp m s = Inr (m', p, s')" for ap hp m s m' p s'
    using that assms(2) by (auto simp: account_def url_credentials_def Let_def split: option.splits if_splits prod.splits)
  have s: "account s' = account s" if "url_store ap m hp s = Inr (s', m')" for ap hp m s m' s'
    using that by (cases "ap = 0") (auto simp: account_def url_store_def Let_def split: if_splits)
  show ?thesis
    using assms(1) by (auto simp: parse_url_def Let_def split: option.splits sum.splits if_splits dest!: c s)
qed

lemma switch_account:
  assumes config: "\<And>j s s'. config j s = Inr s' \<Longrightarrow> account s = u \<Longrightarrow> account s' = u"
    and run: "parse_arg_switch config env b key arg st = Inr (st', a)" and lock: "wallet_lock b" and u: "account st = u"
  shows "account st' = u"
proof -
  note [simp] = parse_arg_switch_def with_int_def with_arg_def Let_def
  show ?thesis
  proof (cases key)
    case Opt_url
    then show ?thesis using run lock u by (auto split: sum.splits option.splits dest: url_account)
  next
    case Opt_config
    then show ?thesis using run u config by (auto split: option.splits sum.splits json.splits)
  next
    case Opt_algo
    then show ?thesis using run u by (auto simp: account_def parse_algo_def split: option.splits)
  next
    case Opt_userpass
    then show ?thesis using run lock u by (auto simp: account_def parse_userpass_def split: option.splits)
  next
    case Opt_benchmark
    then show ?thesis using run u by (auto simp: account_def parse_benchmark_def split: option.splits if_splits)
  next
    case Opt_worker
    then show ?thesis using run u by (auto simp: account_def parse_worker_def split: option.splits list.splits)
  qed (use run u lock in \<open>auto simp: account_def split: option.splits if_splits list.splits\<close>)
qed

lemma parse_cmdline_account:
  assumes "parse_cmdline env b evs left st = Inr (st', args)" "wallet_lock b"
  shows "account st' = account st"
proof -
  have "parse_events env b evs st = Inr (st', args)"
    using assms(1) by (auto simp: parse_cmdline_def split: sum.splits if_splits)
  moreover have "switch_keeps (\<lambda>s. account s = account st) env b"
    unfolding switch_keeps_def option_keeps_def using switch_account [of _ "account st" env b] assms(2) by (intro allI impI) blast
  ultimately show ?thesis using parse_events_keep by blast
qed

lemma parse_cmdline_ok:
  "parse_cmdline env b evs left st = Inr (st', args) \<Longrightarrow> settings_ok st \<Longrightarrow> settings_ok st'"
  by (auto simp: parse_cmdline_def split: sum.splits if_splits intro: parse_events_ok)

lemma wallet_locks: "wallet_seed (build_of r) = Some w \<Longrightarrow> wallet_lock (build_of r)"
  by (auto simp: build_of_def split: if_splits)

text \<open>The stages between bootstrap and the threads change few fields.\<close>

lemma set_userpass_frame: "set_userpass h st = Inr st' \<Longrightarrow> \<exists>x. st' = st\<lparr>rpc_userpass := x\<rparr>"
  by (auto simp: set_userpass_def split: option.splits if_splits intro: exI [of _ "rpc_userpass st"])

lemma go_background_frame: "go_background r h st = Inr st' \<Longrightarrow> \<exists>x. st' = st\<lparr>opt_background := x\<rparr>"
  by (auto simp: go_background_def split: if_splits intro: exI [of _ "opt_background st"])

lemma default_scantime_frame: "\<exists>x. default_scantime r st = st\<lparr>opt_scantime := x\<rparr>"
  by (auto simp: default_scantime_def intro: exI [of _ "opt_scantime st"])

lemma set_affinity_frame: "set_affinity_map r h n st = (st', m) \<Longrightarrow> \<exists>x. st' = st\<lparr>opt_affinity := x\<rparr>"
  by (auto simp: set_affinity_map_def Let_def split: if_splits intro: exI [of _ "opt_affinity st"])

definition configured :: "release \<Rightarrow> host \<Rightarrow> opts \<Rightarrow> started \<Rightarrow> bool" where
  "configured r h st s \<longleftrightarrow>
     (\<exists>sc up bg af. s_opts s = st\<lparr>opt_scantime := sc, rpc_userpass := up, opt_background := bg, opt_affinity := af\<rparr>)
   \<and> (\<exists>st0. opt_n_threads st0 = opt_n_threads st \<and> set_affinity_map r h (s_num_cpus s) st0 = (s_opts s, s_cpu_map s))
   \<and> (rpc_userpass st = None \<longrightarrow> rpc_user st \<noteq> None) \<and> pool_usable st \<and> (opt_benchmark st \<or> rpc_url st \<noteq> None)
   \<and> opt_algo st = ALGO_CIVICLIGHT \<and> civiclight_gate (s_gate s)"

lemma configure_stages:
  assumes "configure env r h evs left = Inr s"
  shows "\<exists>st0 st. soj_bootstrap env r h evs left = Inr (st0, s_num_cpus s) \<and> apply_restrictions r h st0 = Inr st \<and> configured r h st s"
proof -
  obtain st0 n st where st: "soj_bootstrap env r h evs left = Inr (st0, n)" "apply_restrictions r h st0 = Inr st"
    "fst (register_algo_gate (opt_algo (default_scantime r st)) (Some zero_gate))" "pool_usable (default_scantime r st)"
    and rest: "\<exists>su ssl sb. set_userpass h (default_scantime r st) = Inr su \<and> curl_ssl su = Inr ssl \<and> go_background r h su = Inr sb
      \<and> set_affinity_map r h n sb = (s_opts s, s_cpu_map s) \<and> s_num_cpus s = n
      \<and> s_gate s = the (snd (register_algo_gate (opt_algo (default_scantime r st)) (Some zero_gate)))"
    using assms unfolding configure_def Let_def case_prod_beta and_then_Inr exit_unless_Inr by fastforce
  obtain sc where sc: "default_scantime r st = st\<lparr>opt_scantime := sc\<rparr>" using default_scantime_frame by blast
  obtain su sb ssl where u: "set_userpass h (st\<lparr>opt_scantime := sc\<rparr>) = Inr su" "go_background r h su = Inr sb"
    "set_affinity_map r h n sb = (s_opts s, s_cpu_map s)" "s_num_cpus s = n"
    "s_gate s = the (snd (register_algo_gate (opt_algo st) (Some zero_gate)))" "curl_ssl su = Inr ssl"
    using rest by (auto simp: sc)
  obtain up bg af where f: "su = st\<lparr>opt_scantime := sc, rpc_userpass := up\<rparr>" "sb = su\<lparr>opt_background := bg\<rparr>"
    "s_opts s = sb\<lparr>opt_affinity := af\<rparr>"
    using set_userpass_frame [OF u(1)] go_background_frame [OF u(2)] set_affinity_frame [OF u(3)] by metis
  have algo: "opt_algo st = ALGO_CIVICLIGHT"
    using st(3) by (cases "opt_algo st") (auto simp: sc register_algo_gate_def Let_def)
  have user: "rpc_userpass st = None \<longrightarrow> rpc_user st \<noteq> None"
    using u(1) by (auto simp: set_userpass_def split: option.splits)
  have "configured r h st s"
    unfolding configured_def
  proof (intro conjI)
    show "\<exists>sc up bg af. s_opts s = st\<lparr>opt_scantime := sc, rpc_userpass := up, opt_background := bg, opt_affinity := af\<rparr>"
      using f by auto
    show "\<exists>st0. opt_n_threads st0 = opt_n_threads st \<and> set_affinity_map r h (s_num_cpus s) st0 = (s_opts s, s_cpu_map s)"
      using u(3,4) f by (intro exI [of _ sb]) simp
    show "opt_benchmark st \<or> rpc_url st \<noteq> None" using u(6) f(1) by (auto simp: curl_ssl_def split: if_splits option.splits)
  qed (use u(5) algo user st(4) algo_gate_civiclight in \<open>simp_all add: sc pool_usable_def\<close>)
  then show ?thesis using st(1,2) u(4) by blast
qed

section \<open>The threads\<close>

text \<open>Memory from \<open>calloc\<close> is new and not at address zero.\<close>

definition host_ok :: "host \<Rightarrow> bool" where
  "host_ok h \<longleftrightarrow> (\<forall>i. h_queue h i \<noteq> Some 0)
     \<and> (\<exists>e. h_entry h = Some e \<and> e \<noteq> 0 \<and> e \<notin> live (h_heap h) \<and> (\<forall>i. h_queue h i \<noteq> Some e))"

text \<open>Thread \<open>i\<close> knows its number, runs \<open>entry\<close> and has the URLs in its queue.\<close>

definition runs :: "thread list \<Rightarrow> nat \<Rightarrow> thread_entry \<Rightarrow> cstring list \<Rightarrow> bool" where
  "runs thr_info i entry urls \<longleftrightarrow> i < length thr_info \<and> t_id (thr_info ! i) = i \<and> t_entry (thr_info ! i) = Some entry
     \<and> (\<exists>tq. t_q (thr_info ! i) = Some tq \<and> queued tq urls \<and> \<not> frozen tq)"

lemma start_thread_ok:
  assumes "start_thread h entry i fill thr_info = Inr thr_info'" "i < length thr_info"
    and "\<And>tq tq'. tq_new (h_queue h i) (h_heap h) = Some tq \<Longrightarrow> fill tq = Inr tq' \<Longrightarrow> queued tq' urls \<and> \<not> frozen tq'"
  shows "runs thr_info' i entry urls \<and> length thr_info' = length thr_info \<and> (\<forall>j. j \<noteq> i \<longrightarrow> thr_info' ! j = thr_info ! j)"
proof -
  obtain tq tq' where q: "tq_new (h_queue h i) (h_heap h) = Some tq" "fill tq = Inr tq'"
    and t: "thr_info' = thr_info[i := \<lparr>t_id = i, t_q = Some tq', t_entry = Some entry\<rparr>]"
    using assms(1) by (auto simp: start_thread_def split: option.splits if_splits)
  show ?thesis using assms(3) [OF q] assms(2) by (simp add: t runs_def)
qed

lemma new_queue_empty:
  assumes "host_ok h" "tq_new (h_queue h i) (h_heap h) = Some tq"
  shows "queued tq [] \<and> \<not> frozen tq"
proof -
  obtain a where a: "h_queue h i = Some a" using assms(2) by (auto simp: tq_new_def split: option.splits)
  then have "a \<noteq> 0" using assms(1) unfolding host_ok_def by metis
  then show ?thesis using tq_new_empty assms(2) unfolding a by blast
qed

lemma pushed_url:
  assumes "host_ok h" "tq_new (h_queue h i) (h_heap h) = Some tq" "push_url h target tq = Inr tq'"
  shows "\<exists>u. target = Some u \<and> queued tq' [u] \<and> \<not> frozen tq'"
proof -
  have "queued tq []" "\<not> frozen tq" using new_queue_empty assms(1,2) by blast+
  moreover have "alloc_ok tq (h_entry h)"
    using assms(1,2) by (auto simp: host_ok_def alloc_ok_def tq_new_def heap_defs split: option.splits)
  ultimately show ?thesis
    using assms(3) tq_push_open [of tq "[]" "h_entry h"] by (auto simp: push_url_def split: option.splits if_splits)
qed

lemma start_miners_ok:
  assumes "host_ok h"
  shows "start_miners h is thr_info = Inr thr_info' \<Longrightarrow> \<forall>i \<in> set is. i < length thr_info \<Longrightarrow>
    length thr_info' = length thr_info \<and> (\<forall>i. i \<notin> set is \<longrightarrow> thr_info' ! i = thr_info ! i)
    \<and> (\<forall>i \<in> set is. runs thr_info' i Main_entry_thread [])"
proof (induction "is" arbitrary: thr_info)
  case (Cons i "is")
  then obtain t where t: "start_thread h Main_entry_thread i Inr thr_info = Inr t" "start_miners h is t = Inr thr_info'" by auto
  have i: "runs t i Main_entry_thread [] \<and> length t = length thr_info \<and> (\<forall>j. j \<noteq> i \<longrightarrow> t ! j = thr_info ! j)"
    using start_thread_ok [OF t(1)] Cons.prems(2) new_queue_empty [OF assms] by auto
  have r: "length thr_info' = length t \<and> (\<forall>i. i \<notin> set is \<longrightarrow> thr_info' ! i = t ! i) \<and> (\<forall>i \<in> set is. runs thr_info' i Main_entry_thread [])"
    using Cons.IH [OF t(2)] Cons.prems(2) i by simp
  then have "runs thr_info' i Main_entry_thread []" using i by (cases "i \<in> set is") (auto simp: runs_def)
  then show ?case using i r by auto
qed simp

lemma launch_ok:
  assumes "launch h s = Inr s'" "host_ok h"
  defines "n \<equiv> nat (opt_n_threads (s_opts s))"
  shows "s_opts s' = s_opts s" "s_num_cpus s' = s_num_cpus s" "s_cpu_map s' = s_cpu_map s" "s_gate s' = s_gate s"
    "s_work_thr_id s' = n" "length (s_thr_info s') = n + 4" "runs (s_thr_info s') n Workio_thread []"
    "\<forall>i < n. runs (s_thr_info s') i Main_entry_thread []"
    "if have_stratum (s_opts s)
     then s_stratum_thr_id s' = Some (n + 2) \<and> (\<exists>u. rpc_url (s_opts s) = Some u \<and> runs (s_thr_info s') (n + 2) Stratum_thread [u])
     else s_stratum_thr_id s' = None"
proof -
  let ?st = "s_opts s"
  obtain t1 t2 t3 where t: "start_thread h Workio_thread n Inr (replicate (n + 4) no_thread) = Inr t1"
    "(if have_stratum ?st then start_thread h Stratum_thread (n + 2) (push_url h (rpc_url ?st)) t1 else Inr t1) = Inr t2"
    "start_miners h [0..<n] t2 = Inr t3"
    and s': "s_opts s' = ?st \<and> s_num_cpus s' = s_num_cpus s \<and> s_cpu_map s' = s_cpu_map s \<and> s_gate s' = s_gate s
      \<and> s_work_thr_id s' = n \<and> s_stratum_thr_id s' = (if have_stratum ?st then Some (n + 2) else None) \<and> s_thr_info s' = t3"
    using assms(1) unfolding launch_def Let_def and_then_Inr n_def by auto
  have 1: "runs t1 n Workio_thread []" "length t1 = n + 4"
    using start_thread_ok [OF t(1)] new_queue_empty [OF assms(2)] by auto
  have 2: "length t2 = n + 4 \<and> t2 ! n = t1 ! n \<and> (have_stratum ?st \<longrightarrow> (\<exists>u. rpc_url ?st = Some u \<and> runs t2 (n + 2) Stratum_thread [u]))"
  proof (cases "have_stratum ?st")
    case True
    obtain tq tq' where q: "tq_new (h_queue h (n + 2)) (h_heap h) = Some tq" "push_url h (rpc_url ?st) tq = Inr tq'"
      using t(2) True by (auto simp: start_thread_def split: option.splits)
    obtain u where u: "rpc_url ?st = Some u" using pushed_url [OF assms(2) q] by blast
    have st: "start_thread h Stratum_thread (n + 2) (push_url h (Some u)) t1 = Inr t2" using t(2) True u by simp
    have fill: "queued x' [u] \<and> \<not> frozen x'"
      if "tq_new (h_queue h (n + 2)) (h_heap h) = Some x" "push_url h (Some u) x = Inr x'" for x x'
      using pushed_url [OF assms(2) that] by simp
    have "runs t2 (n + 2) Stratum_thread [u] \<and> length t2 = length t1 \<and> (\<forall>j. j \<noteq> n + 2 \<longrightarrow> t2 ! j = t1 ! j)"
      by (rule start_thread_ok [OF st _ fill]) (use 1(2) in simp_all)
    then show ?thesis using 1(2) u by simp
  next
    case False
    then have "t2 = t1" using t(2) by simp
    then show ?thesis using 1(2) False by simp
  qed
  have 3: "length t3 = n + 4" "\<forall>i. n \<le> i \<longrightarrow> t3 ! i = t2 ! i" "\<forall>i < n. runs t3 i Main_entry_thread []"
    using start_miners_ok [OF assms(2) t(3)] 2 by auto
  show "s_opts s' = ?st" "s_num_cpus s' = s_num_cpus s" "s_cpu_map s' = s_cpu_map s" "s_gate s' = s_gate s" "s_work_thr_id s' = n"
    using s' by auto
  show "length (s_thr_info s') = n + 4" "\<forall>i < n. runs (s_thr_info s') i Main_entry_thread []" using s' 3 by auto
  show "runs (s_thr_info s') n Workio_thread []" using s' 1 2 3 by (simp add: runs_def)
  show "if have_stratum ?st
     then s_stratum_thr_id s' = Some (n + 2) \<and> (\<exists>u. rpc_url ?st = Some u \<and> runs (s_thr_info s') (n + 2) Stratum_thread [u])
     else s_stratum_thr_id s' = None"
    using s' 2 3 by (auto simp: runs_def)
qed

lemma soj_main_stages:
  assumes "soj_main env r h evs left = Inr s"
  shows "\<exists>st0 st s0. soj_bootstrap env r h evs left = Inr (st0, s_num_cpus s0) \<and> apply_restrictions r h st0 = Inr st
    \<and> configured r h st s0 \<and> launch h s0 = Inr s"
proof -
  obtain s0 where "configure env r h evs left = Inr s0" "launch h s0 = Inr s" using assms by (auto simp: soj_main_def)
  then show ?thesis using configure_stages by blast
qed

lemma configured_fields:
  assumes "configured r h st s"
  shows "rpc_user (s_opts s) = rpc_user st" "rpc_url (s_opts s) = rpc_url st" "have_stratum (s_opts s) = have_stratum st"
    "opt_benchmark (s_opts s) = opt_benchmark st" "opt_worker (s_opts s) = opt_worker st" "opt_algo (s_opts s) = opt_algo st"
    "opt_n_threads (s_opts s) = opt_n_threads st" "short_url (s_opts s) = short_url st"
  using assms by (auto simp: configured_def)

section \<open>The account and the pool of a locked release\<close>

definition pinned_pool :: "build \<Rightarrow> cstring option" where
  "pinned_pool b = (if fixed_pool_url b \<noteq> [] then Some (fixed_pool_url b) else DEFAULT_POOL_URL b)"

definition worker_suffix :: "host \<Rightarrow> opts \<Rightarrow> cstring" where
  "worker_suffix h st = (case nonempty (opt_worker st) of Some k \<Rightarrow> if h_alloc h A_combo then CH CHR ''.'' # k else [] | None \<Rightarrow> [])"

lemma default_worker_frame: "\<exists>x. default_worker h b st = st\<lparr>opt_worker := x\<rparr>"
  by (auto simp: default_worker_def intro: exI [of _ "opt_worker st"] split: option.splits)

lemma bootstrap_locked:
  assumes "soj_bootstrap env r h evs left = Inr (st, n)" "wallet_seed (build_of r) = Some w"
  shows "account st = (strdup_opt (h_alloc h A_user) w, None)"
    "fixed_pool_url (build_of r) \<noteq> [] \<Longrightarrow> short_url st \<noteq> None \<Longrightarrow> rpc_url st = Some (fixed_pool_url (build_of r))"
proof -
  let ?b = "build_of r"
  let ?n = "if h_nprocs h < 1 then 1 else h_nprocs h"
  obtain st1 args where p: "parse_cmdline env ?b evs left (bootstrap_opts h ?b ?n) = Inr (st1, args)"
    and st: "st = default_worker h ?b (enforce_fixed_pool_url h ?b st1)"
    using assms(1) unfolding soj_bootstrap_def Let_def case_prod_beta and_then_Inr by auto
  obtain x where x: "st = (enforce_fixed_pool_url h ?b st1)\<lparr>opt_worker := x\<rparr>" using st default_worker_frame by metis
  have "account st1 = account (bootstrap_opts h ?b ?n)"
    using parse_cmdline_account [OF p wallet_locks [OF assms(2)]] .
  then show "account st = (strdup_opt (h_alloc h A_user) w, None)"
    using assms(2) by (simp add: x account_def enforce_fixed_pool_url_def bootstrap_opts_def opts_initial_def Let_def)
  show "rpc_url st = Some (fixed_pool_url ?b)" if "fixed_pool_url ?b \<noteq> []" "short_url st \<noteq> None"
    using that by (auto simp: x enforce_fixed_pool_url_def Let_def split: if_splits)
qed

lemma force_default_pool_frame:
  assumes "force_default_pool h b st = Inr st'"
  shows "\<exists>u k v. st' = st\<lparr>rpc_url := u, short_url := k, have_stratum := v\<rparr>"
proof -
  have same: "\<exists>u k v. st = st\<lparr>rpc_url := u, short_url := k, have_stratum := v\<rparr>" for st :: opts
    by (intro exI [of _ "rpc_url st"] exI [of _ "short_url st"] exI [of _ "have_stratum st"]) simp
  then show ?thesis using assms
    by (auto simp: force_default_pool_def split: option.splits if_splits intro: same)
qed

lemma compose_user_frame: "\<exists>u. compose_user h b st = st\<lparr>rpc_user := u\<rparr>"
  by (auto simp: compose_user_def split: option.splits intro: exI [of _ "rpc_user st"])

lemma restrictions_locked:
  assumes "apply_restrictions r h st = Inr st'" "wallet_seed (build_of r) = Some w"
    and "account st = (strdup_opt ok w, None)" "rpc_userpass st' = None \<longrightarrow> rpc_user st' \<noteq> None"
    and "fixed_pool_url (build_of r) \<noteq> [] \<Longrightarrow> short_url st \<noteq> None \<Longrightarrow> rpc_url st = Some (fixed_pool_url (build_of r))"
  shows "rpc_user st' = Some (w @ worker_suffix h st')"
    "pinned_pool (build_of r) = Some p \<Longrightarrow> short_url st' \<noteq> None \<Longrightarrow> rpc_url st' = Some p"
proof -
  let ?b = "build_of r"
  obtain st1 where f: "force_default_pool h ?b (st\<lparr>opt_algo := ALGO_CIVICLIGHT\<rparr>) = Inr st1" "st' = compose_user h ?b st1"
    using assms(1) wallet_locks [OF assms(2)] by (auto simp: apply_restrictions_def restricted_def)
  obtain u k v where st1: "st1 = st\<lparr>opt_algo := ALGO_CIVICLIGHT, rpc_url := u, short_url := k, have_stratum := v\<rparr>"
    using force_default_pool_frame [OF f(1)] by auto
  obtain us where us: "st' = st1\<lparr>rpc_user := us\<rparr>" using f(2) compose_user_frame by metis
  have "rpc_user st' \<noteq> None" using assms(3,4) by (simp add: us st1 account_def)
  then show "rpc_user st' = Some (w @ worker_suffix h st')"
  proof -
    have w: "opt_worker st' = opt_worker st1" "rpc_user st1 = strdup_opt ok w" using assms(3) by (simp_all add: us st1 account_def)
    have "rpc_user (compose_user h ?b st1) = rpc_user st'" by (simp add: f(2))
    then show ?thesis
      using \<open>rpc_user st' \<noteq> None\<close> w assms(2)
      by (auto simp: compose_user_def worker_suffix_def strdup_opt_def split: option.splits if_splits)
  qed
  show "rpc_url st' = Some p" if "pinned_pool ?b = Some p" "short_url st' \<noteq> None"
  proof -
    have "rpc_url st' = rpc_url st1" "short_url st' = short_url st1" by (simp_all add: us)
    then show ?thesis
      using that f(1) assms(5) by (auto simp: pinned_pool_def force_default_pool_def split: if_splits option.splits)
  qed
qed

section \<open>Properties\<close>

text \<open>A release with a wallet and a pool, and a host where everything works.\<close>

definition first_release :: release where
  "first_release = \<lparr>macros = default_build, HARDCODED_WALLET = Some (cstr ''wallet''), HARDCODED_WALLET_LOCK = False,
     ENCODED_WALLET = None, ENCODED_POOL = None, FIXED_POOL_URL = cstr ''stratum+tcp://pool:3'', LOCK_CONFIG = False,
     TIMEBOMB_EXPIRY = Some 1000, target_os = Linux\<rparr>"

definition first_host :: host where
  "first_host = \<lparr>h_alloc = \<lambda>_. True, h_time = 1000, h_nprocs = 4, h_hostname = Some (cstr ''rig''), h_cpu_capable = True,
     h_curl_ok = True, h_fork = 0, h_affinity = Some [1, 2, 3], h_queue = \<lambda>i. Some (2 * i + 1), h_entry = Some 2,
     h_heap = \<lparr>nxt = \<lambda>_. 0, prv = \<lambda>_. 0, dat = \<lambda>_. [], live = {}\<rparr>, h_create = \<lambda>_. True\<rparr>"

definition first_events :: "(opt_key \<times> cstring option) list" where
  "first_events = [(Opt_user, Some (cstr ''other'')), (Opt_threads, Some (cstr ''2'')), (Opt_cpu_affinity, Some (cstr ''0xc''))]"

lemma first_build: "build_of first_release = default_build\<lparr>wallet_lock := True, wallet_seed := Some (cstr ''wallet''),
    fixed_pool_url := cstr ''stratum+tcp://pool:3''\<rparr>"
  by (simp add: build_of_def first_release_def get_fixed_wallet_seed_def encoded_def)

definition first_opts :: opts where
  "first_opts = (bootstrap_opts first_host (build_of first_release) 4)\<lparr>opt_n_threads := 2, opt_affinity := 12,
     rpc_url := Some (cstr ''stratum+tcp://pool:3''), short_url := Some 14, have_stratum := True, opt_worker := Some (cstr ''rig'')\<rparr>"

lemma first_host_fields:
  "h_alloc first_host a" "h_time first_host = 1000" "h_nprocs first_host = 4" "h_hostname first_host = Some (cstr ''rig'')"
  "h_cpu_capable first_host" "h_curl_ok first_host" "h_affinity first_host = Some [1, 2, 3]"
  "h_queue first_host i = Some (2 * i + 1)" "h_entry first_host = Some 2" "h_create first_host i" "live (h_heap first_host) = {}"
  by (simp_all add: first_host_def)

lemma first_bootstrap: "soj_bootstrap plain_env first_release first_host first_events False = Inr (first_opts, 4)"
proof -
  let ?o = "bootstrap_opts first_host (build_of first_release) 4"
  have url: "strstr_at (cstr ''stratum+tcp://pool:3'') (cstr ''://'') = Some 11" "is_stratum_url (cstr ''stratum+tcp://pool:3'')"
    by (simp_all add: cstr_def is_stratum_url_def strncasecmp_eq_def strcasecmp_eq_def)
  have cmd: "parse_cmdline plain_env (build_of first_release) first_events False ?o
      = Inr (?o\<lparr>opt_n_threads := 2, opt_affinity := 12\<rparr>, [Some (cstr ''other''), Some (cstr ''2''), Some (cstr ''0xc'')])"
    by (simp add: first_events_def parse_cmdline_def parse_arg_def parse_arg_switch_def with_int_def with_arg_def atoi_def strtol_def take_sign_def digits_value_def
        to_int32_def is_space_def is_digit_def cstr_def default_build_def first_build parse_affinity_def strtoull_0x_def hex_digit_def)
  have o: "opt_worker ?o = None" "opt_data_file ?o = None" "opt_benchmark ?o = False" "opt_algo ?o = ALGO_CIVICLIGHT"
    by (simp_all add: bootstrap_opts_def opts_initial_def)
  have b: "fixed_pool_url (build_of first_release) = cstr ''stratum+tcp://pool:3''" "\<not> LOG_ERRORS_ONLY (build_of first_release)"
    by (simp_all add: first_build default_build_def)
  have ne: "cstr ''stratum+tcp://pool:3'' \<noteq> []" "nonempty None = None" by (simp_all add: cstr_def nonempty_def)
  let ?p = "?o\<lparr>opt_n_threads := 2, opt_affinity := 12\<rparr>"
  have e: "enforce_fixed_pool_url first_host (build_of first_release) ?p
      = ?p\<lparr>rpc_url := Some (cstr ''stratum+tcp://pool:3''), short_url := Some 14, have_stratum := True\<rparr>"
    using o ne(1) by (simp add: enforce_fixed_pool_url_def b url first_host_fields Let_def)
  have "default_worker first_host (build_of first_release) (enforce_fixed_pool_url first_host (build_of first_release) ?p) = first_opts"
    unfolding e using o ne(2) b(2) by (simp add: default_worker_def first_host_fields file_tag_def first_opts_def strdup_opt_def)
  then show ?thesis
    using cmd o by (simp add: soj_bootstrap_def and_then_def first_host_fields Let_def exit_unless_def first_opts_def)
qed

definition first_started :: "started \<Rightarrow> bool" where
  "first_started s \<longleftrightarrow> opt_n_threads (s_opts s) = 2 \<and> opt_affinity (s_opts s) = 12 \<and> s_num_cpus s = 4 \<and> s_cpu_map s = Some [2, 3, 2, 3]
     \<and> opt_worker (s_opts s) = Some (cstr ''rig'') \<and> have_stratum (s_opts s) \<and> \<not> opt_benchmark (s_opts s)"

lemma upt_4: "[0..<4] = [0, 1, 2, 3 :: nat]"
  by (simp add: upt_rec)

lemma first_allowed: "allowed_list [1, 2, 3] 12 = [2, 3]"
proof -
  have "filter (\<lambda>i. i \<in> set [1, 2, 3] \<and> in_mask 12 i) [0..<n] = [2, 3]" if n: "4 \<le> n" for n
  proof -
    have l: "[0..<n] = [0..<4] @ [4..<n]" using upt_add_eq_append [of 0 4 "n - 4"] n by simp
    have hi: "filter (\<lambda>i. i \<in> set [1, 2, 3] \<and> in_mask 12 i) [4..<n] = []" by (auto simp: filter_empty_conv)
    have lo: "filter (\<lambda>i. i \<in> set [1, 2, 3] \<and> in_mask 12 i) [0..<4] = [2, 3]" by (simp add: in_mask_def upt_4)
    show ?thesis unfolding l filter_append hi lo by simp
  qed
  then show ?thesis by (simp only: allowed_list_def CPU_SETSIZE_def)
qed

lemma first_affinity: "opt_affinity st = 12 \<Longrightarrow> opt_n_threads st = 2 \<Longrightarrow>
    set_affinity_map first_release first_host 4 st = (st, Some [2, 3, 2, 3])"
  using first_allowed
  by (simp add: set_affinity_map_def first_host_fields map_size_def first_release_def process_cpus_def Let_def upt_4
      numeral_2_eq_2 [symmetric])

lemma first_run: "\<exists>s. soj_main plain_env first_release first_host first_events False = Inr s \<and> first_started s"
proof -
  let ?b = "build_of first_release"
  have b: "wallet_seed ?b = Some (cstr ''wallet'')" "wallet_lock ?b" "DEFAULT_POOL_URL ?b = None"
    by (simp_all add: first_build default_build_def)
  have o: "opt_worker first_opts = Some (cstr ''rig'')" "nonempty (Some (cstr ''rig'')) = Some (cstr ''rig'')"
    "opt_algo first_opts = ALGO_CIVICLIGHT" "opt_benchmark first_opts = False" "rpc_userpass first_opts = None" "rpc_pass first_opts = Some []"
    "opt_background first_opts = False" "opt_scantime first_opts = 0" "have_stratum first_opts" "short_url first_opts = Some 14"
    "opt_affinity first_opts = 12" "opt_n_threads first_opts = 2" "rpc_url first_opts = Some (cstr ''stratum+tcp://pool:3'')"
    by (simp_all add: first_opts_def bootstrap_opts_def opts_initial_def first_host_fields strdup_opt_def nonempty_def cstr_def)
  define user where "user = cstr ''wallet'' @ CH CHR ''.'' # cstr ''rig''"
  define s1 where "s1 = first_opts\<lparr>opt_algo := ALGO_CIVICLIGHT, rpc_user := Some user\<rparr>"
  define s2 where "s2 = s1\<lparr>opt_scantime := 30\<rparr>"
  define s3 where "s3 = s2\<lparr>rpc_userpass := Some (user @ [CH CHR '':''])\<rparr>"
  note d = s1_def s2_def s3_def
  have 1: "apply_restrictions first_release first_host first_opts = Inr s1"
    using b o by (simp add: apply_restrictions_def restricted_def and_then_def force_default_pool_def compose_user_def first_host_fields d user_def)
  have 2: "default_scantime first_release s1 = s2" using o by (simp add: default_scantime_def d)
  have 3: "set_userpass first_host s2 = Inr s3" using o by (simp add: set_userpass_def d first_host_fields)
  obtain ssl where 4: "curl_ssl s3 = Inr ssl" using o by (simp add: curl_ssl_def d)
  have 5: "go_background first_release first_host s3 = Inr s3" using o by (simp add: go_background_def d)
  have 6: "set_affinity_map first_release first_host 4 s3 = (s3, Some [2, 3, 2, 3])" using o by (intro first_affinity) (simp_all add: d)
  have 7: "pool_usable s2" "opt_algo s2 = ALGO_CIVICLIGHT" using o by (simp_all add: pool_usable_def d)
  have 8: "exit_unless (not_expired first_release first_host) = Inr ()"
    by (simp add: not_expired_def first_release_def first_host_fields exit_unless_def)
  have "\<exists>s. configure plain_env first_release first_host first_events False = Inr s \<and> s_opts s = s3 \<and> s_num_cpus s = 4 \<and> s_cpu_map s = Some [2, 3, 2, 3]"
    unfolding configure_def first_bootstrap Let_def 8
    by (simp add: and_then_def 1 2 3 4 5 6 7 algo_gate_civiclight first_host_fields exit_unless_def)
  then obtain s where s: "configure plain_env first_release first_host first_events False = Inr s" "s_opts s = s3" "s_num_cpus s = 4"
    "s_cpu_map s = Some [2, 3, 2, 3]" by blast
  have t: "have_stratum s3" "opt_n_threads s3 = 2" "rpc_url s3 = Some (cstr ''stratum+tcp://pool:3'')" "opt_worker s3 = Some (cstr ''rig'')"
    "opt_affinity s3 = 12" "\<not> opt_benchmark s3"
    using o by (simp_all add: d)
  have "\<exists>s'. launch first_host s = Inr s' \<and> s_opts s' = s3 \<and> s_num_cpus s' = 4 \<and> s_cpu_map s' = Some [2, 3, 2, 3]"
    unfolding launch_def Let_def s(2)
    by (simp add: and_then_def t s exit_unless_def first_host_fields start_thread_def tq_new_def push_url_def upt_rec)
  then show ?thesis using s(1) t by (auto simp: soj_main_def and_then_def first_started_def)
qed





section \<open>Where the threads run\<close>

lemma distinct_allowed: "distinct (allowed_list cpus m)"
  by (simp add: allowed_list_def)

lemma set_allowed: "set (allowed_list cpus m) = {i \<in> set cpus. i < CPU_SETSIZE \<and> in_mask m i}"
  by (auto simp: allowed_list_def)

lemma card_mod_class: "0 < k \<Longrightarrow> card {j :: nat. j < n \<and> j mod k = x} \<le> (n + k - 1) div k"
proof -
  assume k: "0 < k"
  let ?S = "{j. j < n \<and> j mod k = x}"
  have "inj_on (\<lambda>j. j div k) ?S"
    by (rule inj_onI) (metis (mono_tags, lifting) mem_Collect_eq mult_div_mod_eq)
  moreover have "(\<lambda>j. j div k) ` ?S \<subseteq> {..<(n + k - 1) div k}"
  proof (clarsimp)
    fix j assume "j < n"
    then have "j + k \<le> n + k - 1" by simp
    then have "(j + k) div k \<le> (n + k - 1) div k" by (rule div_le_mono)
    then show "j div k < (n + k - Suc 0) div k" using k by simp
  qed
  ultimately show ?thesis using card_inj_on_le [of "\<lambda>j. j div k" ?S "{..<(n + k - 1) div k}"] by simp
qed

lemma linux_map:
  assumes "set_affinity_map r h n st = (st', Some m)" "target_os r = Linux"
  defines "allowed \<equiv> allowed_list (process_cpus h n) (opt_affinity st')"
  shows "allowed \<noteq> [] \<and> m = map (\<lambda>thr. allowed ! (thr mod length allowed)) [0..<map_size n st']"
  using assms by (auto simp: set_affinity_map_def Let_def split: if_splits)



text \<open>A wallet that is given in plain text is lost when the pool, and only the pool, is encoded: the user is the
  worker's name after a dot.\<close>

theorem plain_wallet_lost:
  assumes "HARDCODED_WALLET r = Some w" "ENCODED_WALLET r = None" "ENCODED_POOL r \<noteq> None"
  shows "wallet_seed (build_of r) = Some []"
proof -
  have "fixed_wallet (init_encoded_release_constants r constants_zero) = replicate 128 0"
    using assms(2) by (simp add: init_encoded_release_constants_def constants_zero_def Let_def split: option.splits prod.splits)
  then show ?thesis
    using assms by (simp add: build_of_def get_fixed_wallet_seed_def encoded_def str_at_def)
qed

end
