(* ===== verification/Soj_Stats.thy ===== *)
theory Soj_Stats
  imports Soj_Libc
begin

text \<open>The statistics report, from \<open>civiclight_stats.c\<close>: a ring of the last samples of the hash counter, the
  rates of the last one, five and fifteen minutes, and the text of the report.  Doubles are rationals
  with the rounding \<open>rd\<close> of each operation as a parameter, and so is the printing of a double.\<close>

section \<open>Samples\<close>

definition CIVICLIGHT_STATS_INTERVAL :: int where "CIVICLIGHT_STATS_INTERVAL = 10"
definition CIVICLIGHT_STATS_SAMPLES :: nat where "CIVICLIGHT_STATS_SAMPLES = 92"

text \<open>A \<open>struct timeval\<close> is its seconds and microseconds.\<close>

record rate_sample =
  sample_at :: "int \<times> int"
  sample_hashes :: rat

record rate_ring =
  rate_samples :: "rate_sample list"
  rate_sample_next :: nat
  rate_sample_count :: nat

definition timeval_seconds :: "(rat \<Rightarrow> rat) \<Rightarrow> int \<times> int \<Rightarrow> rat" where
  "timeval_seconds rd tv = rd (rd (of_int (fst tv)) + rd (rd (of_int (snd tv)) * rd (1 / 10 ^ 6)))"

text \<open>The loop over the ages of the samples.\<close>

fun oldest_in_window :: "(rat \<Rightarrow> rat) \<Rightarrow> rate_ring \<Rightarrow> rat \<Rightarrow> nat list \<Rightarrow> rate_sample option \<Rightarrow> rate_sample option" where
  "oldest_in_window rd ring cutoff [] oldest = oldest"
| "oldest_in_window rd ring cutoff (age # ages) oldest =
    (let idx = (rate_sample_next ring + CIVICLIGHT_STATS_SAMPLES - age) mod CIVICLIGHT_STATS_SAMPLES;
         sample = rate_samples ring ! idx
     in if timeval_seconds rd (sample_at sample) < cutoff then oldest
        else oldest_in_window rd ring cutoff ages (Some sample))"

definition rate_since :: "(rat \<Rightarrow> rat) \<Rightarrow> rat \<Rightarrow> rat \<Rightarrow> rate_sample option \<Rightarrow> rat" where
  "rate_since rd now_seconds hashes oldest =
    (case oldest of
       None \<Rightarrow> 0
     | Some sample \<Rightarrow>
         let elapsed = rd (now_seconds - timeval_seconds rd (sample_at sample))
         in if elapsed > 0 then rd (rd (hashes - sample_hashes sample) / elapsed) else 0)"

definition window_rate :: "(rat \<Rightarrow> rat) \<Rightarrow> rate_ring \<Rightarrow> int \<times> int \<Rightarrow> rat \<Rightarrow> nat \<Rightarrow> rat" where
  "window_rate rd ring now hashes window_seconds =
    (let now_seconds = timeval_seconds rd now;
         cutoff = rd (now_seconds - of_nat window_seconds)
     in rate_since rd now_seconds hashes
          (oldest_in_window rd ring cutoff [1..<rate_sample_count ring + 1] None))"

definition first_sample :: "rate_sample \<Rightarrow> rate_ring \<Rightarrow> rate_ring" where
  "first_sample sample ring =
    ring\<lparr>rate_samples := (rate_samples ring)[0 := sample], rate_sample_next := 1, rate_sample_count := 1\<rparr>"

definition add_sample :: "rate_sample \<Rightarrow> rate_ring \<Rightarrow> rate_ring" where
  "add_sample sample ring =
    ring\<lparr>rate_samples := (rate_samples ring)[rate_sample_next ring := sample],
      rate_sample_next := (rate_sample_next ring + 1) mod CIVICLIGHT_STATS_SAMPLES,
      rate_sample_count := (if rate_sample_count ring < CIVICLIGHT_STATS_SAMPLES then rate_sample_count ring + 1
                            else rate_sample_count ring)\<rparr>"

section \<open>The text\<close>

text \<open>\<open>"%02u"\<close>\<close>

definition fmt_02u :: "nat \<Rightarrow> cstring" where
  "fmt_02u n = (if n < 10 then CH CHR ''0'' # dec_digits n else dec_digits n)"

text \<open>\<open>snprintf\<close> into a buffer cuts the text.\<close>

definition snprintf :: "nat \<Rightarrow> cstring \<Rightarrow> cstring" where
  "snprintf out_size s = take (out_size - 1) s"

definition format_uptime :: "rat \<Rightarrow> nat \<Rightarrow> cstring" where
  "format_uptime seconds out_size =
    (let whole = (if seconds > 0 then nat \<lfloor>seconds\<rfloor> else 0);
         hours = whole div 3600;
         minutes = (whole div 60) mod 60;
         secs = whole mod 60
     in snprintf out_size (fmt_02u hours @ CH CHR '':'' # fmt_02u minutes @ CH CHR '':'' # fmt_02u secs))"

text \<open>The value divided by a thousand until it is below it or the last unit is reached, and the
  position of the unit; \<open>k\<close> is the number of units that are left.\<close>

fun scale_unit :: "(rat \<Rightarrow> rat) \<Rightarrow> nat \<Rightarrow> nat \<Rightarrow> rat \<Rightarrow> rat \<times> nat" where
  "scale_unit rd 0 unit v = (v, unit)"
| "scale_unit rd (Suc k) unit v = (if v \<ge> 1000 then scale_unit rd k (unit + 1) (rd (v / 1000)) else (v, unit))"

text \<open>\<open>fmt_f p v\<close>: \<open>v\<close> with \<open>p\<close> decimals.\<close>

definition format_scaled :: "(rat \<Rightarrow> rat) \<Rightarrow> (nat \<Rightarrow> rat \<Rightarrow> cstring) \<Rightarrow> string list \<Rightarrow> rat \<Rightarrow> nat \<Rightarrow> cstring" where
  "format_scaled rd fmt_f units v out_size =
    (let (v, unit) = scale_unit rd (length units - 1) 0 v
     in snprintf out_size (fmt_f (if v \<ge> 100 then 0 else if v \<ge> 10 then 1 else 2) v @ CH CHR '' '' # cstr (units ! unit)))"

definition format_rate :: "(rat \<Rightarrow> rat) \<Rightarrow> (nat \<Rightarrow> rat \<Rightarrow> cstring) \<Rightarrow> rat \<Rightarrow> nat \<Rightarrow> cstring" where
  "format_rate rd fmt_f = format_scaled rd fmt_f [''H/s'', ''kH/s'', ''MH/s'', ''GH/s'', ''TH/s'']"

definition format_work :: "(rat \<Rightarrow> rat) \<Rightarrow> (nat \<Rightarrow> rat \<Rightarrow> cstring) \<Rightarrow> rat \<Rightarrow> nat \<Rightarrow> cstring" where
  "format_work rd fmt_f = format_scaled rd fmt_f [''H'', ''kH'', ''MH'', ''GH'', ''TH'', ''PH'']"

text \<open>What \<open>fscanf\<close> reads from \<open>/proc/meminfo\<close>: keys and values in kilobytes, up to the first line of another
  form; a file that cannot be opened has none.  The result is the available and the total memory in gigabytes.\<close>

definition meminfo_value :: "string \<Rightarrow> (string \<times> int) list \<Rightarrow> int" where
  "meminfo_value key lines = foldl (\<lambda>v line. if fst line = key then snd line else v) 0 lines"

definition get_memory_gb :: "(rat \<Rightarrow> rat) \<Rightarrow> (string \<times> int) list \<Rightarrow> rat \<times> rat" where
  "get_memory_gb rd lines =
    (let total_kb = meminfo_value ''MemTotal:'' lines;
         available_kb = meminfo_value ''MemAvailable:'' lines;
         free_kb = meminfo_value ''MemFree:'' lines;
         available_kb = (if available_kb \<le> 0 then free_kb else available_kb)
     in (rd (rd (of_int available_kb) / (1024 * 1024)), rd (rd (of_int total_kb) / (1024 * 1024))))"

section \<open>The thread\<close>

text \<open>The global variables of the file.\<close>

record stats_state =
  st_ring :: rate_ring
  st_started :: "int \<times> int"
  st_starting_hashes :: rat

record stats_report =
  uptime :: cstring
  one_minute :: cstring
  five_minutes :: cstring
  fifteen_minutes :: cstring
  total_work :: cstring
  accepted :: u32
  rejected :: u32
  available_gb :: rat
  total_gb :: rat

text \<open>What one round of the loop reads: the clock, the counter of hashes, the counts of shares, the memory.\<close>

record stats_input =
  in_now :: "int \<times> int"
  in_hashes :: u64
  in_accepted :: u32
  in_rejected :: u32
  in_meminfo :: "(string \<times> int) list"

definition ring_zero :: rate_ring where
  "ring_zero = \<lparr>rate_samples = replicate CIVICLIGHT_STATS_SAMPLES \<lparr>sample_at = (0, 0), sample_hashes = 0\<rparr>,
     rate_sample_next = 0, rate_sample_count = 0\<rparr>"

definition stats_begin :: "(rat \<Rightarrow> rat) \<Rightarrow> int \<times> int \<Rightarrow> u64 \<Rightarrow> rate_ring \<Rightarrow> stats_state" where
  "stats_begin rd started counter ring =
    (let starting_hashes = rd (of_nat (unat counter))
     in \<lparr>st_ring = first_sample \<lparr>sample_at = started, sample_hashes = starting_hashes\<rparr> ring,
         st_started = started, st_starting_hashes = starting_hashes\<rparr>)"

definition stats_round :: "(rat \<Rightarrow> rat) \<Rightarrow> (nat \<Rightarrow> rat \<Rightarrow> cstring) \<Rightarrow> stats_input \<Rightarrow> stats_state \<Rightarrow> stats_report \<times> stats_state" where
  "stats_round rd fmt_f inp st =
    (let now = in_now inp;
         hashes = rd (of_nat (unat (in_hashes inp)));
         rate_1m = window_rate rd (st_ring st) now hashes 60;
         rate_5m = window_rate rd (st_ring st) now hashes 300;
         rate_15m = window_rate rd (st_ring st) now hashes 900;
         st' = st\<lparr>st_ring := add_sample \<lparr>sample_at = now, sample_hashes = hashes\<rparr> (st_ring st)\<rparr>;
         (available, all) = get_memory_gb rd (in_meminfo inp)
     in (\<lparr>uptime = format_uptime (rd (timeval_seconds rd now - timeval_seconds rd (st_started st))) 32,
          one_minute = format_rate rd fmt_f rate_1m 32, five_minutes = format_rate rd fmt_f rate_5m 32,
          fifteen_minutes = format_rate rd fmt_f rate_15m 32,
          total_work = format_work rd fmt_f (rd (hashes - st_starting_hashes st)) 32,
          accepted = in_accepted inp, rejected = in_rejected inp, available_gb = available, total_gb = all\<rparr>,
         st'))"

fun stats_rounds :: "(rat \<Rightarrow> rat) \<Rightarrow> (nat \<Rightarrow> rat \<Rightarrow> cstring) \<Rightarrow> stats_input list \<Rightarrow> stats_state \<Rightarrow> stats_report list \<times> stats_state" where
  "stats_rounds rd fmt_f [] st = ([], st)"
| "stats_rounds rd fmt_f (inp # inps) st =
    (let (report, st) = stats_round rd fmt_f inp st; (reports, st) = stats_rounds rd fmt_f inps st
     in (report # reports, st))"

text \<open>\<open>civiclight_stats_start\<close>: \<open>create\<close> says whether the thread could be created; the result and
  \<open>stats_started\<close>.\<close>

definition civiclight_stats_start :: "bool \<Rightarrow> bool \<Rightarrow> bool \<times> bool" where
  "civiclight_stats_start create stats_started =
    (let stats_started = (if \<not> stats_started then create else stats_started) in (stats_started, stats_started))"

section \<open>The ring holds the last samples\<close>

definition ring_holds :: "rate_ring \<Rightarrow> rate_sample list \<Rightarrow> bool" where
  "ring_holds ring hist \<longleftrightarrow> length (rate_samples ring) = 92 \<and> rate_sample_next ring = length hist mod 92
     \<and> rate_sample_count ring = min (length hist) 92
     \<and> (\<forall>i < length hist. length hist \<le> i + 92 \<longrightarrow> rate_samples ring ! (i mod 92) = hist ! i)"

lemma first_sample_holds: "ring_holds (first_sample x ring_zero) [x]"
  by (simp add: ring_holds_def first_sample_def ring_zero_def CIVICLIGHT_STATS_SAMPLES_def)

lemma add_sample_holds:
  assumes "ring_holds ring hist"
  shows "ring_holds (add_sample x ring) (hist @ [x])"
proof -
  have "(rate_samples ring)[length hist mod 92 := x] ! (i mod 92) = (hist @ [x]) ! i"
    if i: "i < Suc (length hist)" "Suc (length hist) \<le> i + 92" for i
  proof (cases "i = length hist")
    case True
    then show ?thesis using assms by (simp add: ring_holds_def)
  next
    case False
    then have "i < length hist" "length hist - i < 92" using i by simp_all
    moreover from this have "i mod 92 \<noteq> length hist mod 92"
      using mod_eq_dvd_iff_nat [of i "length hist" 92] by (auto dest: dvd_imp_le)
    ultimately show ?thesis using assms i by (simp add: ring_holds_def nth_append)
  qed
  then show ?thesis
    using assms by (simp add: ring_holds_def add_sample_def CIVICLIGHT_STATS_SAMPLES_def mod_Suc_eq)
qed

lemma ring_age:
  assumes "ring_holds ring hist" "1 \<le> age" "age \<le> rate_sample_count ring"
  shows "rate_samples ring ! ((rate_sample_next ring + CIVICLIGHT_STATS_SAMPLES - age) mod CIVICLIGHT_STATS_SAMPLES)
    = rev hist ! (age - 1)"
proof -
  let ?i = "length hist - age"
  have a: "age \<le> length hist" "age \<le> 92" using assms by (auto simp: ring_holds_def)
  have "(length hist mod 92 + 92 - age) mod 92 = (length hist mod 92 + (92 - age)) mod 92" using a(2) by simp
  also have "\<dots> = (length hist + (92 - age)) mod 92" by (rule mod_add_left_eq)
  also have "length hist + (92 - age) = ?i + 92" using a by simp
  also have "(?i + 92) mod 92 = ?i mod 92" by simp
  finally have "rate_samples ring ! ((rate_sample_next ring + 92 - age) mod 92) = hist ! ?i"
    using assms a by (auto simp: ring_holds_def)
  then show ?thesis using a assms(2) by (simp add: CIVICLIGHT_STATS_SAMPLES_def rev_nth)
qed

section \<open>The rate over the whole history\<close>

text \<open>The oldest sample of a history, newest first, before the first one that is too old.\<close>

definition oldest_of :: "(rat \<Rightarrow> rat) \<Rightarrow> rat \<Rightarrow> rate_sample list \<Rightarrow> rate_sample option" where
  "oldest_of rd cutoff samples =
    (let recent = takeWhile (\<lambda>x. cutoff \<le> timeval_seconds rd (sample_at x)) samples
     in if recent = [] then None else Some (last recent))"

text \<open>The rate over the time between now and the oldest sample of the window, from all samples that were ever
  taken.\<close>

definition history_rate :: "(rat \<Rightarrow> rat) \<Rightarrow> rate_sample list \<Rightarrow> int \<times> int \<Rightarrow> rat \<Rightarrow> nat \<Rightarrow> rat" where
  "history_rate rd hist now hashes window_seconds =
    (let now_seconds = timeval_seconds rd now
     in rate_since rd now_seconds hashes (oldest_of rd (rd (now_seconds - of_nat window_seconds)) (rev hist)))"

lemma oldest_in_window_eq:
  assumes "\<forall>age \<in> set ages. rate_samples ring ! ((rate_sample_next ring + CIVICLIGHT_STATS_SAMPLES - age) mod CIVICLIGHT_STATS_SAMPLES) = f age"
  shows "oldest_in_window rd ring cutoff ages o1
    = (case oldest_of rd cutoff (map f ages) of None \<Rightarrow> o1 | Some x \<Rightarrow> Some x)"
  using assms by (induction ages arbitrary: o1) (auto simp: oldest_of_def Let_def split: option.splits)

lemma takeWhile_take: "n < length xs \<Longrightarrow> \<not> P (xs ! n) \<Longrightarrow> n < m \<Longrightarrow> takeWhile P (take m xs) = takeWhile P xs"
proof -
  assume a: "n < length xs" "\<not> P (xs ! n)" "n < m"
  have "xs = take m xs @ drop m xs" by simp
  moreover have "xs ! n \<in> set (take m xs)" using a by (auto simp: in_set_conv_nth intro!: exI [of _ n])
  ultimately show ?thesis using a(2) takeWhile_append1 [of "xs ! n" "take m xs" P "drop m xs"] by simp
qed

text \<open>With the ring, the loop sees the last 92 samples.\<close>

lemma window_rate_ring:
  assumes "ring_holds ring hist"
  shows "window_rate rd ring now hashes w
    = rate_since rd (timeval_seconds rd now) hashes (oldest_of rd (rd (timeval_seconds rd now - of_nat w)) (take 92 (rev hist)))"
proof -
  have c: "rate_sample_count ring = min (length hist) 92" using assms by (simp add: ring_holds_def)
  have up: "[1..<rate_sample_count ring + 1] = map Suc [0..<rate_sample_count ring]" by (simp add: map_Suc_upt)
  have m: "map (\<lambda>age. rev hist ! (age - 1)) [1..<rate_sample_count ring + 1] = take 92 (rev hist)"
    unfolding up map_map by (rule nth_equalityI) (simp_all add: c)
  have "oldest_in_window rd ring cutoff [1..<rate_sample_count ring + 1] None = oldest_of rd cutoff (take 92 (rev hist))" for cutoff
    unfolding m [symmetric] using ring_age [OF assms]
    by (subst oldest_in_window_eq [where f = "\<lambda>age. rev hist ! (age - 1)"]) (auto split: option.splits)
  then show ?thesis by (simp add: window_rate_def Let_def)
qed

text \<open>Time in microseconds, and rounding as a double does it.\<close>

definition micros :: "int \<times> int \<Rightarrow> int" where
  "micros tv = fst tv * 10 ^ 6 + snd tv"

definition clock_ok :: "int \<times> int \<Rightarrow> bool" where
  "clock_ok tv \<longleftrightarrow> 0 \<le> fst tv \<and> fst tv < 2 ^ 33 \<and> 0 \<le> snd tv \<and> snd tv < 10 ^ 6"

definition rounds_closely :: "(rat \<Rightarrow> rat) \<Rightarrow> bool" where
  "rounds_closely rd \<longleftrightarrow> (\<forall>x. \<bar>x\<bar> \<le> 2 ^ 64 \<longrightarrow> \<bar>rd x - x\<bar> \<le> (1 + \<bar>x\<bar>) / 2 ^ 50)"

lemma rounded:
  assumes "rounds_closely rd" "\<bar>x\<bar> \<le> 2 ^ 34"
  shows "\<bar>rd x - x\<bar> \<le> 1 / 2 ^ 15"
proof -
  have "\<bar>rd x - x\<bar> \<le> (1 + \<bar>x\<bar>) / 2 ^ 50" using assms by (simp add: rounds_closely_def)
  also have "\<dots> \<le> (2 * 2 ^ 34) / 2 ^ 50" using assms(2) by (intro divide_right_mono) simp_all
  finally show ?thesis by simp
qed

lemma timeval_seconds_close:
  assumes "rounds_closely rd" "clock_ok tv"
  shows "\<bar>timeval_seconds rd tv - of_int (micros tv) / 10 ^ 6\<bar> \<le> 1 / 8"
proof -
  let ?s = "of_int (fst tv) :: rat" and ?u = "of_int (snd tv) :: rat"
  have "?s \<le> of_int (2 ^ 33)" "?u \<le> of_int (10 ^ 6)" "of_int 0 \<le> ?s" "of_int 0 \<le> ?u"
    using assms(2) unfolding clock_ok_def of_int_le_iff by linarith+
  then have b: "0 \<le> ?s" "?s \<le> 2 ^ 33" "0 \<le> ?u" "?u \<le> 10 ^ 6" by simp_all
  let ?c = "rd (1 / 10 ^ 6)" and ?e = "1 / 2 ^ 15 :: rat"
  have c: "\<bar>?c - 1 / 10 ^ 6\<bar> \<le> (1 + \<bar>1 / 10 ^ 6\<bar>) / 2 ^ 50"
    by (rule mp [OF spec [OF assms(1) [unfolded rounds_closely_def]]]) simp
  have s: "\<bar>rd ?s - ?s\<bar> \<le> ?e" by (rule rounded [OF assms(1)]) (use b in simp)
  have u: "\<bar>rd ?u - ?u\<bar> \<le> ?e" by (rule rounded [OF assms(1)]) (use b in simp)
  define d where "d = ?c - 1 / 10 ^ 6"
  define v where "v = rd ?u - ?u"
  have dv: "\<bar>d\<bar> \<le> 1 / 2 ^ 49" "\<bar>v\<bar> \<le> ?e" using c u by (simp_all add: d_def v_def)
  have "rd ?u * ?c - ?u / 10 ^ 6 = v * (1 / 10 ^ 6) + (?u * d + v * d)" by (simp add: d_def v_def algebra_simps)
  also have "\<bar>\<dots>\<bar> \<le> \<bar>v\<bar> * (1 / 10 ^ 6) + (?u * \<bar>d\<bar> + \<bar>v\<bar> * \<bar>d\<bar>)"
    using b(3) by (intro order_trans [OF abs_triangle_ineq] add_mono) (simp_all add: abs_mult)
  also have "\<dots> \<le> ?e * 1 + (10 ^ 6 * (1 / 2 ^ 49) + ?e * 1)"
    using dv b(3,4) by (intro add_mono mult_mono) simp_all
  finally have p: "\<bar>rd ?u * ?c - ?u / 10 ^ 6\<bar> \<le> 1 / 2 ^ 13" by simp
  define P Q R where "P = rd ?u * ?c" and "Q = ?u / 10 ^ 6" and "R = rd ?s"
  have Q: "0 \<le> Q" "Q \<le> 1" using b(3,4) by (simp_all add: Q_def)
  have p': "\<bar>P - Q\<bar> \<le> 1 / 2 ^ 13" and s': "\<bar>R - ?s\<bar> \<le> ?e" using p s by (simp_all add: P_def Q_def R_def)
  have "\<bar>P\<bar> \<le> 2 ^ 34" using p' Q unfolding abs_le_iff by auto
  then have q: "\<bar>rd P - P\<bar> \<le> ?e" by (rule rounded [OF assms(1)])
  have near: "\<bar>(R + rd P) - (?s + Q)\<bar> \<le> 1 / 2 ^ 12" using p' q s' unfolding abs_le_iff by auto
  then have "\<bar>R + rd P\<bar> \<le> 2 ^ 34" using Q b(1,2) unfolding abs_le_iff by auto
  then have t: "\<bar>timeval_seconds rd tv - (R + rd P)\<bar> \<le> ?e"
    unfolding timeval_seconds_def P_def R_def by (rule rounded [OF assms(1)])
  have m: "of_int (micros tv) / 10 ^ 6 = ?s + Q" by (simp add: micros_def Q_def add_divide_distrib)
  show ?thesis unfolding m using t near unfolding abs_le_iff by auto
qed

text \<open>The clock advances by the interval at least.\<close>

definition clock_advances :: "(int \<times> int) list \<Rightarrow> bool" where
  "clock_advances ts \<longleftrightarrow> (\<forall>tv \<in> set ts. clock_ok tv)
     \<and> (\<forall>k. Suc k < length ts \<longrightarrow> micros (ts ! k) + CIVICLIGHT_STATS_INTERVAL * 10 ^ 6 \<le> micros (ts ! Suc k))"

lemma clock_spacing:
  "clock_advances ts \<Longrightarrow> i + d < length ts \<Longrightarrow> micros (ts ! i) + int d * 10 ^ 7 \<le> micros (ts ! (i + d))"
proof (induction d)
  case (Suc d)
  then have "micros (ts ! (i + d)) + 10 ^ 7 \<le> micros (ts ! Suc (i + d))"
    by (simp add: clock_advances_def CIVICLIGHT_STATS_INTERVAL_def)
  then show ?case using Suc by simp
qed simp

lemma window_rate_history:
  assumes "rounds_closely rd" "ring_holds ring hist" "clock_advances (map sample_at hist @ [now])" "w \<le> 900"
  shows "window_rate rd ring now hashes w = history_rate rd hist now hashes w"
proof (cases "length hist \<le> 92")
  case True
  then show ?thesis by (simp add: window_rate_ring [OF assms(2)] history_rate_def Let_def)
next
  case False
  let ?old = "rev hist ! 91" and ?N = "timeval_seconds rd now"
  let ?cutoff = "rd (?N - of_nat w)"
  have len: "91 < length (rev hist)" using False by simp
  have mem: "?old \<in> set hist" using nth_mem [OF len] by simp
  have ok: "clock_ok (sample_at ?old)" "clock_ok now" using assms(3) mem by (auto simp: clock_advances_def)
  have old: "?old = hist ! (length hist - 92)" using len by (simp add: rev_nth)
  have i: "length hist - 92 < length hist" "length hist - 92 + 92 = length hist" using False by linarith+
  have "micros (sample_at ?old) + 920 * 10 ^ 6 \<le> micros now"
    using clock_spacing [OF assms(3), of "length hist - 92" 92] i unfolding old by (simp add: nth_append)
  then have "of_int (micros (sample_at ?old) + 920 * 10 ^ 6) \<le> (of_int (micros now) :: rat)" by (simp only: of_int_le_iff)
  then have gap: "of_int (micros (sample_at ?old)) / 10 ^ 6 + 920 \<le> (of_int (micros now) / 10 ^ 6 :: rat)" by simp
  have t: "timeval_seconds rd (sample_at ?old) \<le> of_int (micros (sample_at ?old)) / 10 ^ 6 + 1 / 8"
    "of_int (micros now) / 10 ^ 6 \<le> ?N + 1 / 8" "?N \<le> of_int (micros now) / 10 ^ 6 + 1 / 8"
    using timeval_seconds_close [OF assms(1) ok(1)] timeval_seconds_close [OF assms(1) ok(2)] unfolding abs_le_iff by linarith+
  have "micros now \<le> 2 ^ 33 * 10 ^ 6" "0 \<le> micros now" using ok(2) by (simp_all add: clock_ok_def micros_def)
  then have "of_int 0 \<le> (of_int (micros now) :: rat)" "of_int (micros now) \<le> (of_int (2 ^ 33 * 10 ^ 6) :: rat)"
    by (simp_all only: of_int_le_iff)
  then have N: "0 \<le> of_int (micros now) / (10 ^ 6 :: rat)" "of_int (micros now) / 10 ^ 6 \<le> (2 ^ 33 :: rat)" by simp_all
  have w: "0 \<le> (of_nat w :: rat)" "of_nat w \<le> (900 :: rat)" using assms(4) by simp_all
  have "\<bar>?N - of_nat w\<bar> \<le> 2 ^ 34" using t(2,3) N w unfolding abs_le_iff by auto
  then have "\<bar>?cutoff - (?N - of_nat w)\<bar> \<le> 1 / 2 ^ 15" by (rule rounded [OF assms(1)])
  then have c: "?N - of_nat w - 1 / 2 ^ 15 \<le> ?cutoff" unfolding abs_le_iff by linarith
  have "\<not> ?cutoff \<le> timeval_seconds rd (sample_at ?old)" using gap t(1,2) c w by simp
  then have "takeWhile (\<lambda>x. ?cutoff \<le> timeval_seconds rd (sample_at x)) (take 92 (rev hist))
      = takeWhile (\<lambda>x. ?cutoff \<le> timeval_seconds rd (sample_at x)) (rev hist)"
    by (intro takeWhile_take [OF len]) simp_all
  then show ?thesis by (simp add: window_rate_ring [OF assms(2)] history_rate_def oldest_of_def Let_def)
qed

section \<open>Properties\<close>

definition input_sample :: "(rat \<Rightarrow> rat) \<Rightarrow> stats_input \<Rightarrow> rate_sample" where
  "input_sample rd inp = \<lparr>sample_at = in_now inp, sample_hashes = rd (of_nat (unat (in_hashes inp)))\<rparr>"

text \<open>The rates a report would have if no sample were ever dropped.\<close>

definition reports_history :: "(rat \<Rightarrow> rat) \<Rightarrow> (nat \<Rightarrow> rat \<Rightarrow> cstring) \<Rightarrow> rate_sample list \<Rightarrow> rate_sample \<Rightarrow> stats_report \<Rightarrow> bool" where
  "reports_history rd fmt_f hist new report \<longleftrightarrow>
     (let rate = \<lambda>w. format_rate rd fmt_f (history_rate rd hist (sample_at new) (sample_hashes new) w) 32
      in one_minute report = rate 60 \<and> five_minutes report = rate 300 \<and> fifteen_minutes report = rate 900)"

lemma stats_round_history:
  assumes "rounds_closely rd" "ring_holds (st_ring st) hist" "clock_advances (map sample_at hist @ [in_now inp])"
    and "stats_round rd fmt_f inp st = (report, st')"
  shows "ring_holds (st_ring st') (hist @ [input_sample rd inp]) \<and> reports_history rd fmt_f hist (input_sample rd inp) report"
proof -
  have "st_ring st' = add_sample (input_sample rd inp) (st_ring st)"
    and r: "one_minute report = format_rate rd fmt_f (window_rate rd (st_ring st) (in_now inp) (rd (of_nat (unat (in_hashes inp)))) 60) 32"
      "five_minutes report = format_rate rd fmt_f (window_rate rd (st_ring st) (in_now inp) (rd (of_nat (unat (in_hashes inp)))) 300) 32"
      "fifteen_minutes report = format_rate rd fmt_f (window_rate rd (st_ring st) (in_now inp) (rd (of_nat (unat (in_hashes inp)))) 900) 32"
    using assms(4) by (auto simp: stats_round_def Let_def input_sample_def split: prod.splits)
  then show ?thesis
    using add_sample_holds [OF assms(2)] window_rate_history [OF assms(1-3)]
    by (simp add: reports_history_def input_sample_def Let_def)
qed

lemma clock_advances_take: "clock_advances (xs @ ys) \<Longrightarrow> clock_advances xs"
  unfolding clock_advances_def by (auto simp: nth_append split: if_splits)

lemma stats_rounds_history:
  assumes "rounds_closely rd"
  shows "stats_rounds rd fmt_f inps st = (reports, st') \<Longrightarrow> ring_holds (st_ring st) hist \<Longrightarrow>
    clock_advances (map sample_at (hist @ map (input_sample rd) inps)) \<Longrightarrow> k < length inps \<Longrightarrow>
    k < length reports \<and> reports_history rd fmt_f (hist @ map (input_sample rd) (take k inps)) (input_sample rd (inps ! k)) (reports ! k)"
proof (induction inps arbitrary: st reports hist k)
  case (Cons inp inps)
  obtain r st1 rs where r: "stats_round rd fmt_f inp st = (r, st1)" "stats_rounds rd fmt_f inps st1 = (rs, st')" "reports = r # rs"
    using Cons.prems(1) by (auto split: prod.splits)
  have "clock_advances ((map sample_at hist @ [in_now inp]) @ map sample_at (map (input_sample rd) inps))"
    using Cons.prems(3) by (simp add: input_sample_def comp_def)
  then have "clock_advances (map sample_at hist @ [in_now inp])" by (rule clock_advances_take)
  from stats_round_history [OF assms Cons.prems(2) this r(1)]
  have h: "ring_holds (st_ring st1) (hist @ [input_sample rd inp])" "reports_history rd fmt_f hist (input_sample rd inp) r" by auto
  show ?case
  proof (cases k)
    case 0
    then show ?thesis using h(2) r(3) by simp
  next
    case (Suc j)
    then show ?thesis using Cons.IH [OF r(2) h(1), of j] Cons.prems(3,4) r(3) by simp
  qed
qed simp

text \<open>C18: the ring of 92 samples is as good as all samples: as long as the clock advances by ten seconds between
  two reports, every report shows the rates of the last one, five and fifteen minutes that
  the whole history since the start would give, with the sums and quotients rounded as doubles.\<close>

theorem reported_rates_exact:
  assumes "rounds_closely rd" "stats_rounds rd fmt_f inps (stats_begin rd started counter ring_zero) = (reports, st')"
  defines "hist \<equiv> \<lparr>sample_at = started, sample_hashes = rd (of_nat (unat counter))\<rparr> # map (input_sample rd) inps"
  assumes "clock_advances (map sample_at hist)" "k < length inps"
  shows "k < length reports \<and> reports_history rd fmt_f (take (Suc k) hist) (hist ! Suc k) (reports ! k)"
proof -
  have "ring_holds (st_ring (stats_begin rd started counter ring_zero)) [\<lparr>sample_at = started, sample_hashes = rd (of_nat (unat counter))\<rparr>]"
    by (simp add: stats_begin_def Let_def first_sample_holds)
  from stats_rounds_history [OF assms(1,2) this] show ?thesis
    using assms(4,5) by (simp add: hist_def take_map)
qed

definition first_inputs :: "stats_input list" where
  "first_inputs = [\<lparr>in_now = (10, 0), in_hashes = 500, in_accepted = 0, in_rejected = 0, in_meminfo = []\<rparr>,
     \<lparr>in_now = (100, 0), in_hashes = 1000, in_accepted = 1, in_rejected = 0, in_meminfo = []\<rparr>]"

text \<open>Printing without decimals.\<close>

definition fmt_int :: "nat \<Rightarrow> rat \<Rightarrow> cstring" where
  "fmt_int p v = fmt_d \<lfloor>v\<rfloor>"

theorem reported_rates_exact_witness:
  "one_minute (fst (stats_rounds (\<lambda>x. x) fmt_int first_inputs (stats_begin (\<lambda>x. x) (0, 0) 0 ring_zero)) ! 1) = cstr ''0 H/s''
    \<and> fifteen_minutes (fst (stats_rounds (\<lambda>x. x) fmt_int first_inputs (stats_begin (\<lambda>x. x) (0, 0) 0 ring_zero)) ! 1) = cstr ''10 H/s''"
proof -
  have rd: "rounds_closely (\<lambda>x. x)" by (simp add: rounds_closely_def)
  obtain reports st' where run: "stats_rounds (\<lambda>x. x) fmt_int first_inputs (stats_begin (\<lambda>x. x) (0, 0) 0 ring_zero) = (reports, st')"
    by (cases "stats_rounds (\<lambda>x. x) fmt_int first_inputs (stats_begin (\<lambda>x. x) (0, 0) 0 ring_zero)")
  let ?h = "[\<lparr>sample_at = (0, 0), sample_hashes = 0\<rparr>, \<lparr>sample_at = (10, 0), sample_hashes = 500\<rparr>, \<lparr>sample_at = (100, 0), sample_hashes = 1000\<rparr>]"
  have h: "\<lparr>sample_at = (0, 0), sample_hashes = of_nat (unat (0 :: u64))\<rparr> # map (input_sample (\<lambda>x. x)) first_inputs = ?h"
    by (simp add: first_inputs_def input_sample_def)
  have adv: "clock_advances (map sample_at ?h)"
    by (auto simp: clock_advances_def clock_ok_def micros_def CIVICLIGHT_STATS_INTERVAL_def less_Suc_eq)
  have d: "dec_digits 0 = [48]" "dec_digits 1 = [49]" by (subst dec_digits.simps, simp)+
  have d10: "dec_digits 10 = [49, 48]" by (subst dec_digits.simps) (simp add: d(2) [simplified])
  have "reports_history (\<lambda>x. x) fmt_int (take (Suc 1) ?h) (?h ! Suc 1) (reports ! 1)"
    using reported_rates_exact [OF rd run, of 1] adv unfolding h by (simp add: first_inputs_def)
  moreover have "history_rate (\<lambda>x. x) (take (Suc 1) ?h) (100, 0) 1000 60 = 0" "history_rate (\<lambda>x. x) (take (Suc 1) ?h) (100, 0) 1000 900 = 10"
    by (simp_all add: history_rate_def oldest_of_def rate_since_def timeval_seconds_def)
  moreover have "sample_at (?h ! Suc 1) = (100, 0)" "sample_hashes (?h ! Suc 1) = 1000" by simp_all
  moreover have "format_rate (\<lambda>x. x) fmt_int 0 32 = cstr ''0 H/s''" "format_rate (\<lambda>x. x) fmt_int 10 32 = cstr ''10 H/s''"
    by (simp_all add: format_rate_def format_scaled_def fmt_int_def snprintf_def cstr_def fmt_d_def CH_def d(1) d10)
  ultimately show ?thesis unfolding run by (simp add: reports_history_def Let_def)
qed

end
