(* ===== verification/Spec2Isabelle.thy ===== *)
theory Spec2Isabelle
  imports Soj_Target Soj_Pool Soj_Oneway Soj_Yp2Variants Soj_Start Soj_Stats
begin

text \<open>A verification library for soj, a CPU miner for the CivicLight proof of work that talks to a
  mining pool over the stratum protocol.

  \<^bold>\<open>The program.\<close>  The stratum thread (\<open>soj.c\<close>, \<open>stratum_thread\<close>) connects to
  the pool, receives its lines and has them handled (\<open>soj_stratum_transport.c\<close>,
  \<open>soj_stratum_methods.c\<close>).  A notification gives a job; \<open>stratum_gen_work\<close> turns the job
  into the shared work \<open>g_work\<close>, with a block header whose merkle root commits to a fresh
  extranonce.  Each mining thread (\<open>main_entry_thread\<close>) copies the shared work
  (\<open>soj_work.c\<close>), takes its own range of nonces and scans it (\<open>civiclight.c\<close>): it hashes
  headers and compares them with the target (\<open>soj_protocol.c\<close>, \<open>util.c\<close>).  A share goes
  through a queue (\<open>soj_queue.c\<close>) to the workio thread, which sends it unless the session it
  belongs to is gone; the pool's answers are counted by the stratum thread.

  \<^bold>\<open>The theories\<close>, in the order in which they build on each other:
  \<^item> \<open>Soj_Prelude\<close>: lists as byte strings, segments and updates of them, words.
  \<^item> \<open>Soj_Endian\<close>: \<open>util.h\<close> and \<open>sysendian.h\<close>.  The locale of a codec, interpreted
    for every pair of encoder and decoder; the swaps.
  \<^item> \<open>Soj_Hex\<close>: \<open>bin2hex\<close> and \<open>hex2bin\<close> of \<open>util.c\<close>.  The loop that reads eight
    digits at a time is proved equal to the digit-by-digit reading on ASCII, and proved wrong beyond it.
  \<^item> \<open>Soj_Target\<close>: \<open>valid_hash\<close> and the conversions between hashes, targets, difficulties and
    compact bits.
  \<^item> \<open>Soj_Queue\<close>: \<open>elist.h\<close> and \<open>soj_queue.c\<close> on an explicit store; the locale
    \<open>fifo_queue\<close> is their contract, interpreted on the code's functions.
  \<^item> \<open>Soj_Sha256\<close>, \<open>Soj_Pbkdf2\<close>: \<open>yespower_sha256.c\<close>.  The unrolled compression, the
    streaming interface, HMAC and both paths of PBKDF2, each equal to the function of its standard.
  \<^item> \<open>Soj_ShaNi\<close>, \<open>Soj_Sha256d\<close>: \<open>sha256-hash.c\<close> and \<open>sha256d.c\<close>.  The
    SHA instructions by their documented meaning; the compression of one and of two blocks, the
    streaming contexts and the double hash, equal to the standard.
  \<^item> \<open>Soj_Pow\<close>: the scanner with the yespower functions of the repository in place of the function
    pointers, and what it does when they fail.
  \<^item> \<open>Soj_Options\<close>: \<open>soj_cli.c\<close>, the table of options of \<open>soj.h\<close> and the settings of \<open>soj.c\<close>:
    \<open>parse_arg\<close> with the surgery on the pool URL, the configuration file and the command line.
  \<^item> \<open>Soj_Libc\<close>: what the code uses of the C library on strings: searching, reading and printing numbers.
  \<^item> \<open>Soj_Start\<close>: \<open>soj_bootstrap.c\<close> and \<open>soj_main\<close> up to the wait for the workio thread: release constants,
    options, restrictions, checks, processors and threads.  A locked release mines for its owner, the
    threads are set up as the other components expect, and they are spread over the allowed processors.
  \<^item> \<open>Soj_Stats\<close>: \<open>civiclight_stats.c\<close>.  The ring of samples gives the rates that the whole history
    would give.
  \<^item> \<open>Soj_Gate\<close>: \<open>algo-gate-api.c\<close>, the table of functions of an algorithm and how CivicLight
    registers in it.
  \<^item> \<open>Soj_Salsa\<close>, \<open>Soj_Pwx\<close>, \<open>Soj_Blockmix\<close>: the steps of yespower in \<open>yespower-opt.c\<close>.
    Salsa20 in vectors against the plain loop, PWXFORM in all its builds, the three block mixers against one
    chain of steps; every access to the S-boxes is within them.
  \<^item> \<open>Soj_Smix\<close>, \<open>Soj_SmixSpec\<close>: \<open>smix1\<close>, \<open>smix2\<close>, \<open>smix\<close> on their working memory,
    and the proof that they compute SMix as it is specified, one state at a time.
  \<^item> \<open>Soj_Region\<close>, \<open>Soj_Yespower\<close>: the memory region of \<open>yespower-platform.c\<close>, and
    \<open>civic_yespower\<close>: parameter checks, reuse of the region, both versions of the hash.
  \<^item> \<open>Soj_Lane\<close>: a lane of the kernels that mix several hashes at once, and \<open>lane_loop\<close>, which
    says when a loop takes one of its lanes through the chain of the one-lane mixers; the kernels of
    \<open>CIVIC_ONEWAY\<close>.
  \<^item> \<open>Soj_Yp2Kernels\<close>, \<open>Soj_Yp2Salsa\<close>, \<open>Soj_Yp2Fill\<close>, \<open>Soj_Yp2Smix\<close>, \<open>Soj_Yp2\<close>: two hashes in
    step, from the kernels to \<open>civic_yespower2_tls\<close>.  The locale \<open>two_lane_kernel\<close> is the contract
    between the table-filling loop and its kernels, \<open>two_lane_smix\<close>, which extends it, the one between SMix and the
    kernels of a build.  Each lane ends with what one hash gives.
  \<^item> \<open>Soj_Yp2Variants\<close>: the register-promoted kernels, two more interpretations of \<open>two_lane_smix\<close>, and the
    kernels for four lanes, one of which is proved to leave out its input.
  \<^item> \<open>Soj_Yp1\<close>, \<open>Soj_Oneway\<close>: the build with \<open>CIVIC_ONEWAY\<close>.  Its SMix is one lane of the two-lane one, its
    S-boxes are filled by two lanes on the same memory, and its scanner finds what the default one finds.
  \<^item> \<open>Soj_Civiclight\<close>: \<open>civiclight.c\<close>.  Hashing one or two nonces with the midstate is hashing
    the header; the scanner hashes every nonce of its range once and submits just the valid ones.
  \<^item> \<open>Soj_Work\<close>: \<open>soj_work.c\<close>, \<open>soj_protocol.c\<close> and the header builders.  Work on an explicit
    heap, nonce ranges, the merkle root, the submit request.
  \<^item> \<open>Soj_Miner\<close>: \<open>stratum_gen_work\<close> and the part of a mining thread between two pieces of work:
    what the generated work holds, distinct extranonces, disjoint nonces.
  \<^item> \<open>Soj_Session\<close>, \<open>Soj_Methods\<close>: the session record, the jansson accessors the code calls,
    and every request of the pool with the dispatch.
  \<^item> \<open>Soj_Transport\<close>: the connection.  Lines are cut from what arrives, failures counted, sessions
    opened and reopened; the locale \<open>session_step\<close> holds the contract of a step that is
    retried, interpreted on connecting, subscribing and authorizing.
  \<^item> \<open>Soj_Pool\<close>: the stratum thread's loop, the workio thread, shares, answers and backoff,
    composed of the theories above.

  \<^bold>\<open>Correspondence.\<close>  A definition has the name of its function where the name is free.
  Records have the fields of the structs that the modelled code uses, with a prefix per record.  Machine words keep
  their width.  Blocks of memory that are shared or freed are on a store (\<open>block_heap\<close> for work,
  \<open>heap\<close> for queues); buffers with one owner are values.  Reading outside a block, freeing twice, or
  reading through a null pointer is \<open>None\<close>; the results of calls that fail in the code are
  ordinary values.  Doubles and long doubles are rationals, with the rounding of each operation as a parameter.  Locks make
  the parts under them atomic, so such a part is one function on the state.  What other threads, the
  network, the clock and \<open>libcurl\<close> do is a script: a list of events that the calls take one by one.  A script that
  does not fit is \<open>None\<close>; theorems that say that a call returns give the script for which it does.

  \<^bold>\<open>Parameters.\<close>  The yespower functions in the theorems about the scanner (\<open>yespower_impl\<close>, which
  \<open>Soj_Pow\<close> fills in), the mapping calls of the operating system, what memory from it and the stack hold, JSON reading and printing
  (\<open>loads\<close>, \<open>dumps\<close>), the reading of a configuration file, the printing of doubles, what \<open>getopt_long\<close>
  finds on the command line, what the system answers at the start (\<open>host\<close>), the rounding of doubles, the content of fresh memory, allocation results.

  \<^bold>\<open>Fuel.\<close>  The scanner takes as fuel the number of rounds it may run; the theorems about it
  give the number that is enough (half the nonces of the range).  \<open>free_walk\<close> needs one more
  than the length of the list.  \<open>connect_loop\<close> may run as long as the pool is down: its fuel is
  the number of attempts.  All other loops are structural or have a measure.

  \<^bold>\<open>What is shown.\<close>  Equivalences: the optimised routines (eight digits at a time, SHA
  instructions, vectors, two hashes in step, two nonces at a time, midstate, compact PBKDF2) against plain or standard definitions.
  Refinements: the queue is a list, the received stream is its lines, the merkle root and the
  hashes are those of the standards.  Invariants: memory of works, jobs, sizes of buffers, counters.  Safety across
  components: threads of one job hash disjoint nonces, and shares of a lost session are not sent.
  Errors: theorems that exhibit a concrete misbehaviour of the code, each with a witness.

  \<^bold>\<open>Not modelled.\<close>  Of \<open>yespower-opt.c\<close> the benchmark drivers and their cut-down kernels, SMix on four lanes,
  which has no caller, and the fused regions, which are compiled out; the generic scanners of
  \<open>algo-gate-api.c\<close>, logging, signal handlers, thread priorities, CPU detection, the HTTP and getblocktemplate code that the stratum-only program no longer calls, and vendored code
  (jansson's parser, getopt, pthreads, sphlib, wrappers of compiler intrinsics).\<close>

end
